(* ===== verification/Prelude.thy ===== *)
theory Prelude
  imports Main "HOL-Library.Word"
begin

text \<open>
  Shared ground of the development: the types every component uses (bytes, instants of
  time, what a Go call returns), the two loop schemes of the request handlers, and the
  generic lemmas about them.

  A Go function that returns \<^verbatim>\<open>(*T, error)\<close> is a value of \<open>'a fetch\<close>: \<open>Ret x\<close> for
  \<^verbatim>\<open>(x, nil)\<close>, \<open>RetErr p e\<close> for \<^verbatim>\<open>(p, e)\<close>, where \<open>p\<close> is the pointer that came back beside
  the error (usually nil, but not always: a caller that drops the error sees it).
  A state-changing call takes the state and returns it updated, beside an optional error.
\<close>

section \<open>Types\<close>

type_synonym bytes = "8 word list"

text \<open>Instants are nanoseconds since the epoch; \<open>Before\<close>, \<open>After\<close> and \<open>Add\<close> are \<open><\<close>, \<open>>\<close>, \<open>+\<close>.\<close>

type_synonym gotime = int

type_synonym ('w, 'e) action = "'w \<Rightarrow> 'e option \<times> 'w"

datatype ('e, 'a) fetch = Ret 'a | RetErr "'a option" 'e

text \<open>The pointer a \<^verbatim>\<open>(*T, error)\<close> call returned, whatever the error: what \<^verbatim>\<open>x, _ := f()\<close> binds.\<close>

fun fetch_ptr :: "('e, 'a) fetch \<Rightarrow> 'a option" where
  "fetch_ptr (Ret x) = Some x"
| "fetch_ptr (RetErr p e) = p"

definition bytes_of_string :: "string \<Rightarrow> bytes" where
  "bytes_of_string s = map of_char s"

section \<open>Collections of rules\<close>

named_theorems handler_defs \<open>the definitions of request handlers\<close>
named_theorems repo_defs \<open>the definitions of the database-backed stores\<close>
named_theorems go_simps \<open>evaluation rules for the Go library functions\<close>

section \<open>Loops of the request handlers\<close>

text \<open>
  Every handler that serves a repeated field has the shape
  \<^verbatim>\<open>for _, x := range xs { ...; if bad { return nil, err }; ys = append(ys, y) }\<close>.
  The first bad element ends the request with its error; what earlier elements did to the
  state stays done. \<open>for_each\<close> is that loop over a body that may change the state (it gets
  the index of the iteration, from which fresh identifiers and times are drawn),
  \<open>collect\<close> the same loop over a body that only reads.
\<close>

fun for_each ::
  "(nat \<Rightarrow> 'x \<Rightarrow> 'w \<Rightarrow> ('e + 'y) \<times> 'w) \<Rightarrow> nat \<Rightarrow> 'x list \<Rightarrow> 'y list \<Rightarrow> 'w \<Rightarrow> ('e + 'y list) \<times> 'w"
where
  "for_each body i [] ys w = (Inr ys, w)"
| "for_each body i (x # xs) ys w =
     (case body i x w of
        (Inl e, w') \<Rightarrow> (Inl e, w')
      | (Inr y, w') \<Rightarrow> for_each body (Suc i) xs (ys @ [y]) w')"

fun collect :: "('x \<Rightarrow> 'e + 'y) \<Rightarrow> 'x list \<Rightarrow> 'y list \<Rightarrow> 'e + 'y list" where
  "collect body [] ys = Inr ys"
| "collect body (x # xs) ys =
     (case body x of Inl e \<Rightarrow> Inl e | Inr y \<Rightarrow> collect body xs (ys @ [y]))"

lemma for_each_preserves:
  assumes "for_each body i xs ys w = (r, w')" and "I w"
    and "\<And>j x v r' v'. x \<in> set xs \<Longrightarrow> I v \<Longrightarrow> body j x v = (r', v') \<Longrightarrow> I v'"
  shows "I w'"
  using assms
proof (induction xs arbitrary: i ys w)
  case Nil
  then show ?case by simp
next
  case (Cons x xs)
  obtain r1 w1 where b: "body i x w = (r1, w1)" by fastforce
  with Cons.prems(2,3) have w1: "I w1" by (meson list.set_intros(1))
  show ?case
  proof (cases r1)
    case (Inl e)
    with b w1 Cons.prems(1) show ?thesis by simp
  next
    case (Inr y)
    with b Cons.prems(1) have "for_each body (Suc i) xs (ys @ [y]) w1 = (r, w')" by simp
    then show ?thesis using w1 Cons.prems(3) by (rule Cons.IH) auto
  qed
qed

lemma for_each_single [simp]:
  "for_each body i [x] ys w =
     (case body i x w of (Inl e, w') \<Rightarrow> (Inl e, w') | (Inr y, w') \<Rightarrow> (Inr (ys @ [y]), w'))"
  by (simp split: prod.splits sum.splits)

lemma collect_Inr_iff:
  "collect body xs ys = Inr zs \<longleftrightarrow>
     (\<exists>rs. zs = ys @ rs \<and> list_all2 (\<lambda>x r. body x = Inr r) xs rs)"
proof (induction xs arbitrary: ys)
  case Nil
  then show ?case by auto
next
  case (Cons x xs)
  then show ?case by (cases "body x") (auto simp: list_all2_Cons1)
qed

lemma collect_Inl_iff:
  "collect body xs ys = Inl e \<longleftrightarrow>
     (\<exists>as x bs. xs = as @ x # bs \<and> body x = Inl e \<and> (\<forall>a\<in>set as. \<exists>r. body a = Inr r))"
proof (induction xs arbitrary: ys)
  case Nil
  then show ?case by simp
next
  case (Cons x xs)
  show ?case
  proof (cases "body x")
    case (Inl e')
    then show ?thesis
      by (auto intro: exI [of _ "[]"] simp: Cons_eq_append_conv)
  next
    case (Inr y)
    then have "collect body (x # xs) ys = collect body xs (ys @ [y])" by simp
    also have "collect body xs (ys @ [y]) = Inl e \<longleftrightarrow>
        (\<exists>as z bs. xs = as @ z # bs \<and> body z = Inl e \<and> (\<forall>a\<in>set as. \<exists>r. body a = Inr r))"
      by (rule Cons.IH)
    also have "\<dots> \<longleftrightarrow>
        (\<exists>as z bs. x # xs = as @ z # bs \<and> body z = Inl e \<and> (\<forall>a\<in>set as. \<exists>r. body a = Inr r))"
      (is "?L \<longleftrightarrow> ?R")
    proof
      assume ?L
      then obtain as z bs where "xs = as @ z # bs" "body z = Inl e" "\<forall>a\<in>set as. \<exists>r. body a = Inr r"
        by blast
      then show ?R using Inr by (intro exI [of _ "x # as"]) auto
    next
      assume ?R
      then obtain as z bs where *: "x # xs = as @ z # bs" "body z = Inl e"
          "\<forall>a\<in>set as. \<exists>r. body a = Inr r"
        by blast
      with Inr obtain as' where "as = x # as'" by (cases as) auto
      with * have "xs = as' @ z # bs" "\<forall>a\<in>set as'. \<exists>r. body a = Inr r" by simp_all
      with *(2) show ?L by blast
    qed
    finally show ?thesis .
  qed
qed

lemma list_all2_elem:
  assumes "list_all2 P xs ys"
  shows "y \<in> set ys \<Longrightarrow> \<exists>x\<in>set xs. P x y" and "x \<in> set xs \<Longrightarrow> \<exists>y\<in>set ys. P x y"
  using assms by (induction rule: list_all2_induct) auto

lemma collect_succeeds: "(\<exists>rs. collect body xs ys = Inr rs) \<longleftrightarrow> (\<forall>x\<in>set xs. \<exists>r. body x = Inr r)"
  by (induction xs arbitrary: ys) (auto split: sum.splits)

lemma collect_elem: "collect body xs [] = Inr ys \<Longrightarrow> y \<in> set ys \<Longrightarrow> \<exists>x\<in>set xs. body x = Inr y"
  using list_all2_elem(1) by (fastforce simp: collect_Inr_iff)

end
