(* ===== verification/Model.thy ===== *)
theory Model
  imports Prelude
begin

text \<open>
  The data of \<^verbatim>\<open>internal/model/model.go\<close>: one record per struct, with the fields in the
  order of the source. The named string types (\<^verbatim>\<open>Visibility\<close>, \<^verbatim>\<open>OrgRole\<close>, \<^verbatim>\<open>OwnerType\<close>) stay
  strings, as in Go, where a value that came from the database or from a request need not
  be one of the declared constants.
\<close>

type_synonym Visibility = string
type_synonym OrgRole = string
type_synonym OwnerType = string

definition VisibilityPublic :: Visibility where "VisibilityPublic = ''public''"
definition VisibilityPrivate :: Visibility where "VisibilityPrivate = ''private''"

definition OrgRoleAdmin :: OrgRole where "OrgRoleAdmin = ''admin''"
definition OrgRoleMember :: OrgRole where "OrgRoleMember = ''member''"

definition OwnerTypeUser :: OwnerType where "OwnerTypeUser = ''user''"
definition OwnerTypeOrg :: OwnerType where "OwnerTypeOrg = ''org''"

record User =
  uID :: string
  uUsername :: string
  uPasswordHash :: string
  uCreatedAt :: gotime

record Org =
  oID :: string
  oName :: string
  oCreatedAt :: gotime

record OrgMember =
  omOrgID :: string
  omUserID :: string
  omRole :: OrgRole

record Module =
  mID :: string
  mOwnerName :: string
  mOwnerType :: OwnerType
  mName :: string
  mVisibility :: Visibility
  mCreatedAt :: gotime

record Commit =
  cID :: string
  cModuleID :: string
  cStorageKey :: string
  cManifest :: string
  cCreatedByUserID :: string
  cCreatedAt :: gotime

record Label =
  lID :: string
  lModuleID :: string
  lName :: string
  lCommitID :: string
  lCreatedAt :: gotime
  lUpdatedAt :: gotime

record Token =
  tID :: string
  tUserID :: string
  tHash :: string
  tNote :: string
  tExpiresAt :: "gotime option"
  tCreatedAt :: gotime

lemmas model_consts =
  VisibilityPublic_def VisibilityPrivate_def OrgRoleAdmin_def OrgRoleMember_def
  OwnerTypeUser_def OwnerTypeOrg_def

lemma model_consts_distinct [simp]:
  "VisibilityPrivate \<noteq> VisibilityPublic" "VisibilityPublic \<noteq> VisibilityPrivate"
  "OrgRoleAdmin \<noteq> OrgRoleMember" "OrgRoleMember \<noteq> OrgRoleAdmin"
  "OwnerTypeUser \<noteq> OwnerTypeOrg" "OwnerTypeOrg \<noteq> OwnerTypeUser"
  by (simp_all add: model_consts)

end
