(* ===== verification/Iface.thy ===== *)
theory Iface
  imports Model
begin

text \<open>
  The interfaces of \<^verbatim>\<open>internal/db/iface/iface.go\<close> as records of operations over an arbitrary
  world type \<open>'w\<close> (the database, the blob store and whatever else the server can see): a
  handler is given a \<open>Repos\<close> value and calls its methods, whichever backend is behind it.

  The contract of a backend is stated against an abstract registry, a record of sets: what
  each lookup may answer and what each write does to the sets. \<open>repos_reads\<close> is the reading half,
  \<open>repos_sound\<close> what a backend promises even when calls fail (a call that reports an error has
  changed nothing);
  \<open>repos_reads_total\<close> and \<open>repos_reliable\<close> add that calls do not fail for reasons of their own.
\<close>

section \<open>Errors and operations\<close>

datatype db_error = ErrNotFound | DBError string

record 'w UserRepo =
  Users_Create :: "User \<Rightarrow> ('w, db_error) action"
  Users_GetByUsername :: "string \<Rightarrow> 'w \<Rightarrow> (db_error, User) fetch"
  Users_GetByID :: "string \<Rightarrow> 'w \<Rightarrow> (db_error, User) fetch"
  Users_ListByOrg :: "string \<Rightarrow> 'w \<Rightarrow> db_error + User list"

record 'w OrgRepo =
  Orgs_Create :: "Org \<Rightarrow> ('w, db_error) action"
  Orgs_GetByName :: "string \<Rightarrow> 'w \<Rightarrow> (db_error, Org) fetch"
  Orgs_GetByID :: "string \<Rightarrow> 'w \<Rightarrow> (db_error, Org) fetch"
  Orgs_AddMember :: "string \<Rightarrow> string \<Rightarrow> OrgRole \<Rightarrow> ('w, db_error) action"
  Orgs_RemoveMember :: "string \<Rightarrow> string \<Rightarrow> ('w, db_error) action"
  Orgs_ListMembers :: "string \<Rightarrow> 'w \<Rightarrow> db_error + OrgMember list"
  Orgs_GetMember :: "string \<Rightarrow> string \<Rightarrow> 'w \<Rightarrow> (db_error, OrgMember) fetch"

record 'w ModuleRepo =
  Modules_Create :: "Module \<Rightarrow> ('w, db_error) action"
  Modules_Get :: "string \<Rightarrow> string \<Rightarrow> 'w \<Rightarrow> (db_error, Module) fetch"
  Modules_GetByID :: "string \<Rightarrow> 'w \<Rightarrow> (db_error, Module) fetch"
  Modules_List :: "string \<Rightarrow> 'w \<Rightarrow> db_error + Module list"
  Modules_ListPublic :: "string \<Rightarrow> int \<Rightarrow> 'w \<Rightarrow> db_error + Module list"
  Modules_SetVisibility :: "string \<Rightarrow> Visibility \<Rightarrow> ('w, db_error) action"
  Modules_Delete :: "string \<Rightarrow> ('w, db_error) action"

record 'w CommitRepo =
  Commits_Create :: "Commit \<Rightarrow> ('w, db_error) action"
  Commits_GetByID :: "string \<Rightarrow> string \<Rightarrow> 'w \<Rightarrow> (db_error, Commit) fetch"
  Commits_GetLatest :: "string \<Rightarrow> 'w \<Rightarrow> (db_error, Commit) fetch"
  Commits_ListByModule :: "string \<Rightarrow> 'w \<Rightarrow> db_error + Commit list"

record 'w LabelRepo =
  Labels_Upsert :: "Label \<Rightarrow> ('w, db_error) action"
  Labels_Get :: "string \<Rightarrow> string \<Rightarrow> 'w \<Rightarrow> (db_error, Label) fetch"
  Labels_List :: "string \<Rightarrow> 'w \<Rightarrow> db_error + Label list"

text \<open>\<^verbatim>\<open>DeleteExpired\<close> reads the clock itself; the instant it reads is its first argument here.\<close>

record 'w TokenRepo =
  Tokens_Create :: "Token \<Rightarrow> ('w, db_error) action"
  Tokens_GetByHash :: "string \<Rightarrow> 'w \<Rightarrow> (db_error, Token) fetch"
  Tokens_ListByUser :: "string \<Rightarrow> 'w \<Rightarrow> db_error + Token list"
  Tokens_Revoke :: "string \<Rightarrow> string \<Rightarrow> ('w, db_error) action"
  Tokens_DeleteExpired :: "gotime \<Rightarrow> ('w, db_error) action"
  Tokens_DeleteByUserAndNote :: "string \<Rightarrow> string \<Rightarrow> ('w, db_error) action"

record 'w Authorizer =
  CanReadModule :: "string \<Rightarrow> Module \<Rightarrow> 'w \<Rightarrow> bool"
  CanWriteModule :: "string \<Rightarrow> Module \<Rightarrow> 'w \<Rightarrow> bool"
  CanAdminModule :: "string \<Rightarrow> Module \<Rightarrow> 'w \<Rightarrow> bool"
  CanCreateModule :: "string \<Rightarrow> string \<Rightarrow> 'w \<Rightarrow> bool"
  CanManageOrgMembers :: "string \<Rightarrow> string \<Rightarrow> 'w \<Rightarrow> bool"

record 'w Repos =
  Users :: "'w UserRepo"
  Orgs :: "'w OrgRepo"
  Modules :: "'w ModuleRepo"
  Commits :: "'w CommitRepo"
  Labels :: "'w LabelRepo"
  Tokens :: "'w TokenRepo"
  Auth :: "'w Authorizer"

section \<open>The abstract registry\<close>

record Registry =
  rUsers :: "User set"
  rOrgs :: "Org set"
  rMembers :: "OrgMember set"
  rModules :: "Module set"
  rCommits :: "Commit set"
  rLabels :: "Label set"
  rTokens :: "Token set"

abbreviation member_key :: "OrgMember \<Rightarrow> string \<times> string" where
  "member_key m \<equiv> (omOrgID m, omUserID m)"
abbreviation module_key :: "Module \<Rightarrow> string \<times> string" where
  "module_key m \<equiv> (mOwnerName m, mName m)"
abbreviation commit_key :: "Commit \<Rightarrow> string \<times> string" where
  "commit_key c \<equiv> (cModuleID c, cID c)"
abbreviation label_key :: "Label \<Rightarrow> string \<times> string" where
  "label_key l \<equiv> (lModuleID l, lName l)"

text \<open>The keys the registry keeps unique.\<close>

definition registry_keys :: "Registry \<Rightarrow> bool" where
  "registry_keys r \<longleftrightarrow>
     inj_on uID (rUsers r) \<and> inj_on uUsername (rUsers r) \<and>
     inj_on oID (rOrgs r) \<and> inj_on oName (rOrgs r) \<and>
     inj_on member_key (rMembers r) \<and>
     inj_on mID (rModules r) \<and> inj_on module_key (rModules r) \<and>
     inj_on commit_key (rCommits r) \<and>
     inj_on lID (rLabels r) \<and> inj_on label_key (rLabels r) \<and>
     inj_on tID (rTokens r) \<and> inj_on tHash (rTokens r)"

section \<open>Lookups by key\<close>

locale keyed_read =
  fixes get :: "'k \<Rightarrow> 'w \<Rightarrow> (db_error, 'a) fetch"
    and elems :: "'w \<Rightarrow> 'a set"
    and key :: "'a \<Rightarrow> 'k"
  assumes get_Ret: "get k w = Ret a \<Longrightarrow> a \<in> elems w \<and> key a = k"
    and get_missing: "get k w = RetErr p ErrNotFound \<Longrightarrow> a \<in> elems w \<Longrightarrow> key a \<noteq> k"
begin

lemma get_unique: "get k w = Ret a \<Longrightarrow> inj_on key (elems w) \<Longrightarrow> b \<in> elems w \<Longrightarrow> key b = k \<Longrightarrow> a = b"
  using get_Ret by (auto dest: inj_onD)

end

locale keyed_read_total = keyed_read +
  assumes get_total: "get k w = RetErr p e \<Longrightarrow> e = ErrNotFound"
begin

lemma get_iff: "inj_on key (elems w) \<Longrightarrow> get k w = Ret a \<longleftrightarrow> a \<in> elems w \<and> key a = k"
proof (cases "get k w")
  case (Ret b)
  assume "inj_on key (elems w)"
  with Ret show ?thesis using get_Ret [OF Ret] get_unique [OF Ret] by auto
next
  case (RetErr p e)
  with get_total [OF RetErr] show ?thesis using get_missing by auto
qed

lemma get_error_iff: "(\<exists>p e. get k w = RetErr p e) \<longleftrightarrow> (\<forall>a\<in>elems w. key a \<noteq> k)"
proof (cases "get k w")
  case (Ret b)
  then show ?thesis using get_Ret [OF Ret] by auto
next
  case (RetErr p e)
  with get_total [OF RetErr] show ?thesis using get_missing by auto
qed

lemma get_found: "a \<in> elems w \<Longrightarrow> key a = k \<Longrightarrow> \<exists>b. get k w = Ret b \<and> b \<in> elems w \<and> key b = k"
  using get_error_iff [of k w] get_Ret [of k w] by (cases "get k w") auto

lemma get_not_found: "\<forall>a\<in>elems w. key a \<noteq> k \<Longrightarrow> \<exists>p. get k w = RetErr p ErrNotFound"
  using get_Ret [of k w] get_total [of k w] by (cases "get k w") auto

end

section \<open>The contract of a backend\<close>

text \<open>
  The abstract effect of each write, over the registry. A label upsert keeps one label per
  module and name: the stored one carries the commit and the update time that were given;
  whether it keeps the identifier and the creation time of the label it replaces is left to the
  backend.
\<close>

definition upsert_label :: "Label \<Rightarrow> Label set \<Rightarrow> Label set \<Rightarrow> bool" where
  "upsert_label l L L' \<longleftrightarrow>
     (\<exists>l'. label_key l' = label_key l \<and> lCommitID l' = lCommitID l \<and> lUpdatedAt l' = lUpdatedAt l \<and>
        (lID l' = lID l \<or> (\<exists>x\<in>L. label_key x = label_key l \<and> lID l' = lID x)) \<and>
        L' = insert l' {x \<in> L. label_key x \<noteq> label_key l})"

definition set_visibility :: "string \<Rightarrow> Visibility \<Rightarrow> Module \<Rightarrow> Module" where
  "set_visibility i vis m = (if mID m = i then m\<lparr>mVisibility := vis\<rparr> else m)"

lemma set_visibility_keeps [simp]:
  "mID (set_visibility i vis m) = mID m" "mOwnerName (set_visibility i vis m) = mOwnerName m"
  "mName (set_visibility i vis m) = mName m" "mOwnerType (set_visibility i vis m) = mOwnerType m"
  by (simp_all add: set_visibility_def)

text \<open>A backend may store a module without a visibility as private, as the column default of the SQL table does.\<close>

definition with_default :: "Module \<Rightarrow> Module" where
  "with_default m = (if mVisibility m = [] then m\<lparr>mVisibility := VisibilityPrivate\<rparr> else m)"

lemma with_default_keeps [simp]:
  "mID (with_default m) = mID m" "mOwnerName (with_default m) = mOwnerName m" "mName (with_default m) = mName m"
  "mOwnerType (with_default m) = mOwnerType m" "mVisibility m \<noteq> [] \<Longrightarrow> with_default m = m"
  by (simp_all add: with_default_def)

lemma visibility_given [simp]: "VisibilityPublic \<noteq> []" "VisibilityPrivate \<noteq> []"
  by (simp_all add: model_consts)

definition expired_at :: "gotime \<Rightarrow> Token \<Rightarrow> bool" where
  "expired_at now t \<longleftrightarrow> (\<exists>e. tExpiresAt t = Some e \<and> e < now)"

locale repos_reads =
    user_by_name: keyed_read "Users_GetByUsername (Users R)" "\<lambda>w. rUsers (abs w)" uUsername +
    user_by_id: keyed_read "Users_GetByID (Users R)" "\<lambda>w. rUsers (abs w)" uID +
    org_by_name: keyed_read "Orgs_GetByName (Orgs R)" "\<lambda>w. rOrgs (abs w)" oName +
    org_by_id: keyed_read "Orgs_GetByID (Orgs R)" "\<lambda>w. rOrgs (abs w)" oID +
    member_by_key: keyed_read "\<lambda>(org, u). Orgs_GetMember (Orgs R) org u" "\<lambda>w. rMembers (abs w)" member_key +
    mod_by_name: keyed_read "\<lambda>(own, n). Modules_Get (Modules R) own n" "\<lambda>w. rModules (abs w)" module_key +
    mod_by_id: keyed_read "Modules_GetByID (Modules R)" "\<lambda>w. rModules (abs w)" mID +
    commit_by_id: keyed_read "\<lambda>(m, c). Commits_GetByID (Commits R) m c" "\<lambda>w. rCommits (abs w)" commit_key +
    label_by_name: keyed_read "\<lambda>(m, n). Labels_Get (Labels R) m n" "\<lambda>w. rLabels (abs w)" label_key +
    token_by_hash: keyed_read "Tokens_GetByHash (Tokens R)" "\<lambda>w. rTokens (abs w)" tHash
  for R :: "'w Repos" and abs :: "'w \<Rightarrow> Registry" +
  assumes modules_list:
      "Modules_List (Modules R) own w = Inr ms \<Longrightarrow> set ms = {m \<in> rModules (abs w). mOwnerName m = own}"
    and modules_list_public:
      "Modules_ListPublic (Modules R) q lim w = Inr ms \<Longrightarrow>
         set ms \<subseteq> {m \<in> rModules (abs w). mVisibility m = VisibilityPublic}"
    and commits_list:
      "Commits_ListByModule (Commits R) i w = Inr cs \<Longrightarrow>
         set cs = {c \<in> rCommits (abs w). cModuleID c = i} \<and>
         sorted_wrt (\<lambda>a b. cCreatedAt b \<le> cCreatedAt a) cs"
    and labels_list:
      "Labels_List (Labels R) i w = Inr ls \<Longrightarrow> set ls = {l \<in> rLabels (abs w). lModuleID l = i}"
    and tokens_list:
      "Tokens_ListByUser (Tokens R) u w = Inr ts \<Longrightarrow> set ts = {t \<in> rTokens (abs w). tUserID t = u}"

text \<open>With the writes: what a successful call does, and that a failed one has changed nothing.\<close>

locale repos_sound = repos_reads R abs
  for R :: "'w Repos" and abs :: "'w \<Rightarrow> Registry" +
  assumes users_create:
      "Users_Create (Users R) usr w = (None, w') \<Longrightarrow>
         (\<forall>v\<in>rUsers (abs w). uID v \<noteq> uID usr \<and> uUsername v \<noteq> uUsername usr) \<and>
         abs w' = (abs w)\<lparr>rUsers := insert usr (rUsers (abs w))\<rparr>"
    and users_create_err: "Users_Create (Users R) usr w = (Some e, w') \<Longrightarrow> abs w' = abs w"
    and orgs_create:
      "Orgs_Create (Orgs R) g w = (None, w') \<Longrightarrow>
         (\<forall>v\<in>rOrgs (abs w). oID v \<noteq> oID g \<and> oName v \<noteq> oName g) \<and>
         abs w' = (abs w)\<lparr>rOrgs := insert g (rOrgs (abs w))\<rparr>"
    and orgs_create_err: "Orgs_Create (Orgs R) g w = (Some e, w') \<Longrightarrow> abs w' = abs w"
    and orgs_add:
      "Orgs_AddMember (Orgs R) i u ro w = (None, w') \<Longrightarrow>
         (\<forall>v\<in>rMembers (abs w). member_key v \<noteq> (i, u)) \<and>
         abs w' = (abs w)\<lparr>rMembers :=
           insert \<lparr>omOrgID = i, omUserID = u, omRole = ro\<rparr> (rMembers (abs w))\<rparr>"
    and orgs_add_err: "Orgs_AddMember (Orgs R) i u ro w = (Some e, w') \<Longrightarrow> abs w' = abs w"
    and orgs_remove:
      "Orgs_RemoveMember (Orgs R) i u w = (None, w') \<Longrightarrow>
         abs w' = (abs w)\<lparr>rMembers := {v \<in> rMembers (abs w). member_key v \<noteq> (i, u)}\<rparr>"
    and orgs_remove_err: "Orgs_RemoveMember (Orgs R) i u w = (Some e, w') \<Longrightarrow> abs w' = abs w"
    and modules_create:
      "Modules_Create (Modules R) m w = (None, w') \<Longrightarrow>
         (\<forall>v\<in>rModules (abs w). mID v \<noteq> mID m \<and> module_key v \<noteq> module_key m) \<and>
         abs w' = (abs w)\<lparr>rModules := insert (with_default m) (rModules (abs w))\<rparr>"
    and modules_create_err: "Modules_Create (Modules R) m w = (Some e, w') \<Longrightarrow> abs w' = abs w"
    and modules_set_visibility:
      "Modules_SetVisibility (Modules R) i vis w = (None, w') \<Longrightarrow>
         abs w' = (abs w)\<lparr>rModules := set_visibility i vis ` rModules (abs w)\<rparr>"
    and modules_set_visibility_err:
      "Modules_SetVisibility (Modules R) i vis w = (Some e, w') \<Longrightarrow> abs w' = abs w"
    and modules_delete:
      "Modules_Delete (Modules R) i w = (None, w') \<Longrightarrow>
         abs w' = (abs w)\<lparr>rModules := {m \<in> rModules (abs w). mID m \<noteq> i}\<rparr>"
    and modules_delete_err: "Modules_Delete (Modules R) i w = (Some e, w') \<Longrightarrow> abs w' = abs w"
    and commits_create:
      "Commits_Create (Commits R) c w = (None, w') \<Longrightarrow>
         (\<forall>v\<in>rCommits (abs w). commit_key v \<noteq> commit_key c) \<and>
         abs w' = (abs w)\<lparr>rCommits := insert c (rCommits (abs w))\<rparr>"
    and commits_create_err: "Commits_Create (Commits R) c w = (Some e, w') \<Longrightarrow> abs w' = abs w"
    and labels_upsert:
      "Labels_Upsert (Labels R) l w = (None, w') \<Longrightarrow> inj_on label_key (rLabels (abs w)) \<Longrightarrow>
         upsert_label l (rLabels (abs w)) (rLabels (abs w')) \<and>
         abs w' = (abs w)\<lparr>rLabels := rLabels (abs w')\<rparr> \<and>
         (inj_on lID (rLabels (abs w)) \<longrightarrow> inj_on lID (rLabels (abs w')))"
    and labels_upsert_err: "Labels_Upsert (Labels R) l w = (Some e, w') \<Longrightarrow> abs w' = abs w"
    and tokens_create:
      "Tokens_Create (Tokens R) t w = (None, w') \<Longrightarrow>
         (\<forall>v\<in>rTokens (abs w). tID v \<noteq> tID t \<and> tHash v \<noteq> tHash t) \<and>
         abs w' = (abs w)\<lparr>rTokens := insert t (rTokens (abs w))\<rparr>"
    and tokens_create_err: "Tokens_Create (Tokens R) t w = (Some e, w') \<Longrightarrow> abs w' = abs w"
    and tokens_revoke:
      "Tokens_Revoke (Tokens R) i u w = (None, w') \<Longrightarrow>
         (\<exists>t\<in>rTokens (abs w). tID t = i \<and> tUserID t = u) \<and>
         abs w' = (abs w)\<lparr>rTokens := {t \<in> rTokens (abs w). \<not> (tID t = i \<and> tUserID t = u)}\<rparr>"
    and tokens_revoke_err: "Tokens_Revoke (Tokens R) i u w = (Some e, w') \<Longrightarrow> abs w' = abs w"
    and tokens_delete_note:
      "Tokens_DeleteByUserAndNote (Tokens R) u n w = (None, w') \<Longrightarrow>
         abs w' = (abs w)\<lparr>rTokens := {t \<in> rTokens (abs w). \<not> (tUserID t = u \<and> tNote t = n)}\<rparr>"
    and tokens_delete_note_err:
      "Tokens_DeleteByUserAndNote (Tokens R) u n w = (Some e, w') \<Longrightarrow> abs w' = abs w"
    and tokens_delete_expired:
      "Tokens_DeleteExpired (Tokens R) now w = (None, w') \<Longrightarrow>
         abs w' = (abs w)\<lparr>rTokens := {t \<in> rTokens (abs w). \<not> expired_at now t}\<rparr>"
    and tokens_delete_expired_err:
      "Tokens_DeleteExpired (Tokens R) now w = (Some e, w') \<Longrightarrow> abs w' = abs w"

text \<open>
  Reliable reads: a lookup fails only because nothing is there, and a list query answers. A
  reliable backend also lets a write through whose guard holds.
\<close>

locale repos_reads_total = repos_reads +
  assumes user_by_name_total: "Users_GetByUsername (Users R) k w = RetErr pu e \<Longrightarrow> e = ErrNotFound"
    and user_by_id_total: "Users_GetByID (Users R) k w = RetErr pu e \<Longrightarrow> e = ErrNotFound"
    and org_by_name_total: "Orgs_GetByName (Orgs R) k w = RetErr po e \<Longrightarrow> e = ErrNotFound"
    and org_by_id_total: "Orgs_GetByID (Orgs R) k w = RetErr po e \<Longrightarrow> e = ErrNotFound"
    and member_total: "Orgs_GetMember (Orgs R) k k' w = RetErr pmb e \<Longrightarrow> e = ErrNotFound"
    and mod_by_name_total: "Modules_Get (Modules R) k k' w = RetErr pmd e \<Longrightarrow> e = ErrNotFound"
    and mod_by_id_total: "Modules_GetByID (Modules R) k w = RetErr pmd e \<Longrightarrow> e = ErrNotFound"
    and commit_total: "Commits_GetByID (Commits R) k k' w = RetErr pc e \<Longrightarrow> e = ErrNotFound"
    and label_total: "Labels_Get (Labels R) k k' w = RetErr pl e \<Longrightarrow> e = ErrNotFound"
    and token_total: "Tokens_GetByHash (Tokens R) k w = RetErr pt e \<Longrightarrow> e = ErrNotFound"
    and modules_list_ok: "\<exists>ms. Modules_List (Modules R) k w = Inr ms"
    and modules_list_public_ok: "\<exists>ms. Modules_ListPublic (Modules R) k lim w = Inr ms"
    and commits_list_ok: "\<exists>cs. Commits_ListByModule (Commits R) k w = Inr cs"
    and labels_list_ok: "\<exists>ls. Labels_List (Labels R) k w = Inr ls"
    and tokens_list_ok: "\<exists>ts. Tokens_ListByUser (Tokens R) k w = Inr ts"

locale repos_reliable = repos_sound R abs + repos_reads_total R abs
  for R :: "'w Repos" and abs :: "'w \<Rightarrow> Registry" +
  assumes users_create_ok:
      "\<forall>v\<in>rUsers (abs w). uID v \<noteq> uID usr \<and> uUsername v \<noteq> uUsername usr \<Longrightarrow>
         \<exists>w'. Users_Create (Users R) usr w = (None, w')"
    and orgs_create_ok:
      "\<forall>v\<in>rOrgs (abs w). oID v \<noteq> oID g \<and> oName v \<noteq> oName g \<Longrightarrow>
         \<exists>w'. Orgs_Create (Orgs R) g w = (None, w')"
    and orgs_add_ok:
      "\<forall>v\<in>rMembers (abs w). member_key v \<noteq> (k, k') \<Longrightarrow>
         \<exists>w'. Orgs_AddMember (Orgs R) k k' ro w = (None, w')"
    and orgs_remove_ok: "\<exists>w'. Orgs_RemoveMember (Orgs R) k k' w = (None, w')"
    and modules_create_ok:
      "\<forall>v\<in>rModules (abs w). mID v \<noteq> mID md \<and> module_key v \<noteq> module_key md \<Longrightarrow>
         \<exists>w'. Modules_Create (Modules R) md w = (None, w')"
    and commits_create_ok:
      "\<forall>v\<in>rCommits (abs w). commit_key v \<noteq> commit_key c \<Longrightarrow>
         \<exists>w'. Commits_Create (Commits R) c w = (None, w')"
    and labels_upsert_ok:
      "\<forall>v\<in>rLabels (abs w). lID v \<noteq> lID l \<Longrightarrow> \<exists>w'. Labels_Upsert (Labels R) l w = (None, w')"
    and tokens_create_ok:
      "\<forall>v\<in>rTokens (abs w). tID v \<noteq> tID t \<and> tHash v \<noteq> tHash t \<Longrightarrow>
         \<exists>w'. Tokens_Create (Tokens R) t w = (None, w')"
    and tokens_delete_note_ok: "\<exists>w'. Tokens_DeleteByUserAndNote (Tokens R) k k' w = (None, w')"
    and tokens_revoke_ok:
      "\<exists>v\<in>rTokens (abs w). tID v = k \<and> tUserID v = k' \<Longrightarrow>
         \<exists>w'. Tokens_Revoke (Tokens R) k k' w = (None, w')"

sublocale repos_reads_total \<subseteq> user_by_name: keyed_read_total "Users_GetByUsername (Users R)" "\<lambda>w. rUsers (abs w)" uUsername
  by unfold_locales (rule user_by_name_total)

sublocale repos_reads_total \<subseteq> user_by_id: keyed_read_total "Users_GetByID (Users R)" "\<lambda>w. rUsers (abs w)" uID
  by unfold_locales (rule user_by_id_total)

sublocale repos_reads_total \<subseteq> org_by_name: keyed_read_total "Orgs_GetByName (Orgs R)" "\<lambda>w. rOrgs (abs w)" oName
  by unfold_locales (rule org_by_name_total)

sublocale repos_reads_total \<subseteq> org_by_id: keyed_read_total "Orgs_GetByID (Orgs R)" "\<lambda>w. rOrgs (abs w)" oID
  by unfold_locales (rule org_by_id_total)

sublocale repos_reads_total \<subseteq> member_by_key: keyed_read_total
    "\<lambda>(org, u). Orgs_GetMember (Orgs R) org u" "\<lambda>w. rMembers (abs w)" member_key
  by unfold_locales (auto dest: member_total)

sublocale repos_reads_total \<subseteq> mod_by_name: keyed_read_total
    "\<lambda>(own, n). Modules_Get (Modules R) own n" "\<lambda>w. rModules (abs w)" module_key
  by unfold_locales (auto dest: mod_by_name_total)

sublocale repos_reads_total \<subseteq> mod_by_id: keyed_read_total "Modules_GetByID (Modules R)" "\<lambda>w. rModules (abs w)" mID
  by unfold_locales (rule mod_by_id_total)

sublocale repos_reads_total \<subseteq> commit_by_id: keyed_read_total
    "\<lambda>(m, c). Commits_GetByID (Commits R) m c" "\<lambda>w. rCommits (abs w)" commit_key
  by unfold_locales (auto dest: commit_total)

sublocale repos_reads_total \<subseteq> label_by_name: keyed_read_total
    "\<lambda>(m, n). Labels_Get (Labels R) m n" "\<lambda>w. rLabels (abs w)" label_key
  by unfold_locales (auto dest: label_total)

sublocale repos_reads_total \<subseteq> token_by_hash: keyed_read_total "Tokens_GetByHash (Tokens R)" "\<lambda>w. rTokens (abs w)" tHash
  by unfold_locales (rule token_total)

end
