(* ===== verification/Connect.thy ===== *)
theory Connect
  imports Iface
begin

text \<open>
  What the request handlers share: the errors of Connect as values, the responses of the REST
  side, and the sources of fresh data a request draws from.

  A handler is a function of the request, of the caller (\<^verbatim>\<open>auth.UserFromContext\<close>, \<open>None\<close> for an
  anonymous request) and of the world, and returns a response or a Connect error beside the
  world it leaves.
\<close>

section \<open>Connect\<close>

datatype connect_code =
    CodeInvalidArgument
  | CodeNotFound
  | CodeAlreadyExists
  | CodePermissionDenied
  | CodeInternal
  | CodeUnauthenticated

datatype connect_error = ConnectError (code_of: connect_code) (message_of: string)

type_synonym ('w, 'r) handler = "'w \<Rightarrow> (connect_error + 'r) \<times> 'w"

abbreviation (input) reject :: "connect_code \<Rightarrow> string \<Rightarrow> ('w, 'r) handler" where
  "reject c msg w \<equiv> (Inl (ConnectError c msg), w)"

text \<open>
  The clock and the generator of UUIDs, as a request sees them: \<open>Now i j\<close> is the \<open>j\<close>-th reading of
  \<^verbatim>\<open>time.Now()\<close> in the \<open>i\<close>-th iteration of the handler's loop, \<open>NewString i j\<close> the \<open>j\<close>-th call of
  \<^verbatim>\<open>uuid.NewString()\<close> there.
\<close>

record env =
  Now :: "nat \<Rightarrow> nat \<Rightarrow> gotime"
  NewString :: "nat \<Rightarrow> nat \<Rightarrow> string"

text \<open>\<^verbatim>\<open>err.Error()\<close> of the errors a backend returns.\<close>

fun Error :: "db_error \<Rightarrow> string" where
  "Error ErrNotFound = ''not found''"
| "Error (DBError msg) = msg"

section \<open>HTTP responses\<close>

text \<open>The JSON values the REST handlers write: flat objects of strings, and lists of them.\<close>

datatype json = JObj "(string \<times> string) list" | JList "(string \<times> string) list list"

datatype body = JsonBody json | TextBody string

record http_response =
  status :: int
  headers :: "(string \<times> string) list"
  payload :: body

definition writeJSON :: "int \<Rightarrow> json \<Rightarrow> http_response" where
  "writeJSON code v =
     \<lparr>status = code, headers = [(''Content-Type'', ''application/json'')], payload = JsonBody v\<rparr>"

definition writeErr :: "int \<Rightarrow> string \<Rightarrow> http_response" where
  "writeErr code msg = writeJSON code (JObj [(''error'', msg)])"

abbreviation StatusOK :: int where "StatusOK \<equiv> 200"
abbreviation StatusCreated :: int where "StatusCreated \<equiv> 201"
abbreviation StatusBadRequest :: int where "StatusBadRequest \<equiv> 400"
abbreviation StatusUnauthorized :: int where "StatusUnauthorized \<equiv> 401"
abbreviation StatusForbidden :: int where "StatusForbidden \<equiv> 403"
abbreviation StatusNotFound :: int where "StatusNotFound \<equiv> 404"
abbreviation StatusConflict :: int where "StatusConflict \<equiv> 409"
abbreviation StatusTooManyRequests :: int where "StatusTooManyRequests \<equiv> 429"
abbreviation StatusInternalServerError :: int where "StatusInternalServerError \<equiv> 500"

lemma writeErr_status [simp]: "status (writeErr c m) = c" "status (writeJSON c v) = c"
  by (simp_all add: writeErr_def writeJSON_def)

lemma writeJSON_inj [simp]: "writeJSON c v = writeJSON c' v' \<longleftrightarrow> c = c' \<and> v = v'"
  by (auto simp: writeJSON_def)

text \<open>\<^verbatim>\<open>userID\<close>: the caller's identifier, empty for nil; the REST handlers write the same inline.\<close>

definition userID :: "User option \<Rightarrow> string" where
  "userID u = (case u of None \<Rightarrow> '''' | Some v \<Rightarrow> uID v)"

lemma userID_simps [simp]: "userID None = ''''" "userID (Some u) = uID u"
  by (simp_all add: userID_def)

end
