(* ===== verification/Proto.thy ===== *)
theory Proto
  imports Connect
begin

text \<open>
  The messages of the registry's protobuf API that the services read and write
  (\<^verbatim>\<open>buf.registry.module.v1\<close>, \<^verbatim>\<open>buf.registry.owner.v1\<close>), as datatypes: a \<^verbatim>\<open>oneof\<close> is a datatype
  with a constructor for "unset", a message-typed field is an option. Generated getters are
  nil-safe and answer the zero value on the wrong variant; the ones the services call are
  defined here under the names they have in Go.
\<close>

section \<open>References\<close>

text \<open>\<^verbatim>\<open>OwnerRef\<close>, \<^verbatim>\<open>OrganizationRef\<close>, \<^verbatim>\<open>UserRef\<close>, \<^verbatim>\<open>ScopedLabelRef\<close>: an identifier or a name.\<close>

datatype name_ref = NoRef | ById string | ByName string

fun ref_GetId :: "name_ref \<Rightarrow> string" where
  "ref_GetId (ById i) = i" | "ref_GetId _ = []"

fun ref_GetName :: "name_ref \<Rightarrow> string" where
  "ref_GetName (ByName n) = n" | "ref_GetName _ = []"

text \<open>\<^verbatim>\<open>ModuleRef\<close>: an identifier, or an owner and a module name.\<close>

datatype module_ref = NoModuleRef | ModuleById string | ModuleByName string string

text \<open>\<^verbatim>\<open>LabelRef\<close>: an identifier, or an owner, a module and a label name.\<close>

datatype label_ref = NoLabelRef | LabelById string | LabelByName string string string

text \<open>\<^verbatim>\<open>ResourceRef\<close>: an identifier, or a name whose child may be a label name or a free reference.\<close>

datatype resource_child = NoChild | ChildLabel string | ChildRef string

record resource_name =
  GetOwner :: string
  GetModule :: string
  child :: resource_child

datatype resource_ref = NoResource | ResourceById string | ResourceByName resource_name

fun resource_GetId :: "resource_ref \<Rightarrow> string" where
  "resource_GetId (ResourceById i) = i" | "resource_GetId _ = []"

fun resource_GetName :: "resource_ref \<Rightarrow> resource_name option" where
  "resource_GetName (ResourceByName n) = Some n" | "resource_GetName _ = None"

definition GetLabelName :: "resource_name \<Rightarrow> string" where
  "GetLabelName n = (case child n of ChildLabel l \<Rightarrow> l | _ \<Rightarrow> [])"

definition GetRef :: "resource_name \<Rightarrow> string" where
  "GetRef n = (case child n of ChildRef r \<Rightarrow> r | _ \<Rightarrow> [])"

section \<open>Entities\<close>

datatype visibility_enum = VISIBILITY_UNSPECIFIED | VISIBILITY_PUBLIC | VISIBILITY_PRIVATE
datatype module_state = STATE_UNSPECIFIED | STATE_ACTIVE | STATE_DEPRECATED

record proto_module =
  pm_id :: string
  pm_name :: string
  pm_owner_id :: string
  pm_visibility :: visibility_enum
  pm_state :: module_state
  pm_create_time :: gotime
  pm_update_time :: gotime
  pm_default_label :: string

text \<open>\<^verbatim>\<open>Digest\<close>: the services only ever write type B5, so a digest is its value.\<close>

record proto_commit =
  pc_id :: string
  pc_create_time :: gotime
  pc_owner_id :: string
  pc_module_id :: string
  pc_created_by :: string
  pc_digest :: "bytes option"

record proto_label =
  pl_id :: string
  pl_name :: string
  pl_module_id :: string
  pl_owner_id :: string
  pl_commit_id :: string
  pl_create_time :: gotime
  pl_update_time :: gotime

record proto_file =
  GetPath :: string
  GetContent :: bytes

datatype user_state = USER_STATE_UNSPECIFIED | USER_STATE_ACTIVE
datatype user_type = USER_TYPE_UNSPECIFIED | USER_TYPE_STANDARD

record proto_user =
  pu_id :: string
  pu_name :: string
  pu_create_time :: gotime
  pu_update_time :: gotime
  pu_state :: user_state
  pu_type :: user_type

record proto_org =
  po_id :: string
  po_name :: string
  po_create_time :: gotime
  po_update_time :: gotime

datatype proto_owner = OwnerUser proto_user | OwnerOrganization proto_org

end
