(* ===== verification/Registry_Spec.thy ===== *)
theory Registry_Spec
  imports Iface
begin

text \<open>
  The registry as a transition system: one rule per kind of write, with the guard under
  which a backend accepts it. Every write of a backend that meets \<open>repos_sound\<close> is such a
  step or leaves the registry alone (\<open>write_refines\<close>), and every step keeps the keys unique.
\<close>

inductive reg_step :: "Registry \<Rightarrow> Registry \<Rightarrow> bool" where
  user_created: "\<forall>v\<in>rUsers r. uID v \<noteq> uID u \<and> uUsername v \<noteq> uUsername u \<Longrightarrow>
     reg_step r (r\<lparr>rUsers := insert u (rUsers r)\<rparr>)"
| org_created: "\<forall>v\<in>rOrgs r. oID v \<noteq> oID g \<and> oName v \<noteq> oName g \<Longrightarrow>
     reg_step r (r\<lparr>rOrgs := insert g (rOrgs r)\<rparr>)"
| member_added: "\<forall>v\<in>rMembers r. member_key v \<noteq> member_key mb \<Longrightarrow>
     reg_step r (r\<lparr>rMembers := insert mb (rMembers r)\<rparr>)"
| members_removed: "M \<subseteq> rMembers r \<Longrightarrow> reg_step r (r\<lparr>rMembers := M\<rparr>)"
| module_created: "\<forall>v\<in>rModules r. mID v \<noteq> mID m \<and> module_key v \<noteq> module_key m \<Longrightarrow>
     reg_step r (r\<lparr>rModules := insert m (rModules r)\<rparr>)"
| visibility_set: "reg_step r (r\<lparr>rModules := set_visibility i vis ` rModules r\<rparr>)"
| modules_deleted: "M' \<subseteq> rModules r \<Longrightarrow> reg_step r (r\<lparr>rModules := M'\<rparr>)"
| commit_created: "\<forall>v\<in>rCommits r. commit_key v \<noteq> commit_key c \<Longrightarrow>
     reg_step r (r\<lparr>rCommits := insert c (rCommits r)\<rparr>)"
| label_upserted: "upsert_label l (rLabels r) L' \<Longrightarrow> (inj_on lID (rLabels r) \<longrightarrow> inj_on lID L') \<Longrightarrow>
     reg_step r (r\<lparr>rLabels := L'\<rparr>)"
| token_created: "\<forall>v\<in>rTokens r. tID v \<noteq> tID t \<and> tHash v \<noteq> tHash t \<Longrightarrow>
     reg_step r (r\<lparr>rTokens := insert t (rTokens r)\<rparr>)"
| tokens_deleted: "T' \<subseteq> rTokens r \<Longrightarrow> reg_step r (r\<lparr>rTokens := T'\<rparr>)"

lemma inj_on_insert_fresh: "inj_on f A \<Longrightarrow> \<forall>v\<in>A. f v \<noteq> f x \<Longrightarrow> inj_on f (insert x A)"
  by (auto simp: inj_on_def)

lemma upsert_label_keys:
  "upsert_label l L L' \<Longrightarrow> inj_on label_key L \<Longrightarrow> inj_on label_key L'"
  unfolding upsert_label_def by (auto simp: inj_on_def)

lemma inj_on_image_keep:
  assumes "inj_on k M" and "\<And>m. k (f m) = k m"
  shows "inj_on k (f ` M)"
  using assms by (auto simp: inj_on_def)

lemma reg_step_keys: "reg_step r r' \<Longrightarrow> registry_keys r \<Longrightarrow> registry_keys r'"
proof (induction rule: reg_step.induct)
  case (visibility_set r i vis)
  then show ?case
    unfolding registry_keys_def by (simp add: inj_on_image_keep)
next
  case (label_upserted l r L')
  then show ?case
    unfolding registry_keys_def by (simp add: upsert_label_keys)
qed (auto simp: registry_keys_def inj_on_insert_fresh intro: inj_on_subset)

lemma reg_steps_keys: "reg_step\<^sup>*\<^sup>* r r' \<Longrightarrow> registry_keys r \<Longrightarrow> registry_keys r'"
  by (induction rule: rtranclp_induct) (auto intro: reg_step_keys)

text \<open>The two ways a backend may carry out an upsert: touch the label that is there, or insert.\<close>

definition touch_label :: "Label \<Rightarrow> Label \<Rightarrow> Label" where
  "touch_label lab y =
     (if label_key y = label_key lab
      then y\<lparr>lCommitID := lCommitID lab, lUpdatedAt := lUpdatedAt lab\<rparr> else y)"

lemma touch_label_keeps [simp]:
  "lID (touch_label lab y) = lID y" "lModuleID (touch_label lab y) = lModuleID y"
  "lName (touch_label lab y) = lName y"
  by (simp_all add: touch_label_def)

lemma upsert_label_touch:
  assumes "inj_on label_key L" and x: "x \<in> L" "label_key x = label_key lab"
  shows "upsert_label lab L (touch_label lab ` L)"
proof -
  have only: "label_key y = label_key lab \<longleftrightarrow> y = x" if "y \<in> L" for y
    using inj_onD [OF assms(1), of y x] x that by auto
  have "touch_label lab ` L = insert (touch_label lab x) {y \<in> L. label_key y \<noteq> label_key lab}"
    using x(1) only by (auto simp: touch_label_def image_iff)
  moreover have "lCommitID (touch_label lab x) = lCommitID lab" "lUpdatedAt (touch_label lab x) = lUpdatedAt lab"
    "label_key (touch_label lab x) = label_key lab" "lID (touch_label lab x) = lID x"
    using x(2) by (simp_all add: touch_label_def)
  ultimately show ?thesis using x unfolding upsert_label_def by blast
qed

lemma upsert_label_insert:
  "\<forall>x\<in>L. label_key x \<noteq> label_key lab \<Longrightarrow> upsert_label lab L (insert lab L)"
  unfolding upsert_label_def by (intro exI [of _ lab]) auto

text \<open>What no write takes away: accounts, organizations and commits, and the labels' keys.\<close>

lemma reg_step_grows:
  "reg_step r r' \<Longrightarrow> rUsers r \<subseteq> rUsers r' \<and> rOrgs r \<subseteq> rOrgs r' \<and> rCommits r \<subseteq> rCommits r' \<and>
     label_key ` rLabels r \<subseteq> label_key ` rLabels r'"
  by (induction rule: reg_step.induct) (auto simp: upsert_label_def image_iff)

lemma reg_steps_grow:
  "reg_step\<^sup>*\<^sup>* r r' \<Longrightarrow> rUsers r \<subseteq> rUsers r' \<and> rOrgs r \<subseteq> rOrgs r' \<and> rCommits r \<subseteq> rCommits r' \<and>
     label_key ` rLabels r \<subseteq> label_key ` rLabels r'"
proof (induction rule: rtranclp_induct)
  case base
  show ?case by simp
next
  case (step y z)
  from reg_step_grows [OF step.hyps(2)] step.IH show ?case
    by (elim conjE) (intro conjI; erule order_trans; assumption)
qed

section \<open>The writes of a backend are steps of the registry\<close>

text \<open>The writes of the interfaces, as data.\<close>

datatype write_op =
    UserCreate User
  | OrgCreate Org
  | AddMember string string OrgRole
  | RemoveMember string string
  | ModuleCreate Module
  | SetVisibility string Visibility
  | ModuleDelete string
  | CommitCreate Commit
  | LabelUpsert Label
  | TokenCreate Token
  | TokenRevoke string string
  | DeleteExpired gotime
  | DeleteByUserAndNote string string

fun do_write :: "'w Repos \<Rightarrow> write_op \<Rightarrow> ('w, db_error) action" where
  "do_write R (UserCreate u) = Users_Create (Users R) u"
| "do_write R (OrgCreate g) = Orgs_Create (Orgs R) g"
| "do_write R (AddMember i u ro) = Orgs_AddMember (Orgs R) i u ro"
| "do_write R (RemoveMember i u) = Orgs_RemoveMember (Orgs R) i u"
| "do_write R (ModuleCreate m) = Modules_Create (Modules R) m"
| "do_write R (SetVisibility i v) = Modules_SetVisibility (Modules R) i v"
| "do_write R (ModuleDelete i) = Modules_Delete (Modules R) i"
| "do_write R (CommitCreate c) = Commits_Create (Commits R) c"
| "do_write R (LabelUpsert l) = Labels_Upsert (Labels R) l"
| "do_write R (TokenCreate t) = Tokens_Create (Tokens R) t"
| "do_write R (TokenRevoke i u) = Tokens_Revoke (Tokens R) i u"
| "do_write R (DeleteExpired now) = Tokens_DeleteExpired (Tokens R) now"
| "do_write R (DeleteByUserAndNote u n) = Tokens_DeleteByUserAndNote (Tokens R) u n"

fun run_writes :: "'w Repos \<Rightarrow> write_op list \<Rightarrow> 'w \<Rightarrow> 'w" where
  "run_writes R [] w = w"
| "run_writes R (a # as) w = run_writes R as (snd (do_write R a w))"

context repos_sound
begin

lemmas write_errs =
  users_create_err orgs_create_err orgs_add_err orgs_remove_err modules_create_err
  modules_set_visibility_err modules_delete_err commits_create_err labels_upsert_err
  tokens_create_err tokens_revoke_err tokens_delete_note_err tokens_delete_expired_err

lemma write_failed: "do_write R a w = (Some e, w') \<Longrightarrow> abs w' = abs w"
  by (cases a) (auto dest: write_errs)

lemma write_done:
  "do_write R a w = (None, w') \<Longrightarrow> registry_keys (abs w) \<Longrightarrow> reg_step (abs w) (abs w')"
proof (cases a)
  case (AddMember i u ro)
  assume "do_write R a w = (None, w')"
  with AddMember show ?thesis
    using orgs_add [of i u ro w w'] reg_step.member_added [of "abs w"] by auto
next
  case (ModuleCreate m)
  assume "do_write R a w = (None, w')"
  with ModuleCreate show ?thesis
    using modules_create [of m w w'] reg_step.module_created [of "abs w" "with_default m"] by simp
next
  case (CommitCreate c)
  assume "do_write R a w = (None, w')"
  with CommitCreate show ?thesis
    using commits_create [of c w w'] reg_step.commit_created [of "abs w" c] by simp
next
  case (LabelUpsert l)
  assume "do_write R a w = (None, w')" and "registry_keys (abs w)"
  with LabelUpsert have *: "upsert_label l (rLabels (abs w)) (rLabels (abs w'))"
      "abs w' = (abs w)\<lparr>rLabels := rLabels (abs w')\<rparr>"
      "inj_on lID (rLabels (abs w)) \<longrightarrow> inj_on lID (rLabels (abs w'))"
    using labels_upsert [of l w w'] by (auto simp: registry_keys_def)
  show ?thesis by (subst *(2)) (rule reg_step.label_upserted [OF *(1,3)])
qed (auto dest!: users_create orgs_create orgs_remove modules_create modules_set_visibility
       modules_delete commits_create tokens_create tokens_revoke tokens_delete_expired
       tokens_delete_note intro: reg_step.intros)

lemma write_refines:
  "do_write R a w = (e, w') \<Longrightarrow> registry_keys (abs w) \<Longrightarrow> abs w' = abs w \<or> reg_step (abs w) (abs w')"
  by (cases e) (auto dest: write_failed write_done)

lemma run_writes_refines: "registry_keys (abs w) \<Longrightarrow> reg_step\<^sup>*\<^sup>* (abs w) (abs (run_writes R as w))"
proof (induction as arbitrary: w)
  case Nil
  then show ?case by simp
next
  case (Cons a as)
  let ?w = "snd (do_write R a w)"
  have "reg_step\<^sup>*\<^sup>* (abs w) (abs ?w)"
    using write_refines [of a w "fst (do_write R a w)" ?w] Cons.prems by auto
  moreover from this Cons.prems have "registry_keys (abs ?w)" by (rule reg_steps_keys)
  then have "reg_step\<^sup>*\<^sup>* (abs ?w) (abs (run_writes R as ?w))" by (rule Cons.IH)
  ultimately show ?case by simp
qed

text \<open>
  What a sequence of writes may assume and keeps: the registry went along a path of \<open>reg_step\<close>, so
  its keys are still unique. This is the invariant the loops of the write handlers carry.
\<close>

abbreviation steps_from :: "'w \<Rightarrow> 'w \<Rightarrow> bool" where
  "steps_from w0 w \<equiv> reg_step\<^sup>*\<^sup>* (abs w0) (abs w) \<and> registry_keys (abs w)"

lemma steps_from_refl: "registry_keys (abs w) \<Longrightarrow> steps_from w w"
  by simp

lemma steps_from_write:
  assumes "steps_from w0 w" "do_write R a w = (e, w')"
  shows "steps_from w0 w'"
proof -
  from write_refines [OF assms(2)] assms(1) have "abs w' = abs w \<or> reg_step (abs w) (abs w')" by blast
  then show ?thesis using assms(1) reg_step_keys rtranclp.rtrancl_into_rtrancl by (metis (full_types))
qed

end

end
