(* ===== verification/Gorm.thy ===== *)
theory Gorm
  imports Prelude "HOL-Library.Multiset"
begin

text \<open>
  The database engine behind \<^verbatim>\<open>gorm.io/gorm\<close>, which is not part of the repository. A table is
  the list of its rows, and an engine is a record of what the calls the stores make do to such a
  list; the SQL stores take the engine as a parameter.

  \<open>gorm_sound\<close> states the documented meaning of the calls when they succeed, and that a failed
  statement changes nothing; \<open>gorm_reliable\<close> adds that a statement fails only for the reason
  the documentation gives (no record, or a uniqueness constraint). \<open>list_engine\<close> is an engine
  that meets both, used to evaluate the model on concrete inputs.
\<close>

section \<open>Queries\<close>

text \<open>
  \<^verbatim>\<open>db.Where(..).Order(..).Limit(..)\<close> builds a query: conditions are conjoined, and an ordering
  \<^verbatim>\<open>"created_at DESC"\<close> is the column to sort by, largest first.
\<close>

record 'r query =
  q_where :: "'r \<Rightarrow> bool"
  q_order :: "('r \<Rightarrow> int) option"
  q_limit :: "int option"

definition query0 :: "'r query" where
  "query0 = \<lparr>q_where = (\<lambda>_. True), q_order = None, q_limit = None\<rparr>"

definition Where :: "('r \<Rightarrow> bool) \<Rightarrow> 'r query \<Rightarrow> 'r query" where
  "Where p q = q\<lparr>q_where := (\<lambda>r. q_where q r \<and> p r)\<rparr>"

definition OrderDesc :: "('r \<Rightarrow> int) \<Rightarrow> 'r query \<Rightarrow> 'r query" where
  "OrderDesc col q = q\<lparr>q_order := Some col\<rparr>"

definition Limit :: "int \<Rightarrow> 'r query \<Rightarrow> 'r query" where
  "Limit n q = q\<lparr>q_limit := Some n\<rparr>"

lemmas query_defs = query0_def Where_def OrderDesc_def Limit_def

section \<open>Engines\<close>

datatype gorm_error = ErrRecordNotFound | GormError string

text \<open>
  \<open>gUpsert same upd r\<close> is \<^verbatim>\<open>Clauses(OnConflict{Columns, DoUpdates}).Create(r)\<close>: \<open>same\<close> compares
  two rows on the conflict columns, \<open>upd r old\<close> assigns the listed columns of \<open>r\<close> to \<open>old\<close>.
  \<open>gDelete\<close> also reports \<^verbatim>\<open>RowsAffected\<close>.
\<close>

record 'r gorm =
  gCreate :: "'r \<Rightarrow> 'r list \<Rightarrow> gorm_error option \<times> 'r list"
  gUpsert :: "('r \<Rightarrow> 'r \<Rightarrow> bool) \<Rightarrow> ('r \<Rightarrow> 'r \<Rightarrow> 'r) \<Rightarrow> 'r \<Rightarrow> 'r list \<Rightarrow> gorm_error option \<times> 'r list"
  gFirst :: "'r query \<Rightarrow> 'r list \<Rightarrow> gorm_error + 'r"
  gFind :: "'r query \<Rightarrow> 'r list \<Rightarrow> gorm_error + 'r list"
  gUpdate :: "'r query \<Rightarrow> ('r \<Rightarrow> 'r) \<Rightarrow> 'r list \<Rightarrow> gorm_error option \<times> 'r list"
  gDelete :: "'r query \<Rightarrow> 'r list \<Rightarrow> (gorm_error option \<times> nat) \<times> 'r list"

text \<open>What \<^verbatim>\<open>Find\<close> may answer: the matching rows in an order the query allows, cut at the limit.\<close>

definition answers :: "'r query \<Rightarrow> 'r list \<Rightarrow> 'r list \<Rightarrow> bool" where
  "answers q t rs \<longleftrightarrow>
     (\<exists>full. mset full = mset (filter (q_where q) t) \<and>
        (\<forall>col. q_order q = Some col \<longrightarrow> sorted_wrt (\<lambda>a b. col b \<le> col a) full) \<and>
        rs = (case q_limit q of None \<Rightarrow> full | Some n \<Rightarrow> take (nat n) full))"

lemma answers_full:
  assumes "answers q t rs"
  obtains full where "set full = {x \<in> set t. q_where q x}"
    and "\<And>col. q_order q = Some col \<Longrightarrow> sorted_wrt (\<lambda>a b. col b \<le> col a) full"
    and "rs = (case q_limit q of None \<Rightarrow> full | Some n \<Rightarrow> take (nat n) full)"
proof -
  from assms obtain full where f: "mset full = mset (filter (q_where q) t)"
      and o: "\<forall>col. q_order q = Some col \<longrightarrow> sorted_wrt (\<lambda>a b. col b \<le> col a) full"
      and rs: "rs = (case q_limit q of None \<Rightarrow> full | Some n \<Rightarrow> take (nat n) full)"
    unfolding answers_def by blast
  from mset_eq_setD [OF f] have "set full = {x \<in> set t. q_where q x}" by simp
  with o rs that show thesis by blast
qed

lemma answers_set: "answers q t rs \<Longrightarrow> q_limit q = None \<Longrightarrow> set rs = {x \<in> set t. q_where q x}"
  by (elim answers_full) simp

lemma answers_sorted: "answers q t rs \<Longrightarrow> q_order q = Some col \<Longrightarrow> sorted_wrt (\<lambda>a b. col b \<le> col a) rs"
  by (elim answers_full) (auto split: option.splits intro: sorted_wrt_take)

lemma answers_subset: "answers q t rs \<Longrightarrow> set rs \<subseteq> {x \<in> set t. q_where q x}"
  by (elim answers_full) (auto split: option.splits dest: in_set_takeD)

lemma answers_length: "answers q t rs \<Longrightarrow> q_limit q = Some n \<Longrightarrow> length rs \<le> nat n"
  by (elim answers_full) simp

locale gorm_sound =
  fixes g :: "'r gorm" and clash :: "'r \<Rightarrow> 'r \<Rightarrow> bool"
  assumes create_done:
      "gCreate g r t = (None, t') \<Longrightarrow> (\<forall>x\<in>set t. \<not> clash x r) \<and> mset t' = add_mset r (mset t)"
    and create_failed: "gCreate g r t = (Some e, t') \<Longrightarrow> t' = t"
    and upsert_done:
      "gUpsert g same upd r t = (None, t') \<Longrightarrow>
         (\<forall>x\<in>set t. clash x r \<longrightarrow> same x r) \<and>
         (if \<exists>x\<in>set t. same x r
          then mset t' = image_mset (\<lambda>x. if same x r then upd r x else x) (mset t)
          else mset t' = add_mset r (mset t))"
    and upsert_failed: "gUpsert g same upd r t = (Some e, t') \<Longrightarrow> t' = t"
    and first_found:
      "gFirst g q t = Inr r \<Longrightarrow> r \<in> set t \<and> q_where q r \<and>
         (\<forall>col. q_order q = Some col \<longrightarrow> (\<forall>x\<in>set t. q_where q x \<longrightarrow> col x \<le> col r))"
    and first_none: "gFirst g q t = Inl ErrRecordNotFound \<Longrightarrow> x \<in> set t \<Longrightarrow> \<not> q_where q x"
    and find_done: "gFind g q t = Inr rs \<Longrightarrow> answers q t rs"
    and update_done:
      "gUpdate g q f t = (None, t') \<Longrightarrow>
         mset t' = image_mset (\<lambda>x. if q_where q x then f x else x) (mset t)"
    and update_failed: "gUpdate g q f t = (Some e, t') \<Longrightarrow> t' = t"
    and delete_done:
      "gDelete g q t = ((None, n), t') \<Longrightarrow>
         mset t' = mset (filter (\<lambda>x. \<not> q_where q x) t) \<and> n = length (filter (q_where q) t)"
    and delete_failed: "gDelete g q t = ((Some e, n), t') \<Longrightarrow> t' = t"

locale gorm_reliable = gorm_sound +
  assumes create_ok: "\<forall>x\<in>set t. \<not> clash x r \<Longrightarrow> \<exists>t'. gCreate g r t = (None, t')"
    and upsert_ok: "\<forall>x\<in>set t. clash x r \<longrightarrow> same x r \<Longrightarrow>
          \<exists>t'. gUpsert g same upd r t = (None, t')"
    and first_ok: "gFirst g q t = Inl e \<Longrightarrow> e = ErrRecordNotFound"
    and find_ok: "\<exists>rs. gFind g q t = Inr rs"
    and update_ok: "\<exists>t'. gUpdate g q f t = (None, t')"
    and delete_ok: "\<exists>n t'. gDelete g q t = ((None, n), t')"

context gorm_sound
begin

lemma create_set: "gCreate g r t = (None, t') \<Longrightarrow> set t' = insert r (set t) \<and> (\<forall>x\<in>set t. \<not> clash x r)"
  using create_done by (metis set_mset_add_mset_insert set_mset_mset)

lemma upsert_set:
  assumes "gUpsert g same upd r t = (None, t')"
  shows "set t' = (if \<exists>x\<in>set t. same x r then (\<lambda>x. if same x r then upd r x else x) ` set t
                   else insert r (set t))"
  using upsert_done [OF assms]
  by (metis (no_types, lifting) set_image_mset set_mset_add_mset_insert set_mset_mset)

lemmas find_set = answers_set [OF find_done]
lemmas find_sorted = answers_sorted [OF find_done]
lemmas find_subset = answers_subset [OF find_done]
lemmas find_length = answers_length [OF find_done]

lemma update_set:
  "gUpdate g q f t = (None, t') \<Longrightarrow> set t' = (\<lambda>x. if q_where q x then f x else x) ` set t"
  using update_done by (metis (no_types, lifting) set_image_mset set_mset_mset)

lemma delete_set:
  assumes "gDelete g q t = ((None, n), t')"
  shows "set t' = {x \<in> set t. \<not> q_where q x}" and "n = 0 \<longleftrightarrow> (\<forall>x\<in>set t. \<not> q_where q x)"
proof -
  from delete_done [OF assms] have m: "mset t' = mset (filter (\<lambda>x. \<not> q_where q x) t)"
    and n: "n = length (filter (q_where q) t)" by simp_all
  show "set t' = {x \<in> set t. \<not> q_where q x}" using mset_eq_setD [OF m] by simp
  show "n = 0 \<longleftrightarrow> (\<forall>x\<in>set t. \<not> q_where q x)" using n by (simp add: filter_empty_conv)
qed

end

section \<open>An engine on lists\<close>

text \<open>\<open>Find\<close> sorts the matching rows (stably) and cuts them; \<open>First\<close> is the head of that list.\<close>

definition list_find :: "'r query \<Rightarrow> 'r list \<Rightarrow> 'r list" where
  "list_find q t =
     (let rows = filter (q_where q) t;
          full = (case q_order q of None \<Rightarrow> rows | Some col \<Rightarrow> sort_key (\<lambda>r. - col r) rows)
      in case q_limit q of None \<Rightarrow> full | Some n \<Rightarrow> take (nat n) full)"

definition list_first :: "'r query \<Rightarrow> 'r list \<Rightarrow> gorm_error + 'r" where
  "list_first q t =
     (case list_find (q\<lparr>q_limit := None\<rparr>) t of [] \<Rightarrow> Inl ErrRecordNotFound | r # rs \<Rightarrow> Inr r)"

definition list_engine :: "('r \<Rightarrow> 'r \<Rightarrow> bool) \<Rightarrow> 'r gorm" where
  "list_engine clash =
     \<lparr>gCreate = (\<lambda>r t. if list_ex (\<lambda>x. clash x r) t then (Some (GormError ''UNIQUE''), t)
                       else (None, t @ [r])),
      gUpsert = (\<lambda>same upd r t.
        if list_ex (\<lambda>x. clash x r \<and> \<not> same x r) t then (Some (GormError ''UNIQUE''), t)
        else if list_ex (\<lambda>x. same x r) t then (None, map (\<lambda>x. if same x r then upd r x else x) t)
        else (None, t @ [r])),
      gFirst = list_first,
      gFind = (\<lambda>q t. Inr (list_find q t)),
      gUpdate = (\<lambda>q f t. (None, map (\<lambda>x. if q_where q x then f x else x) t)),
      gDelete = (\<lambda>q t. ((None, length (filter (q_where q) t)), filter (\<lambda>x. \<not> q_where q x) t))\<rparr>"

lemma sorted_sort_key_neg: "sorted_wrt (\<lambda>a b. (col b :: int) \<le> col a) (sort_key (\<lambda>r. - col r) xs)"
proof -
  have "sorted (map (\<lambda>r. - col r) (sort_key (\<lambda>r. - col r) xs))" by simp
  then show ?thesis by (simp add: sorted_map)
qed

lemma list_find_answers: "answers q t (list_find q t)"
proof (cases "q_order q")
  case None
  then show ?thesis
    unfolding answers_def list_find_def Let_def by (intro exI [of _ "filter (q_where q) t"]) (simp split: option.splits)
next
  case (Some col)
  then show ?thesis
    unfolding answers_def list_find_def Let_def
    by (intro exI [of _ "sort_key (\<lambda>r. - col r) (filter (q_where q) t)"])
       (simp add: sorted_sort_key_neg split: option.splits)
qed

lemma list_first_Inr:
  assumes "list_first q t = Inr r"
  shows "r \<in> set t" and "q_where q r"
    and "q_order q = Some col \<Longrightarrow> x \<in> set t \<Longrightarrow> q_where q x \<Longrightarrow> col x \<le> col r"
proof -
  let ?q = "q\<lparr>q_limit := None\<rparr>"
  from assms obtain rs where rs: "list_find ?q t = r # rs"
    unfolding list_first_def by (auto split: list.splits)
  from list_find_answers [of ?q t] have m: "mset (r # rs) = mset (filter (q_where q) t)"
    and o: "q_order q = Some col \<Longrightarrow> sorted_wrt (\<lambda>a b. col b \<le> col a) (r # rs)"
    unfolding answers_def rs by auto
  from mset_eq_setD [OF m] have s: "set (r # rs) = {x \<in> set t. q_where q x}" by simp
  from s show "r \<in> set t" "q_where q r" by auto
  assume "q_order q = Some col" "x \<in> set t" "q_where q x"
  with o s have "x = r \<or> x \<in> set rs" "\<forall>y\<in>set rs. col y \<le> col r" by auto
  then show "col x \<le> col r" by auto
qed

lemma list_first_Inl: "list_first q t = Inl e \<longleftrightarrow> e = ErrRecordNotFound \<and> (\<forall>x\<in>set t. \<not> q_where q x)"
proof -
  have "list_find (q\<lparr>q_limit := None\<rparr>) t = [] \<longleftrightarrow> filter (q_where q) t = []"
    unfolding list_find_def Let_def
    by (cases "q_order q") (simp_all, metis length_0_conv length_sort)
  then show ?thesis
    unfolding list_first_def by (auto simp: filter_empty_conv split: list.splits)
qed

lemma list_engine_reliable: "gorm_reliable (list_engine clash) clash"
  by unfold_locales
     (auto simp: list_engine_def list_ex_iff list_find_answers list_first_Inl
       split: if_splits dest: list_first_Inr)

end
