(* ===== verification/Sql.thy ===== *)
theory Sql
  imports Registry_Spec Gorm
begin

text \<open>
  The SQL backend, \<^verbatim>\<open>internal/db/sql/models.go\<close> and \<^verbatim>\<open>sql.go\<close>: the row structs with the
  uniqueness their \<^verbatim>\<open>gorm\<close> tags declare, the converters, and the six stores, each method over an
  arbitrary engine. \<open>SqlDB\<close> is the contents of the tables.
\<close>

section \<open>Rows\<close>

record UserRow =
  u_id :: string
  u_username :: string
  u_password_hash :: string
  u_created_at :: gotime

record OrgRow =
  o_id :: string
  o_name :: string
  o_created_at :: gotime

record OrgMemberRow =
  om_org_id :: string
  om_user_id :: string
  om_role :: string

record ModuleRow =
  m_id :: string
  m_owner_name :: string
  m_owner_type :: string
  m_name :: string
  m_visibility :: string
  m_created_at :: gotime

record CommitRow =
  c_id :: string
  c_module_id :: string
  c_storage_key :: string
  c_manifest :: string
  c_created_by_user_id :: string
  c_created_at :: gotime

record LabelRow =
  l_id :: string
  l_module_id :: string
  l_name :: string
  l_commit_id :: string
  l_created_at :: gotime
  l_updated_at :: gotime

record TokenRow =
  t_id :: string
  t_user_id :: string
  t_hash :: string
  t_note :: string
  t_expires_at :: "gotime option"
  t_created_at :: gotime

text \<open>Two rows clash when they agree on a \<^verbatim>\<open>primaryKey\<close> or on a \<^verbatim>\<open>uniqueIndex\<close>.\<close>

definition user_clash :: "UserRow \<Rightarrow> UserRow \<Rightarrow> bool" where
  "user_clash a b \<longleftrightarrow> u_id a = u_id b \<or> u_username a = u_username b"

definition org_clash :: "OrgRow \<Rightarrow> OrgRow \<Rightarrow> bool" where
  "org_clash a b \<longleftrightarrow> o_id a = o_id b \<or> o_name a = o_name b"

definition member_clash :: "OrgMemberRow \<Rightarrow> OrgMemberRow \<Rightarrow> bool" where
  "member_clash a b \<longleftrightarrow> om_org_id a = om_org_id b \<and> om_user_id a = om_user_id b"

definition module_clash :: "ModuleRow \<Rightarrow> ModuleRow \<Rightarrow> bool" where
  "module_clash a b \<longleftrightarrow>
     m_id a = m_id b \<or> (m_owner_name a = m_owner_name b \<and> m_name a = m_name b)"

definition commit_clash :: "CommitRow \<Rightarrow> CommitRow \<Rightarrow> bool" where
  "commit_clash a b \<longleftrightarrow> c_module_id a = c_module_id b \<and> c_id a = c_id b"

definition label_clash :: "LabelRow \<Rightarrow> LabelRow \<Rightarrow> bool" where
  "label_clash a b \<longleftrightarrow>
     l_id a = l_id b \<or> (l_module_id a = l_module_id b \<and> l_name a = l_name b)"

definition token_clash :: "TokenRow \<Rightarrow> TokenRow \<Rightarrow> bool" where
  "token_clash a b \<longleftrightarrow> t_id a = t_id b \<or> t_hash a = t_hash b"

lemmas clash_defs = user_clash_def org_clash_def member_clash_def module_clash_def
  commit_clash_def label_clash_def token_clash_def

section \<open>Converters\<close>

definition userToModel :: "UserRow \<Rightarrow> User" where
  "userToModel u = \<lparr>uID = u_id u, uUsername = u_username u, uPasswordHash = u_password_hash u,
     uCreatedAt = u_created_at u\<rparr>"

definition userFromModel :: "User \<Rightarrow> UserRow" where
  "userFromModel u = \<lparr>u_id = uID u, u_username = uUsername u, u_password_hash = uPasswordHash u,
     u_created_at = uCreatedAt u\<rparr>"

definition orgToModel :: "OrgRow \<Rightarrow> Org" where
  "orgToModel g = \<lparr>oID = o_id g, oName = o_name g, oCreatedAt = o_created_at g\<rparr>"

definition orgFromModel :: "Org \<Rightarrow> OrgRow" where
  "orgFromModel g = \<lparr>o_id = oID g, o_name = oName g, o_created_at = oCreatedAt g\<rparr>"

definition orgMemberToModel :: "OrgMemberRow \<Rightarrow> OrgMember" where
  "orgMemberToModel m = \<lparr>omOrgID = om_org_id m, omUserID = om_user_id m, omRole = om_role m\<rparr>"

definition moduleToModel :: "ModuleRow \<Rightarrow> Module" where
  "moduleToModel m = \<lparr>mID = m_id m, mOwnerName = m_owner_name m, mOwnerType = m_owner_type m,
     mName = m_name m, mVisibility = m_visibility m, mCreatedAt = m_created_at m\<rparr>"

definition moduleFromModel :: "Module \<Rightarrow> ModuleRow" where
  "moduleFromModel m = \<lparr>m_id = mID m, m_owner_name = mOwnerName m, m_owner_type = mOwnerType m,
     m_name = mName m, m_visibility = mVisibility m, m_created_at = mCreatedAt m\<rparr>"

definition commitToModel :: "CommitRow \<Rightarrow> Commit" where
  "commitToModel c = \<lparr>cID = c_id c, cModuleID = c_module_id c, cStorageKey = c_storage_key c,
     cManifest = c_manifest c, cCreatedByUserID = c_created_by_user_id c, cCreatedAt = c_created_at c\<rparr>"

definition commitFromModel :: "Commit \<Rightarrow> CommitRow" where
  "commitFromModel c = \<lparr>c_id = cID c, c_module_id = cModuleID c, c_storage_key = cStorageKey c,
     c_manifest = cManifest c, c_created_by_user_id = cCreatedByUserID c, c_created_at = cCreatedAt c\<rparr>"

definition labelToModel :: "LabelRow \<Rightarrow> Label" where
  "labelToModel l = \<lparr>lID = l_id l, lModuleID = l_module_id l, lName = l_name l,
     lCommitID = l_commit_id l, lCreatedAt = l_created_at l, lUpdatedAt = l_updated_at l\<rparr>"

definition labelFromModel :: "Label \<Rightarrow> LabelRow" where
  "labelFromModel l = \<lparr>l_id = lID l, l_module_id = lModuleID l, l_name = lName l,
     l_commit_id = lCommitID l, l_created_at = lCreatedAt l, l_updated_at = lUpdatedAt l\<rparr>"

definition tokenToModel :: "TokenRow \<Rightarrow> Token" where
  "tokenToModel t = \<lparr>tID = t_id t, tUserID = t_user_id t, tHash = t_hash t, tNote = t_note t,
     tExpiresAt = t_expires_at t, tCreatedAt = t_created_at t\<rparr>"

definition tokenFromModel :: "Token \<Rightarrow> TokenRow" where
  "tokenFromModel t = \<lparr>t_id = tID t, t_user_id = tUserID t, t_hash = tHash t, t_note = tNote t,
     t_expires_at = tExpiresAt t, t_created_at = tCreatedAt t\<rparr>"

lemmas converter_defs = userToModel_def userFromModel_def orgToModel_def orgFromModel_def
  orgMemberToModel_def moduleToModel_def moduleFromModel_def commitToModel_def commitFromModel_def
  labelToModel_def labelFromModel_def tokenToModel_def tokenFromModel_def

lemma converter_roundtrip [simp]:
  "userToModel (userFromModel u) = u" "orgToModel (orgFromModel g) = g"
  "moduleToModel (moduleFromModel m) = m" "commitToModel (commitFromModel c) = c"
  "labelToModel (labelFromModel l) = l" "tokenToModel (tokenFromModel t) = t"
  by (simp_all add: converter_defs)

lemma toModel_fields [simp]:
  "uID (userToModel u) = u_id u" "uUsername (userToModel u) = u_username u"
  "oID (orgToModel g) = o_id g" "oName (orgToModel g) = o_name g"
  "omOrgID (orgMemberToModel mb) = om_org_id mb" "omUserID (orgMemberToModel mb) = om_user_id mb"
  "omRole (orgMemberToModel mb) = om_role mb"
  "mID (moduleToModel m) = m_id m" "mOwnerName (moduleToModel m) = m_owner_name m"
  "mName (moduleToModel m) = m_name m" "mVisibility (moduleToModel m) = m_visibility m"
  "mOwnerType (moduleToModel m) = m_owner_type m"
  "cID (commitToModel c) = c_id c" "cModuleID (commitToModel c) = c_module_id c"
  "cCreatedAt (commitToModel c) = c_created_at c"
  "lID (labelToModel l) = l_id l" "lModuleID (labelToModel l) = l_module_id l"
  "lName (labelToModel l) = l_name l" "lCommitID (labelToModel l) = l_commit_id l"
  "lUpdatedAt (labelToModel l) = l_updated_at l"
  "tID (tokenToModel t) = t_id t" "tUserID (tokenToModel t) = t_user_id t"
  "tHash (tokenToModel t) = t_hash t" "tNote (tokenToModel t) = t_note t"
  "tExpiresAt (tokenToModel t) = t_expires_at t"
  by (simp_all add: converter_defs)

lemma fromModel_fields [simp]:
  "u_id (userFromModel u) = uID u" "u_username (userFromModel u) = uUsername u"
  "o_id (orgFromModel g) = oID g" "o_name (orgFromModel g) = oName g"
  "m_id (moduleFromModel m) = mID m" "m_owner_name (moduleFromModel m) = mOwnerName m"
  "m_name (moduleFromModel m) = mName m"
  "c_id (commitFromModel c) = cID c" "c_module_id (commitFromModel c) = cModuleID c"
  "l_id (labelFromModel l) = lID l" "l_module_id (labelFromModel l) = lModuleID l"
  "l_name (labelFromModel l) = lName l" "l_commit_id (labelFromModel l) = lCommitID l"
  "l_updated_at (labelFromModel l) = lUpdatedAt l"
  "t_id (tokenFromModel t) = tID t" "t_hash (tokenFromModel t) = tHash t"
  by (simp_all add: converter_defs)

section \<open>The database and its engine\<close>

record SqlDB =
  sq_users :: "UserRow list"
  sq_orgs :: "OrgRow list"
  sq_members :: "OrgMemberRow list"
  sq_modules :: "ModuleRow list"
  sq_commits :: "CommitRow list"
  sq_labels :: "LabelRow list"
  sq_tokens :: "TokenRow list"

text \<open>
  The engine of each table, the join \<^verbatim>\<open>users JOIN org_members\<close>, the dialect's \<^verbatim>\<open>LIKE\<close> (value, then
  pattern) and \<^verbatim>\<open>LOWER\<close>, and \<^verbatim>\<open>strings.ToLower\<close> with its Unicode tables.
\<close>

record Gorm =
  gUsers :: "UserRow gorm"
  gOrgs :: "OrgRow gorm"
  gMembers :: "OrgMemberRow gorm"
  gModules :: "ModuleRow gorm"
  gCommits :: "CommitRow gorm"
  gLabels :: "LabelRow gorm"
  gTokens :: "TokenRow gorm"
  gJoin :: "(UserRow \<Rightarrow> OrgMemberRow \<Rightarrow> bool) \<Rightarrow> UserRow list \<Rightarrow> OrgMemberRow list \<Rightarrow> gorm_error + UserRow list"
  gLike :: "string \<Rightarrow> string \<Rightarrow> bool"
  gLower :: "string \<Rightarrow> string"
  gToLower :: "string \<Rightarrow> string"

fun mapNotFound :: "gorm_error \<Rightarrow> db_error" where
  "mapNotFound ErrRecordNotFound = ErrNotFound"
| "mapNotFound (GormError s) = DBError s"

text \<open>An error handed on as it is: gorm's own sentinel is not \<^verbatim>\<open>iface.ErrNotFound\<close>.\<close>

fun rawError :: "gorm_error \<Rightarrow> db_error" where
  "rawError ErrRecordNotFound = DBError ''record not found''"
| "rawError (GormError s) = DBError s"

definition sql_first :: "'r gorm \<Rightarrow> ('r \<Rightarrow> 'a) \<Rightarrow> 'r query \<Rightarrow> 'r list \<Rightarrow> (db_error, 'a) fetch" where
  "sql_first g conv q t =
     (case gFirst g q t of Inl e \<Rightarrow> RetErr None (mapNotFound e) | Inr r \<Rightarrow> Ret (conv r))"

definition sql_find :: "'r gorm \<Rightarrow> ('r \<Rightarrow> 'a) \<Rightarrow> 'r query \<Rightarrow> 'r list \<Rightarrow> db_error + 'a list" where
  "sql_find g conv q t =
     (case gFind g q t of Inl e \<Rightarrow> Inl (rawError e) | Inr rs \<Rightarrow> Inr (map conv rs))"

section \<open>UserStore\<close>

definition UserStore_Create :: "Gorm \<Rightarrow> User \<Rightarrow> ('z SqlDB_scheme, db_error) action" where
  "UserStore_Create G u d =
     (case gCreate (gUsers G) (userFromModel u) (sq_users d) of
        (e, t) \<Rightarrow> (map_option rawError e, d\<lparr>sq_users := t\<rparr>))"

definition UserStore_GetByUsername :: "Gorm \<Rightarrow> string \<Rightarrow> 'z SqlDB_scheme \<Rightarrow> (db_error, User) fetch" where
  "UserStore_GetByUsername G username d =
     sql_first (gUsers G) userToModel (Where (\<lambda>r. u_username r = username) query0) (sq_users d)"

definition UserStore_GetByID :: "Gorm \<Rightarrow> string \<Rightarrow> 'z SqlDB_scheme \<Rightarrow> (db_error, User) fetch" where
  "UserStore_GetByID G i d =
     sql_first (gUsers G) userToModel (Where (\<lambda>r. u_id r = i) query0) (sq_users d)"

definition UserStore_ListByOrg :: "Gorm \<Rightarrow> string \<Rightarrow> 'z SqlDB_scheme \<Rightarrow> db_error + User list" where
  "UserStore_ListByOrg G orgID d =
     (case gJoin G (\<lambda>u m. om_user_id m = u_id u \<and> om_org_id m = orgID) (sq_users d) (sq_members d) of
        Inl e \<Rightarrow> Inl (rawError e)
      | Inr us \<Rightarrow> Inr (map userToModel us))"

section \<open>OrgStore\<close>

definition OrgStore_Create :: "Gorm \<Rightarrow> Org \<Rightarrow> ('z SqlDB_scheme, db_error) action" where
  "OrgStore_Create G g d =
     (case gCreate (gOrgs G) (orgFromModel g) (sq_orgs d) of
        (e, t) \<Rightarrow> (map_option rawError e, d\<lparr>sq_orgs := t\<rparr>))"

definition OrgStore_GetByName :: "Gorm \<Rightarrow> string \<Rightarrow> 'z SqlDB_scheme \<Rightarrow> (db_error, Org) fetch" where
  "OrgStore_GetByName G name d =
     sql_first (gOrgs G) orgToModel (Where (\<lambda>r. o_name r = name) query0) (sq_orgs d)"

definition OrgStore_GetByID :: "Gorm \<Rightarrow> string \<Rightarrow> 'z SqlDB_scheme \<Rightarrow> (db_error, Org) fetch" where
  "OrgStore_GetByID G i d =
     sql_first (gOrgs G) orgToModel (Where (\<lambda>r. o_id r = i) query0) (sq_orgs d)"

definition OrgStore_AddMember ::
  "Gorm \<Rightarrow> string \<Rightarrow> string \<Rightarrow> OrgRole \<Rightarrow> ('z SqlDB_scheme, db_error) action" where
  "OrgStore_AddMember G orgID userID role d =
     (case gCreate (gMembers G) \<lparr>om_org_id = orgID, om_user_id = userID, om_role = role\<rparr> (sq_members d) of
        (e, t) \<Rightarrow> (map_option rawError e, d\<lparr>sq_members := t\<rparr>))"

definition OrgStore_RemoveMember ::
  "Gorm \<Rightarrow> string \<Rightarrow> string \<Rightarrow> ('z SqlDB_scheme, db_error) action" where
  "OrgStore_RemoveMember G orgID userID d =
     (case gDelete (gMembers G) (Where (\<lambda>r. om_org_id r = orgID \<and> om_user_id r = userID) query0)
             (sq_members d) of
        ((e, n), t) \<Rightarrow> (map_option rawError e, d\<lparr>sq_members := t\<rparr>))"

definition OrgStore_ListMembers :: "Gorm \<Rightarrow> string \<Rightarrow> 'z SqlDB_scheme \<Rightarrow> db_error + OrgMember list" where
  "OrgStore_ListMembers G orgID d =
     sql_find (gMembers G) orgMemberToModel (Where (\<lambda>r. om_org_id r = orgID) query0) (sq_members d)"

definition OrgStore_GetMember ::
  "Gorm \<Rightarrow> string \<Rightarrow> string \<Rightarrow> 'z SqlDB_scheme \<Rightarrow> (db_error, OrgMember) fetch" where
  "OrgStore_GetMember G orgID userID d =
     sql_first (gMembers G) orgMemberToModel
       (Where (\<lambda>r. om_org_id r = orgID \<and> om_user_id r = userID) query0) (sq_members d)"

section \<open>ModuleStore\<close>

text \<open>
  The tag \<^verbatim>\<open>default:private\<close> of the column \<^verbatim>\<open>visibility\<close>: gorm leaves an empty value out of the statement, and
  the database fills in the default.
\<close>

definition column_default :: "ModuleRow \<Rightarrow> ModuleRow" where
  "column_default r = (if m_visibility r = [] then r\<lparr>m_visibility := ''private''\<rparr> else r)"

definition ModuleStore_Create :: "Gorm \<Rightarrow> Module \<Rightarrow> ('z SqlDB_scheme, db_error) action" where
  "ModuleStore_Create G m d =
     (case gCreate (gModules G) (column_default (moduleFromModel m)) (sq_modules d) of
        (e, t) \<Rightarrow> (map_option rawError e, d\<lparr>sq_modules := t\<rparr>))"

definition ModuleStore_Get ::
  "Gorm \<Rightarrow> string \<Rightarrow> string \<Rightarrow> 'z SqlDB_scheme \<Rightarrow> (db_error, Module) fetch" where
  "ModuleStore_Get G ownerName repoName d =
     sql_first (gModules G) moduleToModel
       (Where (\<lambda>r. m_owner_name r = ownerName \<and> m_name r = repoName) query0) (sq_modules d)"

definition ModuleStore_GetByID :: "Gorm \<Rightarrow> string \<Rightarrow> 'z SqlDB_scheme \<Rightarrow> (db_error, Module) fetch" where
  "ModuleStore_GetByID G i d =
     sql_first (gModules G) moduleToModel (Where (\<lambda>r. m_id r = i) query0) (sq_modules d)"

definition ModuleStore_List :: "Gorm \<Rightarrow> string \<Rightarrow> 'z SqlDB_scheme \<Rightarrow> db_error + Module list" where
  "ModuleStore_List G ownerName d =
     sql_find (gModules G) moduleToModel (Where (\<lambda>r. m_owner_name r = ownerName) query0) (sq_modules d)"

definition ModuleStore_ListPublic ::
  "Gorm \<Rightarrow> string \<Rightarrow> int \<Rightarrow> 'z SqlDB_scheme \<Rightarrow> db_error + Module list" where
  "ModuleStore_ListPublic G qry lim d =
     (let tx = Where (\<lambda>r. m_visibility r = ''public'') query0;
          tx = (if qry \<noteq> [] then
                  (let q = ''%'' @ gToLower G qry @ ''%''
                   in Where (\<lambda>r. gLike G (gLower G (m_name r)) q \<or>
                                 gLike G (gLower G (m_owner_name r)) q) tx)
                else tx)
      in sql_find (gModules G) moduleToModel (Limit lim (OrderDesc m_created_at tx)) (sq_modules d))"

definition ModuleStore_SetVisibility ::
  "Gorm \<Rightarrow> string \<Rightarrow> Visibility \<Rightarrow> ('z SqlDB_scheme, db_error) action" where
  "ModuleStore_SetVisibility G i vis d =
     (case gUpdate (gModules G) (Where (\<lambda>r. m_id r = i) query0) (\<lambda>r. r\<lparr>m_visibility := vis\<rparr>)
             (sq_modules d) of
        (e, t) \<Rightarrow> (map_option rawError e, d\<lparr>sq_modules := t\<rparr>))"

definition ModuleStore_Delete :: "Gorm \<Rightarrow> string \<Rightarrow> ('z SqlDB_scheme, db_error) action" where
  "ModuleStore_Delete G i d =
     (case gDelete (gModules G) (Where (\<lambda>r. m_id r = i) query0) (sq_modules d) of
        ((e, n), t) \<Rightarrow> (map_option rawError e, d\<lparr>sq_modules := t\<rparr>))"

section \<open>CommitStore\<close>

definition CommitStore_Create :: "Gorm \<Rightarrow> Commit \<Rightarrow> ('z SqlDB_scheme, db_error) action" where
  "CommitStore_Create G c d =
     (case gCreate (gCommits G) (commitFromModel c) (sq_commits d) of
        (e, t) \<Rightarrow> (map_option rawError e, d\<lparr>sq_commits := t\<rparr>))"

definition CommitStore_GetByID ::
  "Gorm \<Rightarrow> string \<Rightarrow> string \<Rightarrow> 'z SqlDB_scheme \<Rightarrow> (db_error, Commit) fetch" where
  "CommitStore_GetByID G moduleID commitID d =
     sql_first (gCommits G) commitToModel
       (Where (\<lambda>r. c_module_id r = moduleID \<and> c_id r = commitID) query0) (sq_commits d)"

definition CommitStore_GetLatest :: "Gorm \<Rightarrow> string \<Rightarrow> 'z SqlDB_scheme \<Rightarrow> (db_error, Commit) fetch" where
  "CommitStore_GetLatest G moduleID d =
     sql_first (gCommits G) commitToModel
       (OrderDesc c_created_at (Where (\<lambda>r. c_module_id r = moduleID) query0)) (sq_commits d)"

definition CommitStore_ListByModule :: "Gorm \<Rightarrow> string \<Rightarrow> 'z SqlDB_scheme \<Rightarrow> db_error + Commit list" where
  "CommitStore_ListByModule G moduleID d =
     sql_find (gCommits G) commitToModel
       (OrderDesc c_created_at (Where (\<lambda>r. c_module_id r = moduleID) query0)) (sq_commits d)"

section \<open>LabelStore\<close>

definition LabelStore_Upsert :: "Gorm \<Rightarrow> Label \<Rightarrow> ('z SqlDB_scheme, db_error) action" where
  "LabelStore_Upsert G l d =
     (case gUpsert (gLabels G)
             (\<lambda>a b. l_module_id a = l_module_id b \<and> l_name a = l_name b)
             (\<lambda>new old. old\<lparr>l_commit_id := l_commit_id new, l_updated_at := l_updated_at new\<rparr>)
             (labelFromModel l) (sq_labels d) of
        (e, t) \<Rightarrow> (map_option rawError e, d\<lparr>sq_labels := t\<rparr>))"

definition LabelStore_Get ::
  "Gorm \<Rightarrow> string \<Rightarrow> string \<Rightarrow> 'z SqlDB_scheme \<Rightarrow> (db_error, Label) fetch" where
  "LabelStore_Get G moduleID name d =
     sql_first (gLabels G) labelToModel
       (Where (\<lambda>r. l_module_id r = moduleID \<and> l_name r = name) query0) (sq_labels d)"

definition LabelStore_List :: "Gorm \<Rightarrow> string \<Rightarrow> 'z SqlDB_scheme \<Rightarrow> db_error + Label list" where
  "LabelStore_List G moduleID d =
     sql_find (gLabels G) labelToModel (Where (\<lambda>r. l_module_id r = moduleID) query0) (sq_labels d)"

section \<open>TokenStore\<close>

definition TokenStore_Create :: "Gorm \<Rightarrow> Token \<Rightarrow> ('z SqlDB_scheme, db_error) action" where
  "TokenStore_Create G t d =
     (case gCreate (gTokens G) (tokenFromModel t) (sq_tokens d) of
        (e, t') \<Rightarrow> (map_option rawError e, d\<lparr>sq_tokens := t'\<rparr>))"

definition TokenStore_GetByHash :: "Gorm \<Rightarrow> string \<Rightarrow> 'z SqlDB_scheme \<Rightarrow> (db_error, Token) fetch" where
  "TokenStore_GetByHash G hash d =
     sql_first (gTokens G) tokenToModel (Where (\<lambda>r. t_hash r = hash) query0) (sq_tokens d)"

definition TokenStore_ListByUser :: "Gorm \<Rightarrow> string \<Rightarrow> 'z SqlDB_scheme \<Rightarrow> db_error + Token list" where
  "TokenStore_ListByUser G userID d =
     sql_find (gTokens G) tokenToModel (Where (\<lambda>r. t_user_id r = userID) query0) (sq_tokens d)"

definition TokenStore_Revoke :: "Gorm \<Rightarrow> string \<Rightarrow> string \<Rightarrow> ('z SqlDB_scheme, db_error) action" where
  "TokenStore_Revoke G i userID d =
     (case gDelete (gTokens G) (Where (\<lambda>r. t_id r = i \<and> t_user_id r = userID) query0) (sq_tokens d) of
        ((e, n), t) \<Rightarrow>
          (case e of
             Some err \<Rightarrow> (Some (rawError err), d\<lparr>sq_tokens := t\<rparr>)
           | None \<Rightarrow> if n = 0 then (Some ErrNotFound, d\<lparr>sq_tokens := t\<rparr>)
                     else (None, d\<lparr>sq_tokens := t\<rparr>)))"

text \<open>A \<^verbatim>\<open>NULL\<close> expiry compares as unknown, so such a token is not deleted.\<close>

definition TokenStore_DeleteExpired :: "Gorm \<Rightarrow> gotime \<Rightarrow> ('z SqlDB_scheme, db_error) action" where
  "TokenStore_DeleteExpired G now d =
     (case gDelete (gTokens G)
             (Where (\<lambda>r. case t_expires_at r of None \<Rightarrow> False | Some e \<Rightarrow> e < now) query0) (sq_tokens d) of
        ((e, n), t) \<Rightarrow> (map_option rawError e, d\<lparr>sq_tokens := t\<rparr>))"

definition TokenStore_DeleteByUserAndNote ::
  "Gorm \<Rightarrow> string \<Rightarrow> string \<Rightarrow> ('z SqlDB_scheme, db_error) action" where
  "TokenStore_DeleteByUserAndNote G userID note d =
     (case gDelete (gTokens G) (Where (\<lambda>r. t_user_id r = userID \<and> t_note r = note) query0)
             (sq_tokens d) of
        ((e, n), t) \<Rightarrow> (map_option rawError e, d\<lparr>sq_tokens := t\<rparr>))"

end
