(* ===== verification/Sql_Repos.thy ===== *)
theory Sql_Repos
  imports Sql
begin

text \<open>
  The repositories the SQL backend hands out (\<^verbatim>\<open>DB.Repos\<close>) meet the contract of theory Iface over
  any engine that keeps the documented meaning of its calls: the abstract registry is read off
  the tables by \<open>sql_abs\<close>. \<open>list_gorm\<close> is a concrete engine for all seven tables.
\<close>

text \<open>\<^verbatim>\<open>Repos()\<close> leaves \<^verbatim>\<open>Auth\<close> unset and the server assigns it before serving; it is an argument here.\<close>

definition UserStore :: "Gorm \<Rightarrow> 'z SqlDB_scheme UserRepo" where
  "UserStore G =
     \<lparr>Users_Create = UserStore_Create G, Users_GetByUsername = UserStore_GetByUsername G,
      Users_GetByID = UserStore_GetByID G, Users_ListByOrg = UserStore_ListByOrg G\<rparr>"

definition OrgStore :: "Gorm \<Rightarrow> 'z SqlDB_scheme OrgRepo" where
  "OrgStore G =
     \<lparr>Orgs_Create = OrgStore_Create G, Orgs_GetByName = OrgStore_GetByName G,
      Orgs_GetByID = OrgStore_GetByID G, Orgs_AddMember = OrgStore_AddMember G,
      Orgs_RemoveMember = OrgStore_RemoveMember G, Orgs_ListMembers = OrgStore_ListMembers G,
      Orgs_GetMember = OrgStore_GetMember G\<rparr>"

definition DB_Repos :: "Gorm \<Rightarrow> 'z SqlDB_scheme Authorizer \<Rightarrow> 'z SqlDB_scheme Repos" where
  "DB_Repos G az =
     \<lparr>Users = UserStore G,
      Orgs = OrgStore G,
      Modules = \<lparr>Modules_Create = ModuleStore_Create G, Modules_Get = ModuleStore_Get G,
        Modules_GetByID = ModuleStore_GetByID G, Modules_List = ModuleStore_List G,
        Modules_ListPublic = ModuleStore_ListPublic G,
        Modules_SetVisibility = ModuleStore_SetVisibility G, Modules_Delete = ModuleStore_Delete G\<rparr>,
      Commits = \<lparr>Commits_Create = CommitStore_Create G, Commits_GetByID = CommitStore_GetByID G,
        Commits_GetLatest = CommitStore_GetLatest G, Commits_ListByModule = CommitStore_ListByModule G\<rparr>,
      Labels = \<lparr>Labels_Upsert = LabelStore_Upsert G, Labels_Get = LabelStore_Get G,
        Labels_List = LabelStore_List G\<rparr>,
      Tokens = \<lparr>Tokens_Create = TokenStore_Create G, Tokens_GetByHash = TokenStore_GetByHash G,
        Tokens_ListByUser = TokenStore_ListByUser G, Tokens_Revoke = TokenStore_Revoke G,
        Tokens_DeleteExpired = TokenStore_DeleteExpired G,
        Tokens_DeleteByUserAndNote = TokenStore_DeleteByUserAndNote G\<rparr>,
      Auth = az\<rparr>"

definition sql_abs :: "'z SqlDB_scheme \<Rightarrow> Registry" where
  "sql_abs d =
     \<lparr>rUsers = userToModel ` set (sq_users d), rOrgs = orgToModel ` set (sq_orgs d),
      rMembers = orgMemberToModel ` set (sq_members d), rModules = moduleToModel ` set (sq_modules d),
      rCommits = commitToModel ` set (sq_commits d), rLabels = labelToModel ` set (sq_labels d),
      rTokens = tokenToModel ` set (sq_tokens d)\<rparr>"

lemma DB_Repos_simps [simp]:
  "Users_Create (Users (DB_Repos G az)) = UserStore_Create G"
  "Users_GetByUsername (Users (DB_Repos G az)) = UserStore_GetByUsername G"
  "Users_GetByID (Users (DB_Repos G az)) = UserStore_GetByID G"
  "Users_ListByOrg (Users (DB_Repos G az)) = UserStore_ListByOrg G"
  "Orgs_Create (Orgs (DB_Repos G az)) = OrgStore_Create G"
  "Orgs_GetByName (Orgs (DB_Repos G az)) = OrgStore_GetByName G"
  "Orgs_GetByID (Orgs (DB_Repos G az)) = OrgStore_GetByID G"
  "Orgs_AddMember (Orgs (DB_Repos G az)) = OrgStore_AddMember G"
  "Orgs_RemoveMember (Orgs (DB_Repos G az)) = OrgStore_RemoveMember G"
  "Orgs_ListMembers (Orgs (DB_Repos G az)) = OrgStore_ListMembers G"
  "Orgs_GetMember (Orgs (DB_Repos G az)) = OrgStore_GetMember G"
  "Modules_Create (Modules (DB_Repos G az)) = ModuleStore_Create G"
  "Modules_Get (Modules (DB_Repos G az)) = ModuleStore_Get G"
  "Modules_GetByID (Modules (DB_Repos G az)) = ModuleStore_GetByID G"
  "Modules_List (Modules (DB_Repos G az)) = ModuleStore_List G"
  "Modules_ListPublic (Modules (DB_Repos G az)) = ModuleStore_ListPublic G"
  "Modules_SetVisibility (Modules (DB_Repos G az)) = ModuleStore_SetVisibility G"
  "Modules_Delete (Modules (DB_Repos G az)) = ModuleStore_Delete G"
  "Commits_Create (Commits (DB_Repos G az)) = CommitStore_Create G"
  "Commits_GetByID (Commits (DB_Repos G az)) = CommitStore_GetByID G"
  "Commits_GetLatest (Commits (DB_Repos G az)) = CommitStore_GetLatest G"
  "Commits_ListByModule (Commits (DB_Repos G az)) = CommitStore_ListByModule G"
  "Labels_Upsert (Labels (DB_Repos G az)) = LabelStore_Upsert G"
  "Labels_Get (Labels (DB_Repos G az)) = LabelStore_Get G"
  "Labels_List (Labels (DB_Repos G az)) = LabelStore_List G"
  "Tokens_Create (Tokens (DB_Repos G az)) = TokenStore_Create G"
  "Tokens_GetByHash (Tokens (DB_Repos G az)) = TokenStore_GetByHash G"
  "Tokens_ListByUser (Tokens (DB_Repos G az)) = TokenStore_ListByUser G"
  "Tokens_Revoke (Tokens (DB_Repos G az)) = TokenStore_Revoke G"
  "Tokens_DeleteExpired (Tokens (DB_Repos G az)) = TokenStore_DeleteExpired G"
  "Tokens_DeleteByUserAndNote (Tokens (DB_Repos G az)) = TokenStore_DeleteByUserAndNote G"
  "Auth (DB_Repos G az) = az"
  by (simp_all add: DB_Repos_def UserStore_def OrgStore_def)

lemma DB_Repos_stores: "Users (DB_Repos G az) = UserStore G" "Orgs (DB_Repos G az) = OrgStore G"
  by (simp_all add: DB_Repos_def)

lemmas store_defs [repo_defs] =
  UserStore_Create_def UserStore_GetByUsername_def UserStore_GetByID_def UserStore_ListByOrg_def
  OrgStore_Create_def OrgStore_GetByName_def OrgStore_GetByID_def OrgStore_AddMember_def
  OrgStore_RemoveMember_def OrgStore_ListMembers_def OrgStore_GetMember_def
  ModuleStore_Create_def ModuleStore_Get_def ModuleStore_GetByID_def ModuleStore_List_def
  ModuleStore_ListPublic_def ModuleStore_SetVisibility_def ModuleStore_Delete_def
  CommitStore_Create_def CommitStore_GetByID_def CommitStore_GetLatest_def
  CommitStore_ListByModule_def LabelStore_Upsert_def LabelStore_Get_def LabelStore_List_def
  TokenStore_Create_def TokenStore_GetByHash_def TokenStore_ListByUser_def TokenStore_Revoke_def
  TokenStore_DeleteExpired_def TokenStore_DeleteByUserAndNote_def

section \<open>Lookups\<close>

context gorm_sound
begin

lemma sql_first_Ret:
  "sql_first g conv q t = Ret a \<Longrightarrow> \<exists>r\<in>set t. q_where q r \<and> a = conv r"
  unfolding sql_first_def using first_found by (fastforce split: sum.splits)

lemma sql_first_missing:
  "sql_first g conv q t = RetErr p ErrNotFound \<Longrightarrow> r \<in> set t \<Longrightarrow> \<not> q_where q r"
proof -
  assume "sql_first g conv q t = RetErr p ErrNotFound" and r: "r \<in> set t"
  then obtain e where "gFirst g q t = Inl e" "mapNotFound e = ErrNotFound"
    unfolding sql_first_def by (auto split: sum.splits)
  then have "gFirst g q t = Inl ErrRecordNotFound" by (cases e) auto
  then show ?thesis using first_none r by blast
qed

lemma sql_first_keyed:
  assumes "\<And>k d. get k d = sql_first g conv (Where (P k) query0) (tbl d)"
    and "\<And>k r. P k r \<longleftrightarrow> key (conv r) = k" and "\<And>d. elems d = conv ` set (tbl d)"
  shows "keyed_read get elems key"
proof
  show "a \<in> elems d \<and> key a = k" if "get k d = Ret a" for k d a
    using sql_first_Ret [of conv "Where (P k) query0" "tbl d" a] that assms
    by (auto simp: query_defs)
  show "key a \<noteq> k" if "get k d = RetErr p ErrNotFound" "a \<in> elems d" for k d p a
    using sql_first_missing [of conv "Where (P k) query0" "tbl d" p] that assms
    by (auto simp: query_defs)
qed

lemma sql_find_set:
  "sql_find g conv q t = Inr as \<Longrightarrow> q_limit q = None \<Longrightarrow> set as = conv ` {r \<in> set t. q_where q r}"
  unfolding sql_find_def by (auto split: sum.splits dest: find_set)

lemma sql_find_subset:
  "sql_find g conv q t = Inr as \<Longrightarrow> set as \<subseteq> conv ` {r \<in> set t. q_where q r}"
  unfolding sql_find_def using find_subset by (fastforce split: sum.splits)

lemma sql_find_sorted:
  "sql_find g conv q t = Inr as \<Longrightarrow> q_order q = Some col \<Longrightarrow> (\<And>r. key (conv r) = col r) \<Longrightarrow>
     sorted_wrt (\<lambda>a b. key b \<le> key a) as"
  unfolding sql_find_def by (auto split: sum.splits dest: find_sorted simp: sorted_wrt_map)

end

locale gorm_db =
    u: gorm_sound "gUsers G" user_clash +
    o: gorm_sound "gOrgs G" org_clash +
    mb: gorm_sound "gMembers G" member_clash +
    m: gorm_sound "gModules G" module_clash +
    c: gorm_sound "gCommits G" commit_clash +
    l: gorm_sound "gLabels G" label_clash +
    t: gorm_sound "gTokens G" token_clash
  for G :: Gorm

context gorm_db
begin

lemma get_user_by_name: "keyed_read (UserStore_GetByUsername G) (\<lambda>d. rUsers (sql_abs d)) uUsername"
  by (rule u.sql_first_keyed [of _ _ _ sq_users]) (auto simp: UserStore_GetByUsername_def sql_abs_def)

lemma get_user_by_id: "keyed_read (UserStore_GetByID G) (\<lambda>d. rUsers (sql_abs d)) uID"
  by (rule u.sql_first_keyed [of _ _ _ sq_users]) (auto simp: UserStore_GetByID_def sql_abs_def)

lemma get_org_by_name: "keyed_read (OrgStore_GetByName G) (\<lambda>d. rOrgs (sql_abs d)) oName"
  by (rule o.sql_first_keyed [of _ _ _ sq_orgs]) (auto simp: OrgStore_GetByName_def sql_abs_def)

lemma get_org_by_id: "keyed_read (OrgStore_GetByID G) (\<lambda>d. rOrgs (sql_abs d)) oID"
  by (rule o.sql_first_keyed [of _ _ _ sq_orgs]) (auto simp: OrgStore_GetByID_def sql_abs_def)

lemma get_member:
  "keyed_read (\<lambda>(i, u). OrgStore_GetMember G i u) (\<lambda>d. rMembers (sql_abs d)) member_key"
  by (rule mb.sql_first_keyed [of _ _ _ sq_members]) (auto simp: OrgStore_GetMember_def sql_abs_def)

lemma get_module:
  "keyed_read (\<lambda>(own, n). ModuleStore_Get G own n) (\<lambda>d. rModules (sql_abs d)) module_key"
  by (rule m.sql_first_keyed [of _ _ _ sq_modules]) (auto simp: ModuleStore_Get_def sql_abs_def)

lemma get_module_by_id: "keyed_read (ModuleStore_GetByID G) (\<lambda>d. rModules (sql_abs d)) mID"
  by (rule m.sql_first_keyed [of _ _ _ sq_modules]) (auto simp: ModuleStore_GetByID_def sql_abs_def)

lemma get_commit:
  "keyed_read (\<lambda>(i, c). CommitStore_GetByID G i c) (\<lambda>d. rCommits (sql_abs d)) commit_key"
  by (rule c.sql_first_keyed [of _ _ _ sq_commits]) (auto simp: CommitStore_GetByID_def sql_abs_def)

lemma get_label:
  "keyed_read (\<lambda>(i, n). LabelStore_Get G i n) (\<lambda>d. rLabels (sql_abs d)) label_key"
  by (rule l.sql_first_keyed [of _ _ _ sq_labels]) (auto simp: LabelStore_Get_def sql_abs_def)

lemma get_token: "keyed_read (TokenStore_GetByHash G) (\<lambda>d. rTokens (sql_abs d)) tHash"
  by (rule t.sql_first_keyed [of _ _ _ sq_tokens]) (auto simp: TokenStore_GetByHash_def sql_abs_def)

lemma upsert_label_sql:
  assumes up: "LabelStore_Upsert G lab d = (None, d')"
    and inj: "inj_on label_key (rLabels (sql_abs d))"
  shows "upsert_label lab (rLabels (sql_abs d)) (rLabels (sql_abs d')) \<and>
    sql_abs d' = (sql_abs d)\<lparr>rLabels := rLabels (sql_abs d')\<rparr> \<and>
    (inj_on lID (rLabels (sql_abs d)) \<longrightarrow> inj_on lID (rLabels (sql_abs d')))"
proof -
  let ?same = "\<lambda>a b :: LabelRow. l_module_id a = l_module_id b \<and> l_name a = l_name b"
  let ?upd = "\<lambda>new old :: LabelRow. old\<lparr>l_commit_id := l_commit_id new, l_updated_at := l_updated_at new\<rparr>"
  let ?r = "labelFromModel lab" and ?t = "sq_labels d"
  from up obtain t' where g: "gUpsert (gLabels G) ?same ?upd ?r ?t = (None, t')"
      and d': "d' = d\<lparr>sq_labels := t'\<rparr>"
    by (auto simp: LabelStore_Upsert_def split: prod.splits)
  have L: "rLabels (sql_abs d) = labelToModel ` set ?t"
    and L': "rLabels (sql_abs d') = labelToModel ` set t'"
    and eq: "sql_abs d' = (sql_abs d)\<lparr>rLabels := rLabels (sql_abs d')\<rparr>"
    by (simp_all add: d' sql_abs_def)
  show ?thesis
  proof (cases "\<exists>x\<in>set ?t. ?same x ?r")
    case True
    then obtain x where x: "x \<in> set ?t" "?same x ?r" by blast
    have "labelToModel (if ?same y ?r then ?upd ?r y else y) = touch_label lab (labelToModel y)" for y
      by (simp add: touch_label_def) (simp add: labelToModel_def)
    moreover have "set t' = (\<lambda>y. if ?same y ?r then ?upd ?r y else y) ` set ?t"
      using l.upsert_set [OF g] unfolding if_P [OF True] .
    ultimately have "rLabels (sql_abs d') = touch_label lab ` rLabels (sql_abs d)"
      unfolding L L' by (simp only: image_image)
    moreover have "upsert_label lab (rLabels (sql_abs d)) (touch_label lab ` rLabels (sql_abs d))"
      using x by (intro upsert_label_touch [OF inj, of "labelToModel x"]) (auto simp: L)
    ultimately show ?thesis using eq inj_on_image_keep [of lID _ "touch_label lab"] by auto
  next
    case False
    have cl: "\<forall>x\<in>set ?t. \<not> label_clash x ?r" using l.upsert_done [OF g] False by blast
    have ins: "rLabels (sql_abs d') = insert lab (rLabels (sql_abs d))"
      using l.upsert_set [OF g] unfolding L L' if_not_P [OF False] by simp
    moreover have "upsert_label lab (rLabels (sql_abs d)) (insert lab (rLabels (sql_abs d)))"
      using False by (intro upsert_label_insert) (auto simp: L)
    moreover have "\<forall>y\<in>rLabels (sql_abs d). lID y \<noteq> lID lab"
      using cl by (auto simp: L label_clash_def)
    ultimately show ?thesis using eq inj_on_insert_fresh [of lID] by auto
  qed
qed

lemma user_create_sql:
  "UserStore_Create G usr d = (None, d') \<Longrightarrow>
     (\<forall>v\<in>rUsers (sql_abs d). uID v \<noteq> uID usr \<and> uUsername v \<noteq> uUsername usr) \<and>
     sql_abs d' = (sql_abs d)\<lparr>rUsers := insert usr (rUsers (sql_abs d))\<rparr>"
  by (auto simp: UserStore_Create_def sql_abs_def clash_defs orgMemberToModel_def split: prod.splits dest!: u.create_set)

lemma user_create_err_sql:
  "UserStore_Create G usr d = (Some e, d') \<Longrightarrow> sql_abs d' = sql_abs d"
  by (auto simp: UserStore_Create_def sql_abs_def split: prod.splits dest: u.create_failed)

lemma org_create_sql:
  "OrgStore_Create G g d = (None, d') \<Longrightarrow>
     (\<forall>v\<in>rOrgs (sql_abs d). oID v \<noteq> oID g \<and> oName v \<noteq> oName g) \<and>
     sql_abs d' = (sql_abs d)\<lparr>rOrgs := insert g (rOrgs (sql_abs d))\<rparr>"
  by (auto simp: OrgStore_Create_def sql_abs_def clash_defs orgMemberToModel_def split: prod.splits dest!: o.create_set)

lemma org_create_err_sql:
  "OrgStore_Create G g d = (Some e, d') \<Longrightarrow> sql_abs d' = sql_abs d"
  by (auto simp: OrgStore_Create_def sql_abs_def split: prod.splits dest: o.create_failed)

lemma member_create_sql:
  "OrgStore_AddMember G i uid ro d = (None, d') \<Longrightarrow>
     (\<forall>v\<in>rMembers (sql_abs d). member_key v \<noteq> (i, uid)) \<and>
     sql_abs d' = (sql_abs d)\<lparr>rMembers := insert \<lparr>omOrgID = i, omUserID = uid, omRole = ro\<rparr> (rMembers (sql_abs d))\<rparr>"
  by (auto simp: OrgStore_AddMember_def sql_abs_def clash_defs orgMemberToModel_def split: prod.splits dest!: mb.create_set)

lemma member_create_err_sql:
  "OrgStore_AddMember G i uid ro d = (Some e, d') \<Longrightarrow> sql_abs d' = sql_abs d"
  by (auto simp: OrgStore_AddMember_def sql_abs_def split: prod.splits dest: mb.create_failed)

lemma column_default_simps [simp]:
  "m_id (column_default r) = m_id r" "m_owner_name (column_default r) = m_owner_name r"
  "m_name (column_default r) = m_name r" "moduleToModel (column_default (moduleFromModel m)) = with_default m"
  by (simp_all add: column_default_def with_default_def moduleToModel_def moduleFromModel_def model_consts)

lemma module_create_sql:
  "ModuleStore_Create G md d = (None, d') \<Longrightarrow>
     (\<forall>v\<in>rModules (sql_abs d). mID v \<noteq> mID md \<and> module_key v \<noteq> module_key md) \<and>
     sql_abs d' = (sql_abs d)\<lparr>rModules := insert (with_default md) (rModules (sql_abs d))\<rparr>"
  by (auto simp: ModuleStore_Create_def sql_abs_def clash_defs orgMemberToModel_def split: prod.splits dest!: m.create_set)

lemma module_create_err_sql:
  "ModuleStore_Create G md d = (Some e, d') \<Longrightarrow> sql_abs d' = sql_abs d"
  by (auto simp: ModuleStore_Create_def sql_abs_def split: prod.splits dest: m.create_failed)

lemma commit_create_sql:
  "CommitStore_Create G cm d = (None, d') \<Longrightarrow>
     (\<forall>v\<in>rCommits (sql_abs d). commit_key v \<noteq> commit_key cm) \<and>
     sql_abs d' = (sql_abs d)\<lparr>rCommits := insert cm (rCommits (sql_abs d))\<rparr>"
  by (auto simp: CommitStore_Create_def sql_abs_def clash_defs orgMemberToModel_def split: prod.splits dest!: c.create_set)

lemma commit_create_err_sql:
  "CommitStore_Create G cm d = (Some e, d') \<Longrightarrow> sql_abs d' = sql_abs d"
  by (auto simp: CommitStore_Create_def sql_abs_def split: prod.splits dest: c.create_failed)

lemma token_create_sql:
  "TokenStore_Create G tk d = (None, d') \<Longrightarrow>
     (\<forall>v\<in>rTokens (sql_abs d). tID v \<noteq> tID tk \<and> tHash v \<noteq> tHash tk) \<and>
     sql_abs d' = (sql_abs d)\<lparr>rTokens := insert tk (rTokens (sql_abs d))\<rparr>"
  by (auto simp: TokenStore_Create_def sql_abs_def clash_defs orgMemberToModel_def split: prod.splits dest!: t.create_set)

lemma token_create_err_sql:
  "TokenStore_Create G tk d = (Some e, d') \<Longrightarrow> sql_abs d' = sql_abs d"
  by (auto simp: TokenStore_Create_def sql_abs_def split: prod.splits dest: t.create_failed)

lemma member_remove_sql:
  "OrgStore_RemoveMember G i uid d = (None, d') \<Longrightarrow>
     sql_abs d' = (sql_abs d)\<lparr>rMembers := {v \<in> rMembers (sql_abs d). member_key v \<noteq> (i, uid)}\<rparr>"
  by (auto simp: OrgStore_RemoveMember_def sql_abs_def query_defs expired_at_def split: prod.splits option.splits if_splits dest!: mb.delete_set(1))

lemma member_remove_err_sql:
  "OrgStore_RemoveMember G i uid d = (Some e, d') \<Longrightarrow> sql_abs d' = sql_abs d"
  by (auto simp: OrgStore_RemoveMember_def sql_abs_def split: prod.splits option.splits dest: mb.delete_failed)

lemma module_delete_sql:
  "ModuleStore_Delete G i d = (None, d') \<Longrightarrow>
     sql_abs d' = (sql_abs d)\<lparr>rModules := {v \<in> rModules (sql_abs d). mID v \<noteq> i}\<rparr>"
  by (auto simp: ModuleStore_Delete_def sql_abs_def query_defs expired_at_def split: prod.splits option.splits if_splits dest!: m.delete_set(1))

lemma module_delete_err_sql:
  "ModuleStore_Delete G i d = (Some e, d') \<Longrightarrow> sql_abs d' = sql_abs d"
  by (auto simp: ModuleStore_Delete_def sql_abs_def split: prod.splits option.splits dest: m.delete_failed)

lemma token_note_sql:
  "TokenStore_DeleteByUserAndNote G uid n d = (None, d') \<Longrightarrow>
     sql_abs d' = (sql_abs d)\<lparr>rTokens := {v \<in> rTokens (sql_abs d). \<not> (tUserID v = uid \<and> tNote v = n)}\<rparr>"
  by (auto simp: TokenStore_DeleteByUserAndNote_def sql_abs_def query_defs expired_at_def split: prod.splits option.splits if_splits dest!: t.delete_set(1))

lemma token_note_err_sql:
  "TokenStore_DeleteByUserAndNote G uid n d = (Some e, d') \<Longrightarrow> sql_abs d' = sql_abs d"
  by (auto simp: TokenStore_DeleteByUserAndNote_def sql_abs_def split: prod.splits option.splits dest: t.delete_failed)

lemma expired_row:
  "(case t_expires_at r of None \<Rightarrow> False | Some e \<Rightarrow> e < now) \<longleftrightarrow> expired_at now (tokenToModel r)"
  by (simp add: expired_at_def split: option.split)

lemma token_expired_sql:
  "TokenStore_DeleteExpired G now d = (None, d') \<Longrightarrow>
     sql_abs d' = (sql_abs d)\<lparr>rTokens := {v \<in> rTokens (sql_abs d). \<not> expired_at now v}\<rparr>"
  by (auto simp: TokenStore_DeleteExpired_def sql_abs_def query_defs expired_row split: prod.splits
      dest!: t.delete_set(1))

lemma token_expired_err_sql:
  "TokenStore_DeleteExpired G now d = (Some e, d') \<Longrightarrow> sql_abs d' = sql_abs d"
  by (auto simp: TokenStore_DeleteExpired_def sql_abs_def split: prod.splits option.splits dest: t.delete_failed)

lemma set_visibility_sql:
  "ModuleStore_SetVisibility G i vis d = (None, d') \<Longrightarrow>
     sql_abs d' = (sql_abs d)\<lparr>rModules := set_visibility i vis ` rModules (sql_abs d)\<rparr>"
proof -
  assume "ModuleStore_SetVisibility G i vis d = (None, d')"
  then obtain t' where d': "d' = d\<lparr>sq_modules := t'\<rparr>"
      and "gUpdate (gModules G) (Where (\<lambda>r. m_id r = i) query0) (\<lambda>r. r\<lparr>m_visibility := vis\<rparr>) (sq_modules d) = (None, t')"
    by (auto simp: ModuleStore_SetVisibility_def split: prod.splits)
  from m.update_set [OF this(2)] have t':
      "set t' = (\<lambda>r. if m_id r = i then r\<lparr>m_visibility := vis\<rparr> else r) ` set (sq_modules d)"
    by (simp only: query_defs) simp
  have "moduleToModel (if m_id r = i then r\<lparr>m_visibility := vis\<rparr> else r) =
      set_visibility i vis (moduleToModel r)" for r
    by (simp add: set_visibility_def) (simp add: moduleToModel_def)
  then show ?thesis unfolding d' sql_abs_def by (simp add: t' image_image del: if_image_distrib)
qed

lemma set_visibility_err_sql:
  "ModuleStore_SetVisibility G i vis d = (Some e, d') \<Longrightarrow> sql_abs d' = sql_abs d"
  by (auto simp: ModuleStore_SetVisibility_def sql_abs_def split: prod.splits dest: m.update_failed)

lemma upsert_err_sql: "LabelStore_Upsert G lab d = (Some e, d') \<Longrightarrow> sql_abs d' = sql_abs d"
  by (auto simp: LabelStore_Upsert_def sql_abs_def split: prod.splits dest: l.upsert_failed)

lemma revoke_sql:
  "TokenStore_Revoke G i uid d = (None, d') \<Longrightarrow>
     (\<exists>v\<in>rTokens (sql_abs d). tID v = i \<and> tUserID v = uid) \<and>
     sql_abs d' = (sql_abs d)\<lparr>rTokens := {v \<in> rTokens (sql_abs d). \<not> (tID v = i \<and> tUserID v = uid)}\<rparr>"
proof -
  assume a: "TokenStore_Revoke G i uid d = (None, d')"
  let ?q = "Where (\<lambda>r. t_id r = i \<and> t_user_id r = uid) query0"
  obtain e' n t' where g: "gDelete (gTokens G) ?q (sq_tokens d) = ((e', n), t')"
    by (metis surj_pair)
  with a have e: "e' = None" and n: "n \<noteq> 0" and d': "d' = d\<lparr>sq_tokens := t'\<rparr>"
    by (auto simp: TokenStore_Revoke_def split: option.splits if_splits)
  note del = t.delete_set [OF g [unfolded e]]
  from del(2) n obtain r where "r \<in> set (sq_tokens d)" "t_id r = i" "t_user_id r = uid"
    by (auto simp: query_defs)
  then have "\<exists>v\<in>rTokens (sql_abs d). tID v = i \<and> tUserID v = uid"
    by (auto simp: sql_abs_def)
  moreover have "set t' = {x \<in> set (sq_tokens d). \<not> (t_id x = i \<and> t_user_id x = uid)}"
    using del(1) by (simp add: query_defs)
  then have "tokenToModel ` set t' =
      {v \<in> tokenToModel ` set (sq_tokens d). \<not> (tID v = i \<and> tUserID v = uid)}"
    by auto
  ultimately show ?thesis by (simp add: d' sql_abs_def)
qed

lemma revoke_err_sql: "TokenStore_Revoke G i uid d = (Some e, d') \<Longrightarrow> sql_abs d' = sql_abs d"
proof -
  assume a: "TokenStore_Revoke G i uid d = (Some e, d')"
  let ?q = "Where (\<lambda>r. t_id r = i \<and> t_user_id r = uid) query0"
  obtain e' n t' where g: "gDelete (gTokens G) ?q (sq_tokens d) = ((e', n), t')"
    by (metis surj_pair)
  show ?thesis
  proof (cases e')
    case None
    with a g have "n = 0" and d': "d' = d\<lparr>sq_tokens := t'\<rparr>"
      by (auto simp: TokenStore_Revoke_def split: if_splits)
    with t.delete_set [OF g [unfolded None]] have "set t' = set (sq_tokens d)"
      by auto
    with d' show ?thesis by (simp add: sql_abs_def)
  next
    case (Some err)
    with a g t.delete_failed [OF g [unfolded Some]] show ?thesis
      by (auto simp: TokenStore_Revoke_def sql_abs_def)
  qed
qed

lemma list_sql:
  "ModuleStore_List G own d = Inr ms \<Longrightarrow> set ms = {v \<in> rModules (sql_abs d). mOwnerName v = own}"
  "CommitStore_ListByModule G i d = Inr cs \<Longrightarrow> set cs = {v \<in> rCommits (sql_abs d). cModuleID v = i}"
  "LabelStore_List G i d = Inr ls \<Longrightarrow> set ls = {v \<in> rLabels (sql_abs d). lModuleID v = i}"
  "TokenStore_ListByUser G uid d = Inr ts \<Longrightarrow> set ts = {v \<in> rTokens (sql_abs d). tUserID v = uid}"
  by (auto simp: ModuleStore_List_def CommitStore_ListByModule_def LabelStore_List_def
      TokenStore_ListByUser_def sql_abs_def query_defs
      dest!: m.sql_find_set c.sql_find_set l.sql_find_set t.sql_find_set)

lemma list_commits_sql:
  "CommitStore_ListByModule G i d = Inr cs \<Longrightarrow>
     set cs = {v \<in> rCommits (sql_abs d). cModuleID v = i} \<and>
     sorted_wrt (\<lambda>a b. cCreatedAt b \<le> cCreatedAt a) cs"
proof
  assume *: "CommitStore_ListByModule G i d = Inr cs"
  then show "set cs = {v \<in> rCommits (sql_abs d). cModuleID v = i}" by (rule list_sql(2))
  from * show "sorted_wrt (\<lambda>a b. cCreatedAt b \<le> cCreatedAt a) cs"
    unfolding CommitStore_ListByModule_def
    by (rule c.sql_find_sorted [of _ _ _ _ c_created_at]) (auto simp: query_defs)
qed

lemma list_public_sql:
  "ModuleStore_ListPublic G q lim d = Inr ms \<Longrightarrow>
     set ms \<subseteq> {v \<in> rModules (sql_abs d). mVisibility v = VisibilityPublic}"
  by (auto simp: ModuleStore_ListPublic_def sql_abs_def Let_def query_defs VisibilityPublic_def
      split: if_splits dest!: m.sql_find_subset)

end

text \<open>The SQL backend keeps the contract, whatever authorizer is attached to its repositories.\<close>

sublocale gorm_db \<subseteq> sql: repos_sound "DB_Repos G az" sql_abs for az
  by (intro repos_sound.intro repos_reads.intro repos_reads_axioms.intro repos_sound_axioms.intro; simp only: DB_Repos_simps)
     (rule get_user_by_name get_user_by_id get_org_by_name get_org_by_id get_member
        get_module get_module_by_id get_commit get_label get_token
      | erule user_create_sql user_create_err_sql org_create_sql org_create_err_sql
        member_create_sql member_create_err_sql member_remove_sql member_remove_err_sql
        module_create_sql module_create_err_sql set_visibility_sql set_visibility_err_sql
        module_delete_sql module_delete_err_sql list_sql list_public_sql
        commit_create_sql commit_create_err_sql list_commits_sql upsert_err_sql
        token_create_sql token_create_err_sql revoke_sql revoke_err_sql
        token_note_sql token_note_err_sql token_expired_sql token_expired_err_sql
      | erule (1) upsert_label_sql)+

section \<open>A reliable engine\<close>

context gorm_reliable
begin

lemma sql_first_total: "sql_first g conv q t = RetErr p e \<Longrightarrow> e = ErrNotFound"
  unfolding sql_first_def using first_ok by (fastforce split: sum.splits)

lemma sql_find_ok: "\<exists>as. sql_find g conv q t = Inr as"
  unfolding sql_find_def using find_ok [of q t] by auto

end

locale gorm_db_reliable = gorm_db +
    u: gorm_reliable "gUsers G" user_clash +
    o: gorm_reliable "gOrgs G" org_clash +
    mb: gorm_reliable "gMembers G" member_clash +
    m: gorm_reliable "gModules G" module_clash +
    c: gorm_reliable "gCommits G" commit_clash +
    l: gorm_reliable "gLabels G" label_clash +
    t: gorm_reliable "gTokens G" token_clash

context gorm_db_reliable
begin

lemma reads_total:
  "UserStore_GetByUsername G k d = RetErr pu e \<Longrightarrow> e = ErrNotFound"
  "UserStore_GetByID G k d = RetErr pu e \<Longrightarrow> e = ErrNotFound"
  "OrgStore_GetByName G k d = RetErr po e \<Longrightarrow> e = ErrNotFound"
  "OrgStore_GetByID G k d = RetErr po e \<Longrightarrow> e = ErrNotFound"
  "OrgStore_GetMember G k k' d = RetErr pmb e \<Longrightarrow> e = ErrNotFound"
  "ModuleStore_Get G k k' d = RetErr pm e \<Longrightarrow> e = ErrNotFound"
  "ModuleStore_GetByID G k d = RetErr pm e \<Longrightarrow> e = ErrNotFound"
  "CommitStore_GetByID G k k' d = RetErr pc e \<Longrightarrow> e = ErrNotFound"
  "LabelStore_Get G k k' d = RetErr pl e \<Longrightarrow> e = ErrNotFound"
  "TokenStore_GetByHash G k d = RetErr pt e \<Longrightarrow> e = ErrNotFound"
  by (auto simp: store_defs dest: u.sql_first_total o.sql_first_total mb.sql_first_total
      m.sql_first_total c.sql_first_total l.sql_first_total t.sql_first_total)

lemma lists_ok:
  "\<exists>ms. ModuleStore_List G k d = Inr ms"
  "\<exists>ms. ModuleStore_ListPublic G k lim d = Inr ms"
  "\<exists>cs. CommitStore_ListByModule G k d = Inr cs"
  "\<exists>ls. LabelStore_List G k d = Inr ls"
  "\<exists>ts. TokenStore_ListByUser G k d = Inr ts"
  by (simp_all add: store_defs Let_def m.sql_find_ok c.sql_find_ok l.sql_find_ok t.sql_find_ok)

lemma user_create_ok_sql:
  "\<forall>v\<in>rUsers (sql_abs d). uID v \<noteq> uID usr \<and> uUsername v \<noteq> uUsername usr \<Longrightarrow>
     \<exists>d'. UserStore_Create G usr d = (None, d')"
  using u.create_ok [of "sq_users d" "userFromModel usr"]
  by (auto simp: UserStore_Create_def sql_abs_def user_clash_def)

lemma org_create_ok_sql:
  "\<forall>v\<in>rOrgs (sql_abs d). oID v \<noteq> oID g \<and> oName v \<noteq> oName g \<Longrightarrow>
     \<exists>d'. OrgStore_Create G g d = (None, d')"
  using o.create_ok [of "sq_orgs d" "orgFromModel g"]
  by (auto simp: OrgStore_Create_def sql_abs_def org_clash_def)

lemma member_create_ok_sql:
  "\<forall>v\<in>rMembers (sql_abs d). member_key v \<noteq> (i, uid) \<Longrightarrow>
     \<exists>d'. OrgStore_AddMember G i uid ro d = (None, d')"
  using mb.create_ok [of "sq_members d" "\<lparr>om_org_id = i, om_user_id = uid, om_role = ro\<rparr>"]
  by (auto simp: OrgStore_AddMember_def sql_abs_def member_clash_def)

lemma module_create_ok_sql:
  "\<forall>v\<in>rModules (sql_abs d). mID v \<noteq> mID md \<and> module_key v \<noteq> module_key md \<Longrightarrow>
     \<exists>d'. ModuleStore_Create G md d = (None, d')"
  using m.create_ok [of "sq_modules d" "column_default (moduleFromModel md)"]
  by (auto simp: ModuleStore_Create_def sql_abs_def module_clash_def)

lemma commit_create_ok_sql:
  "\<forall>v\<in>rCommits (sql_abs d). commit_key v \<noteq> commit_key cm \<Longrightarrow>
     \<exists>d'. CommitStore_Create G cm d = (None, d')"
  using c.create_ok [of "sq_commits d" "commitFromModel cm"]
  by (auto simp: CommitStore_Create_def sql_abs_def commit_clash_def)

lemma token_create_ok_sql:
  "\<forall>v\<in>rTokens (sql_abs d). tID v \<noteq> tID tk \<and> tHash v \<noteq> tHash tk \<Longrightarrow>
     \<exists>d'. TokenStore_Create G tk d = (None, d')"
  using t.create_ok [of "sq_tokens d" "tokenFromModel tk"]
  by (auto simp: TokenStore_Create_def sql_abs_def token_clash_def)

lemma label_upsert_ok_sql:
  assumes "\<forall>v\<in>rLabels (sql_abs d). lID v \<noteq> lID lab"
  shows "\<exists>d'. LabelStore_Upsert G lab d = (None, d')"
proof -
  have "\<forall>x\<in>set (sq_labels d). label_clash x (labelFromModel lab) \<longrightarrow>
      l_module_id x = l_module_id (labelFromModel lab) \<and> l_name x = l_name (labelFromModel lab)"
    using assms by (auto simp: label_clash_def sql_abs_def)
  then obtain t' where "gUpsert (gLabels G)
      (\<lambda>a b. l_module_id a = l_module_id b \<and> l_name a = l_name b)
      (\<lambda>new old. old\<lparr>l_commit_id := l_commit_id new, l_updated_at := l_updated_at new\<rparr>)
      (labelFromModel lab) (sq_labels d) = (None, t')"
    using l.upsert_ok [of "sq_labels d" "labelFromModel lab"
        "\<lambda>a b. l_module_id a = l_module_id b \<and> l_name a = l_name b"] by blast
  then show ?thesis by (simp add: LabelStore_Upsert_def)
qed

lemma deletes_ok_sql:
  "\<exists>d'. OrgStore_RemoveMember G k k' d = (None, d')"
  "\<exists>d'. TokenStore_DeleteByUserAndNote G k k' d = (None, d')"
proof -
  obtain n t' where "gDelete (gMembers G) (Where (\<lambda>r. om_org_id r = k \<and> om_user_id r = k') query0)
      (sq_members d) = ((None, n), t')" using mb.delete_ok by blast
  then show "\<exists>d'. OrgStore_RemoveMember G k k' d = (None, d')"
    by (simp add: OrgStore_RemoveMember_def)
  obtain n' t'' where "gDelete (gTokens G) (Where (\<lambda>r. t_user_id r = k \<and> t_note r = k') query0)
      (sq_tokens d) = ((None, n'), t'')" using t.delete_ok by blast
  then show "\<exists>d'. TokenStore_DeleteByUserAndNote G k k' d = (None, d')"
    by (simp add: TokenStore_DeleteByUserAndNote_def)
qed

lemma revoke_ok_sql:
  assumes "\<exists>v\<in>rTokens (sql_abs d). tID v = k \<and> tUserID v = k'"
  shows "\<exists>d'. TokenStore_Revoke G k k' d = (None, d')"
proof -
  let ?q = "Where (\<lambda>r. t_id r = k \<and> t_user_id r = k') query0"
  obtain n t' where g: "gDelete (gTokens G) ?q (sq_tokens d) = ((None, n), t')"
    using t.delete_ok by blast
  have "n \<noteq> 0" using t.delete_set(2) [OF g] assms by (auto simp: sql_abs_def query_defs)
  with g show ?thesis by (simp add: TokenStore_Revoke_def)
qed

end

sublocale gorm_db_reliable \<subseteq> sql: repos_reliable "DB_Repos G az" sql_abs for az
  by (intro repos_reliable.intro repos_reads_total.intro repos_reads_total_axioms.intro
        repos_reliable_axioms.intro sql.repos_sound_axioms sql.repos_reads_axioms;
      simp only: DB_Repos_simps)
     (rule lists_ok deletes_ok_sql
      | erule reads_total user_create_ok_sql org_create_ok_sql member_create_ok_sql
          module_create_ok_sql commit_create_ok_sql token_create_ok_sql label_upsert_ok_sql
          revoke_ok_sql)+

section \<open>The concrete engine\<close>

text \<open>\<^verbatim>\<open>LIKE\<close> with \<^verbatim>\<open>%\<close> and \<^verbatim>\<open>_\<close> as in SQL; case folding of ASCII letters.\<close>

fun like :: "string \<Rightarrow> string \<Rightarrow> bool" where
  "like s [] = (s = [])"
| "like [] (p # ps) = (p = CHR ''%'' \<and> like [] ps)"
| "like (c # s) (p # ps) =
     (if p = CHR ''%'' then like (c # s) ps \<or> like s (p # ps)
      else (p = CHR ''_'' \<or> p = c) \<and> like s ps)"

definition lower_ascii :: "string \<Rightarrow> string" where
  "lower_ascii s = map (\<lambda>c. if (65 :: nat) \<le> of_char c \<and> (of_char c :: nat) \<le> 90
                             then char_of (of_char c + 32 :: nat) else c) s"

definition list_gorm :: Gorm where
  "list_gorm =
     \<lparr>gUsers = list_engine user_clash, gOrgs = list_engine org_clash, gMembers = list_engine member_clash,
      gModules = list_engine module_clash, gCommits = list_engine commit_clash,
      gLabels = list_engine label_clash, gTokens = list_engine token_clash,
      gJoin = (\<lambda>on us ms. Inr [u. u \<leftarrow> us, m \<leftarrow> ms, on u m]),
      gLike = like, gLower = lower_ascii, gToLower = lower_ascii\<rparr>"

interpretation list_db: gorm_db_reliable list_gorm
  by (intro gorm_db_reliable.intro gorm_db.intro)
     (simp_all add: list_gorm_def list_engine_reliable gorm_reliable.axioms(1) [OF list_engine_reliable])

end
