(* ===== verification/Go_Lib.thy ===== *)
theory Go_Lib
  imports Prelude
begin

text \<open>
  The parts of Go's standard library that the registry's decisions rest on, on byte
  strings: \<^verbatim>\<open>strings.HasPrefix\<close>, \<^verbatim>\<open>HasSuffix\<close>, \<^verbatim>\<open>Contains\<close>, \<^verbatim>\<open>TrimPrefix\<close>, \<^verbatim>\<open>Split\<close>,
  \<^verbatim>\<open>TrimSpace\<close> and \<^verbatim>\<open>Join\<close>, the anchored fragment of \<^verbatim>\<open>regexp\<close> that the name patterns use, and
  \<^verbatim>\<open>encoding/hex\<close>. These are library semantics, not code of the repository, so no entry of
  the source map points here.
\<close>

section \<open>Package strings\<close>

definition HasPrefix :: "string \<Rightarrow> string \<Rightarrow> bool" where
  "HasPrefix s p \<longleftrightarrow> take (length p) s = p"

definition HasSuffix :: "string \<Rightarrow> string \<Rightarrow> bool" where
  "HasSuffix s p \<longleftrightarrow> length p \<le> length s \<and> drop (length s - length p) s = p"

fun Contains :: "string \<Rightarrow> string \<Rightarrow> bool" where
  "Contains [] sub = (sub = [])"
| "Contains (c # s) sub = (HasPrefix (c # s) sub \<or> Contains s sub)"

definition TrimPrefix :: "string \<Rightarrow> string \<Rightarrow> string" where
  "TrimPrefix s p = (if HasPrefix s p then drop (length p) s else s)"

lemma HasPrefix_iff: "HasPrefix s p \<longleftrightarrow> (\<exists>t. s = p @ t)"
  unfolding HasPrefix_def by (metis append_eq_conv_conj append_take_drop_id)

lemma HasPrefix_append [simp]: "HasPrefix (p @ t) p"
  by (simp add: HasPrefix_def)

lemma HasSuffix_append [simp]: "HasSuffix (t @ p) p"
  by (simp add: HasSuffix_def)

lemma Contains_iff: "Contains s sub \<longleftrightarrow> (\<exists>a b. s = a @ sub @ b)"
proof (induction s)
  case Nil
  then show ?case by simp
next
  case (Cons c s)
  show ?case
  proof
    assume "Contains (c # s) sub"
    then consider "HasPrefix (c # s) sub" | "Contains s sub" by auto
    then show "\<exists>a b. c # s = a @ sub @ b"
    proof cases
      case 1
      then show ?thesis by (metis HasPrefix_iff append_Nil)
    next
      case 2
      then show ?thesis using Cons.IH by (metis append_Cons)
    qed
  next
    assume "\<exists>a b. c # s = a @ sub @ b"
    then obtain a b where *: "c # s = a @ sub @ b" by blast
    show "Contains (c # s) sub"
    proof (cases a)
      case Nil
      with * show ?thesis by (metis Contains.simps(2) HasPrefix_append append_Nil)
    next
      case (Cons d a')
      with * have "s = a' @ sub @ b" by simp
      then show ?thesis using Cons.IH by auto
    qed
  qed
qed

lemma TrimPrefix_append [simp]: "TrimPrefix (p @ t) p = t"
  by (simp add: TrimPrefix_def)

text \<open>\<^verbatim>\<open>strings.Split(s, sep)\<close> for a one-character separator, as the path code and the policy
  listing use it (the two-character \<^verbatim>\<open>", "\<close> is \<open>split_on\<close> below).\<close>

fun SplitChar :: "char \<Rightarrow> string \<Rightarrow> string list" where
  "SplitChar c [] = [[]]"
| "SplitChar c (x # xs) =
     (if x = c then [] # SplitChar c xs
      else (case SplitChar c xs of [] \<Rightarrow> [[x]] | w # ws \<Rightarrow> (x # w) # ws))"

lemma SplitChar_not_Nil [simp]: "SplitChar c s \<noteq> []"
  by (induction s) (auto split: list.splits)

fun JoinChar :: "char \<Rightarrow> string list \<Rightarrow> string" where
  "JoinChar c [] = []"
| "JoinChar c [w] = w"
| "JoinChar c (w # v # ws) = w @ c # JoinChar c (v # ws)"

lemma JoinChar_Cons: "ws \<noteq> [] \<Longrightarrow> JoinChar c (w # ws) = w @ c # JoinChar c ws"
  by (cases ws) auto

lemma JoinChar_Cons_head: "JoinChar c ((x # w) # ws) = x # JoinChar c (w # ws)"
  by (cases ws) auto

lemma JoinChar_SplitChar: "JoinChar c (SplitChar c s) = s"
proof (induction s)
  case Nil
  then show ?case by simp
next
  case (Cons x s)
  then show ?case
    by (auto simp: JoinChar_Cons JoinChar_Cons_head split: list.splits)
qed

lemma SplitChar_no_sep: "w \<in> set (SplitChar c s) \<Longrightarrow> c \<notin> set w"
  by (induction s arbitrary: w) (auto split: if_splits list.splits)

lemma SplitChar_single: "c \<notin> set w \<Longrightarrow> SplitChar c w = [w]"
  by (induction w) auto

lemma SplitChar_append: "c \<notin> set w \<Longrightarrow> SplitChar c (w @ c # s) = w # SplitChar c s"
  by (induction w) auto

lemma SplitChar_JoinChar:
  "ws \<noteq> [] \<Longrightarrow> \<forall>w\<in>set ws. c \<notin> set w \<Longrightarrow> SplitChar c (JoinChar c ws) = ws"
  by (induction c ws rule: JoinChar.induct) (auto simp: SplitChar_single SplitChar_append)

text \<open>\<^verbatim>\<open>strings.Split\<close> for a non-empty separator of any length, with fuel: each step consumes at
  least one character, so the length of the text is enough.\<close>

fun split_on :: "nat \<Rightarrow> string \<Rightarrow> string \<Rightarrow> string \<Rightarrow> string list" where
  "split_on 0 sep acc s = [acc @ s]"
| "split_on (Suc n) sep acc s =
     (if s = [] then [acc]
      else if HasPrefix s sep then acc # split_on n sep [] (drop (length sep) s)
      else split_on n sep (acc @ [hd s]) (tl s))"

definition Split :: "string \<Rightarrow> string \<Rightarrow> string list" where
  "Split s sep = split_on (length s) sep [] s"

definition is_space :: "char \<Rightarrow> bool" where
  "is_space c \<longleftrightarrow> c \<in> set [CHR '' '', CHR 0x09, CHR 0x0A, CHR 0x0B, CHR 0x0C, CHR 0x0D]"

definition TrimSpace :: "string \<Rightarrow> string" where
  "TrimSpace s = rev (dropWhile is_space (rev (dropWhile is_space s)))"

section \<open>Package regexp: anchored sequences of repeated classes\<close>

text \<open>
  A pattern \<^verbatim>\<open>^C1{lo,hi}C2{lo,hi}...$\<close>: a class is a list of character ranges, and an item
  repeats its class between \<open>lo\<close> and \<open>hi\<close> times. \<open>rx_match\<close> tries every repetition count, as a
  backtracking matcher does.
\<close>

type_synonym rx_class = "(char \<times> char) list"
type_synonym rx_item = "rx_class \<times> nat \<times> nat"

definition in_class :: "rx_class \<Rightarrow> char \<Rightarrow> bool" where
  "in_class cl c \<longleftrightarrow>
     list_ex (\<lambda>(l, h). (of_char l :: nat) \<le> of_char c \<and> (of_char c :: nat) \<le> of_char h) cl"

fun rx_match :: "rx_item list \<Rightarrow> string \<Rightarrow> bool" where
  "rx_match [] s = (s = [])"
| "rx_match ((cl, lo, hi) # rs) s =
     list_ex (\<lambda>k. k \<le> length s \<and> list_all (in_class cl) (take k s) \<and> rx_match rs (drop k s))
       [lo ..< Suc hi]"

definition alnum_lower :: rx_class where
  "alnum_lower = [(CHR ''a'', CHR ''z''), (CHR ''0'', CHR ''9'')]"

definition alnum_lower_hyphen :: rx_class where
  "alnum_lower_hyphen = [(CHR ''a'', CHR ''z''), (CHR ''0'', CHR ''9''), (CHR ''-'', CHR ''-'')]"

lemma rx_match_one: "rx_match [(cl, 1, 1)] s \<longleftrightarrow> (\<exists>c. s = [c] \<and> in_class cl c)"
  by (cases s) auto

text \<open>A name pattern: one end character, \<open>lo\<close> to \<open>hi\<close> middle ones, one end character.\<close>

lemma rx_match_bracketed:
  "rx_match [(e, 1, 1), (m, lo, hi), (e, 1, 1)] s \<longleftrightarrow>
     (\<exists>x ms y. s = x # ms @ [y] \<and> in_class e x \<and> in_class e y \<and> list_all (in_class m) ms \<and>
        lo \<le> length ms \<and> length ms \<le> hi)"
proof
  assume "rx_match [(e, 1, 1), (m, lo, hi), (e, 1, 1)] s"
  then obtain x t where s: "s = x # t" and x: "in_class e x"
    and "rx_match [(m, lo, hi), (e, 1, 1)] t"
    by (cases s) auto
  then obtain k where k: "lo \<le> k" "k \<le> hi" "k \<le> length t"
      and m: "list_all (in_class m) (take k t)" and r: "rx_match [(e, 1, 1)] (drop k t)"
    unfolding rx_match.simps(2) [of m lo hi "[(e, 1, 1)]"]
    by (auto simp: list_ex_iff simp del: rx_match.simps)
  from r obtain y where y: "drop k t = [y]" "in_class e y"
    using rx_match_one by blast
  have t: "t = take k t @ [y]" using y(1) by (metis append_take_drop_id)
  show "\<exists>x ms y. s = x # ms @ [y] \<and> in_class e x \<and> in_class e y \<and> list_all (in_class m) ms \<and>
        lo \<le> length ms \<and> length ms \<le> hi"
    by (rule exI [of _ x], rule exI [of _ "take k t"], rule exI [of _ y])
      (use s x t y m k in simp)
next
  assume "\<exists>x ms y. s = x # ms @ [y] \<and> in_class e x \<and> in_class e y \<and> list_all (in_class m) ms \<and>
        lo \<le> length ms \<and> length ms \<le> hi"
  then obtain x ms y where s: "s = x # ms @ [y]"
    and c: "in_class e x" "in_class e y" "list_all (in_class m) ms" "lo \<le> length ms" "length ms \<le> hi"
    by blast
  have one: "rx_match [(e, 1, 1)] [y]" using c rx_match_one by blast
  have "rx_match [(m, lo, hi), (e, 1, 1)] (ms @ [y])"
    unfolding rx_match.simps(2) [of m lo hi "[(e, 1, 1)]"] list_ex_iff
    using c one by (intro bexI [of _ "length ms"]) (auto simp del: rx_match.simps)
  then show "rx_match [(e, 1, 1), (m, lo, hi), (e, 1, 1)] s"
    unfolding rx_match.simps(2) [of e 1 1] using s c
    by (simp del: rx_match.simps)
qed

section \<open>Package encoding/hex\<close>

definition hextable :: string where
  "hextable = ''0123456789abcdef''"

fun EncodeToString :: "bytes \<Rightarrow> string" where
  "EncodeToString [] = []"
| "EncodeToString (b # bs) =
     hextable ! (unat b div 16) # hextable ! (unat b mod 16) # EncodeToString bs"

lemma length_EncodeToString [simp]: "length (EncodeToString bs) = 2 * length bs"
  by (induction bs) auto

lemma hextable_distinct: "distinct hextable" and hextable_length: "length hextable = 16"
  by (simp_all add: hextable_def)

lemma unat_byte_bound: "unat (b :: 8 word) < 256"
  using unsigned_less [of b, where ?'a = nat] by simp

lemma unat_byte_div: "unat (b :: 8 word) div 16 < 16"
proof -
  have "unat b < 256" by (rule unat_byte_bound)
  then show ?thesis by linarith
qed

lemma hextable_nth_eq: "i < 16 \<Longrightarrow> j < 16 \<Longrightarrow> hextable ! i = hextable ! j \<longleftrightarrow> i = j"
  using hextable_distinct hextable_length by (simp add: nth_eq_iff_index_eq)

lemma EncodeToString_inj: "EncodeToString a = EncodeToString b \<longleftrightarrow> a = b"
proof (induction a arbitrary: b)
  case Nil
  then show ?case by (cases b) auto
next
  case (Cons x a)
  show ?case
  proof (cases b)
    case Nil
    then show ?thesis by simp
  next
    case (Cons y b')
    have "unat x div 16 = unat y div 16 \<Longrightarrow> unat x mod 16 = unat y mod 16 \<Longrightarrow> x = y"
      by (metis mult_div_mod_eq unsigned_word_eqI)
    then show ?thesis
      using Cons \<open>\<And>b. EncodeToString a = EncodeToString b \<longleftrightarrow> a = b\<close>
      by (auto simp: hextable_nth_eq unat_byte_div)
  qed
qed

lemma EncodeToString_chars: "set (EncodeToString bs) \<subseteq> set hextable"
proof (induction bs)
  case Nil
  then show ?case by simp
next
  case (Cons b bs)
  have "hextable ! (unat b div 16) \<in> set hextable" "hextable ! (unat b mod 16) \<in> set hextable"
    using unat_byte_div [of b] hextable_length by (auto intro!: nth_mem)
  with Cons show ?case by simp
qed

end
