(* ===== verification/Authz.thy ===== *)
theory Authz
  imports Sql_Repos Go_Lib
begin

text \<open>
  Authorization, \<^verbatim>\<open>internal/authz\<close>: the embedded policy, the resolution of a caller's role from the
  database, and the five typed checks. Casbin is not part of the repository: its \<^verbatim>\<open>Enforce\<close> is a
  parameter (an error or a verdict), and \<open>casbin_matches\<close> is what \<^verbatim>\<open>model.conf\<close> asks of it.

  The specification side (\<open>may_read\<close>, \<open>may_write\<close>, \<dots>) says who may do what in terms of the
  registry alone, with no roles and no lookups.
\<close>

section \<open>The policy\<close>

definition policyCSV :: string where
  "policyCSV = concat (map (\<lambda>l. l @ [CHR 0x0A])
     [''p, owner, module, read'',
      ''p, owner, module, write'',
      ''p, owner, module, admin'',
      ''p, owner, module, create'',
      ''p, org_admin, module, read'',
      ''p, org_admin, module, write'',
      ''p, org_admin, module, admin'',
      ''p, org_admin, module, create'',
      ''p, org_admin, org, manage_members'',
      ''p, org_member, module, read'',
      ''p, org_member, module, write''])"

text \<open>The rules of the policy: the lines of four parts that start with \<^verbatim>\<open>p\<close>.\<close>

definition policy_line :: "string \<Rightarrow> (string \<times> string \<times> string) option" where
  "policy_line line =
     (case Split line '', '' of
        [p, role, resource, act] \<Rightarrow> if p = ''p'' then Some (role, resource, act) else None
      | _ \<Rightarrow> None)"

definition policy_lines :: "string list" where
  "policy_lines = Split (TrimSpace policyCSV) [CHR 0x0A]"

definition policy_rules :: "(string \<times> string \<times> string) list" where
  "policy_rules = List.map_filter policy_line policy_lines"

text \<open>\<^verbatim>\<open>PolicySummary\<close>: one line of English per rule.\<close>

definition PolicySummary :: string where
  "PolicySummary = ''Authorization Policy:'' @ [CHR 0x0A] @
     concat (map (\<lambda>line. case policy_line line of
         Some (role, resource, act) \<Rightarrow> ''  '' @ role @ '' can '' @ act @ '' '' @ resource @ [CHR 0x0A]
       | None \<Rightarrow> []) policy_lines)"

section \<open>The authorizer\<close>

type_synonym enforcer = "string \<Rightarrow> string \<Rightarrow> string \<Rightarrow> string + bool"

text \<open>The matcher of \<^verbatim>\<open>model.conf\<close> under the effect \<^verbatim>\<open>some(where (p.eft == allow))\<close>.\<close>

definition casbin_matches :: "enforcer \<Rightarrow> bool" where
  "casbin_matches enf \<longleftrightarrow>
     (\<forall>role resource act.
        enf role resource act =
          Inr (list_ex (\<lambda>(p_role, p_resource, p_action).
                 role = p_role \<and> resource = p_resource \<and> act = p_action) policy_rules))"

text \<open>Of the repositories, the authorizer calls those of users and organizations.\<close>

record 'w AuthorizerState =
  enforcer :: enforcer
  az_Users :: "'w UserRepo"
  az_Orgs :: "'w OrgRepo"

definition resolveModuleRole :: "'w AuthorizerState \<Rightarrow> string \<Rightarrow> Module \<Rightarrow> 'w \<Rightarrow> string" where
  "resolveModuleRole a userID m w =
     (if userID = '''' then ''public''
      else if mOwnerType m = OwnerTypeUser then
        (case Users_GetByID (az_Users a) userID w of
           Ret u \<Rightarrow> if uUsername u = mOwnerName m then ''owner'' else ''public''
         | RetErr _ _ \<Rightarrow> ''public'')
      else
        (case Orgs_GetByName (az_Orgs a) (mOwnerName m) w of
           RetErr _ _ \<Rightarrow> ''public''
         | Ret g \<Rightarrow>
             (case Orgs_GetMember (az_Orgs a) (oID g) userID w of
                RetErr _ _ \<Rightarrow> ''public''
              | Ret member \<Rightarrow>
                  if omRole member = OrgRoleAdmin then ''org_admin'' else ''org_member'')))"

definition resolveOrgRole :: "'w AuthorizerState \<Rightarrow> string \<Rightarrow> string \<Rightarrow> 'w \<Rightarrow> string" where
  "resolveOrgRole a userID orgID w =
     (if userID = '''' then ''public''
      else
        (case Orgs_GetMember (az_Orgs a) orgID userID w of
           RetErr _ _ \<Rightarrow> ''public''
         | Ret member \<Rightarrow> if omRole member = OrgRoleAdmin then ''org_admin'' else ''org_member''))"

definition resolveOwnerRole :: "'w AuthorizerState \<Rightarrow> string \<Rightarrow> string \<Rightarrow> 'w \<Rightarrow> db_error + string" where
  "resolveOwnerRole a userID ownerName w =
     (if userID = '''' then Inr ''public''
      else
        (let via_org =
           (case Orgs_GetByName (az_Orgs a) ownerName w of
              RetErr _ e \<Rightarrow> if e = ErrNotFound then Inr ''public'' else Inl e
            | Ret g \<Rightarrow>
                (case Orgs_GetMember (az_Orgs a) (oID g) userID w of
                   RetErr _ _ \<Rightarrow> Inr ''public''
                 | Ret member \<Rightarrow>
                     Inr (if omRole member = OrgRoleAdmin then ''org_admin'' else ''org_member'')))
         in case Users_GetByID (az_Users a) userID w of
              Ret u \<Rightarrow> if uUsername u = ownerName then Inr ''owner'' else via_org
            | RetErr _ _ \<Rightarrow> via_org))"

text \<open>An enforcement error is logged and denies.\<close>

definition enforce :: "'w AuthorizerState \<Rightarrow> string \<Rightarrow> string \<Rightarrow> string \<Rightarrow> bool" where
  "enforce a role resource act =
     (case enforcer a role resource act of Inl _ \<Rightarrow> False | Inr ok \<Rightarrow> ok)"

definition Authz_CanReadModule :: "'w AuthorizerState \<Rightarrow> string \<Rightarrow> Module \<Rightarrow> 'w \<Rightarrow> bool" where
  "Authz_CanReadModule a userID m w =
     (if mVisibility m = VisibilityPublic then True
      else enforce a (resolveModuleRole a userID m w) ''module'' ''read'')"

definition Authz_CanWriteModule :: "'w AuthorizerState \<Rightarrow> string \<Rightarrow> Module \<Rightarrow> 'w \<Rightarrow> bool" where
  "Authz_CanWriteModule a userID m w =
     enforce a (resolveModuleRole a userID m w) ''module'' ''write''"

definition Authz_CanAdminModule :: "'w AuthorizerState \<Rightarrow> string \<Rightarrow> Module \<Rightarrow> 'w \<Rightarrow> bool" where
  "Authz_CanAdminModule a userID m w =
     enforce a (resolveModuleRole a userID m w) ''module'' ''admin''"

definition Authz_CanCreateModule :: "'w AuthorizerState \<Rightarrow> string \<Rightarrow> string \<Rightarrow> 'w \<Rightarrow> bool" where
  "Authz_CanCreateModule a userID ownerName w =
     (case resolveOwnerRole a userID ownerName w of
        Inl _ \<Rightarrow> False
      | Inr role \<Rightarrow> enforce a role ''module'' ''create'')"

definition Authz_CanManageOrgMembers :: "'w AuthorizerState \<Rightarrow> string \<Rightarrow> string \<Rightarrow> 'w \<Rightarrow> bool" where
  "Authz_CanManageOrgMembers a userID orgID w =
     enforce a (resolveOrgRole a userID orgID w) ''org'' ''manage_members''"

text \<open>\<^verbatim>\<open>New(repos)\<close> with the enforcer Casbin built from the embedded files, as the interface value.\<close>

definition authz_New :: "enforcer \<Rightarrow> 'w UserRepo \<Rightarrow> 'w OrgRepo \<Rightarrow> 'w Authorizer" where
  "authz_New enf us os =
     (let a = \<lparr>enforcer = enf, az_Users = us, az_Orgs = os\<rparr>
      in \<lparr>CanReadModule = Authz_CanReadModule a, CanWriteModule = Authz_CanWriteModule a,
          CanAdminModule = Authz_CanAdminModule a, CanCreateModule = Authz_CanCreateModule a,
          CanManageOrgMembers = Authz_CanManageOrgMembers a\<rparr>)"

lemmas role_defs = resolveModuleRole_def resolveOrgRole_def resolveOwnerRole_def
lemmas can_defs = Authz_CanReadModule_def Authz_CanWriteModule_def Authz_CanAdminModule_def
  Authz_CanCreateModule_def Authz_CanManageOrgMembers_def

lemma authz_New_simps [simp]:
  fixes us os enf
  defines "a \<equiv> \<lparr>enforcer = enf, az_Users = us, az_Orgs = os\<rparr>"
  shows "CanReadModule (authz_New enf us os) = Authz_CanReadModule a"
    and "CanWriteModule (authz_New enf us os) = Authz_CanWriteModule a"
    and "CanAdminModule (authz_New enf us os) = Authz_CanAdminModule a"
    and "CanCreateModule (authz_New enf us os) = Authz_CanCreateModule a"
    and "CanManageOrgMembers (authz_New enf us os) = Authz_CanManageOrgMembers a"
  by (simp_all add: authz_New_def Let_def a_def)

lemma policy_rules_eq:
  "policy_rules =
     [(''owner'', ''module'', ''read''), (''owner'', ''module'', ''write''),
      (''owner'', ''module'', ''admin''), (''owner'', ''module'', ''create''),
      (''org_admin'', ''module'', ''read''), (''org_admin'', ''module'', ''write''),
      (''org_admin'', ''module'', ''admin''), (''org_admin'', ''module'', ''create''),
      (''org_admin'', ''org'', ''manage_members''),
      (''org_member'', ''module'', ''read''), (''org_member'', ''module'', ''write'')]"
  by code_simp

text \<open>What Casbin promises when it may also fail: it never allows what no rule of the policy allows.\<close>

definition casbin_sound :: "enforcer \<Rightarrow> bool" where
  "casbin_sound enf \<longleftrightarrow>
     (\<forall>role resource act. enf role resource act = Inr True \<longrightarrow> (role, resource, act) \<in> set policy_rules)"

lemma casbin_matches_iff:
  "casbin_matches enf \<longleftrightarrow>
     (\<forall>role resource act. enf role resource act = Inr ((role, resource, act) \<in> set policy_rules))"
proof -
  have "list_ex (\<lambda>(p_role, p_resource, p_action). role = p_role \<and> resource = p_resource \<and> act = p_action)
      rules \<longleftrightarrow> (role, resource, act) \<in> set rules"
    for rules :: "(string \<times> string \<times> string) list" and role resource act
    by (induction rules) auto
  then show ?thesis by (simp add: casbin_matches_def)
qed

lemma casbin_matches_sound: "casbin_matches enf \<Longrightarrow> casbin_sound enf"
  by (simp add: casbin_matches_iff casbin_sound_def)

section \<open>Who may do what\<close>

text \<open>
  The specification, over the registry alone: the owner of a user-owned module, the members and
  the administrators of the organization that owns any other module.
\<close>

definition has_name :: "Registry \<Rightarrow> string \<Rightarrow> string \<Rightarrow> bool" where
  "has_name r uid nm \<longleftrightarrow> (\<exists>u\<in>rUsers r. uID u = uid \<and> uUsername u = nm)"

definition has_role :: "Registry \<Rightarrow> string \<Rightarrow> string \<Rightarrow> (OrgRole \<Rightarrow> bool) \<Rightarrow> bool" where
  "has_role r uid org P \<longleftrightarrow>
     (\<exists>g\<in>rOrgs r. oName g = org \<and>
        (\<exists>mb\<in>rMembers r. omOrgID mb = oID g \<and> omUserID mb = uid \<and> P (omRole mb)))"

definition may_write :: "Registry \<Rightarrow> string \<Rightarrow> Module \<Rightarrow> bool" where
  "may_write r uid m \<longleftrightarrow> uid \<noteq> '''' \<and>
     (if mOwnerType m = OwnerTypeUser then has_name r uid (mOwnerName m)
      else has_role r uid (mOwnerName m) (\<lambda>_. True))"

definition may_admin :: "Registry \<Rightarrow> string \<Rightarrow> Module \<Rightarrow> bool" where
  "may_admin r uid m \<longleftrightarrow> uid \<noteq> '''' \<and>
     (if mOwnerType m = OwnerTypeUser then has_name r uid (mOwnerName m)
      else has_role r uid (mOwnerName m) (\<lambda>ro. ro = OrgRoleAdmin))"

definition may_read :: "Registry \<Rightarrow> string \<Rightarrow> Module \<Rightarrow> bool" where
  "may_read r uid m \<longleftrightarrow> mVisibility m = VisibilityPublic \<or> may_write r uid m"

definition may_create :: "Registry \<Rightarrow> string \<Rightarrow> string \<Rightarrow> bool" where
  "may_create r uid own \<longleftrightarrow> uid \<noteq> '''' \<and>
     (has_name r uid own \<or> has_role r uid own (\<lambda>ro. ro = OrgRoleAdmin))"

definition may_manage :: "Registry \<Rightarrow> string \<Rightarrow> string \<Rightarrow> bool" where
  "may_manage r uid org \<longleftrightarrow> uid \<noteq> '''' \<and>
     (\<exists>mb\<in>rMembers r. omOrgID mb = org \<and> omUserID mb = uid \<and> omRole mb = OrgRoleAdmin)"

lemmas may_defs = may_read_def may_write_def may_admin_def may_create_def may_manage_def

lemma may_admin_write: "may_admin r uid m \<Longrightarrow> may_write r uid m"
  by (auto simp: may_defs has_role_def split: if_splits)

lemma may_write_read: "may_write r uid m \<Longrightarrow> may_read r uid m"
  by (simp add: may_read_def)

lemma may_read_anonymous [simp]: "may_read r '''' m \<longleftrightarrow> mVisibility m = VisibilityPublic"
  by (simp add: may_defs)

section \<open>The checks decide the specification\<close>

text \<open>
  The interface the services see: an authorizer whose five verdicts are bounded by the
  specification (a fault anywhere below can only turn a yes into a no), and one whose verdicts
  are the specification's.
\<close>

locale authorizer_sound =
  fixes az :: "'w Authorizer" and abs :: "'w \<Rightarrow> Registry"
  assumes read_sound: "CanReadModule az uid m w \<Longrightarrow> may_read (abs w) uid m"
    and public_read: "mVisibility m = VisibilityPublic \<Longrightarrow> CanReadModule az uid m w"
    and write_sound: "CanWriteModule az uid m w \<Longrightarrow> may_write (abs w) uid m"
    and admin_sound: "CanAdminModule az uid m w \<Longrightarrow> may_admin (abs w) uid m"
    and create_sound: "CanCreateModule az uid own w \<Longrightarrow> may_create (abs w) uid own"
    and manage_sound: "CanManageOrgMembers az uid org w \<Longrightarrow> may_manage (abs w) uid org"

locale authorizer_exact = authorizer_sound +
  assumes read_complete: "registry_keys (abs w) \<Longrightarrow> may_read (abs w) uid m \<Longrightarrow> CanReadModule az uid m w"
    and write_complete: "registry_keys (abs w) \<Longrightarrow> may_write (abs w) uid m \<Longrightarrow> CanWriteModule az uid m w"
    and admin_complete: "registry_keys (abs w) \<Longrightarrow> may_admin (abs w) uid m \<Longrightarrow> CanAdminModule az uid m w"
    and create_complete: "registry_keys (abs w) \<Longrightarrow> may_create (abs w) uid own \<Longrightarrow> CanCreateModule az uid own w"
    and manage_complete: "registry_keys (abs w) \<Longrightarrow> may_manage (abs w) uid org \<Longrightarrow> CanManageOrgMembers az uid org w"
begin

lemma verdicts:
  assumes "registry_keys (abs w)"
  shows "CanReadModule az uid m w \<longleftrightarrow> may_read (abs w) uid m"
    and "CanWriteModule az uid m w \<longleftrightarrow> may_write (abs w) uid m"
    and "CanAdminModule az uid m w \<longleftrightarrow> may_admin (abs w) uid m"
    and "CanCreateModule az uid own w \<longleftrightarrow> may_create (abs w) uid own"
    and "CanManageOrgMembers az uid org w \<longleftrightarrow> may_manage (abs w) uid org"
  by (rule iffI, erule read_sound write_sound admin_sound create_sound manage_sound,
      erule read_complete [OF assms] write_complete [OF assms] admin_complete [OF assms]
        create_complete [OF assms] manage_complete [OF assms])+

end

text \<open>Roles that were resolved are grounded in the registry, whatever calls failed on the way.\<close>

context repos_reads
begin

abbreviation state_of :: "enforcer \<Rightarrow> 'w AuthorizerState" where
  "state_of enf \<equiv> \<lparr>enforcer = enf, az_Users = Users R, az_Orgs = Orgs R\<rparr>"

abbreviation az_of :: "enforcer \<Rightarrow> 'w Authorizer" where
  "az_of enf \<equiv> authz_New enf (Users R) (Orgs R)"

lemma has_roleI:
  assumes "Orgs_GetByName (Orgs R) own w = Ret g" "Orgs_GetMember (Orgs R) (oID g) uid w = Ret mb" "P (omRole mb)"
  shows "has_role (abs w) uid own P"
  using assms org_by_name.get_Ret [OF assms(1)] member_by_key.get_Ret [of "(oID g, uid)" w mb]
  unfolding has_role_def by auto

lemma has_nameI:
  "Users_GetByID (Users R) uid w = Ret u \<Longrightarrow> uUsername u = own \<Longrightarrow> has_name (abs w) uid own"
  using user_by_id.get_Ret unfolding has_name_def by blast

lemma module_role_sound:
  assumes "resolveModuleRole (state_of enf) uid m w = role"
  shows "role \<noteq> ''public'' \<Longrightarrow> may_write (abs w) uid m"
    and "role \<in> {''owner'', ''org_admin''} \<Longrightarrow> may_admin (abs w) uid m"
  using assms
  by (auto simp: resolveModuleRole_def may_defs intro: has_nameI has_roleI
      split: if_splits fetch.splits)

lemma owner_role_sound:
  assumes "resolveOwnerRole (state_of enf) uid own w = Inr role" "role \<in> {''owner'', ''org_admin''}"
  shows "may_create (abs w) uid own"
  using assms
  by (auto simp: resolveOwnerRole_def Let_def may_defs intro: has_nameI has_roleI
      split: if_splits fetch.splits)

lemma org_role_sound:
  assumes "resolveOrgRole (state_of enf) uid org w = ''org_admin''"
  shows "may_manage (abs w) uid org"
  using assms member_by_key.get_Ret [of "(org, uid)" w]
  by (auto simp: resolveOrgRole_def may_defs split: if_splits fetch.splits)

lemma enforce_sound:
  "casbin_sound enf \<Longrightarrow> enforce (state_of enf) role res act \<Longrightarrow> (role, res, act) \<in> set policy_rules"
  by (auto simp: enforce_def casbin_sound_def split: sum.splits)

lemma authz_sound:
  assumes "casbin_sound enf"
  shows "authorizer_sound (az_of enf) abs"
proof
  fix uid m w own org
  note allowed = enforce_sound [OF assms]
  show "mVisibility m = VisibilityPublic \<Longrightarrow> CanReadModule (az_of enf) uid m w"
    by (simp add: Authz_CanReadModule_def)
  show "CanReadModule (az_of enf) uid m w \<Longrightarrow> may_read (abs w) uid m"
    using module_role_sound(1) [OF refl, of enf uid m w]
    by (auto simp: Authz_CanReadModule_def policy_rules_eq may_read_def
        dest!: allowed split: if_splits)
  show "CanWriteModule (az_of enf) uid m w \<Longrightarrow> may_write (abs w) uid m"
    using module_role_sound(1) [OF refl, of enf uid m w]
    by (auto simp: Authz_CanWriteModule_def policy_rules_eq dest!: allowed)
  show "CanAdminModule (az_of enf) uid m w \<Longrightarrow> may_admin (abs w) uid m"
    using module_role_sound(2) [OF refl, of enf uid m w]
    by (auto simp: Authz_CanAdminModule_def policy_rules_eq dest!: allowed)
  show "CanCreateModule (az_of enf) uid own w \<Longrightarrow> may_create (abs w) uid own"
    by (auto simp: Authz_CanCreateModule_def policy_rules_eq
        dest!: allowed intro: owner_role_sound split: sum.splits)
  show "CanManageOrgMembers (az_of enf) uid org w \<Longrightarrow> may_manage (abs w) uid org"
    using org_role_sound [of enf uid org w]
    by (auto simp: Authz_CanManageOrgMembers_def policy_rules_eq dest!: allowed)
qed

end

context repos_reads_total
begin

lemma has_name_found:
  assumes "registry_keys (abs w)" "has_name (abs w) uid own"
  obtains u where "Users_GetByID (Users R) uid w = Ret u" "uUsername u = own"
  using assms user_by_id.get_iff [of w uid] unfolding has_name_def registry_keys_def by blast

lemma member_found:
  assumes "registry_keys (abs w)" "mb \<in> rMembers (abs w)" "omOrgID mb = org" "omUserID mb = uid"
  shows "Orgs_GetMember (Orgs R) org uid w = Ret mb"
  using assms member_by_key.get_iff [of w "(org, uid)" mb] by (simp add: registry_keys_def)

lemma has_role_found:
  assumes "registry_keys (abs w)" "has_role (abs w) uid own P"
  obtains g mb where "Orgs_GetByName (Orgs R) own w = Ret g"
    "Orgs_GetMember (Orgs R) (oID g) uid w = Ret mb" "P (omRole mb)"
  using assms org_by_name.get_iff [of w own] member_found [OF assms(1)]
  unfolding has_role_def registry_keys_def by blast

lemma module_role_complete:
  assumes "registry_keys (abs w)"
  shows "may_write (abs w) uid m \<Longrightarrow>
      resolveModuleRole (state_of enf) uid m w \<in> {''owner'', ''org_admin'', ''org_member''}"
    and "may_admin (abs w) uid m \<Longrightarrow>
      resolveModuleRole (state_of enf) uid m w \<in> {''owner'', ''org_admin''}"
  by (auto simp: resolveModuleRole_def may_defs elim: has_name_found [OF assms] has_role_found [OF assms]
      split: if_splits)

lemma owner_role_complete:
  assumes "registry_keys (abs w)" "may_create (abs w) uid own"
  shows "resolveOwnerRole (state_of enf) uid own w \<in> {Inr ''owner'', Inr ''org_admin''}"
  using assms(2)
  by (auto simp: resolveOwnerRole_def Let_def may_defs
      elim!: has_name_found [OF assms(1)] has_role_found [OF assms(1)] split: fetch.splits)

lemma enforce_exact:
  "casbin_matches enf \<Longrightarrow> enforce (state_of enf) role res act \<longleftrightarrow> (role, res, act) \<in> set policy_rules"
  by (simp add: enforce_def casbin_matches_iff)

lemma authz_exact:
  assumes "casbin_matches enf"
  shows "authorizer_exact (az_of enf) abs"
proof (rule authorizer_exact.intro [OF authz_sound [OF casbin_matches_sound [OF assms]]], unfold_locales)
  fix w uid m own org
  assume keys: "registry_keys (abs w)"
  note ex = enforce_exact [OF assms] policy_rules_eq
  show "CanWriteModule (az_of enf) uid m w" if "may_write (abs w) uid m"
    using module_role_complete(1) [OF keys that, of enf]
    by (auto simp: Authz_CanWriteModule_def ex)
  show "CanReadModule (az_of enf) uid m w" if "may_read (abs w) uid m"
    using module_role_complete(1) [OF keys, of uid m enf] that
    by (auto simp: Authz_CanReadModule_def may_read_def ex)
  show "CanAdminModule (az_of enf) uid m w" if "may_admin (abs w) uid m"
    using module_role_complete(2) [OF keys that, of enf]
    by (auto simp: Authz_CanAdminModule_def ex)
  show "CanCreateModule (az_of enf) uid own w" if "may_create (abs w) uid own"
    using owner_role_complete [OF keys that, of enf]
    by (auto simp: Authz_CanCreateModule_def ex)
  show "CanManageOrgMembers (az_of enf) uid org w" if "may_manage (abs w) uid org"
    using that member_found [OF keys, of _ org uid]
    by (auto simp: Authz_CanManageOrgMembers_def resolveOrgRole_def may_manage_def ex)
qed

end

section \<open>The repositories the server runs on\<close>

text \<open>\<^verbatim>\<open>repos.Auth = authz.New(repos)\<close>, on the SQL backend.\<close>

definition sql_repos :: "enforcer \<Rightarrow> Gorm \<Rightarrow> 'z SqlDB_scheme Repos" where
  "sql_repos enf G = DB_Repos G (authz_New enf (UserStore G) (OrgStore G))"

text \<open>
  The contract of the repositories as the services use them: storage and authorizer together, for
  the services that only read and for those that write.
\<close>

locale registry_reads = repos_reads R abs + authorizer_sound "Auth R" abs
  for R :: "'w Repos" and abs :: "'w \<Rightarrow> Registry"

locale registry_exact = repos_reads_total R abs + authorizer_exact "Auth R" abs
  for R :: "'w Repos" and abs :: "'w \<Rightarrow> Registry"

sublocale registry_exact \<subseteq> registry_reads by unfold_locales

locale registry_sound = repos_sound R abs + authorizer_sound "Auth R" abs
  for R :: "'w Repos" and abs :: "'w \<Rightarrow> Registry"

sublocale registry_sound \<subseteq> registry_reads by unfold_locales

locale registry_reliable = repos_reliable R abs + authorizer_exact "Auth R" abs
  for R :: "'w Repos" and abs :: "'w \<Rightarrow> Registry"

sublocale registry_reliable \<subseteq> registry_sound by unfold_locales

sublocale registry_reliable \<subseteq> registry_exact by unfold_locales

context gorm_db
begin

lemma registry_sound_sql:
  "casbin_sound enf \<Longrightarrow> registry_sound (sql_repos enf G) sql_abs"
  unfolding sql_repos_def registry_sound_def
  by (simp add: sql.repos_sound_axioms sql.authz_sound [unfolded DB_Repos_stores])

lemma run_writes_sql:
  "registry_keys (sql_abs d) \<Longrightarrow> reg_step\<^sup>*\<^sup>* (sql_abs d) (sql_abs (run_writes (DB_Repos G az) ops d))"
  by (rule sql.run_writes_refines)

end

context gorm_db_reliable
begin

lemma registry_reliable_sql:
  "casbin_matches enf \<Longrightarrow> registry_reliable (sql_repos enf G) sql_abs"
  unfolding sql_repos_def registry_reliable_def
  by (simp add: sql.repos_reliable_axioms sql.authz_exact [unfolded DB_Repos_stores])

end

text \<open>An enforcer that is the policy, and the concrete stack on the list engine.\<close>

definition policy_enforcer :: enforcer where
  "policy_enforcer role res act = Inr (List.member policy_rules (role, res, act))"

lemma policy_enforcer_matches: "casbin_matches policy_enforcer"
  by (simp add: casbin_matches_iff policy_enforcer_def)

interpretation list_reg: registry_reliable "sql_repos policy_enforcer list_gorm" sql_abs
  by (rule list_db.registry_reliable_sql [OF policy_enforcer_matches])

section \<open>Properties\<close>

text \<open>A small database for the examples: an organization with an administrator and a member.\<close>

definition demo_db :: SqlDB where
  "demo_db =
     \<lparr>sq_users = [\<lparr>u_id = ''u1'', u_username = ''alice'', u_password_hash = ''h1'', u_created_at = 1\<rparr>,
                  \<lparr>u_id = ''u2'', u_username = ''bob'', u_password_hash = ''h2'', u_created_at = 2\<rparr>],
      sq_orgs = [\<lparr>o_id = ''o1'', o_name = ''acme'', o_created_at = 3\<rparr>],
      sq_members = [\<lparr>om_org_id = ''o1'', om_user_id = ''u1'', om_role = ''admin''\<rparr>,
                    \<lparr>om_org_id = ''o1'', om_user_id = ''u2'', om_role = ''member''\<rparr>],
      sq_modules = [\<lparr>m_id = ''m1'', m_owner_name = ''acme'', m_owner_type = ''org'', m_name = ''api'',
                     m_visibility = ''private'', m_created_at = 4\<rparr>],
      sq_commits = [], sq_labels = [], sq_tokens = []\<rparr>"

definition demo_module :: Module where
  "demo_module = \<lparr>mID = ''m1'', mOwnerName = ''acme'', mOwnerType = OwnerTypeOrg, mName = ''api'',
     mVisibility = VisibilityPrivate, mCreatedAt = 4\<rparr>"

lemmas demo_defs = demo_db_def demo_module_def model_consts sql_abs_def converter_defs

lemma demo_keys: "registry_keys (sql_abs demo_db)"
  by (simp add: registry_keys_def demo_defs)

text \<open>
  C9. On the SQL backend the five authorization checks decide exactly the access policy: a module is
  read by everyone when public and otherwise by its owner or the members of the owning organization;
  written by the owner or any member; administered by the owner or an administrator; modules are
  created under one's own name or by an administrator; members are managed by administrators.
\<close>

theorem authz_decides:
  fixes d :: "'z SqlDB_scheme"
  assumes "gorm_db_reliable G" "casbin_matches enf" "registry_keys (sql_abs d)"
  shows "CanReadModule (Auth (sql_repos enf G)) uid m d = may_read (sql_abs d) uid m \<and>
    CanWriteModule (Auth (sql_repos enf G)) uid m d = may_write (sql_abs d) uid m \<and>
    CanAdminModule (Auth (sql_repos enf G)) uid m d = may_admin (sql_abs d) uid m \<and>
    CanCreateModule (Auth (sql_repos enf G)) uid own d = may_create (sql_abs d) uid own \<and>
    CanManageOrgMembers (Auth (sql_repos enf G)) uid org d = may_manage (sql_abs d) uid org"
  by (intro conjI authorizer_exact.verdicts
        [OF registry_reliable.axioms(2) [OF gorm_db_reliable.registry_reliable_sql [OF assms(1,2)]] assms(3)])

theorem authz_decides_witness:
  "CanWriteModule (Auth (sql_repos policy_enforcer list_gorm)) ''u2'' demo_module demo_db \<and>
   \<not> CanAdminModule (Auth (sql_repos policy_enforcer list_gorm)) ''u2'' demo_module demo_db \<and>
   \<not> CanReadModule (Auth (sql_repos policy_enforcer list_gorm)) ''u9'' demo_module demo_db"
  using authz_decides [OF list_db.gorm_db_reliable_axioms policy_enforcer_matches demo_keys]
  by (auto simp: may_defs has_role_def demo_defs)

text \<open>
  C18. Authorization fails closed: when database calls or Casbin may fail at any point, every check
  that answers yes is still backed by the registry. A fault can only turn a yes into a no; in
  particular an anonymous caller passes no check but the one for reading a public module.
\<close>

theorem authz_fail_closed:
  fixes d :: "'z SqlDB_scheme"
  assumes "gorm_db G" "casbin_sound enf"
  shows "(CanReadModule (Auth (sql_repos enf G)) uid m d \<longrightarrow> may_read (sql_abs d) uid m) \<and>
    (CanWriteModule (Auth (sql_repos enf G)) uid m d \<longrightarrow> may_write (sql_abs d) uid m) \<and>
    (CanAdminModule (Auth (sql_repos enf G)) uid m d \<longrightarrow> may_admin (sql_abs d) uid m) \<and>
    (CanCreateModule (Auth (sql_repos enf G)) uid own d \<longrightarrow> may_create (sql_abs d) uid own) \<and>
    (CanManageOrgMembers (Auth (sql_repos enf G)) uid org d \<longrightarrow> may_manage (sql_abs d) uid org) \<and>
    (CanReadModule (Auth (sql_repos enf G)) '''' m d \<longleftrightarrow> mVisibility m = VisibilityPublic)"
proof -
  note sound = registry_sound.axioms(2) [OF gorm_db.registry_sound_sql [OF assms, where 'a = 'z]]
  show ?thesis
    using authorizer_sound.read_sound [OF sound] authorizer_sound.write_sound [OF sound]
      authorizer_sound.admin_sound [OF sound] authorizer_sound.create_sound [OF sound]
      authorizer_sound.manage_sound [OF sound] authorizer_sound.public_read [OF sound] may_read_anonymous
    by blast
qed

theorem authz_fail_closed_witness:
  "\<not> CanReadModule (Auth (sql_repos (\<lambda>_ _ _. Inl ''boom'') list_gorm)) '''' demo_module demo_db"
  using authz_fail_closed [OF list_db.gorm_db_axioms, of "\<lambda>_ _ _. Inl ''boom''" "''u1''" demo_module demo_db]
  by (auto simp: casbin_sound_def demo_defs)

text \<open>
  C11. The SQL backend implements the abstract registry: from a state whose keys are unique, any
  sequence of writes through the repositories, whichever of them fail, takes the abstract registry
  along a path of the transition system \<open>reg_step\<close>; so the keys stay unique, and no account,
  organization or commit is ever lost or changed.
\<close>

theorem sql_refines_registry:
  fixes d :: "'z SqlDB_scheme"
  assumes "gorm_db G" "registry_keys (sql_abs d)" "run_writes (sql_repos enf G) ops d = d'"
  shows "reg_step\<^sup>*\<^sup>* (sql_abs d) (sql_abs d') \<and> registry_keys (sql_abs d') \<and>
         rUsers (sql_abs d) \<subseteq> rUsers (sql_abs d') \<and> rOrgs (sql_abs d) \<subseteq> rOrgs (sql_abs d') \<and>
         rCommits (sql_abs d) \<subseteq> rCommits (sql_abs d')"
proof -
  have steps: "reg_step\<^sup>*\<^sup>* (sql_abs d) (sql_abs d')"
    unfolding assms(3) [symmetric] sql_repos_def by (rule gorm_db.run_writes_sql [OF assms(1,2)])
  with reg_steps_keys [OF steps assms(2)] reg_steps_grow [OF steps] show ?thesis by blast
qed

theorem sql_refines_registry_witness:
  "registry_keys (sql_abs (run_writes (sql_repos policy_enforcer list_gorm)
     [OrgCreate \<lparr>oID = ''o2'', oName = ''acme'', oCreatedAt = 9\<rparr>, AddMember ''o1'' ''u9'' ''member''] demo_db))"
  using sql_refines_registry [OF list_db.gorm_db_axioms demo_keys refl, of policy_enforcer
      "[OrgCreate \<lparr>oID = ''o2'', oName = ''acme'', oCreatedAt = 9\<rparr>, AddMember ''o1'' ''u9'' ''member'']"]
  by blast

end
