(* ===== verification/Resolve.thy ===== *)
theory Resolve
  imports Proto Authz
begin

text \<open>
  \<^verbatim>\<open>internal/api/module/resolve.go\<close>: from a resource reference to a module and, when there is one,
  a commit. The Go function returns a triple; here it is an error message (\<^verbatim>\<open>err.Error()\<close>, which is
  all its callers use) or the module with an optional commit.
\<close>

definition resolveResourceRef ::
  "'w Repos \<Rightarrow> resource_ref option \<Rightarrow> 'w \<Rightarrow> string + Module \<times> Commit option" where
  "resolveResourceRef R ref w =
     (case ref of
        None \<Rightarrow> Inl ''resource ref required''
      | Some rf \<Rightarrow>
          if resource_GetId rf \<noteq> [] then Inl ''ID-based resource ref not yet supported''
          else
            (case resource_GetName rf of
               None \<Rightarrow> Inl ''resource ref must have name or id''
             | Some name \<Rightarrow>
                 (case Modules_Get (Modules R) (GetOwner name) (GetModule name) w of
                    RetErr _ e \<Rightarrow>
                      if e = ErrNotFound
                      then Inl (''module not found: '' @ GetOwner name @ ''/'' @ GetModule name)
                      else Inl (Error e)
                  | Ret m \<Rightarrow>
                      if GetLabelName name \<noteq> [] then
                        (case Labels_Get (Labels R) (mID m) (GetLabelName name) w of
                           RetErr _ e \<Rightarrow>
                             if e = ErrNotFound then Inl (''label not found: '' @ GetLabelName name)
                             else Inl (Error e)
                         | Ret label \<Rightarrow>
                             (case Commits_GetByID (Commits R) (mID m) (lCommitID label) w of
                                RetErr _ e \<Rightarrow> Inl (Error e)
                              | Ret commit \<Rightarrow> Inr (m, Some commit)))
                      else if GetRef name \<noteq> [] then
                        (case Commits_GetByID (Commits R) (mID m) (GetRef name) w of
                           Ret commit \<Rightarrow> Inr (m, Some commit)
                         | RetErr _ _ \<Rightarrow>
                             (case Labels_Get (Labels R) (mID m) (GetRef name) w of
                                Ret label \<Rightarrow>
                                  (case Commits_GetByID (Commits R) (mID m) (lCommitID label) w of
                                     RetErr _ e \<Rightarrow> Inl (Error e)
                                   | Ret commit \<Rightarrow> Inr (m, Some commit))
                              | RetErr _ _ \<Rightarrow> Inl (''ref not found: '' @ GetRef name)))
                      else
                        (case Labels_Get (Labels R) (mID m) ''main'' w of
                           RetErr _ e \<Rightarrow> if e = ErrNotFound then Inr (m, None) else Inl (Error e)
                         | Ret label \<Rightarrow>
                             (case Commits_GetByID (Commits R) (mID m) (lCommitID label) w of
                                RetErr _ e \<Rightarrow> Inl (Error e)
                              | Ret commit \<Rightarrow> Inr (m, Some commit))))))"

section \<open>What a reference means\<close>

text \<open>
  The specification, over the registry. A label of a module points at a commit of it; a child
  decides how the commit is chosen: by label, by commit identifier before label, or by the label
  \<^verbatim>\<open>main\<close>.
\<close>

definition labelled :: "Registry \<Rightarrow> Module \<Rightarrow> string \<Rightarrow> Commit \<Rightarrow> bool" where
  "labelled r m n c \<longleftrightarrow>
     (\<exists>l\<in>rLabels r. lModuleID l = mID m \<and> lName l = n \<and>
        c \<in> rCommits r \<and> cModuleID c = mID m \<and> cID c = lCommitID l)"

definition identified :: "Registry \<Rightarrow> Module \<Rightarrow> string \<Rightarrow> Commit \<Rightarrow> bool" where
  "identified r m i c \<longleftrightarrow> c \<in> rCommits r \<and> cModuleID c = mID m \<and> cID c = i"

definition chooses :: "Registry \<Rightarrow> resource_name \<Rightarrow> Module \<Rightarrow> Commit option \<Rightarrow> bool" where
  "chooses r n m co \<longleftrightarrow>
     (if GetLabelName n \<noteq> [] then \<exists>c. co = Some c \<and> labelled r m (GetLabelName n) c
      else if GetRef n \<noteq> [] then
        \<exists>c. co = Some c \<and>
          (if \<exists>c'. identified r m (GetRef n) c' then identified r m (GetRef n) c
           else labelled r m (GetRef n) c)
      else
        (case co of
           None \<Rightarrow> \<forall>l\<in>rLabels r. lModuleID l = mID m \<longrightarrow> lName l \<noteq> ''main''
         | Some c \<Rightarrow> labelled r m ''main'' c))"

definition denotes :: "Registry \<Rightarrow> resource_name \<Rightarrow> Module \<Rightarrow> Commit option \<Rightarrow> bool" where
  "denotes r n m co \<longleftrightarrow>
     m \<in> rModules r \<and> mOwnerName m = GetOwner n \<and> mName m = GetModule n \<and> chooses r n m co"

context repos_reads
begin

lemma resolve_module:
  assumes "resolveResourceRef R ref w = Inr (m, co)"
  obtains n where "ref = Some (ResourceByName n)" "Modules_Get (Modules R) (GetOwner n) (GetModule n) w = Ret m"
    "m \<in> rModules (abs w)" "mOwnerName m = GetOwner n" "mName m = GetModule n"
proof -
  obtain rf where rf: "ref = Some rf" using assms by (auto simp: resolveResourceRef_def split: option.splits)
  obtain n where n: "rf = ResourceByName n"
    using assms by (cases rf) (auto simp: resolveResourceRef_def rf split: if_splits)
  obtain m' where g: "Modules_Get (Modules R) (GetOwner n) (GetModule n) w = Ret m'"
    using assms
    by (cases "Modules_Get (Modules R) (GetOwner n) (GetModule n) w")
       (auto simp: resolveResourceRef_def rf n split: if_splits)
  have "m' = m" using assms by (auto simp: resolveResourceRef_def rf n g split: if_splits fetch.splits)
  with g mod_by_name.get_Ret [of "(GetOwner n, GetModule n)" w m] rf n that show thesis by simp
qed

lemma resolve_commit:
  assumes "resolveResourceRef R ref w = Inr (m, Some c)"
  shows "c \<in> rCommits (abs w)" and "cModuleID c = mID m"
proof -
  obtain n where n: "ref = Some (ResourceByName n)" "Modules_Get (Modules R) (GetOwner n) (GetModule n) w = Ret m"
    using assms by (rule resolve_module)
  have "\<exists>i. Commits_GetByID (Commits R) (mID m) i w = Ret c"
    using assms by (auto simp: resolveResourceRef_def n split: if_splits fetch.splits)
  then obtain i where "Commits_GetByID (Commits R) (mID m) i w = Ret c" ..
  from commit_by_id.get_Ret [of "(mID m, i)" w c] this
  show "c \<in> rCommits (abs w)" "cModuleID c = mID m" by simp_all
qed

end

context repos_reads_total
begin

lemma get_commit_iff:
  "registry_keys (abs w) \<Longrightarrow> Commits_GetByID (Commits R) (mID m) i w = Ret c \<longleftrightarrow> identified (abs w) m i c"
  using commit_by_id.get_iff [of w "(mID m, i)" c] by (auto simp: registry_keys_def identified_def)

lemma get_label_iff:
  "registry_keys (abs w) \<Longrightarrow> Labels_Get (Labels R) i n w = Ret l \<longleftrightarrow>
     l \<in> rLabels (abs w) \<and> lModuleID l = i \<and> lName l = n"
  using label_by_name.get_iff [of w "(i, n)" l] by (auto simp: registry_keys_def)

lemma get_module_iff:
  "registry_keys (abs w) \<Longrightarrow> Modules_Get (Modules R) own n w = Ret m \<longleftrightarrow>
     m \<in> rModules (abs w) \<and> mOwnerName m = own \<and> mName m = n"
  using mod_by_name.get_iff [of w "(own, n)" m] by (auto simp: registry_keys_def)

lemma labelled_iff:
  "registry_keys (abs w) \<Longrightarrow> labelled (abs w) m n c \<longleftrightarrow>
     (\<exists>l. Labels_Get (Labels R) (mID m) n w = Ret l \<and>
        Commits_GetByID (Commits R) (mID m) (lCommitID l) w = Ret c)"
  by (auto simp: labelled_def get_label_iff get_commit_iff identified_def)

lemma no_label_iff:
  "registry_keys (abs w) \<Longrightarrow>
     (\<forall>l\<in>rLabels (abs w). lModuleID l = i \<longrightarrow> lName l \<noteq> n) \<longleftrightarrow> (\<exists>p. Labels_Get (Labels R) i n w = RetErr p ErrNotFound)"
  using get_label_iff [of w i n] label_total [of i n w] by (cases "Labels_Get (Labels R) i n w") auto

lemma resolve_chooses:
  assumes keys: "registry_keys (abs w)" and g: "Modules_Get (Modules R) (GetOwner n) (GetModule n) w = Ret m"
  shows "resolveResourceRef R (Some (ResourceByName n)) w = Inr (m, co) \<longleftrightarrow> chooses (abs w) n m co"
proof -
  note iffs = get_commit_iff [OF keys, symmetric] labelled_iff [OF keys] no_label_iff [OF keys]
  have via: "(case Commits_GetByID (Commits R) (mID m) i w of RetErr _ e \<Rightarrow> Inl (Error e) | Ret c \<Rightarrow> Inr (m, Some c)) =
      Inr (m, co') \<longleftrightarrow> (\<exists>c. co' = Some c \<and> Commits_GetByID (Commits R) (mID m) i w = Ret c)" for i co'
    by (cases "Commits_GetByID (Commits R) (mID m) i w") auto
  consider "GetLabelName n \<noteq> []" | "GetLabelName n = []" "GetRef n \<noteq> []" | "GetLabelName n = []" "GetRef n = []"
    by blast
  then show ?thesis
  proof cases
    case 1
    then show ?thesis
      by (cases "Labels_Get (Labels R) (mID m) (GetLabelName n) w")
         (simp_all add: resolveResourceRef_def chooses_def g iffs via)
  next
    case 2
    then show ?thesis
      by (cases "Commits_GetByID (Commits R) (mID m) (GetRef n) w";
          cases "Labels_Get (Labels R) (mID m) (GetRef n) w")
         (auto simp: resolveResourceRef_def chooses_def g iffs via)
  next
    case 3
    then show ?thesis
      using label_total [of "mID m" "''main''" w]
      by (cases "Labels_Get (Labels R) (mID m) ''main'' w"; cases co)
         (simp_all add: resolveResourceRef_def chooses_def g iffs via)
  qed
qed

lemma resolve_exact:
  assumes keys: "registry_keys (abs w)"
  shows "resolveResourceRef R (Some (ResourceByName n)) w = Inr (m, co) \<longleftrightarrow> denotes (abs w) n m co"
proof -
  have "Modules_Get (Modules R) (GetOwner n) (GetModule n) w = Ret m"
    if "resolveResourceRef R (Some (ResourceByName n)) w = Inr (m, co)"
    by (rule resolve_module [OF that]) simp
  then show ?thesis
    using resolve_chooses [OF keys, of n m co] get_module_iff [OF keys, of "GetOwner n" "GetModule n" m]
    unfolding denotes_def by blast
qed

end

end
