(* ===== verification/Module_Service.thy ===== *)
theory Module_Service
  imports Resolve
begin

text \<open>
  \<^verbatim>\<open>internal/api/module/module.go\<close>: getting, listing and creating modules, and the helpers the other
  module services share. Handlers that only read return no state; \<^verbatim>\<open>CreateModules\<close> is a loop that
  stops at the first bad value and keeps what was created before it.
\<close>

section \<open>Helpers\<close>

definition moduleNameRe :: "string \<Rightarrow> bool" where
  "moduleNameRe = rx_match [(alnum_lower, 1, 1), (alnum_lower_hyphen, 0, 37), (alnum_lower, 1, 1)]"

definition resolveOwnerRefName :: "name_ref option \<Rightarrow> string" where
  "resolveOwnerRefName ref = (case ref of None \<Rightarrow> [] | Some r \<Rightarrow> ref_GetName r)"

definition resolveOwnerTypeFromName :: "User \<Rightarrow> string \<Rightarrow> OwnerType" where
  "resolveOwnerTypeFromName caller ownerName =
     (if ownerName = uUsername caller then OwnerTypeUser else OwnerTypeOrg)"

definition resolveOwnerIDHelper :: "'w Repos \<Rightarrow> Module \<Rightarrow> 'w \<Rightarrow> string" where
  "resolveOwnerIDHelper R m w =
     (if mOwnerType m = OwnerTypeUser then
        (case Users_GetByUsername (Users R) (mOwnerName m) w of Ret u \<Rightarrow> uID u | RetErr _ _ \<Rightarrow> [])
      else
        (case Orgs_GetByName (Orgs R) (mOwnerName m) w of Ret g \<Rightarrow> oID g | RetErr _ _ \<Rightarrow> []))"

definition moduleToProto :: "Module \<Rightarrow> string \<Rightarrow> proto_module" where
  "moduleToProto m ownerID =
     \<lparr>pm_id = mID m, pm_name = mName m, pm_owner_id = ownerID,
      pm_visibility = (if mVisibility m = VisibilityPublic then VISIBILITY_PUBLIC else VISIBILITY_PRIVATE),
      pm_state = STATE_ACTIVE, pm_create_time = mCreatedAt m, pm_update_time = mCreatedAt m,
      pm_default_label = ''main''\<rparr>"

section \<open>Handlers\<close>

definition getModuleRef :: "'w Repos \<Rightarrow> User option \<Rightarrow> 'w \<Rightarrow> module_ref \<Rightarrow> connect_error + proto_module" where
  "getModuleRef R caller w ref =
     (case (case ref of
              ModuleByName own n \<Rightarrow> Some (Modules_Get (Modules R) own n w)
            | ModuleById i \<Rightarrow> if i \<noteq> [] then Some (Modules_GetByID (Modules R) i w) else None
            | NoModuleRef \<Rightarrow> None) of
        None \<Rightarrow> Inl (ConnectError CodeInvalidArgument ''module ref must have name or id'')
      | Some (RetErr _ e) \<Rightarrow>
          if e = ErrNotFound then Inl (ConnectError CodeNotFound ''module not found'')
          else Inl (ConnectError CodeInternal ''internal error'')
      | Some (Ret m) \<Rightarrow>
          if \<not> CanReadModule (Auth R) (userID caller) m w
          then Inl (ConnectError CodeNotFound ''module not found'')
          else Inr (moduleToProto m (resolveOwnerIDHelper R m w)))"

definition GetModules ::
  "'w Repos \<Rightarrow> User option \<Rightarrow> module_ref list \<Rightarrow> 'w \<Rightarrow> connect_error + proto_module list" where
  "GetModules R caller refs w = collect (getModuleRef R caller w) refs []"

definition listOwner :: "'w Repos \<Rightarrow> User option \<Rightarrow> 'w \<Rightarrow> name_ref \<Rightarrow> connect_error + proto_module list" where
  "listOwner R caller w ownerRef =
     (let ownerName = resolveOwnerRefName (Some ownerRef) in
      if ownerName = [] then Inl (ConnectError CodeInvalidArgument ''owner ref must have name'')
      else
        (case Modules_List (Modules R) ownerName w of
           Inl _ \<Rightarrow> Inl (ConnectError CodeInternal ''internal error'')
         | Inr mods \<Rightarrow>
             Inr (map (\<lambda>m. moduleToProto m (resolveOwnerIDHelper R m w))
                    (filter (\<lambda>m. CanReadModule (Auth R) (userID caller) m w) mods))))"

definition ListModules ::
  "'w Repos \<Rightarrow> User option \<Rightarrow> name_ref list \<Rightarrow> 'w \<Rightarrow> connect_error + proto_module list" where
  "ListModules R caller ownerRefs w = map_sum id concat (collect (listOwner R caller w) ownerRefs [])"

record create_module_value =
  cm_owner_ref :: "name_ref option"
  cm_name :: string
  cm_visibility :: visibility_enum

definition createModule ::
  "'w Repos \<Rightarrow> env \<Rightarrow> User \<Rightarrow> nat \<Rightarrow> create_module_value \<Rightarrow> ('w, proto_module) handler" where
  "createModule R E caller i v w =
     (let ownerName = resolveOwnerRefName (cm_owner_ref v) in
      if \<not> CanCreateModule (Auth R) (uID caller) ownerName w
      then reject CodePermissionDenied (''cannot create modules under: '' @ ownerName) w
      else
        (let ownerType = resolveOwnerTypeFromName caller ownerName in
         if \<not> moduleNameRe (cm_name v)
         then reject CodeInvalidArgument ''module name must be 2-39 chars, lowercase alphanumeric and hyphens'' w
         else
           (let vis = (if cm_visibility v = VISIBILITY_PUBLIC then VisibilityPublic else VisibilityPrivate) in
            case Modules_Get (Modules R) ownerName (cm_name v) w of
              Ret _ \<Rightarrow> reject CodeAlreadyExists (''module already exists: '' @ ownerName @ ''/'' @ cm_name v) w
            | RetErr _ _ \<Rightarrow>
                (let m = \<lparr>mID = NewString E i 0, mOwnerName = ownerName, mOwnerType = ownerType,
                          mName = cm_name v, mVisibility = vis, mCreatedAt = Now E i 0\<rparr> in
                 case Modules_Create (Modules R) m w of
                   (Some _, w') \<Rightarrow> reject CodeInternal ''internal error'' w'
                 | (None, w') \<Rightarrow> (Inr (moduleToProto m (resolveOwnerIDHelper R m w')), w')))))"

definition CreateModules ::
  "'w Repos \<Rightarrow> env \<Rightarrow> User option \<Rightarrow> create_module_value list \<Rightarrow> ('w, proto_module list) handler" where
  "CreateModules R E caller vs w =
     (case caller of
        None \<Rightarrow> reject CodeUnauthenticated ''not authenticated'' w
      | Some u \<Rightarrow> for_each (createModule R E u) 0 vs [] w)"

declare createModule_def [handler_defs] CreateModules_def [handler_defs]
  GetModules_def [handler_defs] ListModules_def [handler_defs]

section \<open>Names\<close>

definition name_char :: "char \<Rightarrow> bool" where
  "name_char c \<longleftrightarrow> (of_char c :: nat) \<in> {97..122} \<or> (of_char c :: nat) \<in> {48..57}"

lemma in_alnum_lower: "in_class alnum_lower c \<longleftrightarrow> name_char c"
  by (simp add: in_class_def alnum_lower_def name_char_def)

lemma in_alnum_lower_hyphen: "in_class alnum_lower_hyphen c \<longleftrightarrow> name_char c \<or> c = CHR ''-''"
proof -
  have "(of_char CHR ''-'' :: nat) \<le> of_char c \<and> (of_char c :: nat) \<le> of_char CHR ''-'' \<longleftrightarrow> c = CHR ''-''"
    by (metis inj_of_char injD le_antisym order_refl)
  then show ?thesis by (auto simp: in_class_def alnum_lower_hyphen_def name_char_def)
qed

text \<open>The two name patterns in plain words: letters, digits and hyphens, no hyphen at either end.\<close>

definition good_name :: "nat \<Rightarrow> string \<Rightarrow> bool" where
  "good_name lo s \<longleftrightarrow>
     lo \<le> length s \<and> length s \<le> 39 \<and> (\<forall>c\<in>set s. name_char c \<or> c = CHR ''-'') \<and>
     hd s \<noteq> CHR ''-'' \<and> last s \<noteq> CHR ''-''"

lemma name_char_hyphen [simp]: "\<not> name_char CHR ''-''"
  by (simp add: name_char_def)

lemma bracketed_good_name:
  "rx_match [(alnum_lower, 1, 1), (alnum_lower_hyphen, lo, 37), (alnum_lower, 1, 1)] s \<longleftrightarrow> good_name (lo + 2) s"
proof
  assume "rx_match [(alnum_lower, 1, 1), (alnum_lower_hyphen, lo, 37), (alnum_lower, 1, 1)] s"
  then show "good_name (lo + 2) s"
    unfolding rx_match_bracketed
    by (auto simp: good_name_def in_alnum_lower in_alnum_lower_hyphen list_all_iff)
next
  assume g: "good_name (lo + 2) s"
  then have "1 \<le> length (tl s)" by (auto simp: good_name_def)
  then obtain x ms y where s: "s = x # ms @ [y]"
    by (metis append_butlast_last_id list.collapse list.size(3) list.sel(2) not_one_le_zero)
  then show "rx_match [(alnum_lower, 1, 1), (alnum_lower_hyphen, lo, 37), (alnum_lower, 1, 1)] s"
    unfolding rx_match_bracketed using g
    by (intro exI [of _ x] exI [of _ ms] exI [of _ y])
       (auto simp: good_name_def in_alnum_lower in_alnum_lower_hyphen list_all_iff)
qed

lemma moduleNameRe_iff: "moduleNameRe s \<longleftrightarrow> good_name 2 s"
  using bracketed_good_name [of 0 s] by (simp only: moduleNameRe_def add_0)

section \<open>Creating modules\<close>

text \<open>The module a value asks for.\<close>

definition requested_module :: "env \<Rightarrow> User \<Rightarrow> nat \<Rightarrow> create_module_value \<Rightarrow> Module" where
  "requested_module E caller i v =
     (let own = resolveOwnerRefName (cm_owner_ref v) in
      \<lparr>mID = NewString E i 0, mOwnerName = own, mOwnerType = resolveOwnerTypeFromName caller own,
       mName = cm_name v,
       mVisibility = (if cm_visibility v = VISIBILITY_PUBLIC then VisibilityPublic else VisibilityPrivate),
       mCreatedAt = Now E i 0\<rparr>)"

lemma requested_module_simps [simp]:
  "mOwnerName (requested_module E caller i v) = resolveOwnerRefName (cm_owner_ref v)"
  "mName (requested_module E caller i v) = cm_name v"
  "mID (requested_module E caller i v) = NewString E i 0"
  "with_default (requested_module E caller i v) = requested_module E caller i v"
  by (simp_all add: requested_module_def Let_def)

lemma createModule_alt:
  "createModule R E caller i v w =
     (let own = resolveOwnerRefName (cm_owner_ref v) in
      if \<not> CanCreateModule (Auth R) (uID caller) own w
      then reject CodePermissionDenied (''cannot create modules under: '' @ own) w
      else if \<not> moduleNameRe (cm_name v)
      then reject CodeInvalidArgument ''module name must be 2-39 chars, lowercase alphanumeric and hyphens'' w
      else
        (case Modules_Get (Modules R) own (cm_name v) w of
           Ret _ \<Rightarrow> reject CodeAlreadyExists (''module already exists: '' @ own @ ''/'' @ cm_name v) w
         | RetErr _ _ \<Rightarrow>
             (case Modules_Create (Modules R) (requested_module E caller i v) w of
                (Some _, w') \<Rightarrow> reject CodeInternal ''internal error'' w'
              | (None, w') \<Rightarrow>
                  (Inr (moduleToProto (requested_module E caller i v)
                     (resolveOwnerIDHelper R (requested_module E caller i v) w')), w'))))"
  by (simp only: createModule_def requested_module_def Let_def)

context repos_sound
begin

lemma createModule_steps:
  assumes "steps_from w0 w" "createModule R E caller i v w = (r, w')"
  shows "steps_from w0 w'"
  using assms steps_from_write [OF assms(1), of "ModuleCreate (requested_module E caller i v)"]
  by (auto simp: createModule_alt Let_def split: if_splits fetch.splits option.splits prod.splits)

lemma CreateModules_steps:
  assumes "registry_keys (abs w)" "CreateModules R E caller vs w = (r, w')"
  shows "steps_from w w'"
proof (cases caller)
  case None
  with assms show ?thesis by (simp add: CreateModules_def)
next
  case (Some u)
  with assms(2) have "for_each (createModule R E u) 0 vs [] w = (r, w')" by (simp add: CreateModules_def)
  then show ?thesis
    by (rule for_each_preserves [where I = "steps_from w"]) (use assms(1) createModule_steps in blast)+
qed

end

end
