(* ===== verification/Path.thy ===== *)
theory Path
  imports Go_Lib
begin

text \<open>
  \<^verbatim>\<open>path/filepath\<close> on Unix, as the local blob store uses it: \<^verbatim>\<open>Clean\<close>, \<^verbatim>\<open>Join\<close>, \<^verbatim>\<open>IsAbs\<close>,
  \<^verbatim>\<open>Abs\<close> and \<^verbatim>\<open>Dir\<close>. A path is processed element by element, as the documentation of
  \<^verbatim>\<open>Clean\<close> describes; the working directory that \<^verbatim>\<open>Abs\<close> asks for is an argument.
\<close>

abbreviation (input) sep :: char where "sep \<equiv> CHR ''/''"

definition IsAbs :: "string \<Rightarrow> bool" where
  "IsAbs p \<longleftrightarrow> HasPrefix p ''/''"

definition clean_step :: "bool \<Rightarrow> string list \<Rightarrow> string \<Rightarrow> string list" where
  "clean_step rooted st c =
     (if c = [] \<or> c = ''.'' then st
      else if c = ''..'' then
        (if st \<noteq> [] \<and> last st \<noteq> ''..'' then butlast st
         else if rooted then st else st @ [''..''])
      else st @ [c])"

definition Clean :: "string \<Rightarrow> string" where
  "Clean p =
     (let body = JoinChar sep (foldl (clean_step (IsAbs p)) [] (SplitChar sep p)) in
      if IsAbs p then sep # body else if body = [] then ''.'' else body)"

text \<open>\<^verbatim>\<open>Join\<close> of two elements: empty ones are dropped from the front.\<close>

definition Join :: "string \<Rightarrow> string \<Rightarrow> string" where
  "Join a b = (if a \<noteq> [] then Clean (a @ sep # b) else if b \<noteq> [] then Clean b else [])"

definition Abs :: "string + string \<Rightarrow> string \<Rightarrow> string + string" where
  "Abs getwd p =
     (if IsAbs p then Inr (Clean p)
      else (case getwd of Inl e \<Rightarrow> Inl e | Inr wd \<Rightarrow> Inr (Join wd p)))"

text \<open>The elements of a path, and the absolute path with given elements.\<close>

definition elems :: "string \<Rightarrow> string list" where
  "elems p = filter (\<lambda>c. c \<noteq> []) (SplitChar sep p)"

definition abs_path :: "string list \<Rightarrow> string" where
  "abs_path cs = sep # JoinChar sep cs"

definition plain :: "string \<Rightarrow> bool" where
  "plain c \<longleftrightarrow> c \<noteq> [] \<and> c \<noteq> ''.'' \<and> c \<noteq> ''..'' \<and> sep \<notin> set c"

definition walk :: "string list \<Rightarrow> string list \<Rightarrow> string list" where
  "walk st cs = foldl (clean_step True) st cs"

section \<open>Elements\<close>

lemma SplitChar_append_sep: "SplitChar c (a @ c # b) = SplitChar c a @ SplitChar c b"
  by (induction a) (auto split: list.splits)

lemma elems_append_sep: "elems (a @ sep # b) = elems a @ elems b"
  by (simp add: elems_def SplitChar_append_sep)

lemma elems_JoinChar: "\<forall>c\<in>set cs. plain c \<Longrightarrow> elems (JoinChar sep cs) = cs"
  by (cases "cs = []") (auto simp: elems_def SplitChar_JoinChar plain_def filter_id_conv)

lemma elems_abs_path [simp]: "\<forall>c\<in>set cs. plain c \<Longrightarrow> elems (abs_path cs) = cs"
  using elems_append_sep [of "[]" "JoinChar sep cs"] elems_JoinChar by (simp add: abs_path_def elems_def)

lemma abs_path_inj:
  "\<forall>c\<in>set as. plain c \<Longrightarrow> \<forall>c\<in>set bs. plain c \<Longrightarrow> abs_path as = abs_path bs \<longleftrightarrow> as = bs"
  by (metis elems_abs_path)

lemma IsAbs_Cons [simp]: "IsAbs (sep # p)"
  by (simp add: IsAbs_def HasPrefix_def)

lemma IsAbs_iff: "IsAbs p \<longleftrightarrow> (\<exists>q. p = sep # q)"
  by (cases p) (auto simp: IsAbs_def HasPrefix_def)

lemma IsAbs_abs_path [simp]: "IsAbs (abs_path cs)"
  by (simp add: abs_path_def)

section \<open>Walking\<close>

lemma walk_simps [simp]: "walk st [] = st" "walk st (c # cs) = walk (clean_step True st c) cs"
  by (simp_all add: walk_def)

lemma clean_step_set:
  "set (clean_step rt st c) \<subseteq> set st \<union> ({c} - {[], ''.''})"
  by (auto simp: clean_step_def dest: in_set_butlastD)

lemma clean_step_plain: "plain c \<Longrightarrow> clean_step rt st c = st @ [c]"
  by (simp add: clean_step_def plain_def)

lemma clean_step_skip [simp]: "clean_step rt st [] = st" "clean_step rt st ''.'' = st"
  by (simp_all add: clean_step_def)

lemma walk_append [simp]: "walk st (as @ bs) = walk (walk st as) bs"
  by (simp add: walk_def)

lemma walk_plain: "\<forall>c\<in>set cs. plain c \<Longrightarrow> walk st cs = st @ cs"
  by (induction cs arbitrary: st) (simp_all add: clean_step_plain)

lemma walk_keeps_plain:
  "\<forall>c\<in>set st. plain c \<Longrightarrow> \<forall>c\<in>set cs. sep \<notin> set c \<Longrightarrow> \<forall>c\<in>set (walk st cs). plain c"
proof (induction cs arbitrary: st)
  case (Cons c cs)
  have "\<forall>x\<in>set (clean_step True st c). plain x"
    using Cons.prems by (auto simp: plain_def clean_step_def dest: in_set_butlastD)
  with Cons.prems show ?case using Cons.IH by simp
qed simp

lemma walk_SplitChar_plain: "\<forall>c\<in>set st. plain c \<Longrightarrow> \<forall>c\<in>set (walk st (SplitChar sep p)). plain c"
  by (rule walk_keeps_plain) (auto dest: SplitChar_no_sep)

lemma Clean_abs: "IsAbs p \<Longrightarrow> Clean p = abs_path (walk [] (SplitChar sep p))"
  by (simp add: Clean_def abs_path_def walk_def)

text \<open>Cleaning a path before walking it changes nothing.\<close>

lemma walk_relative:
  assumes "\<forall>x\<in>set acc. x \<noteq> [] \<and> x \<noteq> ''.''"
  shows "walk st (foldl (clean_step False) acc cs) = walk (walk st acc) cs"
  using assms
proof (induction cs arbitrary: acc)
  case (Cons c cs)
  have step: "walk st (clean_step False acc c) = walk (walk st acc) [c]"
  proof (cases "c = ''..'' \<and> acc \<noteq> [] \<and> last acc \<noteq> ''..''")
    case True
    then obtain acc' x where acc: "acc = acc' @ [x]" by (metis append_butlast_last_id)
    with True Cons.prems show ?thesis by (simp add: clean_step_def)
  next
    case False
    then show ?thesis by (auto simp: clean_step_def)
  qed
  have "\<forall>x\<in>set (clean_step False acc c). x \<noteq> [] \<and> x \<noteq> ''.''"
    using Cons.prems clean_step_set [of False acc c] by blast
  from Cons.IH [OF this] show ?case by (simp add: step)
qed simp

lemma clean_no_sep:
  "\<forall>c\<in>set acc \<union> set cs. sep \<notin> set c \<Longrightarrow> \<forall>c\<in>set (foldl (clean_step rt) acc cs). sep \<notin> set c"
proof (induction cs arbitrary: acc)
  case (Cons c cs)
  have "\<forall>x\<in>set (clean_step rt acc c) \<union> set cs. sep \<notin> set x"
    using Cons.prems clean_step_set [of rt acc c] by auto
  then show ?case using Cons.IH by simp
qed simp

lemma clean_not_empty:
  "\<forall>c\<in>set acc. c \<noteq> [] \<Longrightarrow> \<forall>c\<in>set (foldl (clean_step rt) acc cs). c \<noteq> []"
proof (induction cs arbitrary: acc)
  case (Cons c cs)
  have "\<forall>x\<in>set (clean_step rt acc c). x \<noteq> []"
    using Cons.prems clean_step_set [of rt acc c] by auto
  then show ?case using Cons.IH by simp
qed simp

lemma JoinChar_not_Nil: "ws \<noteq> [] \<Longrightarrow> \<forall>w\<in>set ws. w \<noteq> [] \<Longrightarrow> JoinChar c ws \<noteq> []"
  by (induction c ws rule: JoinChar.induct) auto

lemma walk_abs_path: "\<forall>c\<in>set cs. plain c \<Longrightarrow> walk st (SplitChar sep (abs_path cs)) = st @ cs"
proof -
  assume *: "\<forall>c\<in>set cs. plain c"
  have "SplitChar sep (abs_path cs) = [] # SplitChar sep (JoinChar sep cs)" by (simp add: abs_path_def)
  moreover have "SplitChar sep (JoinChar sep cs) = (if cs = [] then [[]] else cs)"
    using * by (simp add: SplitChar_JoinChar plain_def)
  ultimately show ?thesis using walk_plain [OF *, of st] by simp
qed

lemma walk_Clean_rel:
  assumes "\<not> IsAbs p"
  shows "walk st (SplitChar sep (Clean p)) = walk st (SplitChar sep p)"
proof -
  let ?cs = "foldl (clean_step False) [] (SplitChar sep p)"
  have ne: "\<forall>c\<in>set ?cs. c \<noteq> []" by (rule clean_not_empty) simp
  have ns: "\<forall>c\<in>set ?cs. sep \<notin> set c" by (rule clean_no_sep) (auto dest: SplitChar_no_sep)
  have "walk st (SplitChar sep (Clean p)) = walk st ?cs"
  proof (cases "?cs = []")
    case True
    with assms show ?thesis by (simp add: Clean_def)
  next
    case False
    then have "JoinChar sep ?cs \<noteq> []" using ne by (intro JoinChar_not_Nil)
    with assms have "Clean p = JoinChar sep ?cs" by (simp add: Clean_def Let_def)
    then show ?thesis using SplitChar_JoinChar [OF False ns] by simp
  qed
  also have "\<dots> = walk st (SplitChar sep p)" using walk_relative [of "[]" st] by simp
  finally show ?thesis .
qed

section \<open>Absolute paths\<close>

text \<open>Where a path leads from a working directory, and that \<^verbatim>\<open>Abs\<close> and \<^verbatim>\<open>Join\<close> follow it.\<close>

definition leads :: "string list \<Rightarrow> string \<Rightarrow> string list" where
  "leads wd p = walk (if IsAbs p then [] else wd) (SplitChar sep p)"

lemma leads_plain: "\<forall>c\<in>set wd. plain c \<Longrightarrow> \<forall>c\<in>set (leads wd p). plain c"
  unfolding leads_def by (rule walk_SplitChar_plain) simp

lemma IsAbs_append: "a \<noteq> [] \<Longrightarrow> IsAbs (a @ b) = IsAbs a"
  by (cases a) (simp_all add: IsAbs_iff)

lemma IsAbs_Clean [simp]: "IsAbs (Clean p) = IsAbs p"
proof (cases "IsAbs p")
  case True
  then show ?thesis by (simp add: Clean_abs)
next
  case False
  let ?cs = "foldl (clean_step False) [] (SplitChar sep p)"
  have ns: "\<forall>c\<in>set ?cs. sep \<notin> set c" by (rule clean_no_sep) (auto dest: SplitChar_no_sep)
  have ne: "\<forall>c\<in>set ?cs. c \<noteq> []" by (rule clean_not_empty) simp
  have "\<not> IsAbs (JoinChar sep ?cs)"
  proof (cases ?cs)
    case (Cons c cs)
    then obtain x c' where "c = x # c'" "x \<noteq> sep" using ns ne by (cases c) auto
    with Cons show ?thesis by (simp add: IsAbs_iff JoinChar_Cons_head)
  qed (simp add: IsAbs_iff)
  with False show ?thesis by (simp add: Clean_def Let_def IsAbs_iff)
qed

lemma leads_Clean [simp]: "leads wd (Clean p) = leads wd p"
proof (cases "IsAbs p")
  case True
  then show ?thesis
    using walk_abs_path [OF walk_SplitChar_plain [of "[]" p], of "[]"] by (simp add: leads_def Clean_abs)
next
  case False
  then show ?thesis by (simp add: leads_def walk_Clean_rel)
qed

lemma leads_Join: "a \<noteq> [] \<Longrightarrow> leads wd (Join a b) = walk (leads wd a) (SplitChar sep b)"
  by (simp add: Join_def) (simp add: leads_def IsAbs_append SplitChar_append_sep)

text \<open>\<^verbatim>\<open>Getwd\<close> answers with a rooted path.\<close>

lemma Abs_leads:
  assumes "IsAbs wd"
  shows "Abs (Inr wd) p = Inr (abs_path (leads (leads [] wd) p))"
proof (cases "IsAbs p")
  case True
  then show ?thesis by (simp add: Abs_def Clean_abs leads_def)
next
  case False
  have "wd \<noteq> []" using assms by (auto simp: IsAbs_iff)
  then have "Join wd p = abs_path (walk [] (SplitChar sep (wd @ sep # p)))"
    using assms by (simp add: Join_def Clean_abs IsAbs_append)
  with False assms show ?thesis by (simp add: Abs_def leads_def SplitChar_append_sep)
qed

lemma abs_path_split:
  assumes "\<forall>c\<in>set rs. plain c" "\<forall>c\<in>set cs. plain c" "abs_path cs = abs_path rs @ sep # t"
  shows "cs = rs @ elems t"
proof -
  have "elems (abs_path cs) = elems (abs_path rs) @ elems t" unfolding assms(3) by (rule elems_append_sep)
  with assms(1,2) show ?thesis by simp
qed

lemma under_iff:
  assumes "\<forall>c\<in>set rs. plain c" "\<forall>c\<in>set cs. plain c" "rs \<noteq> []"
  shows "HasPrefix (abs_path cs) (abs_path rs @ [sep]) \<longleftrightarrow> (\<exists>t. t \<noteq> [] \<and> cs = rs @ t)"
proof
  assume "HasPrefix (abs_path cs) (abs_path rs @ [sep])"
  then obtain t where t: "abs_path cs = abs_path rs @ sep # t" by (auto simp: HasPrefix_iff)
  then have "cs = rs @ elems t" using abs_path_split [OF assms(1,2)] by simp
  moreover from this t have "elems t \<noteq> []" by auto
  ultimately show "\<exists>t. t \<noteq> [] \<and> cs = rs @ t" by blast
next
  assume "\<exists>t. t \<noteq> [] \<and> cs = rs @ t"
  then obtain t where t: "t \<noteq> []" "cs = rs @ t" by blast
  have "JoinChar sep (rs @ t) = JoinChar sep rs @ sep # JoinChar sep t"
    using assms(3) t(1) by (induction rs rule: induct_list012) (auto simp: JoinChar_Cons)
  then show "HasPrefix (abs_path cs) (abs_path rs @ [sep])"
    unfolding t(2) HasPrefix_iff by (intro exI [of _ "JoinChar sep t"]) (simp add: abs_path_def)
qed

lemma under_sound:
  assumes "\<forall>c\<in>set rs. plain c" "\<forall>c\<in>set cs. plain c"
    and "HasPrefix (abs_path cs) (abs_path rs @ [sep]) \<or> abs_path cs = abs_path rs"
  shows "\<exists>t. cs = rs @ t"
  using assms(3)
proof
  assume "HasPrefix (abs_path cs) (abs_path rs @ [sep])"
  then obtain t where t: "abs_path cs = abs_path rs @ sep # t" by (auto simp: HasPrefix_iff)
  then show ?thesis using abs_path_split [OF assms(1,2)] by blast
qed (use assms abs_path_inj in auto)

text \<open>Under the root directory itself nothing passes the test: its path ends in the separator.\<close>

lemma under_root:
  assumes "\<forall>c\<in>set cs. plain c"
  shows "\<not> HasPrefix (abs_path cs) (abs_path [] @ [sep])"
proof (cases cs)
  case (Cons c cs')
  then obtain x c' where "c = x # c'" "x \<noteq> sep" using assms by (cases c) (auto simp: plain_def)
  with Cons show ?thesis by (simp add: HasPrefix_iff abs_path_def JoinChar_Cons_head)
qed (simp add: HasPrefix_iff abs_path_def)

end
