(* ===== verification/Archive.thy ===== *)
theory Archive
  imports Proto Path
begin

text \<open>
  Validation, packing and unpacking of uploaded files, from \<^verbatim>\<open>internal/api/module/upload.go\<close>.

  The ZIP format is a parameter: what \<^verbatim>\<open>archive/zip\<close>'s writer answers given the entries written so far,
  and what its reader finds in a byte string. \<open>zip_ok\<close> is the documented round trip; \<open>demo_zip\<close> is a
  format that has it.
\<close>

definition maxUploadSize :: int where "maxUploadSize = 50 * 1024 * 1024"
definition maxFileCount :: int where "maxFileCount = 10000"
definition maxFileSize :: int where "maxFileSize = 10 * 1024 * 1024"

lemmas limits = maxUploadSize_def maxFileCount_def maxFileSize_def

section \<open>Validation\<close>

definition bad_path :: "string \<Rightarrow> bool" where
  "bad_path p \<longleftrightarrow> p = [] \<or> HasPrefix p ''/'' \<or> Contains p [CHR 0x5C] \<or> Contains p ''..''"

fun validate_loop :: "proto_file list \<Rightarrow> int \<Rightarrow> string option" where
  "validate_loop [] totalSize = None"
| "validate_loop (f # fs) totalSize =
     (let p = GetPath f in
      if bad_path p then Some (''invalid file path: '' @ p)
      else if int (length (GetContent f)) > maxFileSize then Some (''file too large: '' @ p)
      else
        (let totalSize' = totalSize + int (length (GetContent f)) in
         if totalSize' > maxUploadSize then Some ''total upload too large''
         else validate_loop fs totalSize'))"

definition validateFiles :: "proto_file list \<Rightarrow> string option" where
  "validateFiles files =
     (if int (length files) > maxFileCount then Some ''too many files'' else validate_loop files 0)"

section \<open>Archives\<close>

record zip_file =
  zf_Name :: string
  zf_UncompressedSize64 :: "64 word"
  zf_Open :: "string + bytes \<times> string option"

text \<open>
  The writer is asked for an error after \<^verbatim>\<open>Create\<close> and after \<^verbatim>\<open>Write\<close>, given the entries before, and
  closed into bytes. A member of a read archive opens into a stream: its bytes, and the error that
  ends it (\<open>None\<close> for end of file).
\<close>

record zip_lib =
  zip_Create :: "(string \<times> bytes) list \<Rightarrow> string \<Rightarrow> string option"
  zip_Write :: "(string \<times> bytes) list \<Rightarrow> string \<Rightarrow> bytes \<Rightarrow> string option"
  zip_Close :: "(string \<times> bytes) list \<Rightarrow> string + bytes"
  zip_NewReader :: "bytes \<Rightarrow> string + zip_file list"

fun zip_loop :: "zip_lib \<Rightarrow> proto_file list \<Rightarrow> (string \<times> bytes) list \<Rightarrow> string + bytes" where
  "zip_loop Z [] es = zip_Close Z es"
| "zip_loop Z (f # fs) es =
     (case zip_Create Z es (GetPath f) of
        Some e \<Rightarrow> Inl e
      | None \<Rightarrow>
          (case zip_Write Z es (GetPath f) (GetContent f) of
             Some e \<Rightarrow> Inl e
           | None \<Rightarrow> zip_loop Z fs (es @ [(GetPath f, GetContent f)])))"

definition zipFiles :: "zip_lib \<Rightarrow> proto_file list \<Rightarrow> string + bytes" where
  "zipFiles Z files = zip_loop Z files []"

text \<open>\<^verbatim>\<open>io.LimitReader\<close> stops after \<open>n\<close> bytes, before any error that would follow them.\<close>

definition read_limited :: "int \<Rightarrow> bytes \<times> string option \<Rightarrow> string + bytes" where
  "read_limited n s =
     (if int (length (fst s)) \<ge> n then Inr (take (nat n) (fst s))
      else (case snd s of None \<Rightarrow> Inr (fst s) | Some e \<Rightarrow> Inl e))"

fun unzip_loop :: "zip_file list \<Rightarrow> int \<Rightarrow> proto_file list \<Rightarrow> string + proto_file list" where
  "unzip_loop [] totalSize files = Inr files"
| "unzip_loop (f # fs) totalSize files =
     (if uint (zf_UncompressedSize64 f) > maxFileSize
      then Inl (''decompressed file too large: '' @ zf_Name f)
      else
        (case zf_Open f of
           Inl e \<Rightarrow> Inl e
         | Inr rc \<Rightarrow>
             (case read_limited (maxFileSize + 1) rc of
                Inl e \<Rightarrow> Inl e
              | Inr content \<Rightarrow>
                  (let n = int (length content) in
                   if n > maxFileSize then Inl (''decompressed file too large: '' @ zf_Name f)
                   else
                     (let totalSize' = totalSize + n in
                      if totalSize' > maxUploadSize then Inl ''total decompressed size too large''
                      else unzip_loop fs totalSize'
                             (files @ [\<lparr>GetPath = zf_Name f, GetContent = content\<rparr>]))))))"

definition unzipFiles :: "zip_lib \<Rightarrow> bytes \<Rightarrow> string + proto_file list" where
  "unzipFiles Z d =
     (case zip_NewReader Z d of Inl e \<Rightarrow> Inl e | Inr fs \<Rightarrow> unzip_loop fs 0 [])"

section \<open>What validation accepts\<close>

definition total_size :: "proto_file list \<Rightarrow> int" where
  "total_size fs = sum_list (map (\<lambda>f. int (length (GetContent f))) fs)"

lemma total_size_simps [simp]:
  "total_size [] = 0" "total_size (f # fs) = int (length (GetContent f)) + total_size fs"
  by (simp_all add: total_size_def)

lemma total_size_nonneg: "0 \<le> total_size fs"
  by (induction fs) simp_all

definition file_ok :: "proto_file \<Rightarrow> bool" where
  "file_ok f \<longleftrightarrow> \<not> bad_path (GetPath f) \<and> int (length (GetContent f)) \<le> maxFileSize"

lemma validate_loop_None:
  assumes "t \<le> maxUploadSize"
  shows "validate_loop fs t = None \<longleftrightarrow> (\<forall>f\<in>set fs. file_ok f) \<and> t + total_size fs \<le> maxUploadSize"
  using assms
proof (induction fs arbitrary: t)
  case (Cons f fs)
  show ?case
  proof (cases "t + int (length (GetContent f)) \<le> maxUploadSize")
    case True
    from Cons.IH [OF this] True show ?thesis by (auto simp: Let_def file_ok_def add.assoc)
  next
    case False
    with total_size_nonneg [of fs] show ?thesis by (auto simp: Let_def)
  qed
qed simp

lemma validateFiles_None:
  "validateFiles fs = None \<longleftrightarrow>
     int (length fs) \<le> maxFileCount \<and> (\<forall>f\<in>set fs. file_ok f) \<and> total_size fs \<le> maxUploadSize"
  using validate_loop_None [of 0 fs] by (auto simp: validateFiles_def maxUploadSize_def)

text \<open>An accepted path stays below the directory it is unpacked into.\<close>

lemma split_part_Contains: "c \<in> set (SplitChar x p) \<Longrightarrow> Contains c s \<Longrightarrow> Contains p s"
proof -
  assume c: "c \<in> set (SplitChar x p)" and s: "Contains c s"
  have "\<exists>a b. p = a @ c @ b"
    using c
  proof (induction p arbitrary: c)
    case (Cons y p)
    show ?case
    proof (cases "y = x")
      case True
      with Cons show ?thesis by (auto intro: exI [of _ "[]"]) (metis append_Cons)+
    next
      case False
      then obtain v vs where v: "SplitChar x p = v # vs" by (metis SplitChar_not_Nil list.exhaust)
      from False v Cons.prems have "c = y # v \<or> c \<in> set vs" by simp
      then show ?thesis
      proof
        assume cy: "c = y # v"
        have "p = JoinChar x (v # vs)" using JoinChar_SplitChar [of x p] v by simp
        then have "\<exists>b. p = v @ b" by (cases vs) auto
        then show ?thesis using cy by (metis append_Cons append_Nil)
      next
        assume "c \<in> set vs"
        then obtain a b where "p = a @ c @ b" using Cons.IH [of c] v by auto
        then show ?thesis by (metis append_Cons)
      qed
    qed
  qed simp
  then obtain a b where p: "p = a @ c @ b" by blast
  from s obtain a' b' where "c = a' @ s @ b'" unfolding Contains_iff by blast
  with p show ?thesis unfolding Contains_iff by (metis append.assoc)
qed

lemma walk_no_dotdot: "''..'' \<notin> set cs \<Longrightarrow> \<exists>t. walk st cs = st @ t"
proof (induction cs arbitrary: st)
  case (Cons c cs)
  then obtain t where "walk (clean_step True st c) cs = clean_step True st c @ t" by auto
  moreover have "\<exists>u. clean_step True st c = st @ u" using Cons.prems by (auto simp: clean_step_def)
  ultimately show ?case by auto
qed simp

lemma good_path_below: "\<not> bad_path p \<Longrightarrow> \<not> IsAbs p \<and> (\<exists>t. leads dir p = dir @ t)"
proof -
  assume p: "\<not> bad_path p"
  then have abs: "\<not> IsAbs p" by (simp add: bad_path_def IsAbs_def)
  have "Contains ''..'' ''..''" by code_simp
  then have "''..'' \<notin> set (SplitChar sep p)"
    using p split_part_Contains [of "''..''" sep p "''..''"] by (auto simp: bad_path_def)
  then show ?thesis using walk_no_dotdot abs by (simp add: leads_def)
qed

section \<open>Packing and unpacking\<close>

definition zip_member :: "string \<times> bytes \<Rightarrow> zip_file" where
  "zip_member e = \<lparr>zf_Name = fst e, zf_UncompressedSize64 = of_nat (length (snd e)), zf_Open = Inr (snd e, None)\<rparr>"

text \<open>Reading an archive finds the members that were written, in order.\<close>

definition zip_ok :: "zip_lib \<Rightarrow> bool" where
  "zip_ok Z \<longleftrightarrow> (\<forall>es d. zip_Close Z es = Inr d \<longrightarrow> zip_NewReader Z d = Inr (map zip_member es))"

abbreviation entries :: "proto_file list \<Rightarrow> (string \<times> bytes) list" where
  "entries \<equiv> map (\<lambda>f. (GetPath f, GetContent f))"

lemma zip_loop_Close: "zip_loop Z fs es = Inr d \<Longrightarrow> zip_Close Z (es @ entries fs) = Inr d"
proof (induction fs arbitrary: es)
  case (Cons f fs)
  then have "zip_loop Z fs (es @ [(GetPath f, GetContent f)]) = Inr d" by (auto split: option.splits)
  from Cons.IH [OF this] show ?case by simp
qed simp

lemma zipFiles_Close: "zipFiles Z fs = Inr d \<Longrightarrow> zip_Close Z (entries fs) = Inr d"
  using zip_loop_Close [of Z fs "[]" d] by (simp add: zipFiles_def)

lemma unzip_member:
  assumes "int (length c) \<le> maxFileSize"
  shows "uint (of_nat (length c) :: 64 word) \<le> maxFileSize"
    and "read_limited (maxFileSize + 1) (c, None) = Inr c"
proof -
  have "length c < 2 ^ 64" using assms by (simp add: maxFileSize_def)
  then have "uint (of_nat (length c) :: 64 word) = int (length c)" by (simp add: unsigned_of_nat take_bit_nat_eq_self)
  then show "uint (of_nat (length c) :: 64 word) \<le> maxFileSize" using assms by simp
  show "read_limited (maxFileSize + 1) (c, None) = Inr c" using assms by (simp add: read_limited_def)
qed

lemma unzip_loop_members:
  assumes "\<forall>f\<in>set fs. int (length (GetContent f)) \<le> maxFileSize" "t + total_size fs \<le> maxUploadSize"
  shows "unzip_loop (map zip_member (entries fs)) t acc = Inr (acc @ fs)"
  using assms
proof (induction fs arbitrary: t acc)
  case (Cons f fs)
  have f: "int (length (GetContent f)) \<le> maxFileSize" using Cons.prems(1) by simp
  have t: "t + int (length (GetContent f)) \<le> maxUploadSize"
    using Cons.prems(2) total_size_nonneg [of fs] by simp
  have rest: "(t + int (length (GetContent f))) + total_size fs \<le> maxUploadSize" using Cons.prems(2) by simp
  have "\<not> maxFileSize < uint (of_nat (length (GetContent f)) :: 64 word)" using unzip_member(1) [OF f] by simp
  then show ?case
    using Cons.IH [OF _ rest] Cons.prems(1) f t
    by (simp add: zip_member_def unzip_member(2) [OF f] Let_def)
qed simp

lemma zip_unzip:
  assumes "zip_ok Z" "zipFiles Z fs = Inr d"
    and "\<forall>f\<in>set fs. int (length (GetContent f)) \<le> maxFileSize" "total_size fs \<le> maxUploadSize"
  shows "unzipFiles Z d = Inr fs"
  using zipFiles_Close [OF assms(2)] assms(1) unzip_loop_members [OF assms(3), of 0 "[]"] assms(4)
  by (simp add: unzipFiles_def zip_ok_def)

text \<open>Whatever bytes are unpacked, the result respects the limits.\<close>

lemma read_limited_length: "read_limited n s = Inr c \<Longrightarrow> 0 \<le> n \<Longrightarrow> int (length c) \<le> n"
  by (auto simp: read_limited_def split: if_splits option.splits)

lemma unzip_loop_bounds:
  assumes "unzip_loop zs t acc = Inr fs" "t = total_size acc" "t \<le> maxUploadSize"
    and "\<forall>f\<in>set acc. int (length (GetContent f)) \<le> maxFileSize"
  shows "total_size fs \<le> maxUploadSize \<and> (\<forall>f\<in>set fs. int (length (GetContent f)) \<le> maxFileSize)"
  using assms
proof (induction zs arbitrary: t acc)
  case (Cons z zs)
  then obtain c where c: "int (length c) \<le> maxFileSize" "t + int (length c) \<le> maxUploadSize"
      "unzip_loop zs (t + int (length c)) (acc @ [\<lparr>GetPath = zf_Name z, GetContent = c\<rparr>]) = Inr fs"
    by (auto simp: Let_def not_less split: if_splits sum.splits)
  show ?case by (rule Cons.IH [OF c(3)]) (use Cons.prems c in \<open>auto simp: total_size_def\<close>)
qed simp

section \<open>A format with the round trip\<close>

text \<open>Byte strings are escaped (each byte preceded by a 1, a 0 at the end); an archive is a list of pairs of them.\<close>

fun put_bytes :: "bytes \<Rightarrow> bytes \<Rightarrow> bytes" where
  "put_bytes [] k = 0 # k"
| "put_bytes (b # bs) k = 1 # b # put_bytes bs k"

fun get_bytes :: "bytes \<Rightarrow> (bytes \<times> bytes) option" where
  "get_bytes (m # b # bs) =
     (if m = 0 then Some ([], b # bs)
      else (case get_bytes bs of None \<Rightarrow> None | Some (x, k) \<Rightarrow> Some (b # x, k)))"
| "get_bytes [m] = (if m = 0 then Some ([], []) else None)"
| "get_bytes [] = None"

fun pack :: "(string \<times> bytes) list \<Rightarrow> bytes" where
  "pack [] = []"
| "pack ((n, c) # es) = put_bytes (bytes_of_string n) (put_bytes c (pack es))"

fun unpack :: "nat \<Rightarrow> bytes \<Rightarrow> (string \<times> bytes) list option" where
  "unpack 0 d = None"
| "unpack (Suc k) d =
     (if d = [] then Some []
      else (case get_bytes d of
         None \<Rightarrow> None
       | Some (n, d') \<Rightarrow>
           (case get_bytes d' of
              None \<Rightarrow> None
            | Some (c, d'') \<Rightarrow>
                (case unpack k d'' of None \<Rightarrow> None | Some es \<Rightarrow> Some ((map (\<lambda>b. char_of (unat b)) n, c) # es)))))"

definition demo_zip :: zip_lib where
  "demo_zip =
     \<lparr>zip_Create = (\<lambda>_ _. None), zip_Write = (\<lambda>_ _ _. None), zip_Close = (\<lambda>es. Inr (pack es)),
      zip_NewReader = (\<lambda>d. case unpack (Suc (length d)) d of
         None \<Rightarrow> Inl ''zip: not a valid zip file'' | Some es \<Rightarrow> Inr (map zip_member es))\<rparr>"

lemma get_put_bytes: "get_bytes (put_bytes bs k) = Some (bs, k)"
  by (induction bs) (simp_all, cases k, simp_all)

lemma put_bytes_length: "length (put_bytes bs k) = 2 * length bs + 1 + length k"
  by (induction bs) simp_all

lemma put_bytes_not_Nil [simp]: "put_bytes bs k \<noteq> []"
  by (cases bs) simp_all

lemma string_of_bytes: "map (\<lambda>b. char_of (unat b)) (bytes_of_string s) = s"
proof -
  have "char_of (unat (of_char c :: 8 word)) = c" for c :: char
  proof -
    have "unat (of_nat (of_char c) :: 8 word) = of_char c" by (simp add: unat_of_nat)
    then show ?thesis by (metis char_of_char of_nat_of_char)
  qed
  then show ?thesis by (simp add: bytes_of_string_def map_idI)
qed

lemma unpack_pack: "length (pack es) < k \<Longrightarrow> unpack k (pack es) = Some es"
proof (induction es arbitrary: k)
  case Nil
  then show ?case by (cases k) auto
next
  case (Cons e es)
  obtain n c where e: "e = (n, c)" by fastforce
  from Cons.prems obtain k' where k: "k = Suc k'" by (cases k) auto
  have "length (pack es) < k'" using Cons.prems by (simp add: k e put_bytes_length)
  from Cons.IH [OF this] show ?case by (simp add: k e get_put_bytes string_of_bytes)
qed

lemma demo_zip_ok: "zip_ok demo_zip"
  by (simp add: zip_ok_def demo_zip_def unpack_pack del: unpack.simps)

section \<open>Properties\<close>

text \<open>
  C34. \<^verbatim>\<open>validateFiles\<close> accepts exactly the uploads of at most 10000 files in which every path is
  non-empty, relative, without backslash and without \<^verbatim>\<open>..\<close>, every file has at most 10 MiB and all
  files together at most 50 MiB; and an accepted path, unpacked in any directory, stays below it.
\<close>

theorem validateFiles_exact:
  "(validateFiles fs = None \<longleftrightarrow>
      length fs \<le> 10000 \<and> total_size fs \<le> 52428800 \<and>
      (\<forall>f\<in>set fs. GetPath f \<noteq> [] \<and> hd (GetPath f) \<noteq> CHR ''/'' \<and> CHR 0x5C \<notin> set (GetPath f) \<and>
         \<not> (\<exists>a b. GetPath f = a @ ''..'' @ b) \<and> length (GetContent f) \<le> 10485760)) \<and>
   (validateFiles fs = None \<longrightarrow>
      (\<forall>f\<in>set fs. \<forall>dir. \<exists>t. leads dir (GetPath f) = dir @ t))"
proof -
  have c: "Contains p [x] \<longleftrightarrow> x \<in> set p" for p x by (auto simp: Contains_iff in_set_conv_decomp)
  have "HasPrefix p ''/'' \<longleftrightarrow> hd p = CHR ''/''" if "p \<noteq> []" for p using that by (cases p) (auto simp: HasPrefix_def)
  then have "\<not> bad_path p \<longleftrightarrow> p \<noteq> [] \<and> hd p \<noteq> CHR ''/'' \<and> CHR 0x5C \<notin> set p \<and> \<not> (\<exists>a b. p = a @ ''..'' @ b)" for p
    unfolding bad_path_def c Contains_iff [of p "''..''"] by blast
  then show ?thesis
    unfolding validateFiles_None file_ok_def using good_path_below by (auto simp: limits)
qed

theorem validateFiles_exact_witness:
  "validateFiles [\<lparr>GetPath = ''a/b.proto'', GetContent = [1, 2]\<rparr>] = None \<and>
   (\<exists>t. leads [''srv''] ''a/b.proto'' = [''srv''] @ t)"
proof -
  let ?fs = "[\<lparr>GetPath = ''a/b.proto'', GetContent = [1, 2]\<rparr>]"
  have "validateFiles ?fs = None" by code_simp
  moreover from this validateFiles_exact [of ?fs] have "\<forall>f\<in>set ?fs. \<forall>dir. \<exists>t. leads dir (GetPath f) = dir @ t" by blast
  then have "\<forall>dir. \<exists>t. leads dir ''a/b.proto'' = dir @ t" by simp
  ultimately show ?thesis by blast
qed

text \<open>
  C20. What passes validation survives the archive: if \<^verbatim>\<open>validateFiles\<close> accepts the files and
  \<^verbatim>\<open>zipFiles\<close> packs them, \<^verbatim>\<open>unzipFiles\<close> returns exactly those files, in order; its own limits never
  refuse an upload that was accepted.
\<close>

theorem zip_roundtrip:
  assumes "zip_ok Z" "validateFiles fs = None" "zipFiles Z fs = Inr d"
  shows "unzipFiles Z d = Inr fs"
  by (rule zip_unzip [OF assms(1,3)]) (use assms(2) in \<open>auto simp: validateFiles_None file_ok_def\<close>)

theorem zip_roundtrip_witness:
  "unzipFiles demo_zip (pack [(''a.proto'', [7])]) = Inr [\<lparr>GetPath = ''a.proto'', GetContent = [7]\<rparr>]"
proof (rule zip_roundtrip [OF demo_zip_ok])
  show "validateFiles [\<lparr>GetPath = ''a.proto'', GetContent = [7]\<rparr>] = None" by code_simp
  show "zipFiles demo_zip [\<lparr>GetPath = ''a.proto'', GetContent = [7]\<rparr>] = Inr (pack [(''a.proto'', [7])])"
    by (simp add: zipFiles_def demo_zip_def)
qed

text \<open>
  C33. \<^verbatim>\<open>unzipFiles\<close> is safe against archive bombs: whatever bytes it is given and whatever the archive's
  headers claim, a result it returns has at most 10 MiB per file and 50 MiB in all.
\<close>

theorem unzipFiles_bounded:
  assumes "unzipFiles Z d = Inr fs"
  shows "total_size fs \<le> 52428800 \<and> (\<forall>f\<in>set fs. length (GetContent f) \<le> 10485760)"
proof -
  from assms obtain zs where "unzip_loop zs 0 [] = Inr fs" by (auto simp: unzipFiles_def split: sum.splits)
  from unzip_loop_bounds [OF this] show ?thesis by (auto simp: limits)
qed

theorem unzipFiles_bounded_witness:
  "total_size [\<lparr>GetPath = ''x'', GetContent = [7]\<rparr>] \<le> 52428800"
proof -
  let ?Z = "demo_zip\<lparr>zip_NewReader := (\<lambda>_. Inr [\<lparr>zf_Name = ''x'', zf_UncompressedSize64 = 0, zf_Open = Inr ([7], None)\<rparr>])\<rparr>"
  have "unzipFiles ?Z [] = Inr [\<lparr>GetPath = ''x'', GetContent = [7]\<rparr>]"
    by (simp add: unzipFiles_def read_limited_def limits)
  from unzipFiles_bounded [OF this] show ?thesis by simp
qed

end
