(* ===== verification/Storage.thy ===== *)
theory Storage
  imports Path Sql
begin

text \<open>
  Blob storage, \<^verbatim>\<open>internal/storage\<close>: the \<^verbatim>\<open>Store\<close> interface and its three implementations.
  \<open>LocalStore\<close> runs on a model of the file system (a tree of files and directories, with the
  errors \<^verbatim>\<open>os.MkdirAll\<close>, \<^verbatim>\<open>os.WriteFile\<close> and \<^verbatim>\<open>os.ReadFile\<close> report about its shape), \<open>DBStore\<close>
  on a table of the SQL engine, \<open>S3Store\<close> on an S3 client, which is a parameter.

  The contract \<open>blob_store\<close> is what the services need of a store: a blob that was put is the one
  that is got, and putting one key leaves the others alone.
\<close>

section \<open>The interface\<close>

datatype storage_error = BlobNotFound | ErrInvalidPath string | StorageError string

record 'w Store =
  Store_Put :: "string \<Rightarrow> bytes \<Rightarrow> ('w, storage_error) action"
  Store_Get :: "string \<Rightarrow> 'w \<Rightarrow> storage_error + bytes"

text \<open>
  The contract, for the keys a client uses (\<open>valid\<close>) and the worlds it can meet (\<open>ok\<close>): \<open>blobs w k d\<close> says that
  the store holds the content \<open>d\<close> under \<open>k\<close>, in the sense of the backend (\<open>whole\<close> or \<open>partial\<close> below). A put that
  reports an error may or may not have taken effect.
\<close>

locale blob_store =
  fixes S :: "'w Store" and blobs :: "'w \<Rightarrow> string \<Rightarrow> bytes \<Rightarrow> bool"
    and valid :: "string \<Rightarrow> bool" and ok :: "'w \<Rightarrow> bool"
  assumes put_done: "ok w \<Longrightarrow> valid k \<Longrightarrow> Store_Put S k b w = (None, w') \<Longrightarrow> blobs w' k b"
    and put_any: "ok w \<Longrightarrow> valid k \<Longrightarrow> Store_Put S k b w = (e, w') \<Longrightarrow> blobs w' k = blobs w k \<or> blobs w' k b"
    and put_others: "ok w \<Longrightarrow> valid k \<Longrightarrow> valid k' \<Longrightarrow> k' \<noteq> k \<Longrightarrow> Store_Put S k b w = (e, w') \<Longrightarrow> blobs w' k' = blobs w k'"
    and put_ok: "ok w \<Longrightarrow> valid k \<Longrightarrow> Store_Put S k b w = (e, w') \<Longrightarrow> ok w'"
    and get_sound: "ok w \<Longrightarrow> valid k \<Longrightarrow> Store_Get S k w = Inr b \<Longrightarrow> blobs w k b"

text \<open>A store that holds no two contents under a key.\<close>

locale blob_store_whole = blob_store +
  assumes unique: "ok w \<Longrightarrow> valid k \<Longrightarrow> blobs w k b \<Longrightarrow> blobs w k b' \<Longrightarrow> b = b'"
begin

lemma get_after_put:
  "ok w \<Longrightarrow> valid k \<Longrightarrow> Store_Put S k b w = (None, w') \<Longrightarrow> Store_Get S k w' = Inr b' \<Longrightarrow> b' = b"
  using put_done put_ok get_sound unique by blast

end

locale blob_store_reliable = blob_store_whole +
  assumes get_complete: "ok w \<Longrightarrow> valid k \<Longrightarrow> blobs w k b \<Longrightarrow> Store_Get S k w = Inr b"

text \<open>
  What a key has is the content itself, or, where a write can be cut short, a beginning of it.
\<close>

definition whole :: "('w \<Rightarrow> string \<rightharpoonup> bytes) \<Rightarrow> 'w \<Rightarrow> string \<Rightarrow> bytes \<Rightarrow> bool" where
  "whole bl w k d \<longleftrightarrow> bl w k = Some d"

definition partial :: "('w \<Rightarrow> string \<rightharpoonup> bytes) \<Rightarrow> 'w \<Rightarrow> string \<Rightarrow> bytes \<Rightarrow> bool" where
  "partial bl w k d \<longleftrightarrow> (\<exists>n. bl w k = Some (take n d))"

lemma whole_partial: "whole bl w k d \<Longrightarrow> partial bl w k d"
  unfolding whole_def partial_def by (metis order_refl take_all)

lemma holding_cong: "bl w' k = bl w k \<Longrightarrow> whole bl w' k = whole bl w k \<and> partial bl w' k = partial bl w k"
  by (simp add: fun_eq_iff whole_def partial_def)

section \<open>The file system\<close>

datatype file_node = File bytes | Dir

type_synonym file_system = "string list \<rightharpoonup> file_node"

datatype os_error = ErrNotExist | ENOTDIR | EISDIR | ENOSPC

definition node :: "file_system \<Rightarrow> string list \<Rightarrow> file_node option" where
  "node fs p = (if p = [] then Some Dir else fs p)"

text \<open>Resolving a path goes through its ancestors, which have to be directories.\<close>

fun open_from :: "file_system \<Rightarrow> string list \<Rightarrow> string list \<Rightarrow> os_error + file_node" where
  "open_from fs pre [] = (case node fs pre of None \<Rightarrow> Inl ErrNotExist | Some n \<Rightarrow> Inr n)"
| "open_from fs pre (c # cs) =
     (case node fs pre of
        None \<Rightarrow> Inl ErrNotExist
      | Some (File d) \<Rightarrow> Inl ENOTDIR
      | Some Dir \<Rightarrow> open_from fs (pre @ [c]) cs)"

definition os_ReadFile :: "string \<Rightarrow> file_system \<Rightarrow> os_error + bytes" where
  "os_ReadFile p fs =
     (case open_from fs [] (elems p) of
        Inl e \<Rightarrow> Inl e | Inr Dir \<Rightarrow> Inl EISDIR | Inr (File d) \<Rightarrow> Inr d)"

fun mkdir_from :: "string list \<Rightarrow> string list \<Rightarrow> file_system \<Rightarrow> os_error option \<times> file_system" where
  "mkdir_from pre [] fs = (None, fs)"
| "mkdir_from pre (c # cs) fs =
     (case fs (pre @ [c]) of
        Some (File _) \<Rightarrow> (Some ENOTDIR, fs)
      | Some Dir \<Rightarrow> mkdir_from (pre @ [c]) cs fs
      | None \<Rightarrow> mkdir_from (pre @ [c]) cs (fs(pre @ [c] \<mapsto> Dir)))"

definition os_MkdirAll :: "string list \<Rightarrow> file_system \<Rightarrow> os_error option \<times> file_system" where
  "os_MkdirAll p fs = mkdir_from [] p fs"

text \<open>
  \<^verbatim>\<open>os.WriteFile\<close> truncates the file and writes into it. \<open>room\<close> is what the disk has left: \<open>None\<close> for enough, \<open>Some n\<close>
  when the write ends with an error after \<open>n\<close> bytes, which stay in the file.
\<close>

definition os_WriteFile :: "nat option \<Rightarrow> string \<Rightarrow> bytes \<Rightarrow> file_system \<Rightarrow> os_error option \<times> file_system" where
  "os_WriteFile room p d fs =
     (let cs = elems p in
      case open_from fs [] (butlast cs) of
        Inl e \<Rightarrow> (Some e, fs)
      | Inr (File _) \<Rightarrow> (Some ENOTDIR, fs)
      | Inr Dir \<Rightarrow>
          (if node fs cs = Some Dir then (Some EISDIR, fs)
           else (case room of None \<Rightarrow> (None, fs(cs \<mapsto> File d)) | Some n \<Rightarrow> (Some ENOSPC, fs(cs \<mapsto> File (take n d))))))"

fun os_message :: "os_error \<Rightarrow> string" where
  "os_message ErrNotExist = ''no such file or directory''"
| "os_message ENOTDIR = ''not a directory''"
| "os_message EISDIR = ''is a directory''"
| "os_message ENOSPC = ''no space left on device''"

section \<open>The world\<close>

text \<open>The tables of the control plane, the table of blobs, and the file system.\<close>

record Blob =
  b_key :: string
  b_data :: bytes
  b_created_at :: gotime

record World = SqlDB +
  sq_blobs :: "Blob list"
  w_fs :: file_system

section \<open>LocalStore\<close>

text \<open>
  The store's root directory; what \<^verbatim>\<open>os.Getwd\<close> answers; and the disk below it, which for what is on it, a path and what
  is written there says whether the write ends well.
\<close>

record LocalStore =
  root :: string
  getwd :: "string + string"
  disk :: "file_system \<Rightarrow> string \<Rightarrow> bytes \<Rightarrow> nat option"

definition safePath :: "LocalStore \<Rightarrow> string \<Rightarrow> storage_error + string" where
  "safePath s key =
     (let p = Join (root s) key in
      case Abs (getwd s) p of
        Inl e \<Rightarrow> Inl (ErrInvalidPath e)
      | Inr ab \<Rightarrow>
          (case Abs (getwd s) (root s) of
             Inl e \<Rightarrow> Inl (ErrInvalidPath e)
           | Inr rt \<Rightarrow>
               if \<not> HasPrefix ab (rt @ ''/'') \<and> ab \<noteq> rt then Inl (ErrInvalidPath [])
               else Inr ab))"

definition LocalStore_Put :: "LocalStore \<Rightarrow> string \<Rightarrow> bytes \<Rightarrow> ('z World_scheme, storage_error) action" where
  "LocalStore_Put s key d w =
     (case safePath s key of
        Inl e \<Rightarrow> (Some e, w)
      | Inr p \<Rightarrow>
          (case os_MkdirAll (butlast (elems p)) (w_fs w) of
             (Some e, fs) \<Rightarrow> (Some (StorageError (os_message e)), w\<lparr>w_fs := fs\<rparr>)
           | (None, fs) \<Rightarrow>
               (case os_WriteFile (disk s (w_fs w) p d) p d fs of
                  (e, fs') \<Rightarrow> (map_option (\<lambda>x. StorageError (os_message x)) e, w\<lparr>w_fs := fs'\<rparr>))))"

definition LocalStore_Get :: "LocalStore \<Rightarrow> string \<Rightarrow> 'z World_scheme \<Rightarrow> storage_error + bytes" where
  "LocalStore_Get s key w =
     (case safePath s key of
        Inl e \<Rightarrow> Inl e
      | Inr p \<Rightarrow>
          (case os_ReadFile p (w_fs w) of
             Inl ErrNotExist \<Rightarrow> Inl BlobNotFound
           | Inl e \<Rightarrow> Inl (StorageError (os_message e))
           | Inr d \<Rightarrow> Inr d))"

definition NewLocalStore :: "LocalStore \<Rightarrow> 'z World_scheme Store" where
  "NewLocalStore s = \<lparr>Store_Put = LocalStore_Put s, Store_Get = LocalStore_Get s\<rparr>"

section \<open>DBStore\<close>

definition blob_clash :: "Blob \<Rightarrow> Blob \<Rightarrow> bool" where
  "blob_clash a b \<longleftrightarrow> b_key a = b_key b"

text \<open>\<open>now\<close> is the instant \<^verbatim>\<open>time.Now()\<close> returns.\<close>

definition DBStore_Put :: "Blob gorm \<Rightarrow> gotime \<Rightarrow> string \<Rightarrow> bytes \<Rightarrow> ('z World_scheme, storage_error) action" where
  "DBStore_Put g now key d w =
     (case gUpsert g (\<lambda>a b. b_key a = b_key b)
             (\<lambda>new old. old\<lparr>b_data := b_data new, b_created_at := b_created_at new\<rparr>)
             \<lparr>b_key = key, b_data = d, b_created_at = now\<rparr> (sq_blobs w) of
        (e, t) \<Rightarrow>
          (map_option (\<lambda>x. case x of ErrRecordNotFound \<Rightarrow> StorageError ''record not found''
                                   | GormError m \<Rightarrow> StorageError m) e,
           w\<lparr>sq_blobs := t\<rparr>))"

definition DBStore_Get :: "Blob gorm \<Rightarrow> string \<Rightarrow> 'z World_scheme \<Rightarrow> storage_error + bytes" where
  "DBStore_Get g key w =
     (case gFirst g (Where (\<lambda>b. b_key b = key) query0) (sq_blobs w) of
        Inl ErrRecordNotFound \<Rightarrow> Inl BlobNotFound
      | Inl (GormError m) \<Rightarrow> Inl (StorageError m)
      | Inr b \<Rightarrow> Inr (b_data b))"

definition NewDBStore :: "Blob gorm \<Rightarrow> gotime \<Rightarrow> 'z World_scheme Store" where
  "NewDBStore g now = \<lparr>Store_Put = DBStore_Put g now, Store_Get = DBStore_Get g\<rparr>"

section \<open>S3Store\<close>

text \<open>
  The S3 client: \<^verbatim>\<open>PutObject\<close> and \<^verbatim>\<open>GetObject\<close> of a bucket and a key. An object's body is read to
  its end, which may fail.
\<close>

datatype s3_error = NoSuchKey | S3Error string

record 'w s3_client =
  PutObject :: "string \<Rightarrow> string \<Rightarrow> bytes \<Rightarrow> ('w, string) action"
  GetObject :: "string \<Rightarrow> string \<Rightarrow> 'w \<Rightarrow> s3_error + (string + bytes)"

record 'w S3Store =
  client :: "'w s3_client"
  bucket :: string
  prefix :: string

definition S3Store_key :: "'w S3Store \<Rightarrow> string \<Rightarrow> string" where
  "S3Store_key s k = (if prefix s \<noteq> [] then prefix s @ k else k)"

definition S3Store_Put :: "'w S3Store \<Rightarrow> string \<Rightarrow> bytes \<Rightarrow> ('w, storage_error) action" where
  "S3Store_Put s key d w =
     (case PutObject (client s) (bucket s) (S3Store_key s key) d w of
        (e, w') \<Rightarrow> (map_option StorageError e, w'))"

definition S3Store_Get :: "'w S3Store \<Rightarrow> string \<Rightarrow> 'w \<Rightarrow> storage_error + bytes" where
  "S3Store_Get s key w =
     (case GetObject (client s) (bucket s) (S3Store_key s key) w of
        Inl NoSuchKey \<Rightarrow> Inl BlobNotFound
      | Inl (S3Error m) \<Rightarrow> Inl (StorageError m)
      | Inr (Inl e) \<Rightarrow> Inl (StorageError e)
      | Inr (Inr d) \<Rightarrow> Inr d)"

definition NewS3Store :: "'w S3Store \<Rightarrow> 'w Store" where
  "NewS3Store s = \<lparr>Store_Put = S3Store_Put s, Store_Get = S3Store_Get s\<rparr>"

end
