(* ===== verification/Storage_Correct.thy ===== *)
theory Storage_Correct
  imports Storage
begin

text \<open>
  The three stores keep the contract \<open>blob_store\<close>: \<open>LocalStore\<close> below a root directory other than
  \<^verbatim>\<open>/\<close> and on keys that are clean relative paths, \<open>DBStore\<close> on any key, \<open>S3Store\<close> over a client that
  stores objects. And whatever key a client of \<open>LocalStore\<close> sends, the store stays below its root.
\<close>

section \<open>File trees\<close>

text \<open>A well-formed tree: what exists lies in a directory.\<close>

definition fs_ok :: "file_system \<Rightarrow> bool" where
  "fs_ok fs \<longleftrightarrow> (\<forall>p. p \<noteq> [] \<longrightarrow> fs p \<noteq> None \<longrightarrow> node fs (butlast p) = Some Dir)"

lemma node_simps [simp]: "node fs [] = Some Dir" "p \<noteq> [] \<Longrightarrow> node fs p = fs p"
  by (simp_all add: node_def)

lemma fs_ok_prefix: "fs_ok fs \<Longrightarrow> node fs (p @ q) \<noteq> None \<Longrightarrow> q \<noteq> [] \<Longrightarrow> node fs p = Some Dir"
proof (induction q rule: rev_induct)
  case (snoc c q)
  then have up: "node fs (p @ q) = Some Dir"
    unfolding fs_ok_def by (metis append_assoc append_is_Nil_conv butlast_snoc node_simps(2) not_Cons_self2)
  then show ?case using snoc by (cases "q = []") auto
qed simp

lemma open_from_node: "open_from fs pre cs = Inr n \<Longrightarrow> node fs (pre @ cs) = Some n"
proof (induction cs arbitrary: pre)
  case (Cons c cs)
  then have "open_from fs (pre @ [c]) cs = Inr n" by (auto split: option.splits file_node.splits)
  from Cons.IH [OF this] show ?case by simp
qed (auto split: option.splits)

lemma open_from_ok: "fs_ok fs \<Longrightarrow> node fs (pre @ cs) = Some n \<Longrightarrow> open_from fs pre cs = Inr n"
proof (induction cs arbitrary: pre)
  case (Cons c cs)
  then have "node fs pre = Some Dir" using fs_ok_prefix [of fs pre "c # cs"] by simp
  with Cons show ?case by simp
qed simp

lemma fs_ok_update:
  assumes "fs_ok fs" "p \<noteq> []" "node fs (butlast p) = Some Dir" "fs p = None \<or> (\<exists>d. fs p = Some (File d)) \<or> n = Dir"
  shows "fs_ok (fs(p \<mapsto> n))"
  unfolding fs_ok_def
proof (intro allI impI)
  fix q :: "string list"
  assume q: "q \<noteq> []" "(fs(p \<mapsto> n)) q \<noteq> None"
  have bl: "butlast p \<noteq> p" using assms(2) by (metis append_butlast_last_id not_Cons_self2 append_self_conv)
  show "node (fs(p \<mapsto> n)) (butlast q) = Some Dir"
  proof (cases "q = p")
    case True
    then show ?thesis using assms(3) bl by (cases "butlast p = []") auto
  next
    case False
    with q assms(1) have d: "node fs (butlast q) = Some Dir" unfolding fs_ok_def by auto
    show ?thesis
    proof (cases "butlast q = p")
      case True
      with d assms(2,4) show ?thesis by auto
    next
      case False
      with d show ?thesis by (cases "butlast q = []") auto
    qed
  qed
qed

lemma mkdir_from_spec:
  assumes "fs_ok fs" "node fs pre = Some Dir" "mkdir_from pre cs fs = (e, fs')"
  shows "fs_ok fs' \<and> (\<forall>p d. fs' p = Some (File d) \<longleftrightarrow> fs p = Some (File d)) \<and>
     (e = None \<longrightarrow> node fs' (pre @ cs) = Some Dir)"
  using assms
proof (induction cs arbitrary: pre fs)
  case (Cons c cs)
  consider d where "fs (pre @ [c]) = Some (File d)" | "fs (pre @ [c]) = Some Dir" | "fs (pre @ [c]) = None"
    by (metis file_node.exhaust option.exhaust)
  then show ?case
  proof cases
    case (1 d)
    with Cons.prems show ?thesis by auto
  next
    case 2
    note dir = this
    from this Cons.prems have "mkdir_from (pre @ [c]) cs fs = (e, fs')" by simp
    from Cons.IH [OF Cons.prems(1) _ this] dir show ?thesis by simp
  next
    case 3
    note new = this
    let ?fs = "fs(pre @ [c] \<mapsto> Dir)"
    from new Cons.prems have m: "mkdir_from (pre @ [c]) cs ?fs = (e, fs')" by simp
    have ok: "fs_ok ?fs" using fs_ok_update [OF Cons.prems(1), of "pre @ [c]" Dir] Cons.prems(2) new by simp
    have "?fs p = Some (File d) \<longleftrightarrow> fs p = Some (File d)" for p d using new by simp
    with Cons.IH [OF ok _ m] show ?thesis by simp
  qed
qed simp

section \<open>LocalStore stays below its root\<close>

text \<open>The absolute path of the root directory, as elements.\<close>

definition root_elems :: "LocalStore \<Rightarrow> string list" where
  "root_elems s = (case getwd s of Inl _ \<Rightarrow> [] | Inr wd \<Rightarrow> leads (leads [] wd) (root s))"

definition wd_ok :: "LocalStore \<Rightarrow> bool" where
  "wd_ok s \<longleftrightarrow> (case getwd s of Inl _ \<Rightarrow> False | Inr wd \<Rightarrow> IsAbs wd)"

lemma leads_wd_plain: "\<forall>c\<in>set (leads (leads [] wd) p). plain c"
  by (intro leads_plain) simp

lemma safePath_inside:
  assumes "wd_ok s" "safePath s key = Inr p"
  shows "\<exists>t. p = abs_path (root_elems s @ t) \<and> (\<forall>c\<in>set (root_elems s @ t). plain c)"
proof -
  obtain wd where wd: "getwd s = Inr wd" "IsAbs wd" using assms(1) by (auto simp: wd_ok_def split: sum.splits)
  let ?cs = "leads (leads [] wd) (Join (root s) key)"
  have p: "p = abs_path ?cs" "HasPrefix (abs_path ?cs) (abs_path (root_elems s) @ [sep]) \<or>
      abs_path ?cs = abs_path (root_elems s)"
    using assms(2) unfolding safePath_def Let_def wd(1) root_elems_def Abs_leads [OF wd(2)]
    by (auto simp: wd split: if_splits)
  have "\<forall>c\<in>set (root_elems s). plain c" by (simp add: root_elems_def wd leads_wd_plain del: leads_Clean)
  from under_sound [OF this leads_wd_plain p(2)] p(1) leads_wd_plain show ?thesis by metis
qed

text \<open>The keys the services use are clean relative paths.\<close>

definition valid_key :: "string \<Rightarrow> bool" where
  "valid_key k \<longleftrightarrow> elems k \<noteq> [] \<and> k = JoinChar sep (elems k) \<and> (\<forall>c\<in>set (elems k). plain c)"

definition rooted :: "LocalStore \<Rightarrow> bool" where
  "rooted s \<longleftrightarrow> wd_ok s \<and> root s \<noteq> [] \<and> root_elems s \<noteq> []"

text \<open>
  What the services can rely on: with \<open>partial\<close>, on any disk, that every key has a beginning of what was put there; with
  \<open>whole\<close>, on a disk that cuts no write short, that it has all of it.
\<close>

definition local_ok :: "(('z World_scheme \<Rightarrow> string \<rightharpoonup> bytes) \<Rightarrow> 'z World_scheme \<Rightarrow> string \<Rightarrow> bytes \<Rightarrow> bool) \<Rightarrow> LocalStore \<Rightarrow> bool" where
  "local_ok holding s \<longleftrightarrow> rooted s \<and> (holding = partial \<or> holding = whole \<and> disk s = (\<lambda>_ _ _. None))"

lemma rooted_partial: "rooted s \<Longrightarrow> local_ok partial s"
  by (simp add: local_ok_def)

lemma valid_key_split: "valid_key k \<Longrightarrow> SplitChar sep k = elems k"
  unfolding valid_key_def by (metis SplitChar_JoinChar plain_def)

lemma valid_key_inj: "valid_key k \<Longrightarrow> valid_key k' \<Longrightarrow> elems k = elems k' \<Longrightarrow> k = k'"
  unfolding valid_key_def by metis

lemma safePath_valid:
  assumes "rooted s" "valid_key key"
  shows "safePath s key = Inr (abs_path (root_elems s @ elems key))"
proof -
  obtain wd where wd: "getwd s = Inr wd" "IsAbs wd"
    using assms(1) by (auto simp: rooted_def wd_ok_def split: sum.splits)
  have rt: "root s \<noteq> []" "root_elems s \<noteq> []" using assms(1) by (simp_all add: rooted_def)
  have re: "root_elems s = leads (leads [] wd) (root s)" by (simp add: root_elems_def wd)
  have pl: "\<forall>c\<in>set (root_elems s). plain c" "\<forall>c\<in>set (elems key). plain c"
    using assms(2) leads_wd_plain by (auto simp: re valid_key_def)
  have "leads (leads [] wd) (Join (root s) key) = root_elems s @ elems key"
    using leads_Join [OF rt(1)] valid_key_split [OF assms(2)] walk_plain [OF pl(2)] by (simp add: re)
  moreover have "HasPrefix (abs_path (root_elems s @ elems key)) (abs_path (root_elems s) @ [sep])"
    using under_iff [OF pl(1) _ rt(2), of "root_elems s @ elems key"] pl assms(2)
    by (auto simp: valid_key_def)
  ultimately show ?thesis
    by (simp add: safePath_def Let_def wd Abs_leads re [symmetric])
qed

section \<open>LocalStore keeps the contract\<close>

definition local_blobs :: "LocalStore \<Rightarrow> 'z World_scheme \<Rightarrow> string \<rightharpoonup> bytes" where
  "local_blobs s w k =
     (case w_fs w (root_elems s @ elems k) of Some (File d) \<Rightarrow> Some d | _ \<Rightarrow> None)"

lemma local_blobs_iff: "local_blobs s w k = Some d \<longleftrightarrow> w_fs w (root_elems s @ elems k) = Some (File d)"
  by (auto simp: local_blobs_def split: option.splits file_node.splits)

lemma local_blobs_cong:
  "(\<And>d. w_fs w' (root_elems s @ elems k) = Some (File d) \<longleftrightarrow> w_fs w (root_elems s @ elems k) = Some (File d)) \<Longrightarrow>
     local_blobs s w' k = local_blobs s w k"
  by (metis local_blobs_iff not_Some_eq)

lemma elems_safe:
  assumes "rooted s" "valid_key k"
  shows "elems (abs_path (root_elems s @ elems k)) = root_elems s @ elems k"
    and "root_elems s @ elems k \<noteq> []"
proof -
  have "\<forall>c\<in>set (root_elems s @ elems k). plain c"
    using assms leads_wd_plain
    by (auto simp: root_elems_def rooted_def valid_key_def wd_ok_def split: sum.splits)
  then show "elems (abs_path (root_elems s @ elems k)) = root_elems s @ elems k" by (rule elems_abs_path)
  show "root_elems s @ elems k \<noteq> []" using assms by (simp add: rooted_def)
qed

text \<open>
  What a put does to the tree: everything that is not the key's file is left as it was, and a put that fails leaves that
  as well, unless the write was cut.
\<close>

lemma local_put_fs:
  assumes "rooted s" "valid_key k" "fs_ok (w_fs w)" "LocalStore_Put s k d w = (e, w')"
  shows "fs_ok (w_fs w')"
    and "p \<noteq> root_elems s @ elems k \<Longrightarrow> w_fs w' p = Some (File x) \<longleftrightarrow> w_fs w p = Some (File x)"
    and "e = None \<Longrightarrow> w_fs w' (root_elems s @ elems k) = Some (File d)"
    and "e \<noteq> None \<Longrightarrow> (\<forall>x. w_fs w' (root_elems s @ elems k) = Some (File x) \<longleftrightarrow> w_fs w (root_elems s @ elems k) = Some (File x)) \<or>
      (\<exists>n. disk s (w_fs w) (abs_path (root_elems s @ elems k)) d = Some n \<and>
         w_fs w' (root_elems s @ elems k) = Some (File (take n d)))"
proof -
  let ?t = "root_elems s @ elems k"
  let ?cut = "\<lambda>w'. \<exists>n. disk s (w_fs w) (abs_path ?t) d = Some n \<and> w_fs w' ?t = Some (File (take n d))"
  obtain e1 fs1 where m: "mkdir_from [] (butlast ?t) (w_fs w) = (e1, fs1)" by fastforce
  have spec: "fs_ok fs1" "\<And>p d. fs1 p = Some (File d) \<longleftrightarrow> w_fs w p = Some (File d)"
      "e1 = None \<Longrightarrow> node fs1 (butlast ?t) = Some Dir"
    using mkdir_from_spec [OF assms(3) _ m] by auto
  note put = assms(4) [unfolded LocalStore_Put_def safePath_valid [OF assms(1,2)] os_MkdirAll_def os_WriteFile_def
      Let_def, simplified, unfolded elems_safe(1) [OF assms(1,2)], simplified m]
  show "fs_ok (w_fs w')"
    and "p \<noteq> ?t \<Longrightarrow> w_fs w' p = Some (File x) \<longleftrightarrow> w_fs w p = Some (File x)"
    and "e = None \<Longrightarrow> w_fs w' ?t = Some (File d)"
    and "e \<noteq> None \<Longrightarrow> (\<forall>x. w_fs w' ?t = Some (File x) \<longleftrightarrow> w_fs w ?t = Some (File x)) \<or> ?cut w'"
  proof -
    consider "w_fs w' = fs1" "e \<noteq> None" |
      y where "e1 = None" "w_fs w' = fs1(?t \<mapsto> File y)" "node fs1 ?t \<noteq> Some Dir"
        "e = None \<and> y = d \<or> e \<noteq> None \<and> (\<exists>n. disk s (w_fs w) (abs_path ?t) d = Some n \<and> y = take n d)"
      using put by (auto split: option.splits sum.splits file_node.splits if_splits)
    note cs = this
    show "fs_ok (w_fs w')"
      using cs
    proof cases
      case 2
      have "fs1 ?t = None \<or> (\<exists>d. fs1 ?t = Some (File d))"
        using 2(3) elems_safe(2) [OF assms(1,2)] by (metis file_node.exhaust node_simps(2) option.exhaust)
      with fs_ok_update [OF spec(1) elems_safe(2) [OF assms(1,2)] spec(3) [OF 2(1)], of "File y"] 2(2)
      show ?thesis by auto
    qed (simp add: spec(1))
    show "w_fs w' p = Some (File x) \<longleftrightarrow> w_fs w p = Some (File x)" if "p \<noteq> ?t"
      using cs by cases (use that spec(2) in auto)
    show "w_fs w' ?t = Some (File d)" if "e = None"
      using cs by cases (use that in auto)
    show "(\<forall>x. w_fs w' ?t = Some (File x) \<longleftrightarrow> w_fs w ?t = Some (File x)) \<or> ?cut w'" if "e \<noteq> None"
      using cs by cases (use that spec(2) in auto)
  qed
qed

lemma local_get:
  assumes "rooted s" "valid_key k"
  shows "LocalStore_Get s k w = Inr d \<Longrightarrow> local_blobs s w k = Some d"
    and "fs_ok (w_fs w) \<Longrightarrow> local_blobs s w k = Some d \<Longrightarrow> LocalStore_Get s k w = Inr d"
proof -
  note safe = safePath_valid [OF assms] elems_safe [OF assms]
  show "LocalStore_Get s k w = Inr d \<Longrightarrow> local_blobs s w k = Some d"
    using open_from_node [of "w_fs w" "[]" "root_elems s @ elems k"] safe(3)
    by (auto simp: LocalStore_Get_def os_ReadFile_def safe local_blobs_iff
        split: sum.splits os_error.splits file_node.splits)
  assume "fs_ok (w_fs w)" "local_blobs s w k = Some d"
  then have "open_from (w_fs w) [] (root_elems s @ elems k) = Inr (File d)"
    using open_from_ok [of "w_fs w" "[]"] safe(3) by (simp add: local_blobs_iff)
  then show "LocalStore_Get s k w = Inr d"
    by (simp add: LocalStore_Get_def os_ReadFile_def safe)
qed

lemma local_store:
  assumes ok_s: "local_ok holding s"
  shows "blob_store (NewLocalStore s) (holding (local_blobs s)) valid_key (\<lambda>w. fs_ok (w_fs w))"
proof
  fix w w' :: "'a World_scheme" and k k' b e
  assume ok: "fs_ok (w_fs w)" and k: "valid_key k"
  from ok_s have s: "rooted s" and holding: "holding = partial \<or> holding = whole \<and> disk s = (\<lambda>_ _ _. None)"
    by (simp_all add: local_ok_def)
  note fs = local_put_fs [OF s k ok]
  have is_there: "holding (local_blobs s) v k d" if "local_blobs s v k = Some d" for v d
    using that holding whole_partial [of "local_blobs s" v k d] by (auto simp: whole_def)
  have same: "holding (local_blobs s) w' j = holding (local_blobs s) w j" if "local_blobs s w' j = local_blobs s w j" for j
    using holding_cong [of "local_blobs s" w' j w, OF that] holding by blast
  show "holding (local_blobs s) w' k b" if "Store_Put (NewLocalStore s) k b w = (None, w')"
    using fs(3) that by (intro is_there) (simp add: NewLocalStore_def local_blobs_iff)
  show "holding (local_blobs s) w' k = holding (local_blobs s) w k \<or> holding (local_blobs s) w' k b"
    if put: "Store_Put (NewLocalStore s) k b w = (e, w')"
  proof (cases "e = None")
    case True
    then show ?thesis using fs(3) put by (intro disjI2 is_there) (simp add: NewLocalStore_def local_blobs_iff)
  next
    case False
    from put have "LocalStore_Put s k b w = (e, w')" by (simp add: NewLocalStore_def)
    from fs(4) [OF this False] consider
      "\<forall>x. w_fs w' (root_elems s @ elems k) = Some (File x) \<longleftrightarrow> w_fs w (root_elems s @ elems k) = Some (File x)" |
      n where "disk s (w_fs w) (abs_path (root_elems s @ elems k)) b = Some n" "local_blobs s w' k = Some (take n b)"
      by (auto simp: local_blobs_iff)
    then show ?thesis
    proof cases
      case 1
      then show ?thesis by (intro disjI1 same local_blobs_cong) simp
    next
      case 2
      with holding have "holding = partial" by auto
      with 2(2) show ?thesis by (auto simp: partial_def)
    qed
  qed
  show "fs_ok (w_fs w')" if "Store_Put (NewLocalStore s) k b w = (e, w')"
    using fs(1) that by (simp add: NewLocalStore_def)
  show "holding (local_blobs s) w' k' = holding (local_blobs s) w k'"
    if "Store_Put (NewLocalStore s) k b w = (e, w')" "valid_key k'" "k' \<noteq> k"
  proof (intro same local_blobs_cong)
    have "root_elems s @ elems k' \<noteq> root_elems s @ elems k" using valid_key_inj [OF that(2) k] that(3) by auto
    then show "w_fs w' (root_elems s @ elems k') = Some (File d) \<longleftrightarrow>
        w_fs w (root_elems s @ elems k') = Some (File d)" for d
      using fs(2) that(1) by (simp add: NewLocalStore_def)
  qed
  show "holding (local_blobs s) w k b" if "Store_Get (NewLocalStore s) k w = Inr b"
    using local_get(1) [OF s k] that by (intro is_there) (simp add: NewLocalStore_def)
qed

lemma local_store_reliable:
  assumes s: "rooted s" and room: "disk s = (\<lambda>_ _ _. None)"
  shows "blob_store_reliable (NewLocalStore s) (whole (local_blobs s)) valid_key (\<lambda>w. fs_ok (w_fs w))"
proof (intro blob_store_reliable.intro blob_store_whole.intro blob_store_whole_axioms.intro blob_store_reliable_axioms.intro)
  show "blob_store (NewLocalStore s :: 'a World_scheme Store) (whole (local_blobs s)) valid_key (\<lambda>w. fs_ok (w_fs w))"
    by (rule local_store) (simp add: local_ok_def s room)
  fix w :: "'a World_scheme" and k b b'
  assume k: "valid_key k" and b: "whole (local_blobs s) w k b"
  show "b = b'" if "whole (local_blobs s) w k b'" using that b by (simp add: whole_def)
  show "Store_Get (NewLocalStore s) k w = Inr b" if "fs_ok (w_fs w)"
    using local_get(2) [OF s k that] b by (simp add: NewLocalStore_def whole_def)
qed

text \<open>The default configuration, in a working directory \<^verbatim>\<open>/srv/bsr\<close>.\<close>

definition default_local :: LocalStore where
  "default_local = \<lparr>root = ''./data/modules'', getwd = Inr ''/srv/bsr'', disk = (\<lambda>_ _ _. None)\<rparr>"

lemma default_local_rooted: "rooted default_local"
  by code_simp

lemma default_local_room: "disk default_local = (\<lambda>_ _ _. None)"
  by (simp add: default_local_def)

lemma default_local_ok: "local_ok whole default_local" "local_ok partial default_local"
  using default_local_rooted default_local_room by (simp_all add: local_ok_def)

interpretation local_st: blob_store_reliable "NewLocalStore default_local" "whole (local_blobs default_local)"
    valid_key "\<lambda>w. fs_ok (w_fs w)"
  by (rule local_store_reliable [OF default_local_rooted default_local_room])

section \<open>DBStore keeps the contract\<close>

definition db_blobs :: "'z World_scheme \<Rightarrow> string \<rightharpoonup> bytes" where
  "db_blobs w = map_of (map (\<lambda>b. (b_key b, b_data b)) (sq_blobs w))"

definition blob_keys :: "'z World_scheme \<Rightarrow> bool" where
  "blob_keys w \<longleftrightarrow> distinct (map b_key (sq_blobs w))"

lemma db_blobs_iff:
  assumes "blob_keys w"
  shows "db_blobs w k = Some d \<longleftrightarrow> (\<exists>b\<in>set (sq_blobs w). b_key b = k \<and> b_data b = d)"
proof -
  have "distinct (map fst (map (\<lambda>b. (b_key b, b_data b)) (sq_blobs w)))"
    using assms by (simp add: blob_keys_def comp_def)
  then show ?thesis unfolding db_blobs_def by (subst map_of_eq_Some_iff) auto
qed

text \<open>The engine of the table of blobs.\<close>

locale blob_engine = gorm_sound g blob_clash for g :: "Blob gorm"
begin

lemma put_rows:
  assumes w: "blob_keys w" and put: "DBStore_Put g now k d w = (e, w')"
  shows "blob_keys w'"
    and "set (sq_blobs w') = (if e = None then insert \<lparr>b_key = k, b_data = d, b_created_at = now\<rparr>
           {b \<in> set (sq_blobs w). b_key b \<noteq> k} else set (sq_blobs w))"
proof -
  let ?r = "\<lparr>b_key = k, b_data = d, b_created_at = now\<rparr>"
  let ?upd = "\<lambda>new old. old\<lparr>b_data := b_data new, b_created_at := b_created_at new\<rparr>"
  let ?f = "\<lambda>x. if b_key x = b_key ?r then ?upd ?r x else x"
  obtain e0 t where up: "gUpsert g (\<lambda>a b. b_key a = b_key b) ?upd ?r (sq_blobs w) = (e0, t)" by fastforce
  have eq: "sq_blobs w' = t" "e = None \<longleftrightarrow> e0 = None"
    using put by (auto simp: DBStore_Put_def up)
  have upd: "?f x = ?r" if "b_key x = k" for x :: Blob using that by (cases x) simp
  have "blob_keys w' \<and> set t = (if e = None then insert ?r {b \<in> set (sq_blobs w). b_key b \<noteq> k} else set (sq_blobs w))"
  proof (cases "e0 = None")
    case False
    then have "t = sq_blobs w" using upsert_failed up by blast
    with False w eq show ?thesis by (auto simp: blob_keys_def)
  next
    case True
    note ud = upsert_done [OF up [unfolded True]]
    show ?thesis
    proof (cases "\<exists>x\<in>set (sq_blobs w). b_key x = b_key ?r")
      case True
      then have t: "mset t = image_mset ?f (mset (sq_blobs w))" using ud by simp
      have key: "b_key (?f x) = b_key x" for x by simp
      have "image_mset b_key (mset t) = image_mset b_key (mset (sq_blobs w))"
        unfolding t by (simp only: image_mset.compositionality comp_def key)
      then have "mset (map b_key t) = mset (map b_key (sq_blobs w))" by simp
      then have "blob_keys w'" using w mset_eq_imp_distinct_iff unfolding blob_keys_def eq(1) by blast
      moreover have "set t = ?f ` set (sq_blobs w)" using arg_cong [OF t, of set_mset] by simp
      moreover have "?f ` set (sq_blobs w) = insert ?r {b \<in> set (sq_blobs w). b_key b \<noteq> k}"
        using True upd by (force simp: image_iff)
      ultimately show ?thesis using \<open>e0 = None\<close> eq(2) by simp
    next
      case False
      then have t: "mset t = add_mset ?r (mset (sq_blobs w))" using ud by simp
      have "mset (map b_key t) = mset (map b_key (?r # sq_blobs w))" by (simp add: t)
      then have "blob_keys w'" using w False mset_eq_imp_distinct_iff unfolding blob_keys_def eq(1) by fastforce
      moreover have "set t = insert ?r (set (sq_blobs w))" using arg_cong [OF t, of set_mset] by simp
      moreover have "{b \<in> set (sq_blobs w). b_key b \<noteq> k} = set (sq_blobs w)" using False by auto
      ultimately show ?thesis using \<open>e0 = None\<close> eq(2) by simp
    qed
  qed
  then show "blob_keys w'"
    and "set (sq_blobs w') = (if e = None then insert ?r {b \<in> set (sq_blobs w). b_key b \<noteq> k} else set (sq_blobs w))"
    by (simp_all add: eq(1))
qed

lemma db_store: "blob_store_whole (NewDBStore g now) (whole db_blobs) (\<lambda>_. True) blob_keys"
proof
  fix w w' :: "'a World_scheme" and k k' b e
  assume ok: "blob_keys w"
  show "blob_keys w'" if "Store_Put (NewDBStore g now) k b w = (e, w')"
    using put_rows(1) [OF ok] that by (simp add: NewDBStore_def)
  show "whole db_blobs w' k b" if "Store_Put (NewDBStore g now) k b w = (None, w')"
    using put_rows [OF ok, of now k b None w'] that by (auto simp: NewDBStore_def db_blobs_iff whole_def)
  show "whole db_blobs w' k = whole db_blobs w k \<or> whole db_blobs w' k b" if "Store_Put (NewDBStore g now) k b w = (e, w')"
  proof (cases "e = None")
    case True
    then show ?thesis using put_rows [OF ok, of now k b None w'] that by (auto simp: NewDBStore_def db_blobs_iff whole_def)
  next
    case False
    have "db_blobs w' k = Some d \<longleftrightarrow> db_blobs w k = Some d" for d
      using put_rows [OF ok, of now k b e w'] that ok False by (auto simp: NewDBStore_def db_blobs_iff)
    then show ?thesis by (simp add: whole_def fun_eq_iff)
  qed
  show "whole db_blobs w' k' = whole db_blobs w k'" if "Store_Put (NewDBStore g now) k b w = (e, w')" "k' \<noteq> k"
  proof -
    have "db_blobs w' k' = Some d \<longleftrightarrow> db_blobs w k' = Some d" for d
      using put_rows [OF ok, of now k b e w'] that ok by (auto simp: NewDBStore_def db_blobs_iff split: if_splits)
    then show ?thesis by (simp add: whole_def fun_eq_iff)
  qed
  show "b = b'" if "whole db_blobs w k b" "whole db_blobs w k b'" for b' using that by (simp add: whole_def)
  show "whole db_blobs w k b" if "Store_Get (NewDBStore g now) k w = Inr b"
    using that ok first_found [of "Where (\<lambda>b. b_key b = k) query0" "sq_blobs w"]
    by (auto simp: NewDBStore_def DBStore_Get_def db_blobs_iff query_defs whole_def split: sum.splits gorm_error.splits)
qed

end

locale blob_engine_reliable = gorm_reliable g blob_clash for g :: "Blob gorm"

sublocale blob_engine_reliable \<subseteq> blob_engine ..

context blob_engine_reliable
begin

lemma db_store_reliable: "blob_store_reliable (NewDBStore g now) (whole db_blobs) (\<lambda>_. True) blob_keys"
proof (rule blob_store_reliable.intro [OF db_store], unfold_locales)
  fix w :: "'a World_scheme" and k b
  assume ok: "blob_keys w" and "whole db_blobs w k b"
  then obtain r where r: "r \<in> set (sq_blobs w)" "b_key r = k" "b_data r = b" by (auto simp: db_blobs_iff whole_def)
  let ?q = "Where (\<lambda>b. b_key b = k) query0"
  show "Store_Get (NewDBStore g now) k w = Inr b"
  proof (cases "gFirst g ?q (sq_blobs w)")
    case (Inl e)
    with first_ok have "gFirst g ?q (sq_blobs w) = Inl ErrRecordNotFound" by blast
    from first_none [OF this r(1)] r(2) show ?thesis by (simp add: query_defs)
  next
    case (Inr r')
    with first_found [OF Inr] have "r' \<in> set (sq_blobs w)" "b_key r' = k" by (simp_all add: query_defs)
    then have "r' = r" using r ok unfolding blob_keys_def distinct_map by (auto dest: inj_onD)
    with Inr r show ?thesis by (simp add: NewDBStore_def DBStore_Get_def)
  qed
qed

lemma db_put_goes_through: "\<exists>w'. Store_Put (NewDBStore g now) k b w = (None, w')"
proof -
  obtain t where "gUpsert g (\<lambda>a b. b_key a = b_key b)
      (\<lambda>new old. old\<lparr>b_data := b_data new, b_created_at := b_created_at new\<rparr>)
      \<lparr>b_key = k, b_data = b, b_created_at = now\<rparr> (sq_blobs w) = (None, t)"
    using upsert_ok [of "sq_blobs w" "\<lparr>b_key = k, b_data = b, b_created_at = now\<rparr>" "\<lambda>a b. b_key a = b_key b"]
    by (auto simp: blob_clash_def)
  then show ?thesis by (simp add: NewDBStore_def DBStore_Put_def)
qed

end

interpretation list_blobs: blob_engine_reliable "list_engine blob_clash"
  by (simp add: blob_engine_reliable_def list_engine_reliable)

interpretation db_st: blob_store_reliable "NewDBStore (list_engine blob_clash) now" "whole db_blobs" "\<lambda>_. True" blob_keys for now
  by (rule list_blobs.db_store_reliable)

section \<open>S3Store keeps the contract\<close>

text \<open>What S3 documents of its two calls: objects are named by bucket and key.\<close>

locale s3_objects =
  fixes c :: "'w s3_client" and objects :: "'w \<Rightarrow> string \<times> string \<rightharpoonup> bytes"
  assumes put_object: "PutObject c bk k d w = (None, w') \<Longrightarrow> objects w' = (objects w)((bk, k) \<mapsto> d)"
    and put_object_others: "PutObject c bk k d w = (e, w') \<Longrightarrow> bk' \<noteq> bk \<or> k' \<noteq> k \<Longrightarrow> objects w' (bk', k') = objects w (bk', k')"
    and put_object_any: "PutObject c bk k d w = (e, w') \<Longrightarrow> objects w' (bk, k) \<in> {objects w (bk, k), Some d}"
    and get_object: "GetObject c bk k w = Inr (Inr d) \<Longrightarrow> objects w (bk, k) = Some d"
begin

lemma s3_store:
  assumes "client s = c"
  shows "blob_store_whole (NewS3Store s) (whole (\<lambda>w k. objects w (bucket s, S3Store_key s k))) (\<lambda>_. True) (\<lambda>_. True)"
proof
  fix w w' :: 'w and k k' b e
  have inj: "S3Store_key s k' = S3Store_key s k \<longleftrightarrow> k' = k" by (simp add: S3Store_key_def)
  let ?bl = "\<lambda>w k. objects w (bucket s, S3Store_key s k)"
  show "whole ?bl w' k b" if "Store_Put (NewS3Store s) k b w = (None, w')"
    using that put_object by (auto simp: whole_def NewS3Store_def S3Store_Put_def assms split: prod.splits)
  show "whole ?bl w' k = whole ?bl w k \<or> whole ?bl w' k b"
    if "Store_Put (NewS3Store s) k b w = (e, w')"
    using that put_object_any by (fastforce simp: whole_def fun_eq_iff NewS3Store_def S3Store_Put_def assms split: prod.splits)
  show "whole ?bl w' k' = whole ?bl w k'"
    if "Store_Put (NewS3Store s) k b w = (e, w')" "k' \<noteq> k"
    using that put_object_others [of "bucket s" "S3Store_key s k" b w _ w' "bucket s" "S3Store_key s k'"] inj
    by (auto simp: whole_def fun_eq_iff NewS3Store_def S3Store_Put_def assms split: prod.splits)
  show "b = b'" if "whole ?bl w k b" "whole ?bl w k b'" for b' using that by (simp add: whole_def)
  show "whole ?bl w k b" if "Store_Get (NewS3Store s) k w = Inr b"
    using that get_object
    by (auto simp: whole_def NewS3Store_def S3Store_Get_def assms split: sum.splits s3_error.splits)
qed auto

end

text \<open>A client that keeps its objects in a map.\<close>

definition map_s3 :: "(string \<times> string \<rightharpoonup> bytes) s3_client" where
  "map_s3 = \<lparr>PutObject = (\<lambda>bk k d w. (None, w((bk, k) \<mapsto> d))),
     GetObject = (\<lambda>bk k w. case w (bk, k) of None \<Rightarrow> Inl NoSuchKey | Some d \<Rightarrow> Inr (Inr d))\<rparr>"

interpretation map_s3: s3_objects map_s3 "\<lambda>w. w"
  by unfold_locales (auto simp: map_s3_def split: option.splits)

section \<open>Properties\<close>

text \<open>
  C19. Path traversal is impossible in the local store: whatever key a caller passes (with \<^verbatim>\<open>..\<close>,
  an absolute path, empty elements), a path that \<^verbatim>\<open>safePath\<close> accepts is absolute and clean, and its
  elements extend those of the root directory.
\<close>

theorem safePath_contained:
  assumes "getwd s = Inr wd" "IsAbs wd" "safePath s key = Inr p"
  shows "\<exists>rt t. Abs (getwd s) (root s) = Inr rt \<and> elems p = elems rt @ t \<and>
           p = abs_path (elems p) \<and> (\<forall>c\<in>set (elems p). plain c)"
proof -
  have wd: "wd_ok s" using assms by (simp add: wd_ok_def)
  obtain t where t: "p = abs_path (root_elems s @ t)" "\<forall>c\<in>set (root_elems s @ t). plain c"
    using safePath_inside [OF wd assms(3)] by blast
  have "Abs (getwd s) (root s) = Inr (abs_path (root_elems s))"
    using Abs_leads [OF assms(2)] by (simp add: root_elems_def assms(1))
  moreover have "elems (abs_path (root_elems s)) = root_elems s" using t(2) by (intro elems_abs_path) simp
  moreover have "elems p = root_elems s @ t" using t by (simp only: elems_abs_path)
  ultimately show ?thesis using t by auto
qed

theorem safePath_contained_witness:
  "\<exists>rt t. Abs (getwd default_local) (root default_local) = Inr rt \<and>
     elems ''/srv/bsr/data/modules/m1/c1'' = elems rt @ t \<and>
     ''/srv/bsr/data/modules/m1/c1'' = abs_path (elems ''/srv/bsr/data/modules/m1/c1'') \<and>
     (\<forall>c\<in>set (elems ''/srv/bsr/data/modules/m1/c1''). plain c)"
proof -
  have "safePath default_local ''m1/../m1//c1'' = Inr ''/srv/bsr/data/modules/m1/c1''" by code_simp
  moreover have "getwd default_local = Inr ''/srv/bsr''" "IsAbs ''/srv/bsr''"
    by (simp_all add: default_local_def IsAbs_def HasPrefix_def)
  ultimately show ?thesis by (rule safePath_contained [rotated 2])
qed

text \<open>
  C32. The local store returns what was stored: in a well-formed file tree and under a root
  directory other than \<^verbatim>\<open>/\<close>, after a successful \<^verbatim>\<open>Put\<close> of a clean relative key, \<^verbatim>\<open>Get\<close> of that key
  returns exactly those bytes; every other clean key reads as before, also when the \<^verbatim>\<open>Put\<close> failed; and
  a \<^verbatim>\<open>Put\<close> that failed has left the key's content alone, unless the disk was full: then the bytes that fitted have replaced it.
\<close>

theorem LocalStore_roundtrip:
  assumes "rooted s" "fs_ok (w_fs w)" "valid_key key" "LocalStore_Put s key d w = (e, w')"
  shows "(e = None \<longrightarrow> LocalStore_Get s key w' = Inr d) \<and>
         (valid_key key' \<and> key' \<noteq> key \<longrightarrow>
            (LocalStore_Get s key' w' = Inr d' \<longleftrightarrow> LocalStore_Get s key' w = Inr d')) \<and>
         (e \<noteq> None \<longrightarrow>
            (\<forall>x. LocalStore_Get s key w' = Inr x \<longleftrightarrow> LocalStore_Get s key w = Inr x) \<or>
            (\<exists>p n. safePath s key = Inr p \<and> disk s (w_fs w) p d = Some n \<and> LocalStore_Get s key w' = Inr (take n d)))"
proof -
  note fs = local_put_fs [OF assms(1,3,2,4)]
  have get: "LocalStore_Get s k v = Inr x \<longleftrightarrow> w_fs v (root_elems s @ elems k) = Some (File x)"
    if "valid_key k" "fs_ok (w_fs v)" for k x and v :: "'a World_scheme"
    using local_get [OF assms(1) that(1)] that(2) by (auto simp: local_blobs_iff)
  have "valid_key key' \<Longrightarrow> key' \<noteq> key \<Longrightarrow> root_elems s @ elems key' \<noteq> root_elems s @ elems key"
    using valid_key_inj [OF _ assms(3)] by auto
  then show ?thesis
    using fs(2-4) by (auto simp: get [OF _ fs(1)] get [OF _ assms(2)] assms(3) safePath_valid [OF assms(1,3)])
qed

definition empty_world :: World where
  "empty_world =
     \<lparr>sq_users = [], sq_orgs = [], sq_members = [], sq_modules = [], sq_commits = [], sq_labels = [],
      sq_tokens = [], sq_blobs = [], w_fs = (\<lambda>_. None)\<rparr>"

theorem LocalStore_roundtrip_witness:
  "LocalStore_Get default_local ''m1/c1'' (snd (LocalStore_Put default_local ''m1/c1'' [1, 2] empty_world)) = Inr [1, 2]"
proof -
  have "fst (LocalStore_Put default_local ''m1/c1'' [1, 2] empty_world) = None" by code_simp
  moreover have "fs_ok (w_fs empty_world)" by (simp add: fs_ok_def empty_world_def)
  moreover have "valid_key ''m1/c1''" by code_simp
  ultimately show ?thesis
    using LocalStore_roundtrip [OF default_local_rooted, of empty_world "''m1/c1''" "[1, 2]"]
    by (metis prod.collapse)
qed

text \<open>
  C36. The database store returns what was stored, on any engine that executes the statements: \<^verbatim>\<open>Put\<close>
  succeeds and is read back by \<^verbatim>\<open>Get\<close>, an overwrite replaces the old blob, other keys are
  untouched, and the table keeps one row per key.
\<close>

theorem DBStore_roundtrip:
  assumes "gorm_reliable g blob_clash" "blob_keys w" "DBStore_Put g now key d w = (e, w')"
  shows "blob_keys w' \<and> e = None \<and> DBStore_Get g key w' = Inr d \<and>
         (key' \<noteq> key \<longrightarrow> (DBStore_Get g key' w' = Inr d' \<longleftrightarrow> DBStore_Get g key' w = Inr d'))"
proof -
  have eng: "blob_engine_reliable g" using assms(1) by (simp add: blob_engine_reliable_def)
  note st = blob_engine_reliable.db_store_reliable [OF eng, of now]
  note st' = blob_store_whole.axioms(1) [OF blob_store_reliable.axioms(1) [OF st]]
  have stores: "Store_Get (NewDBStore g now) = DBStore_Get g" by (simp add: NewDBStore_def)
  have put: "Store_Put (NewDBStore g now) key d w = (e, w')" using assms(3) by (simp add: NewDBStore_def)
  have through: "e = None" using blob_engine_reliable.db_put_goes_through [OF eng, of now key d w] put by auto
  have ok: "blob_keys w'" by (rule blob_store.put_ok [OF st' assms(2) TrueI put])
  have get: "DBStore_Get g k v = Inr x \<longleftrightarrow> whole db_blobs v k x" if "blob_keys v" for k x and v :: "'a World_scheme"
    by (rule iffI, erule blob_store.get_sound [OF st' that TrueI, unfolded stores],
        erule blob_store_reliable.get_complete [OF st that TrueI, unfolded stores])
  show ?thesis
    using ok put through blob_store.put_done [OF st' assms(2) TrueI] blob_store.put_others [OF st' assms(2) TrueI TrueI _ put]
    by (auto simp: get ok assms(2))
qed

theorem DBStore_roundtrip_witness:
  "DBStore_Get (list_engine blob_clash) ''m1/c1''
     (snd (DBStore_Put (list_engine blob_clash) 7 ''m1/c1'' [9]
       (empty_world\<lparr>sq_blobs := [\<lparr>b_key = ''m1/c1'', b_data = [1], b_created_at = 3\<rparr>]\<rparr>))) = Inr [9]"
proof -
  let ?w = "empty_world\<lparr>sq_blobs := [\<lparr>b_key = ''m1/c1'', b_data = [1], b_created_at = 3\<rparr>]\<rparr>"
  have "blob_keys ?w" by (simp add: blob_keys_def)
  from DBStore_roundtrip [OF list_engine_reliable this prod.collapse [symmetric], of 7 "''m1/c1''" "[9]"]
  show ?thesis by blast
qed

text \<open>
  A local store configured at the file system's root refuses every key: the prefix test asks for
  \<^verbatim>\<open>//\<close>, which no clean path has, so only a key that leads to \<^verbatim>\<open>/\<close> itself passes \<^verbatim>\<open>safePath\<close>, and neither
  \<^verbatim>\<open>Put\<close> nor \<^verbatim>\<open>Get\<close> of any key succeeds.
\<close>

theorem LocalStore_root_unusable:
  assumes "getwd s = Inr wd" "IsAbs wd" "Abs (getwd s) (root s) = Inr ''/''"
  shows "safePath s key \<in> {Inl (ErrInvalidPath []), Inr ''/''} \<and>
         fst (LocalStore_Put s key d w) \<noteq> None \<and> \<not> (\<exists>x. LocalStore_Get s key w = Inr x)"
proof -
  let ?cs = "leads (leads [] wd) (Join (root s) key)"
  have rt: "abs_path [] = ''/''" by (simp add: abs_path_def)
  have "\<not> HasPrefix (abs_path ?cs) (''/'' @ ''/'')"
    using under_root [OF leads_wd_plain, of wd "Join (root s) key"] by (simp add: rt)
  then have safe: "safePath s key \<in> {Inl (ErrInvalidPath []), Inr ''/''}"
    using assms(3) by (auto simp: safePath_def Let_def assms(1) Abs_leads [OF assms(2)])
  moreover have "elems ''/'' = []" by (simp add: elems_def)
  ultimately show ?thesis
    by (auto simp: LocalStore_Put_def LocalStore_Get_def os_MkdirAll_def os_WriteFile_def os_ReadFile_def)
qed

theorem LocalStore_root_unusable_witness:
  "fst (LocalStore_Put \<lparr>root = ''/'', getwd = Inr ''/srv'', disk = (\<lambda>_ _ _. None)\<rparr> ''m1/c1'' [1] empty_world) \<noteq> None"
proof -
  have "Abs (getwd \<lparr>root = ''/'', getwd = Inr ''/srv'', disk = (\<lambda>_ _ _. None)\<rparr>) (root \<lparr>root = ''/'', getwd = Inr ''/srv'', disk = (\<lambda>_ _ _. None)\<rparr>) = Inr ''/''"
    by code_simp
  then show ?thesis
    using LocalStore_root_unusable [of "\<lparr>root = ''/'', getwd = Inr ''/srv'', disk = (\<lambda>_ _ _. None)\<rparr>" "''/srv''" "''m1/c1''" "[1]" empty_world]
    by (simp add: IsAbs_def HasPrefix_def)
qed

end
