(* ===== verification/Backend.thy ===== *)
theory Backend
  imports Authz Storage_Correct
begin

text \<open>
  What the services stand on: the repositories with their authorizer and a blob store, over one
  world, and the frame conditions between them (storing a blob leaves the registry alone, writing
  the registry leaves the blobs alone). \<open>backend\<close> allows every call to fail; \<open>backend_reliable\<close> is a
  backend whose lookups fail only for want of a record.

  The SQL repositories meet the contract with the database store and with the local store, on any disk (\<open>partial\<close>) or on one
  that cuts no write short (\<open>whole\<close>).
\<close>

locale backend =
    registry_sound R abs + blob_store S blobs valid ok
  for R :: "'w Repos" and abs :: "'w \<Rightarrow> Registry" and S :: "'w Store"
    and blobs :: "'w \<Rightarrow> string \<Rightarrow> bytes \<Rightarrow> bool" and valid :: "string \<Rightarrow> bool" and ok :: "'w \<Rightarrow> bool" +
  assumes put_abs: "Store_Put S k b w = (e, w') \<Longrightarrow> abs w' = abs w"
    and write_blobs: "do_write R a w = (de, w') \<Longrightarrow> blobs w' = blobs w"
    and write_ok: "do_write R a w = (de, w') \<Longrightarrow> ok w \<Longrightarrow> ok w'"
    and commit_nil: "Commits_GetByID (Commits R) mi ci w = RetErr p ce \<Longrightarrow> p = None"

text \<open>A backend whose store holds no two contents under a key.\<close>

locale backend_whole =
    backend R abs S blobs valid ok + blob_store_whole S blobs valid ok
  for R :: "'w Repos" and abs :: "'w \<Rightarrow> Registry" and S :: "'w Store"
    and blobs :: "'w \<Rightarrow> string \<Rightarrow> bytes \<Rightarrow> bool" and valid :: "string \<Rightarrow> bool" and ok :: "'w \<Rightarrow> bool"

locale backend_reliable =
    backend R abs S blobs valid ok + registry_reliable R abs + blob_store_reliable S blobs valid ok
  for R :: "'w Repos" and abs :: "'w \<Rightarrow> Registry" and S :: "'w Store"
    and blobs :: "'w \<Rightarrow> string \<Rightarrow> bytes \<Rightarrow> bool" and valid :: "string \<Rightarrow> bool" and ok :: "'w \<Rightarrow> bool"

sublocale backend_reliable \<subseteq> backend_whole ..

section \<open>SQL with a blob store\<close>

lemma sql_write_frame:
  fixes w w' :: "'z World_scheme"
  assumes "do_write (sql_repos enf G) a w = (e, w')"
  shows "sq_blobs w' = sq_blobs w" and "w_fs w' = w_fs w"
  using assms
  by (cases a; auto simp: sql_repos_def store_defs Let_def split: prod.splits option.splits if_splits)+

lemma sql_commit_nil:
  "Commits_GetByID (Commits (sql_repos enf G)) mi ci w = RetErr p ce \<Longrightarrow> p = None"
  by (auto simp: sql_repos_def CommitStore_GetByID_def sql_first_def split: sum.splits)

lemma sql_db_backend:
  fixes enf :: enforcer
  assumes "gorm_db G" "casbin_sound enf" "gorm_sound g blob_clash"
  shows "backend (sql_repos enf G :: 'z World_scheme Repos) sql_abs (NewDBStore g now) (whole db_blobs) (\<lambda>_. True) blob_keys"
proof (intro backend.intro backend_axioms.intro)
  show "registry_sound (sql_repos enf G :: 'z World_scheme Repos) sql_abs"
    by (rule gorm_db.registry_sound_sql [OF assms(1,2)])
  show "blob_store (NewDBStore g now :: 'z World_scheme Store) (whole db_blobs) (\<lambda>_. True) blob_keys"
    using blob_store_whole.axioms(1) [OF blob_engine.db_store] assms(3) by (simp add: blob_engine_def)
  show "sql_abs w' = sql_abs w" if "Store_Put (NewDBStore g now) k b w = (e, w')" for k b e and w w' :: "'z World_scheme"
    using that by (auto simp: NewDBStore_def DBStore_Put_def sql_abs_def split: prod.splits)
  fix a e and w w' :: "'z World_scheme"
  assume "do_write (sql_repos enf G) a w = (e, w')"
  note frame = sql_write_frame [OF this]
  show "whole db_blobs w' = whole db_blobs w" by (simp add: fun_eq_iff whole_def db_blobs_def frame)
  show "blob_keys w \<Longrightarrow> blob_keys w'" by (simp add: blob_keys_def frame)
qed (rule sql_commit_nil)

lemma sql_db_backend_whole:
  fixes enf :: enforcer
  assumes "gorm_db G" "casbin_sound enf" "gorm_sound g blob_clash"
  shows "backend_whole (sql_repos enf G :: 'z World_scheme Repos) sql_abs (NewDBStore g now) (whole db_blobs) (\<lambda>_. True) blob_keys"
  using blob_engine.db_store assms(3)
  by (intro backend_whole.intro sql_db_backend [OF assms]) (simp add: blob_engine_def)

lemma sql_local_backend:
  fixes enf :: enforcer
  assumes "gorm_db G" "casbin_sound enf" "local_ok holding s"
  shows "backend (sql_repos enf G :: 'z World_scheme Repos) sql_abs (NewLocalStore s) (holding (local_blobs s)) valid_key
           (\<lambda>w. fs_ok (w_fs w))"
proof (intro backend.intro backend_axioms.intro)
  show "registry_sound (sql_repos enf G :: 'z World_scheme Repos) sql_abs"
    by (rule gorm_db.registry_sound_sql [OF assms(1,2)])
  show "blob_store (NewLocalStore s :: 'z World_scheme Store) (holding (local_blobs s)) valid_key (\<lambda>w. fs_ok (w_fs w))"
    by (rule local_store [OF assms(3)])
  show "sql_abs w' = sql_abs w" if "Store_Put (NewLocalStore s) k b w = (e, w')" for k b e and w w' :: "'z World_scheme"
    using that by (auto simp: NewLocalStore_def LocalStore_Put_def sql_abs_def
        split: prod.splits sum.splits option.splits)
  fix a e and w w' :: "'z World_scheme"
  assume "do_write (sql_repos enf G) a w = (e, w')"
  note frame = sql_write_frame [OF this]
  have "local_blobs s w' = local_blobs s w" by (rule ext) (simp add: local_blobs_def frame)
  then have "holding (local_blobs s) w' k = holding (local_blobs s) w k" for k
    using holding_cong [of "local_blobs s" w' k w] assms(3) by (auto simp: local_ok_def)
  then show "holding (local_blobs s) w' = holding (local_blobs s) w" by (rule ext)
  show "fs_ok (w_fs w) \<Longrightarrow> fs_ok (w_fs w')" by (simp add: frame)
qed (rule sql_commit_nil)

lemma sql_db_backend_reliable:
  fixes enf :: enforcer
  assumes "gorm_db_reliable G" "casbin_matches enf" "gorm_reliable g blob_clash"
  shows "backend_reliable (sql_repos enf G :: 'z World_scheme Repos) sql_abs (NewDBStore g now) (whole db_blobs) (\<lambda>_. True) blob_keys"
proof (intro backend_reliable.intro)
  show "backend (sql_repos enf G :: 'z World_scheme Repos) sql_abs (NewDBStore g now) (whole db_blobs) (\<lambda>_. True) blob_keys"
    by (rule sql_db_backend) (use assms gorm_db_reliable.axioms(1) gorm_reliable.axioms(1) casbin_matches_sound in blast)+
  show "registry_reliable (sql_repos enf G :: 'z World_scheme Repos) sql_abs"
    by (rule gorm_db_reliable.registry_reliable_sql [OF assms(1,2)])
  show "blob_store_reliable (NewDBStore g now :: 'z World_scheme Store) (whole db_blobs) (\<lambda>_. True) blob_keys"
    using blob_engine_reliable.db_store_reliable assms(3) by (simp add: blob_engine_reliable_def)
qed

lemma sql_local_backend_reliable:
  fixes enf :: enforcer
  assumes "gorm_db_reliable G" "casbin_matches enf" "rooted s" "disk s = (\<lambda>_ _ _. None)"
  shows "backend_reliable (sql_repos enf G :: 'z World_scheme Repos) sql_abs (NewLocalStore s) (whole (local_blobs s))
           valid_key (\<lambda>w. fs_ok (w_fs w))"
proof (intro backend_reliable.intro)
  show "backend (sql_repos enf G :: 'z World_scheme Repos) sql_abs (NewLocalStore s) (whole (local_blobs s))
           valid_key (\<lambda>w. fs_ok (w_fs w))"
    by (rule sql_local_backend)
       (use assms gorm_db_reliable.axioms(1) casbin_matches_sound in \<open>auto simp: local_ok_def\<close>)
  show "registry_reliable (sql_repos enf G :: 'z World_scheme Repos) sql_abs"
    by (rule gorm_db_reliable.registry_reliable_sql [OF assms(1,2)])
  show "blob_store_reliable (NewLocalStore s :: 'z World_scheme Store) (whole (local_blobs s)) valid_key (\<lambda>w. fs_ok (w_fs w))"
    by (rule local_store_reliable [OF assms(3,4)])
qed

text \<open>The two stacks on the concrete engine.\<close>

interpretation db_stack: backend_reliable "sql_repos policy_enforcer list_gorm" sql_abs
    "NewDBStore (list_engine blob_clash) now" "whole db_blobs" "\<lambda>_. True" blob_keys for now
  by (rule sql_db_backend_reliable [OF list_db.gorm_db_reliable_axioms policy_enforcer_matches list_engine_reliable])

interpretation local_stack: backend_reliable "sql_repos policy_enforcer list_gorm" sql_abs
    "NewLocalStore default_local" "whole (local_blobs default_local)" valid_key "\<lambda>w. fs_ok (w_fs w)"
  by (rule sql_local_backend_reliable [OF list_db.gorm_db_reliable_axioms policy_enforcer_matches default_local_rooted default_local_room])

end
