(* ===== verification/Content_Service.thy ===== *)
theory Content_Service
  imports Module_Service Archive Backend Sha256
begin

text \<open>
  \<^verbatim>\<open>internal/api/module/upload.go\<close> and \<^verbatim>\<open>download.go\<close>: pushing content to a module and getting it back.
  Uploading stores the packed files under the module and their SHA-256, records a commit with that
  hash as identifier unless there is one, and moves labels to it.
\<close>

section \<open>Upload\<close>

record upload_content =
  uc_module_ref :: "module_ref option"
  uc_files :: "proto_file list"
  uc_scoped_label_refs :: "name_ref list"

definition commit_id :: "bytes \<Rightarrow> string" where
  "commit_id zipData = EncodeToString (Sum256 zipData)"

definition label_names :: "upload_content \<Rightarrow> string list" where
  "label_names content =
     (if uc_scoped_label_refs content \<noteq> []
      then map (\<lambda>ref. let name = ref_GetName ref in if name = [] then ''main'' else name)
             (uc_scoped_label_refs content)
      else [''main''])"

text \<open>The inner loop: the \<open>j\<close>-th label of the \<open>i\<close>-th content takes the \<open>j\<close>-th fresh identifier.\<close>

definition upsertLabel ::
  "'w Repos \<Rightarrow> env \<Rightarrow> nat \<Rightarrow> string \<Rightarrow> string \<Rightarrow> gotime \<Rightarrow> nat \<Rightarrow> string \<Rightarrow> ('w, unit) handler" where
  "upsertLabel R E i moduleID commitID now j labelName w =
     (let l = \<lparr>lID = NewString E i j, lModuleID = moduleID, lName = labelName, lCommitID = commitID,
               lCreatedAt = now, lUpdatedAt = now\<rparr> in
      case Labels_Upsert (Labels R) l w of
        (Some _, w') \<Rightarrow> reject CodeInternal ''failed to upsert label'' w'
      | (None, w') \<Rightarrow> (Inr (), w'))"

text \<open>From the packed archive on: blob, commit, labels, answer.\<close>

definition publish ::
  "'w Repos \<Rightarrow> 'w Store \<Rightarrow> env \<Rightarrow> User \<Rightarrow> nat \<Rightarrow> Module \<Rightarrow> bytes \<Rightarrow> string list \<Rightarrow> ('w, proto_commit) handler" where
  "publish R S E caller i m zipData labelNames w =
     (let commitID = commit_id zipData;
          digestValue = Sum256 zipData;
          storageKey = mID m @ ''/'' @ commitID in
      case Store_Put S storageKey zipData w of
        (Some _, w1) \<Rightarrow> reject CodeInternal ''failed to store content'' w1
      | (None, w1) \<Rightarrow>
          (let existing = fetch_ptr (Commits_GetByID (Commits R) (mID m) commitID w1);
               now = (case existing of Some c \<Rightarrow> cCreatedAt c | None \<Rightarrow> Now E i 0) in
           case (case existing of
                   Some _ \<Rightarrow> (None, w1)
                 | None \<Rightarrow>
                     Commits_Create (Commits R)
                       \<lparr>cID = commitID, cModuleID = mID m, cStorageKey = storageKey, cManifest = [],
                        cCreatedByUserID = uID caller, cCreatedAt = now\<rparr> w1) of
             (Some _, w2) \<Rightarrow> reject CodeInternal ''failed to create commit'' w2
           | (None, w2) \<Rightarrow>
               (case for_each (upsertLabel R E i (mID m) commitID now) 0 labelNames [] w2 of
                  (Inl e, w3) \<Rightarrow> (Inl e, w3)
                | (Inr _, w3) \<Rightarrow>
                    (Inr \<lparr>pc_id = commitID, pc_create_time = now,
                          pc_owner_id = resolveOwnerIDHelper R m w3, pc_module_id = mID m,
                          pc_created_by = uID caller, pc_digest = Some digestValue\<rparr>, w3))))"

definition uploadContent ::
  "'w Repos \<Rightarrow> 'w Store \<Rightarrow> zip_lib \<Rightarrow> env \<Rightarrow> User \<Rightarrow> nat \<Rightarrow> upload_content \<Rightarrow> ('w, proto_commit) handler" where
  "uploadContent R S Z E caller i content w =
     (case uc_module_ref content of
        Some (ModuleByName ownerName moduleName) \<Rightarrow>
          (case Modules_Get (Modules R) ownerName moduleName w of
             RetErr _ _ \<Rightarrow> reject CodeNotFound (''module not found: '' @ ownerName @ ''/'' @ moduleName) w
           | Ret m \<Rightarrow>
               if \<not> CanWriteModule (Auth R) (uID caller) m w
               then reject CodePermissionDenied ''no write access'' w
               else
                 (case validateFiles (uc_files content) of
                    Some err \<Rightarrow> reject CodeInvalidArgument err w
                  | None \<Rightarrow>
                      (case zipFiles Z (uc_files content) of
                         Inl _ \<Rightarrow> reject CodeInternal ''failed to create archive'' w
                       | Inr zipData \<Rightarrow>
                           if int (length zipData) > maxUploadSize
                           then reject CodeInvalidArgument ''upload too large'' w
                           else publish R S E caller i m zipData (label_names content) w)))
      | _ \<Rightarrow> reject CodeInvalidArgument ''module ref with name required'' w)"

definition Upload ::
  "'w Repos \<Rightarrow> 'w Store \<Rightarrow> zip_lib \<Rightarrow> env \<Rightarrow> User option \<Rightarrow> upload_content list \<Rightarrow> ('w, proto_commit list) handler" where
  "Upload R S Z E caller contents w =
     (case caller of
        None \<Rightarrow> reject CodeUnauthenticated ''not authenticated'' w
      | Some u \<Rightarrow> for_each (uploadContent R S Z E u) 0 contents [] w)"

section \<open>Download\<close>

definition downloadValue ::
  "'w Repos \<Rightarrow> 'w Store \<Rightarrow> zip_lib \<Rightarrow> User option \<Rightarrow> 'w \<Rightarrow> resource_ref option \<Rightarrow>
     connect_error + proto_commit \<times> proto_file list" where
  "downloadValue R S Z caller w ref =
     (case resolveResourceRef R ref w of
        Inl err \<Rightarrow> Inl (ConnectError CodeNotFound err)
      | Inr (m, None) \<Rightarrow> Inl (ConnectError CodeNotFound ''no commits found for module'')
      | Inr (m, Some commit) \<Rightarrow>
          if \<not> CanReadModule (Auth R) (userID caller) m w
          then Inl (ConnectError CodeNotFound ''module not found'')
          else
            (case Store_Get S (cStorageKey commit) w of
               Inl _ \<Rightarrow> Inl (ConnectError CodeInternal ''failed to retrieve content'')
             | Inr d \<Rightarrow>
                 (case unzipFiles Z d of
                    Inl _ \<Rightarrow> Inl (ConnectError CodeInternal ''failed to read content'')
                  | Inr files \<Rightarrow>
                      Inr (\<lparr>pc_id = cID commit, pc_create_time = cCreatedAt commit,
                            pc_owner_id = resolveOwnerIDHelper R m w, pc_module_id = mID m,
                            pc_created_by = cCreatedByUserID commit, pc_digest = None\<rparr>, files))))"

definition Download ::
  "'w Repos \<Rightarrow> 'w Store \<Rightarrow> zip_lib \<Rightarrow> User option \<Rightarrow> resource_ref option list \<Rightarrow> 'w \<Rightarrow>
     connect_error + (proto_commit \<times> proto_file list) list" where
  "Download R S Z caller vals w = collect (downloadValue R S Z caller w) vals []"

end
