(* ===== verification/Auth.thy ===== *)
theory Auth
  imports Connect Sha256 Go_Lib
begin

text \<open>
  Authentication, \<^verbatim>\<open>internal/auth\<close>: token hashes, passwords, the interceptor in front of the
  Connect services and the middleware in front of the whole server.

  bcrypt is not part of the repository; its two functions are a parameter (the salt that
  \<^verbatim>\<open>GenerateFromPassword\<close> draws is an argument), and \<open>bcrypt_ok\<close> is its documented behaviour.
\<close>

section \<open>Hashes\<close>

definition HashToken :: "string \<Rightarrow> string" where
  "HashToken raw = EncodeToString (Sum256 (bytes_of_string raw))"

record bcrypt =
  GenerateFromPassword :: "nat \<Rightarrow> string \<Rightarrow> string + string"
  CompareHashAndPassword :: "string \<Rightarrow> string \<Rightarrow> string option"

definition bcrypt_ok :: "bcrypt \<Rightarrow> bool" where
  "bcrypt_ok B \<longleftrightarrow>
     (\<forall>salt pw h. GenerateFromPassword B salt pw = Inr h \<longrightarrow> CompareHashAndPassword B h pw = None)"

definition HashPassword :: "bcrypt \<Rightarrow> nat \<Rightarrow> string \<Rightarrow> string + string" where
  "HashPassword B salt password = GenerateFromPassword B salt password"

definition CheckPassword :: "bcrypt \<Rightarrow> string \<Rightarrow> string \<Rightarrow> bool" where
  "CheckPassword B hash password \<longleftrightarrow> CompareHashAndPassword B hash password = None"

definition ExtractBearer :: "string \<Rightarrow> string" where
  "ExtractBearer authHeader = TrimPrefix authHeader ''Bearer ''"

section \<open>From a header to a caller\<close>

text \<open>
  \<open>header\<close> is \<^verbatim>\<open>Header().Get("Authorization")\<close> (empty when absent), \<open>now\<close> the instant
  \<^verbatim>\<open>time.Now()\<close> returns, \<open>caller\<close> the user already in the request's context, and \<open>next_handler\<close>
  the wrapped handler, a function of the user in its context.
\<close>

definition NewConnectInterceptor ::
  "'w Repos \<Rightarrow> gotime \<Rightarrow> string \<Rightarrow> (User option \<Rightarrow> ('w, 'r) handler) \<Rightarrow> User option \<Rightarrow> ('w, 'r) handler" where
  "NewConnectInterceptor R now header next_handler caller w =
     (let raw = TrimPrefix header ''Bearer '' in
      if raw = '''' \<or> raw = header then next_handler caller w
      else
        (case Tokens_GetByHash (Tokens R) (HashToken raw) w of
           RetErr _ e \<Rightarrow>
             if e = ErrNotFound then reject CodeUnauthenticated ''invalid token'' w
             else reject CodeInternal ''internal error'' w
         | Ret t \<Rightarrow>
             if (case tExpiresAt t of None \<Rightarrow> False | Some e \<Rightarrow> now > e)
             then reject CodeUnauthenticated ''token expired'' w
             else
               (case Users_GetByID (Users R) (tUserID t) w of
                  RetErr _ _ \<Rightarrow> reject CodeInternal ''internal error'' w
                | Ret u \<Rightarrow> next_handler (Some u) w)))"

definition Middleware ::
  "'w Repos \<Rightarrow> gotime \<Rightarrow> string \<Rightarrow> (User option \<Rightarrow> 'w \<Rightarrow> 'r) \<Rightarrow> User option \<Rightarrow> 'w \<Rightarrow> 'r" where
  "Middleware R now header next_handler caller w =
     (let bearer = ExtractBearer header in
      if bearer = '''' \<or> bearer = header then next_handler caller w
      else
        (case Tokens_GetByHash (Tokens R) (HashToken bearer) w of
           RetErr _ _ \<Rightarrow> next_handler caller w
         | Ret t \<Rightarrow>
             if (case tExpiresAt t of None \<Rightarrow> False | Some e \<Rightarrow> now > e) then next_handler caller w
             else
               (case Users_GetByID (Users R) (tUserID t) w of
                  RetErr _ _ \<Rightarrow> next_handler caller w
                | Ret u \<Rightarrow> next_handler (Some u) w)))"

section \<open>What a token proves\<close>

text \<open>The specification: a header proves \<open>u\<close> at an instant when it carries the secret of a live token of \<open>u\<close>.\<close>

definition bears :: "string \<Rightarrow> string \<Rightarrow> bool" where
  "bears header raw \<longleftrightarrow> raw \<noteq> '''' \<and> header = ''Bearer '' @ raw"

definition proves :: "Registry \<Rightarrow> gotime \<Rightarrow> string \<Rightarrow> User \<Rightarrow> bool" where
  "proves r now header u \<longleftrightarrow>
     (\<exists>raw. bears header raw \<and>
        (\<exists>t\<in>rTokens r. tHash t = HashToken raw \<and> \<not> expired_at now t \<and>
           u \<in> rUsers r \<and> uID u = tUserID t))"

lemma bears_iff: "bears header raw \<longleftrightarrow> raw = TrimPrefix header ''Bearer '' \<and> raw \<noteq> [] \<and> raw \<noteq> header"
proof (cases "HasPrefix header ''Bearer ''")
  case True
  then obtain t where t: "header = ''Bearer '' @ t" by (auto simp only: HasPrefix_iff)
  have "t \<noteq> ''Bearer '' @ t"
    using length_append [of "''Bearer ''" t] by (metis add_eq_self_zero length_0_conv list.distinct(1) add.commute)
  moreover have "TrimPrefix header ''Bearer '' = t" unfolding t by (rule TrimPrefix_append)
  ultimately show ?thesis unfolding bears_def t by (auto simp only: append_same_eq same_append_eq)
next
  case False
  then have "header \<noteq> ''Bearer '' @ raw" by (metis HasPrefix_append)
  with False show ?thesis unfolding bears_def TrimPrefix_def by (simp only: if_False) blast
qed

lemma expired_case: "(case tExpiresAt t of None \<Rightarrow> False | Some e \<Rightarrow> now > e) \<longleftrightarrow> expired_at now t"
  by (auto simp: expired_at_def split: option.splits)

lemma bears_unique: "bears header raw \<Longrightarrow> bears header raw' \<Longrightarrow> raw = raw'"
  by (simp add: bears_iff)

lemma not_bears: "\<not> (\<exists>raw. bears header raw) \<longleftrightarrow> TrimPrefix header ''Bearer '' \<in> {[], header}"
  by (auto simp: bears_iff)

lemma bearsD:
  assumes "bears header raw"
  shows "TrimPrefix header ''Bearer '' = raw" "raw \<noteq> []" "raw \<noteq> header"
  using assms by (auto simp: bears_iff)

lemma anonymous_passes:
  assumes "\<not> (\<exists>raw. bears header raw)"
  shows "Middleware R now header nx caller w = nx caller w"
    and "NewConnectInterceptor R now header nc caller w = nc caller w"
  using assms unfolding not_bears
  by (auto simp: Middleware_def NewConnectInterceptor_def ExtractBearer_def Let_def)

context repos_reads
begin

text \<open>
  The user the middleware puts into the context is proved by the header; every other request
  reaches the wrapped handler with the context it came with.
\<close>

lemma middleware_sound:
  "(\<exists>u. proves (abs w) now header u \<and> Middleware R now header nx caller w = nx (Some u) w) \<or>
   Middleware R now header nx caller w = nx caller w"
proof (cases "\<exists>raw. bears header raw")
  case False
  then show ?thesis using anonymous_passes(1) [OF False, of R now nx caller w] by simp
next
  case True
  then obtain raw where raw: "bears header raw" by blast
  note eq = bearsD [OF raw]
  show ?thesis
    using token_by_hash.get_Ret [of "HashToken raw" w] user_by_id.get_Ret [of _ w] raw
    by (fastforce simp: Middleware_def ExtractBearer_def eq expired_case proves_def split: fetch.splits)
qed

lemma interceptor_sound:
  "(\<exists>u. proves (abs w) now header u \<and> NewConnectInterceptor R now header nx caller w = nx (Some u) w) \<or>
   (\<not> (\<exists>raw. bears header raw) \<and> NewConnectInterceptor R now header nx caller w = nx caller w) \<or>
   (\<exists>raw e. bears header raw \<and> NewConnectInterceptor R now header nx caller w = (Inl e, w))"
proof (cases "\<exists>raw. bears header raw")
  case False
  then show ?thesis using anonymous_passes(2) [OF False, of R now nx caller w] False by simp
next
  case True
  then obtain raw where raw: "bears header raw" by blast
  note eq = bearsD [OF raw]
  have out: "\<exists>raw e. bears header raw \<and> NewConnectInterceptor R now header nx caller w = (Inl e, w)"
    if "NewConnectInterceptor R now header nx caller w = (Inl e, w)" for e
    using raw that by blast
  show ?thesis
  proof (cases "Tokens_GetByHash (Tokens R) (HashToken raw) w")
    case (RetErr p e)
    then show ?thesis
      by (intro disjI2 out [of "if e = ErrNotFound then ConnectError CodeUnauthenticated ''invalid token''
            else ConnectError CodeInternal ''internal error''"])
         (simp add: NewConnectInterceptor_def eq)
  next
    case (Ret t)
    note t = this token_by_hash.get_Ret [OF this]
    show ?thesis
    proof (cases "Users_GetByID (Users R) (tUserID t) w")
      case (RetErr p e)
      then show ?thesis
        by (intro disjI2 out [of "if expired_at now t then ConnectError CodeUnauthenticated ''token expired''
              else ConnectError CodeInternal ''internal error''"])
           (simp add: NewConnectInterceptor_def eq t(1) expired_case)
    next
      case (Ret u)
      show ?thesis
      proof (cases "expired_at now t")
        case True
        then show ?thesis
          by (intro disjI2 out [of "ConnectError CodeUnauthenticated ''token expired''"])
             (simp add: NewConnectInterceptor_def eq t(1) expired_case)
      next
        case False
        then show ?thesis
          using Ret user_by_id.get_Ret [OF Ret] t raw
          by (intro disjI1 exI [of _ u]) (auto simp: NewConnectInterceptor_def eq expired_case proves_def)
      qed
    qed
  qed
qed

end

context repos_reads_total
begin

lemma proves_lookup:
  assumes "registry_keys (abs w)" "proves (abs w) now header u" "bears header raw"
  obtains t where "Tokens_GetByHash (Tokens R) (HashToken raw) w = Ret t" "\<not> expired_at now t"
    "Users_GetByID (Users R) (tUserID t) w = Ret u"
proof -
  from assms(2,3) obtain t where t: "t \<in> rTokens (abs w)" "tHash t = HashToken raw" "\<not> expired_at now t"
      "u \<in> rUsers (abs w)" "uID u = tUserID t"
    unfolding proves_def using bears_unique by blast
  show thesis
    using that [of t] t token_by_hash.get_iff [of w "HashToken raw" t] user_by_id.get_iff [of w "tUserID t" u]
      assms(1) by (simp add: registry_keys_def)
qed

lemma proves_unique:
  assumes "registry_keys (abs w)" "proves (abs w) now header u" "proves (abs w) now header v"
  shows "u = v"
proof -
  from assms(2) obtain raw where raw: "bears header raw" unfolding proves_def by blast
  show ?thesis
    using proves_lookup [OF assms(1,2) raw] proves_lookup [OF assms(1,3) raw] by (metis fetch.inject(1))
qed

lemma middleware_exact:
  assumes "registry_keys (abs w)"
  shows "proves (abs w) now header u \<Longrightarrow> Middleware R now header nx caller w = nx (Some u) w"
    and "\<not> (\<exists>u. proves (abs w) now header u) \<Longrightarrow> Middleware R now header nx caller w = nx caller w"
proof -
  assume u: "proves (abs w) now header u"
  then obtain raw where raw: "bears header raw" unfolding proves_def by blast
  note eq = bearsD [OF raw]
  obtain t where "Tokens_GetByHash (Tokens R) (HashToken raw) w = Ret t" "\<not> expired_at now t"
      "Users_GetByID (Users R) (tUserID t) w = Ret u"
    by (rule proves_lookup [OF assms u raw])
  then show "Middleware R now header nx caller w = nx (Some u) w"
    by (auto simp: Middleware_def ExtractBearer_def eq expired_case)
next
  assume "\<not> (\<exists>u. proves (abs w) now header u)"
  with middleware_sound show "Middleware R now header nx caller w = nx caller w" by blast
qed

lemma interceptor_exact:
  assumes "registry_keys (abs w)" "proves (abs w) now header u"
  shows "NewConnectInterceptor R now header nx caller w = nx (Some u) w"
proof -
  from assms(2) obtain raw where raw: "bears header raw" unfolding proves_def by blast
  note eq = bearsD [OF raw]
  obtain t where "Tokens_GetByHash (Tokens R) (HashToken raw) w = Ret t" "\<not> expired_at now t"
      "Users_GetByID (Users R) (tUserID t) w = Ret u"
    by (rule proves_lookup [OF assms raw])
  then show ?thesis
    by (auto simp: NewConnectInterceptor_def eq expired_case)
qed

end

end
