(* ===== verification/Encoding.thy ===== *)
theory Encoding
  imports Prelude
begin

text \<open>
  Three formats of the Go library that the REST responses use: \<^verbatim>\<open>base64.StdEncoding\<close>, decimal numbers
  (\<^verbatim>\<open>%d\<close>) and the layout \<^verbatim>\<open>2006-01-02T15:04:05Z\<close> of \<^verbatim>\<open>time.Time.Format\<close> for an instant in UTC.
\<close>

section \<open>Decimal numbers\<close>

definition digit :: "nat \<Rightarrow> char" where
  "digit n = char_of (48 + n mod 10 :: nat)"

fun decimal :: "nat \<Rightarrow> string" where
  "decimal n = (if n < 10 then [digit n] else decimal (n div 10) @ [digit n])"

declare decimal.simps [simp del]

definition digit_value :: "char \<Rightarrow> nat" where
  "digit_value c = of_char c - 48"

definition number_of :: "string \<Rightarrow> nat" where
  "number_of s = foldl (\<lambda>a c. 10 * a + digit_value c) 0 s"

lemma digit_value_digit [simp]: "digit_value (digit n) = n mod 10"
  by (simp add: digit_value_def digit_def of_char_of)

lemma number_of_decimal: "number_of (decimal n) = n"
proof (induction n rule: decimal.induct)
  case (1 n)
  show ?case
  proof (cases "n < 10")
    case True
    then show ?thesis by (subst decimal.simps) (simp add: number_of_def)
  next
    case False
    then have "decimal n = decimal (n div 10) @ [digit n]" by (subst decimal.simps) simp
    then have "number_of (decimal n) = 10 * number_of (decimal (n div 10)) + n mod 10" by (simp add: number_of_def)
    with 1 [OF False] show ?thesis by simp
  qed
qed

section \<open>Base64\<close>

definition b64_alphabet :: string where
  "b64_alphabet = ''ABCDEFGHIJKLMNOPQRSTUVWXYZabcdefghijklmnopqrstuvwxyz0123456789+/''"

abbreviation b64 :: "nat \<Rightarrow> char" where "b64 n \<equiv> b64_alphabet ! n"

fun StdEncoding :: "bytes \<Rightarrow> string" where
  "StdEncoding [] = []"
| "StdEncoding [a] = [b64 (unat a div 4), b64 (unat a mod 4 * 16), CHR ''='', CHR ''='']"
| "StdEncoding [a, b] =
     [b64 (unat a div 4), b64 (unat a mod 4 * 16 + unat b div 16), b64 (unat b mod 16 * 4), CHR ''='']"
| "StdEncoding (a # b # c # r) =
     b64 (unat a div 4) # b64 (unat a mod 4 * 16 + unat b div 16) #
     b64 (unat b mod 16 * 4 + unat c div 64) # b64 (unat c mod 64) # StdEncoding r"

text \<open>The decoder, as the browser has it: groups of four, padding at the end.\<close>

fun b64_index :: "string \<Rightarrow> char \<Rightarrow> nat" where
  "b64_index [] c = 0"
| "b64_index (x # xs) c = (if x = c then 0 else Suc (b64_index xs c))"

abbreviation unb64 :: "char \<Rightarrow> nat" where "unb64 c \<equiv> b64_index b64_alphabet c"

fun StdDecoding :: "string \<Rightarrow> bytes" where
  "StdDecoding (w # x # y # z # r) =
     (if z = CHR ''='' then
        (if y = CHR ''='' then [of_nat (unb64 w * 4 + unb64 x div 16)]
         else [of_nat (unb64 w * 4 + unb64 x div 16), of_nat (unb64 x mod 16 * 16 + unb64 y div 4)])
      else of_nat (unb64 w * 4 + unb64 x div 16) # of_nat (unb64 x mod 16 * 16 + unb64 y div 4) #
           of_nat (unb64 y mod 4 * 64 + unb64 z) # StdDecoding r)"
| "StdDecoding _ = []"

lemma b64_distinct: "distinct b64_alphabet" and b64_length: "length b64_alphabet = 64"
  by (simp_all add: b64_alphabet_def)

lemma b64_index_nth: "distinct xs \<Longrightarrow> n < length xs \<Longrightarrow> b64_index xs (xs ! n) = n"
proof (induction xs arbitrary: n)
  case (Cons x xs)
  then show ?case by (cases n) auto
qed simp

lemma unb64_b64 [simp]: "n < 64 \<Longrightarrow> unb64 (b64 n) = n"
  by (rule b64_index_nth) (simp_all add: b64_distinct b64_length)

lemma b64_not_pad [simp]: "n < 64 \<Longrightarrow> b64 n \<noteq> CHR ''=''"
proof -
  assume "n < 64"
  then have "b64 n \<in> set b64_alphabet" using b64_length by (metis nth_mem)
  moreover have "CHR ''='' \<notin> set b64_alphabet" by (simp add: b64_alphabet_def)
  ultimately show ?thesis by metis
qed

lemma byte_bounds:
  fixes a b :: "8 word"
  shows "unat a div 4 < 64" "unat a mod 4 * 16 < 64" "unat a mod 4 * 16 + unat b div 16 < 64"
    "unat a mod 16 * 4 < 64" "unat a mod 16 * 4 + unat b div 64 < 64" "unat a mod 64 < 64"
proof -
  have "unat a < 256" "unat b < 256" using unsigned_less [of a, where ?'a = nat] unsigned_less [of b, where ?'a = nat] by simp_all
  moreover have "unat a mod 4 < 4" "unat a mod 16 < 16" by simp_all
  ultimately show "unat a div 4 < 64" "unat a mod 4 * 16 < 64" "unat a mod 4 * 16 + unat b div 16 < 64"
    "unat a mod 16 * 4 < 64" "unat a mod 16 * 4 + unat b div 64 < 64" "unat a mod 64 < 64"
    by linarith+
qed

lemma byte_parts:
  fixes a b c :: "8 word"
  shows "unat a div 4 * 4 + unat a mod 4 * 16 div 16 = unat a"
    "unat a div 4 * 4 + (unat a mod 4 * 16 + unat b div 16) div 16 = unat a"
    "(unat a mod 4 * 16 + unat b div 16) mod 16 * 16 + unat b mod 16 * 4 div 4 = unat b"
    "(unat c mod 4 * 16 + unat a div 16) mod 16 * 16 + (unat a mod 16 * 4 + unat b div 64) div 4 = unat a"
    "(unat a mod 16 * 4 + unat b div 64) mod 4 * 64 + unat b mod 64 = unat b"
proof -
  have "unat a < 256" "unat b < 256" using unsigned_less [of a, where ?'a = nat] unsigned_less [of b, where ?'a = nat] by simp_all
  then have q: "unat a div 16 < 16" "unat b div 16 < 16" "unat b div 64 < 4" by linarith+
  then show "unat a div 4 * 4 + unat a mod 4 * 16 div 16 = unat a"
    "unat a div 4 * 4 + (unat a mod 4 * 16 + unat b div 16) div 16 = unat a"
    "(unat a mod 4 * 16 + unat b div 16) mod 16 * 16 + unat b mod 16 * 4 div 4 = unat b"
    "(unat c mod 4 * 16 + unat a div 16) mod 16 * 16 + (unat a mod 16 * 4 + unat b div 64) div 4 = unat a"
    "(unat a mod 16 * 4 + unat b div 64) mod 4 * 64 + unat b mod 64 = unat b"
    by (simp_all add: div_add1_eq mod_add_eq algebra_simps)
qed

lemmas b64_steps = StdEncoding.simps StdDecoding.simps unb64_b64 [OF byte_bounds(1)] unb64_b64 [OF byte_bounds(2)]
  unb64_b64 [OF byte_bounds(3)] unb64_b64 [OF byte_bounds(4)] unb64_b64 [OF byte_bounds(5)] unb64_b64 [OF byte_bounds(6)]
  b64_not_pad [OF byte_bounds(4)] b64_not_pad [OF byte_bounds(6)] if_True if_False byte_parts

lemma StdDecoding_StdEncoding: "StdDecoding (StdEncoding bs) = bs"
proof (induction bs rule: StdEncoding.induct)
  case (2 a)
  show ?case by (simp only: b64_steps) simp
next
  case (3 a b)
  show ?case by (simp only: b64_steps) simp
next
  case (4 a b c r)
  then show ?case by (simp only: b64_steps) simp
qed simp

section \<open>Instants\<close>

text \<open>
  The civil date of a day counted from 1970-01-01, in the proleptic Gregorian calendar: years are
  taken from March, so that the leap day comes last, and grouped into eras of 400 years.
\<close>

definition civil :: "int \<Rightarrow> int \<times> int \<times> int" where
  "civil days =
     (let z = days + 719468;
          era = z div 146097;
          doe = z mod 146097;
          yoe = (doe - doe div 1460 + doe div 36524 - doe div 146096) div 365;
          doy = doe - (365 * yoe + yoe div 4 - yoe div 100);
          mp = (5 * doy + 2) div 153;
          d = doy - (153 * mp + 2) div 5 + 1;
          m = (if mp < 10 then mp + 3 else mp - 9);
          y = yoe + era * 400 + (if m \<le> 2 then 1 else 0)
      in (y, m, d))"

definition pad :: "nat \<Rightarrow> int \<Rightarrow> string" where
  "pad w n = (let s = decimal (nat n) in replicate (w - length s) CHR ''0'' @ s)"

definition format_time :: "gotime \<Rightarrow> string" where
  "format_time t =
     (let secs = t div 1000000000;
          (y, m, d) = civil (secs div 86400);
          s = secs mod 86400
      in pad 4 y @ ''-'' @ pad 2 m @ ''-'' @ pad 2 d @ ''T'' @
         pad 2 (s div 3600) @ '':'' @ pad 2 (s div 60 mod 60) @ '':'' @ pad 2 (s mod 60) @ ''Z'')"

end
