(* ===== verification/Owner_Service.thy ===== *)
theory Owner_Service
  imports Module_Service
begin

text \<open>
  \<^verbatim>\<open>internal/api/owner/owner.go\<close> (owners, organizations, users) and \<^verbatim>\<open>internal/api/authn/authn.go\<close> (the
  current user).
\<close>

definition nameRe :: "string \<Rightarrow> bool" where
  "nameRe = rx_match [(alnum_lower, 1, 1), (alnum_lower_hyphen, 1, 37), (alnum_lower, 1, 1)]"

definition userToProto :: "User \<Rightarrow> proto_user" where
  "userToProto u =
     \<lparr>pu_id = uID u, pu_name = uUsername u, pu_create_time = uCreatedAt u, pu_update_time = uCreatedAt u,
      pu_state = USER_STATE_ACTIVE, pu_type = USER_TYPE_STANDARD\<rparr>"

definition orgToProto :: "Org \<Rightarrow> proto_org" where
  "orgToProto g = \<lparr>po_id = oID g, po_name = oName g, po_create_time = oCreatedAt g, po_update_time = oCreatedAt g\<rparr>"

section \<open>OwnerService\<close>

definition getOwner :: "'w Repos \<Rightarrow> 'w \<Rightarrow> name_ref \<Rightarrow> connect_error + proto_owner" where
  "getOwner R w ref =
     (let name = ref_GetName ref; i = ref_GetId ref in
      if name \<noteq> [] then
        (case Users_GetByUsername (Users R) name w of
           Ret u \<Rightarrow> Inr (OwnerUser (userToProto u))
         | RetErr _ uErr \<Rightarrow>
             if uErr \<noteq> ErrNotFound then Inl (ConnectError CodeInternal ''internal error'')
             else
               (case Orgs_GetByName (Orgs R) name w of
                  Ret g \<Rightarrow> Inr (OwnerOrganization (orgToProto g))
                | RetErr _ oErr \<Rightarrow>
                    if oErr \<noteq> ErrNotFound then Inl (ConnectError CodeInternal ''internal error'')
                    else Inl (ConnectError CodeNotFound (''owner not found: '' @ name))))
      else if i \<noteq> [] then
        (case Users_GetByID (Users R) i w of
           Ret u \<Rightarrow> Inr (OwnerUser (userToProto u))
         | RetErr _ uErr \<Rightarrow>
             if uErr \<noteq> ErrNotFound then Inl (ConnectError CodeInternal ''internal error'')
             else
               (case Orgs_GetByID (Orgs R) i w of
                  Ret g \<Rightarrow> Inr (OwnerOrganization (orgToProto g))
                | RetErr _ oErr \<Rightarrow>
                    if oErr \<noteq> ErrNotFound then Inl (ConnectError CodeInternal ''internal error'')
                    else Inl (ConnectError CodeNotFound (''owner not found: '' @ i))))
      else Inl (ConnectError CodeInvalidArgument ''owner ref must have name or id''))"

definition GetOwners :: "'w Repos \<Rightarrow> name_ref list \<Rightarrow> 'w \<Rightarrow> connect_error + proto_owner list" where
  "GetOwners R refs w = collect (getOwner R w) refs []"

section \<open>OrganizationService\<close>

definition getOrganization :: "'w Repos \<Rightarrow> 'w \<Rightarrow> name_ref \<Rightarrow> connect_error + proto_org" where
  "getOrganization R w ref =
     (case (if ref_GetName ref \<noteq> [] then Some (Orgs_GetByName (Orgs R) (ref_GetName ref) w)
            else if ref_GetId ref \<noteq> [] then Some (Orgs_GetByID (Orgs R) (ref_GetId ref) w)
            else None) of
        None \<Rightarrow> Inl (ConnectError CodeInvalidArgument ''organization ref must have name or id'')
      | Some (RetErr _ e) \<Rightarrow>
          if e = ErrNotFound then Inl (ConnectError CodeNotFound ''organization not found'')
          else Inl (ConnectError CodeInternal ''internal error'')
      | Some (Ret g) \<Rightarrow> Inr (orgToProto g))"

definition GetOrganizations :: "'w Repos \<Rightarrow> name_ref list \<Rightarrow> 'w \<Rightarrow> connect_error + proto_org list" where
  "GetOrganizations R refs w = collect (getOrganization R w) refs []"

text \<open>The values are the requested names.\<close>

definition createOrganization :: "'w Repos \<Rightarrow> env \<Rightarrow> User \<Rightarrow> nat \<Rightarrow> string \<Rightarrow> ('w, proto_org) handler" where
  "createOrganization R E u i name w =
     (if \<not> nameRe name
      then reject CodeInvalidArgument ''org name must be 3-39 chars, lowercase alphanumeric and hyphens'' w
      else
        (case Orgs_GetByName (Orgs R) name w of
           Ret _ \<Rightarrow> reject CodeAlreadyExists (''organization already exists: '' @ name) w
         | RetErr _ _ \<Rightarrow>
             (let g = \<lparr>oID = NewString E i 0, oName = name, oCreatedAt = Now E i 0\<rparr> in
              case Orgs_Create (Orgs R) g w of
                (Some _, w') \<Rightarrow> reject CodeInternal ''internal error'' w'
              | (None, w') \<Rightarrow>
                  (case Orgs_AddMember (Orgs R) (oID g) (uID u) OrgRoleAdmin w' of
                     (Some _, w'') \<Rightarrow> reject CodeInternal ''failed to add admin member'' w''
                   | (None, w'') \<Rightarrow> (Inr (orgToProto g), w'')))))"

definition CreateOrganizations :: "'w Repos \<Rightarrow> env \<Rightarrow> User option \<Rightarrow> string list \<Rightarrow> ('w, proto_org list) handler" where
  "CreateOrganizations R E caller names w =
     (case caller of
        None \<Rightarrow> reject CodeUnauthenticated ''not authenticated'' w
      | Some u \<Rightarrow> for_each (createOrganization R E u) 0 names [] w)"

section \<open>UserService\<close>

definition getUserRef :: "'w Repos \<Rightarrow> 'w \<Rightarrow> name_ref \<Rightarrow> connect_error + proto_user" where
  "getUserRef R w ref =
     (case (if ref_GetName ref \<noteq> [] then Some (Users_GetByUsername (Users R) (ref_GetName ref) w)
            else if ref_GetId ref \<noteq> [] then Some (Users_GetByID (Users R) (ref_GetId ref) w)
            else None) of
        None \<Rightarrow> Inl (ConnectError CodeInvalidArgument ''user ref must have name or id'')
      | Some (RetErr _ e) \<Rightarrow>
          if e = ErrNotFound then Inl (ConnectError CodeNotFound ''user not found'')
          else Inl (ConnectError CodeInternal ''internal error'')
      | Some (Ret u) \<Rightarrow> Inr (userToProto u))"

definition GetUsers :: "'w Repos \<Rightarrow> name_ref list \<Rightarrow> 'w \<Rightarrow> connect_error + proto_user list" where
  "GetUsers R refs w = collect (getUserRef R w) refs []"

definition GetCurrentUser :: "User option \<Rightarrow> connect_error + proto_user" where
  "GetCurrentUser caller =
     (case caller of
        None \<Rightarrow> Inl (ConnectError CodeUnauthenticated ''not authenticated'')
      | Some u \<Rightarrow> Inr (userToProto u))"

definition createUser :: "'w Repos \<Rightarrow> env \<Rightarrow> nat \<Rightarrow> string \<Rightarrow> ('w, proto_user) handler" where
  "createUser R E i name w =
     (if \<not> nameRe name
      then reject CodeInvalidArgument ''username must be 3-39 chars, lowercase alphanumeric and hyphens'' w
      else
        (let u = \<lparr>uID = NewString E i 0, uUsername = name, uPasswordHash = [], uCreatedAt = Now E i 0\<rparr> in
         case Users_Create (Users R) u w of
           (Some _, w') \<Rightarrow>
             (case Users_GetByUsername (Users R) name w' of
                Ret _ \<Rightarrow> reject CodeAlreadyExists (''user already exists: '' @ name) w'
              | RetErr _ _ \<Rightarrow> reject CodeInternal ''internal error'' w')
         | (None, w') \<Rightarrow> (Inr (userToProto u), w')))"

definition CreateUsers :: "'w Repos \<Rightarrow> bool \<Rightarrow> env \<Rightarrow> string list \<Rightarrow> ('w, proto_user list) handler" where
  "CreateUsers R openReg E names w =
     (if \<not> openReg then reject CodePermissionDenied ''registration is closed'' w
      else for_each (createUser R E) 0 names [] w)"

section \<open>AuthnService\<close>

record authn_user =
  au_id :: string
  au_username :: string
  au_create_time :: gotime

definition Authn_GetCurrentUser :: "User option \<Rightarrow> connect_error + authn_user" where
  "Authn_GetCurrentUser caller =
     (case caller of
        None \<Rightarrow> Inl (ConnectError CodeUnauthenticated ''not authenticated'')
      | Some u \<Rightarrow> Inr \<lparr>au_id = uID u, au_username = uUsername u, au_create_time = uCreatedAt u\<rparr>)"

lemma nameRe_iff: "nameRe s \<longleftrightarrow> good_name 3 s"
proof -
  have "(1 :: nat) + 2 = 3" by simp
  then show ?thesis using bracketed_good_name [of 1 s] by (simp only: nameRe_def)
qed

end
