(* ===== verification/Rest_Service.thy ===== *)
theory Rest_Service
  imports Content_Service Auth Encoding Owner_Service
begin

text \<open>
  The REST API, \<^verbatim>\<open>internal/api/rest\<close>. A handler is given the path values and query parameters it
  reads, the caller, and the decoded body (\<open>None\<close> when \<^verbatim>\<open>json.Decode\<close> fails; fields the body does not
  have are empty strings), and answers with a status and a JSON value. The objects it writes are Go
  maps, so the order of their fields carries no meaning.
\<close>

definition usernameRe :: "string \<Rightarrow> bool" where
  "usernameRe = rx_match [(alnum_lower, 1, 1), (alnum_lower_hyphen, 1, 37), (alnum_lower, 1, 1)]"

section \<open>auth.go\<close>

text \<open>A body with a user name and a password.\<close>

definition register ::
  "'w Repos \<Rightarrow> bool \<Rightarrow> bcrypt \<Rightarrow> nat \<Rightarrow> env \<Rightarrow> (string \<times> string) option \<Rightarrow> 'w \<Rightarrow> http_response \<times> 'w" where
  "register R openReg B salt E body w =
     (if \<not> openReg then (writeErr StatusForbidden ''registration is closed'', w)
      else
        (case body of
           None \<Rightarrow> (writeErr StatusBadRequest ''invalid json'', w)
         | Some (username, password) \<Rightarrow>
             if \<not> usernameRe username
             then (writeErr StatusBadRequest ''username must be 3-39 chars, lowercase alphanumeric and hyphens'', w)
             else if length password < 8
             then (writeErr StatusBadRequest ''password must be at least 8 characters'', w)
             else
               (case HashPassword B salt password of
                  Inl _ \<Rightarrow> (writeErr StatusInternalServerError ''internal error'', w)
                | Inr hash \<Rightarrow>
                    (case Users_GetByUsername (Users R) username w of
                       Ret _ \<Rightarrow> (writeErr StatusConflict ''username already exists'', w)
                     | RetErr _ _ \<Rightarrow>
                         (let u = \<lparr>uID = NewString E 0 0, uUsername = username, uPasswordHash = hash,
                                   uCreatedAt = Now E 0 0\<rparr> in
                          case Users_Create (Users R) u w of
                            (Some _, w') \<Rightarrow> (writeErr StatusInternalServerError ''internal error'', w')
                          | (None, w') \<Rightarrow>
                              (writeJSON StatusCreated (JObj [(''id'', uID u), (''username'', uUsername u)]), w'))))))"

definition day_ns :: gotime where "day_ns = 24 * 3600 * 1000000000"

definition login ::
  "'w Repos \<Rightarrow> bcrypt \<Rightarrow> env \<Rightarrow> (string \<times> string) option \<Rightarrow> 'w \<Rightarrow> http_response \<times> 'w" where
  "login R B E body w =
     (case body of
        None \<Rightarrow> (writeErr StatusBadRequest ''invalid json'', w)
      | Some (username, password) \<Rightarrow>
          (case Users_GetByUsername (Users R) username w of
             RetErr _ _ \<Rightarrow> (writeErr StatusUnauthorized ''invalid credentials'', w)
           | Ret u \<Rightarrow>
               if \<not> CheckPassword B (uPasswordHash u) password
               then (writeErr StatusUnauthorized ''invalid credentials'', w)
               else
                 (let w1 = snd (Tokens_DeleteByUserAndNote (Tokens R) (uID u) ''login'' w);
                      rawToken = NewString E 0 0;
                      expires = Now E 0 0 + day_ns;
                      t = \<lparr>tID = NewString E 0 1, tUserID = uID u, tHash = HashToken rawToken, tNote = ''login'',
                           tExpiresAt = Some expires, tCreatedAt = Now E 0 1\<rparr> in
                  case Tokens_Create (Tokens R) t w1 of
                    (Some _, w2) \<Rightarrow> (writeErr StatusInternalServerError ''internal error'', w2)
                  | (None, w2) \<Rightarrow>
                      (writeJSON StatusOK
                         (JObj [(''token'', rawToken), (''user_id'', uID u), (''username'', uUsername u)]), w2))))"

definition me :: "User option \<Rightarrow> http_response" where
  "me caller =
     (case caller of
        None \<Rightarrow> writeErr StatusUnauthorized ''unauthenticated''
      | Some u \<Rightarrow> writeJSON StatusOK (JObj [(''id'', uID u), (''username'', uUsername u)]))"

definition listTokens :: "'w Repos \<Rightarrow> gotime \<Rightarrow> User option \<Rightarrow> 'w \<Rightarrow> http_response" where
  "listTokens R now caller w =
     (case caller of
        None \<Rightarrow> writeErr StatusUnauthorized ''unauthenticated''
      | Some u \<Rightarrow>
          (case Tokens_ListByUser (Tokens R) (uID u) w of
             Inl _ \<Rightarrow> writeErr StatusInternalServerError ''internal error''
           | Inr ts \<Rightarrow>
               writeJSON StatusOK (JList
                 (map (\<lambda>t. [(''id'', tID t), (''note'', tNote t)])
                   (filter (\<lambda>t. \<not> (case tExpiresAt t of None \<Rightarrow> False | Some e \<Rightarrow> e < now) \<and> tNote t \<noteq> ''login'') ts)))))"

definition createToken :: "'w Repos \<Rightarrow> env \<Rightarrow> User option \<Rightarrow> string option \<Rightarrow> 'w \<Rightarrow> http_response \<times> 'w" where
  "createToken R E caller body w =
     (case caller of
        None \<Rightarrow> (writeErr StatusUnauthorized ''unauthenticated'', w)
      | Some u \<Rightarrow>
          (case body of
             None \<Rightarrow> (writeErr StatusBadRequest ''invalid json'', w)
           | Some note \<Rightarrow>
               (let rawToken = NewString E 0 0;
                    t = \<lparr>tID = NewString E 0 1, tUserID = uID u, tHash = HashToken rawToken, tNote = note,
                         tExpiresAt = None, tCreatedAt = Now E 0 0\<rparr> in
                case Tokens_Create (Tokens R) t w of
                  (Some _, w') \<Rightarrow> (writeErr StatusInternalServerError ''internal error'', w')
                | (None, w') \<Rightarrow> (writeJSON StatusOK (JObj [(''token'', rawToken), (''id'', tID t)]), w'))))"

definition revokeToken :: "'w Repos \<Rightarrow> User option \<Rightarrow> string \<Rightarrow> 'w \<Rightarrow> http_response \<times> 'w" where
  "revokeToken R caller i w =
     (case caller of
        None \<Rightarrow> (writeErr StatusUnauthorized ''unauthenticated'', w)
      | Some u \<Rightarrow>
          (case Tokens_Revoke (Tokens R) i (uID u) w of
             (Some _, w') \<Rightarrow> (writeErr StatusNotFound ''token not found'', w')
           | (None, w') \<Rightarrow> (writeJSON StatusOK (JObj [(''status'', ''revoked'')]), w')))"

section \<open>users.go and orgs.go\<close>

definition getUser :: "'w Repos \<Rightarrow> string \<Rightarrow> 'w \<Rightarrow> http_response" where
  "getUser R username w =
     (case Users_GetByUsername (Users R) username w of
        RetErr _ e \<Rightarrow>
          if e = ErrNotFound then writeErr StatusNotFound ''user not found''
          else writeErr StatusInternalServerError ''internal error''
      | Ret u \<Rightarrow> writeJSON StatusOK (JObj [(''id'', uID u), (''username'', uUsername u)]))"

definition getOrg :: "'w Repos \<Rightarrow> string \<Rightarrow> 'w \<Rightarrow> http_response" where
  "getOrg R name w =
     (case Orgs_GetByName (Orgs R) name w of
        RetErr _ e \<Rightarrow>
          if e = ErrNotFound then writeErr StatusNotFound ''organization not found''
          else writeErr StatusInternalServerError ''internal error''
      | Ret g \<Rightarrow> writeJSON StatusOK (JObj [(''id'', oID g), (''name'', oName g)]))"

definition createOrg :: "'w Repos \<Rightarrow> env \<Rightarrow> User option \<Rightarrow> string option \<Rightarrow> 'w \<Rightarrow> http_response \<times> 'w" where
  "createOrg R E caller body w =
     (case caller of
        None \<Rightarrow> (writeErr StatusUnauthorized ''unauthenticated'', w)
      | Some u \<Rightarrow>
          (case body of
             None \<Rightarrow> (writeErr StatusBadRequest ''invalid json'', w)
           | Some name \<Rightarrow>
               if \<not> usernameRe name
               then (writeErr StatusBadRequest ''org name must be 3-39 chars, lowercase alphanumeric and hyphens'', w)
               else
                 (let g = \<lparr>oID = NewString E 0 0, oName = name, oCreatedAt = Now E 0 0\<rparr> in
                  case Orgs_Create (Orgs R) g w of
                    (Some _, w') \<Rightarrow>
                      (case Orgs_GetByName (Orgs R) name w' of
                         Ret _ \<Rightarrow> (writeErr StatusConflict ''organization already exists'', w')
                       | RetErr _ _ \<Rightarrow> (writeErr StatusInternalServerError ''internal error'', w'))
                  | (None, w') \<Rightarrow>
                      (case Orgs_AddMember (Orgs R) (oID g) (uID u) OrgRoleAdmin w' of
                         (Some _, w'') \<Rightarrow> (writeErr StatusInternalServerError ''failed to add admin member'', w'')
                       | (None, w'') \<Rightarrow>
                           (writeJSON StatusCreated (JObj [(''id'', oID g), (''name'', oName g)]), w'')))))"

text \<open>A body with a user name and a role.\<close>

definition addMember ::
  "'w Repos \<Rightarrow> User option \<Rightarrow> string \<Rightarrow> (string \<times> string) option \<Rightarrow> 'w \<Rightarrow> http_response \<times> 'w" where
  "addMember R caller orgName body w =
     (case caller of
        None \<Rightarrow> (writeErr StatusUnauthorized ''unauthenticated'', w)
      | Some u \<Rightarrow>
          (case Orgs_GetByName (Orgs R) orgName w of
             RetErr _ _ \<Rightarrow> (writeErr StatusNotFound ''organization not found'', w)
           | Ret g \<Rightarrow>
               if \<not> CanManageOrgMembers (Auth R) (uID u) (oID g) w
               then (writeErr StatusForbidden ''must be org admin'', w)
               else
                 (case body of
                    None \<Rightarrow> (writeErr StatusBadRequest ''invalid json'', w)
                  | Some (username, rl) \<Rightarrow>
                      (case Users_GetByUsername (Users R) username w of
                         RetErr _ _ \<Rightarrow> (writeErr StatusNotFound ''user not found'', w)
                       | Ret target \<Rightarrow>
                           (let role = (if rl = OrgRoleAdmin then OrgRoleAdmin else OrgRoleMember) in
                            case Orgs_AddMember (Orgs R) (oID g) (uID target) role w of
                              (Some _, w') \<Rightarrow> (writeErr StatusInternalServerError ''internal error'', w')
                            | (None, w') \<Rightarrow> (writeJSON StatusOK (JObj [(''status'', ''added'')]), w'))))))"

definition removeMember ::
  "'w Repos \<Rightarrow> User option \<Rightarrow> string \<Rightarrow> string \<Rightarrow> 'w \<Rightarrow> http_response \<times> 'w" where
  "removeMember R caller orgName username w =
     (case caller of
        None \<Rightarrow> (writeErr StatusUnauthorized ''unauthenticated'', w)
      | Some u \<Rightarrow>
          (case Orgs_GetByName (Orgs R) orgName w of
             RetErr _ _ \<Rightarrow> (writeErr StatusNotFound ''organization not found'', w)
           | Ret g \<Rightarrow>
               if \<not> CanManageOrgMembers (Auth R) (uID u) (oID g) w
               then (writeErr StatusForbidden ''must be org admin'', w)
               else
                 (case Users_GetByUsername (Users R) username w of
                    RetErr _ _ \<Rightarrow> (writeErr StatusNotFound ''user not found'', w)
                  | Ret target \<Rightarrow>
                      (case Orgs_RemoveMember (Orgs R) (oID g) (uID target) w of
                         (Some _, w') \<Rightarrow> (writeErr StatusInternalServerError ''internal error'', w')
                       | (None, w') \<Rightarrow> (writeJSON StatusOK (JObj [(''status'', ''removed'')]), w')))))"

section \<open>modules.go\<close>

definition moduleToJSON :: "Module \<Rightarrow> (string \<times> string) list" where
  "moduleToJSON m =
     [(''id'', mID m), (''owner'', mOwnerName m), (''name'', mName m), (''visibility'', mVisibility m)]"

definition getModule :: "'w Repos \<Rightarrow> User option \<Rightarrow> string \<Rightarrow> string \<Rightarrow> 'w \<Rightarrow> http_response" where
  "getModule R caller owner repo w =
     (case Modules_Get (Modules R) owner repo w of
        RetErr _ e \<Rightarrow>
          if e = ErrNotFound then writeErr StatusNotFound ''module not found''
          else writeErr StatusInternalServerError ''internal error''
      | Ret m \<Rightarrow>
          if \<not> CanReadModule (Auth R) (userID caller) m w
          then writeErr StatusNotFound ''module not found''
          else writeJSON StatusOK (JObj (moduleToJSON m)))"

definition listModules :: "'w Repos \<Rightarrow> User option \<Rightarrow> string \<Rightarrow> string \<Rightarrow> 'w \<Rightarrow> http_response" where
  "listModules R caller owner query w =
     (case (if owner \<noteq> [] then Modules_List (Modules R) owner w
            else Modules_ListPublic (Modules R) query 50 w) of
        Inl _ \<Rightarrow> writeErr StatusInternalServerError ''internal error''
      | Inr mods \<Rightarrow>
          writeJSON StatusOK
            (JList (map moduleToJSON (filter (\<lambda>m. CanReadModule (Auth R) (userID caller) m w) mods))))"

text \<open>The body of a creation.\<close>

record create_module_body =
  cb_owner :: string
  cb_name :: string
  cb_visibility :: string

definition rest_createModule ::
  "'w Repos \<Rightarrow> env \<Rightarrow> User option \<Rightarrow> create_module_body option \<Rightarrow> 'w \<Rightarrow> http_response \<times> 'w" where
  "rest_createModule R E caller body w =
     (case caller of
        None \<Rightarrow> (writeErr StatusUnauthorized ''unauthenticated'', w)
      | Some u \<Rightarrow>
          (case body of
             None \<Rightarrow> (writeErr StatusBadRequest ''invalid json'', w)
           | Some req \<Rightarrow>
               if \<not> usernameRe (cb_name req)
               then (writeErr StatusBadRequest
                       ''module name must be 2-39 chars, lowercase alphanumeric and hyphens'', w)
               else if \<not> CanCreateModule (Auth R) (uID u) (cb_owner req) w
               then (writeErr StatusForbidden ''no permission to create modules under this owner'', w)
               else
                 (let ownerType = (if cb_owner req = uUsername u then OwnerTypeUser else OwnerTypeOrg);
                      vis = (if cb_visibility req = ''public'' then VisibilityPublic else VisibilityPrivate) in
                  case Modules_Get (Modules R) (cb_owner req) (cb_name req) w of
                    Ret _ \<Rightarrow> (writeErr StatusConflict ''module already exists'', w)
                  | RetErr _ _ \<Rightarrow>
                      (let m = \<lparr>mID = NewString E 0 0, mOwnerName = cb_owner req, mOwnerType = ownerType,
                                mName = cb_name req, mVisibility = vis, mCreatedAt = Now E 0 0\<rparr> in
                       case Modules_Create (Modules R) m w of
                         (Some _, w') \<Rightarrow> (writeErr StatusInternalServerError ''internal error'', w')
                       | (None, w') \<Rightarrow> (writeJSON StatusCreated (JObj (moduleToJSON m)), w')))))"

section \<open>commits.go\<close>

text \<open>A check that fails has written its response: the left side.\<close>

definition checkModuleAccess ::
  "'w Repos \<Rightarrow> User option \<Rightarrow> string \<Rightarrow> string \<Rightarrow> 'w \<Rightarrow> http_response + Module" where
  "checkModuleAccess R caller owner repo w =
     (case Modules_Get (Modules R) owner repo w of
        RetErr _ e \<Rightarrow>
          if e = ErrNotFound then Inl (writeErr StatusNotFound ''module not found'')
          else Inl (writeErr StatusInternalServerError ''internal error'')
      | Ret m \<Rightarrow>
          if \<not> CanReadModule (Auth R) (userID caller) m w
          then Inl (writeErr StatusNotFound ''module not found'')
          else Inr m)"

definition commit_json :: "Commit \<Rightarrow> (string \<times> string) list" where
  "commit_json c =
     [(''id'', cID c), (''module_id'', cModuleID c), (''created_at'', format_time (cCreatedAt c))]"

definition listCommits :: "'w Repos \<Rightarrow> User option \<Rightarrow> string \<Rightarrow> string \<Rightarrow> 'w \<Rightarrow> http_response" where
  "listCommits R caller owner repo w =
     (case checkModuleAccess R caller owner repo w of
        Inl resp \<Rightarrow> resp
      | Inr m \<Rightarrow>
          (case Commits_ListByModule (Commits R) (mID m) w of
             Inl _ \<Rightarrow> writeErr StatusInternalServerError ''internal error''
           | Inr commits \<Rightarrow> writeJSON StatusOK (JList (map commit_json commits))))"

definition rest_getCommit :: "'w Repos \<Rightarrow> User option \<Rightarrow> string \<Rightarrow> string \<Rightarrow> string \<Rightarrow> 'w \<Rightarrow> http_response" where
  "rest_getCommit R caller owner repo commitID w =
     (case checkModuleAccess R caller owner repo w of
        Inl resp \<Rightarrow> resp
      | Inr m \<Rightarrow>
          (case Commits_GetByID (Commits R) (mID m) commitID w of
             RetErr _ e \<Rightarrow>
               if e = ErrNotFound then writeErr StatusNotFound ''commit not found''
               else writeErr StatusInternalServerError ''internal error''
           | Ret c \<Rightarrow> writeJSON StatusOK (JObj (commit_json c))))"

definition listLabels :: "'w Repos \<Rightarrow> User option \<Rightarrow> string \<Rightarrow> string \<Rightarrow> 'w \<Rightarrow> http_response" where
  "listLabels R caller owner repo w =
     (case checkModuleAccess R caller owner repo w of
        Inl resp \<Rightarrow> resp
      | Inr m \<Rightarrow>
          (case Labels_List (Labels R) (mID m) w of
             Inl _ \<Rightarrow> writeErr StatusInternalServerError ''internal error''
           | Inr labels \<Rightarrow>
               writeJSON StatusOK (JList (map (\<lambda>l. [(''name'', lName l), (''commit_id'', lCommitID l)]) labels))))"

section \<open>files.go\<close>

definition resolveCommitZip ::
  "'w Repos \<Rightarrow> 'w Store \<Rightarrow> User option \<Rightarrow> string \<Rightarrow> string \<Rightarrow> string \<Rightarrow> 'w \<Rightarrow> http_response + bytes" where
  "resolveCommitZip R S caller owner repo commitID w =
     (case Modules_Get (Modules R) owner repo w of
        RetErr _ e \<Rightarrow>
          if e = ErrNotFound then Inl (writeErr StatusNotFound ''module not found'')
          else Inl (writeErr StatusInternalServerError ''internal error'')
      | Ret m \<Rightarrow>
          if \<not> CanReadModule (Auth R) (userID caller) m w
          then Inl (writeErr StatusNotFound ''module not found'')
          else
            (case Commits_GetByID (Commits R) (mID m) commitID w of
               RetErr _ e \<Rightarrow>
                 if e = ErrNotFound then Inl (writeErr StatusNotFound ''commit not found'')
                 else Inl (writeErr StatusInternalServerError ''internal error'')
             | Ret c \<Rightarrow>
                 (case Store_Get S (cStorageKey c) w of
                    Inl _ \<Rightarrow> Inl (writeErr StatusInternalServerError ''failed to read content'')
                  | Inr d \<Rightarrow> Inr d)))"

definition listFiles ::
  "'w Repos \<Rightarrow> 'w Store \<Rightarrow> zip_lib \<Rightarrow> User option \<Rightarrow> string \<Rightarrow> string \<Rightarrow> string \<Rightarrow> 'w \<Rightarrow> http_response" where
  "listFiles R S Z caller owner repo commitID w =
     (case resolveCommitZip R S caller owner repo commitID w of
        Inl resp \<Rightarrow> resp
      | Inr d \<Rightarrow>
          (case zip_NewReader Z d of
             Inl _ \<Rightarrow> writeErr StatusInternalServerError ''failed to read archive''
           | Inr zr \<Rightarrow>
               writeJSON StatusOK (JList
                 (map (\<lambda>f. [(''path'', zf_Name f), (''size'', decimal (unat (zf_UncompressedSize64 f)))]) zr))))"

text \<open>The loop of \<^verbatim>\<open>getFileContent\<close>: the first member of the archive with the path answers.\<close>

fun find_file :: "string \<Rightarrow> zip_file list \<Rightarrow> http_response" where
  "find_file path [] = writeErr StatusNotFound ''file not found''"
| "find_file path (f # fs) =
     (if zf_Name f = path then
        (case zf_Open f of
           Inl _ \<Rightarrow> writeErr StatusInternalServerError ''failed to read file''
         | Inr rc \<Rightarrow>
             (case read_limited (10 * 1024 * 1024) rc of
                Inl _ \<Rightarrow> writeErr StatusInternalServerError ''failed to read file''
              | Inr content \<Rightarrow>
                  writeJSON StatusOK (JObj [(''path'', zf_Name f), (''content'', StdEncoding content)])))
      else find_file path fs)"

definition getFileContent ::
  "'w Repos \<Rightarrow> 'w Store \<Rightarrow> zip_lib \<Rightarrow> User option \<Rightarrow> string \<Rightarrow> string \<Rightarrow> string \<Rightarrow> string \<Rightarrow> 'w \<Rightarrow> http_response" where
  "getFileContent R S Z caller owner repo commitID path w =
     (if path = [] then writeErr StatusBadRequest ''path query parameter required''
      else
        (case resolveCommitZip R S caller owner repo commitID w of
           Inl resp \<Rightarrow> resp
         | Inr d \<Rightarrow>
             (case zip_NewReader Z d of
                Inl _ \<Rightarrow> writeErr StatusInternalServerError ''failed to read archive''
              | Inr zr \<Rightarrow> find_file path zr)))"

end
