(* ===== verification/Label_Service.thy ===== *)
theory Label_Service
  imports Module_Service
begin

text \<open>
  \<^verbatim>\<open>internal/api/module/commit.go\<close> and \<^verbatim>\<open>label.go\<close>: reading commits and labels, and moving labels by
  hand, which takes administrative access and a commit of the same module.
\<close>

section \<open>Commits\<close>

definition commitToProto :: "Commit \<Rightarrow> string \<Rightarrow> proto_commit" where
  "commitToProto c ownerID =
     \<lparr>pc_id = cID c, pc_create_time = cCreatedAt c, pc_owner_id = ownerID, pc_module_id = cModuleID c,
      pc_created_by = cCreatedByUserID c, pc_digest = None\<rparr>"

definition getCommit :: "'w Repos \<Rightarrow> User option \<Rightarrow> 'w \<Rightarrow> resource_ref \<Rightarrow> connect_error + proto_commit" where
  "getCommit R caller w ref =
     (case resolveResourceRef R (Some ref) w of
        Inl err \<Rightarrow> Inl (ConnectError CodeNotFound err)
      | Inr (m, commit) \<Rightarrow>
          if \<not> CanReadModule (Auth R) (userID caller) m w
          then Inl (ConnectError CodeNotFound ''module not found'')
          else
            (case commit of
               None \<Rightarrow> Inl (ConnectError CodeNotFound ''no commits found'')
             | Some c \<Rightarrow> Inr (commitToProto c (resolveOwnerIDHelper R m w))))"

definition GetCommits :: "'w Repos \<Rightarrow> User option \<Rightarrow> resource_ref list \<Rightarrow> 'w \<Rightarrow> connect_error + proto_commit list" where
  "GetCommits R caller refs w = collect (getCommit R caller w) refs []"

definition ListCommits :: "'w Repos \<Rightarrow> User option \<Rightarrow> resource_ref option \<Rightarrow> 'w \<Rightarrow> connect_error + proto_commit list" where
  "ListCommits R caller ref w =
     (case resolveResourceRef R ref w of
        Inl err \<Rightarrow> Inl (ConnectError CodeNotFound err)
      | Inr (m, _) \<Rightarrow>
          if \<not> CanReadModule (Auth R) (userID caller) m w
          then Inl (ConnectError CodeNotFound ''module not found'')
          else
            (case Commits_ListByModule (Commits R) (mID m) w of
               Inl _ \<Rightarrow> Inl (ConnectError CodeInternal ''internal error'')
             | Inr dbCommits \<Rightarrow>
                 (let ownerID = resolveOwnerIDHelper R m w in
                  Inr (map (\<lambda>c. commitToProto c ownerID) dbCommits))))"

section \<open>Labels\<close>

definition labelToProto :: "Label \<Rightarrow> string \<Rightarrow> proto_label" where
  "labelToProto l ownerID =
     \<lparr>pl_id = lID l, pl_name = lName l, pl_module_id = lModuleID l, pl_owner_id = ownerID,
      pl_commit_id = lCommitID l, pl_create_time = lCreatedAt l, pl_update_time = lUpdatedAt l\<rparr>"

definition getLabel :: "'w Repos \<Rightarrow> User option \<Rightarrow> 'w \<Rightarrow> label_ref \<Rightarrow> connect_error + proto_label" where
  "getLabel R caller w ref =
     (case ref of
        LabelByName own md n \<Rightarrow>
          (case Modules_Get (Modules R) own md w of
             RetErr _ _ \<Rightarrow> Inl (ConnectError CodeNotFound ''module not found'')
           | Ret m \<Rightarrow>
               if \<not> CanReadModule (Auth R) (userID caller) m w
               then Inl (ConnectError CodeNotFound ''module not found'')
               else
                 (case Labels_Get (Labels R) (mID m) n w of
                    RetErr _ e \<Rightarrow>
                      if e = ErrNotFound then Inl (ConnectError CodeNotFound (''label not found: '' @ n))
                      else Inl (ConnectError CodeInternal ''internal error'')
                  | Ret l \<Rightarrow> Inr (labelToProto l (resolveOwnerIDHelper R m w))))
      | _ \<Rightarrow> Inl (ConnectError CodeInvalidArgument ''label ref must have name''))"

definition GetLabels :: "'w Repos \<Rightarrow> User option \<Rightarrow> label_ref list \<Rightarrow> 'w \<Rightarrow> connect_error + proto_label list" where
  "GetLabels R caller refs w = collect (getLabel R caller w) refs []"

definition ListLabels :: "'w Repos \<Rightarrow> User option \<Rightarrow> resource_ref option \<Rightarrow> 'w \<Rightarrow> connect_error + proto_label list" where
  "ListLabels R caller ref w =
     (case resolveResourceRef R ref w of
        Inl err \<Rightarrow> Inl (ConnectError CodeNotFound err)
      | Inr (m, _) \<Rightarrow>
          if \<not> CanReadModule (Auth R) (userID caller) m w
          then Inl (ConnectError CodeNotFound ''module not found'')
          else
            (case Labels_List (Labels R) (mID m) w of
               Inl _ \<Rightarrow> Inl (ConnectError CodeInternal ''internal error'')
             | Inr dbLabels \<Rightarrow>
                 (let ownerID = resolveOwnerIDHelper R m w in
                  Inr (map (\<lambda>l. labelToProto l ownerID) dbLabels))))"

record label_value =
  lv_label_ref :: "label_ref option"
  lv_commit_id :: string

definition createOrUpdateLabel ::
  "'w Repos \<Rightarrow> env \<Rightarrow> User \<Rightarrow> nat \<Rightarrow> label_value \<Rightarrow> ('w, proto_label) handler" where
  "createOrUpdateLabel R E caller i v w =
     (case lv_label_ref v of
        Some (LabelByName own md n) \<Rightarrow>
          (case Modules_Get (Modules R) own md w of
             RetErr _ _ \<Rightarrow> reject CodeNotFound ''module not found'' w
           | Ret m \<Rightarrow>
               if \<not> CanAdminModule (Auth R) (uID caller) m w
               then reject CodePermissionDenied ''no admin access'' w
               else
                 (case Commits_GetByID (Commits R) (mID m) (lv_commit_id v) w of
                    RetErr _ _ \<Rightarrow> reject CodeInvalidArgument ''commit not found in module'' w
                  | Ret _ \<Rightarrow>
                      (let now = Now E i 0;
                           l = \<lparr>lID = NewString E i 0, lModuleID = mID m, lName = n,
                                lCommitID = lv_commit_id v, lCreatedAt = now, lUpdatedAt = now\<rparr> in
                       case Labels_Upsert (Labels R) l w of
                         (Some _, w') \<Rightarrow> reject CodeInternal ''failed to upsert label'' w'
                       | (None, w') \<Rightarrow> (Inr (labelToProto l (resolveOwnerIDHelper R m w')), w'))))
      | _ \<Rightarrow> reject CodeInvalidArgument ''label ref with name required'' w)"

definition CreateOrUpdateLabels ::
  "'w Repos \<Rightarrow> env \<Rightarrow> User option \<Rightarrow> label_value list \<Rightarrow> ('w, proto_label list) handler" where
  "CreateOrUpdateLabels R E caller vs w =
     (case caller of
        None \<Rightarrow> reject CodeUnauthenticated ''not authenticated'' w
      | Some u \<Rightarrow> for_each (createOrUpdateLabel R E u) 0 vs [] w)"

end
