(* ===== verification/Fds_Service.thy ===== *)
theory Fds_Service
  imports Content_Service
begin

text \<open>
  \<^verbatim>\<open>internal/api/module/fds.go\<close>: the files of a commit compiled into descriptors. The compiler
  (\<^verbatim>\<open>github.com/bufbuild/protocompile\<close>) is a parameter: from an accessor of sources by path and a list
  of paths to an error (a timeout included) or the compiled files, already converted to descriptors.
\<close>

type_synonym 'fd compiler = "(string \<rightharpoonup> string) \<Rightarrow> string list \<Rightarrow> string + 'fd list"

definition string_of_content :: "bytes \<Rightarrow> string" where
  "string_of_content = map (\<lambda>b. char_of (unat b))"

text \<open>The loop over the unpacked files: a map of sources (a later file of the same path wins) and the
  paths that end in \<^verbatim>\<open>.proto\<close>.\<close>

definition proto_sources :: "proto_file list \<Rightarrow> string \<rightharpoonup> string" where
  "proto_sources files = foldl (\<lambda>mp f. mp(GetPath f \<mapsto> string_of_content (GetContent f))) Map.empty files"

definition proto_paths :: "proto_file list \<Rightarrow> string list" where
  "proto_paths files = map GetPath (filter (\<lambda>f. HasSuffix (GetPath f) ''.proto'') files)"

definition GetFileDescriptorSet ::
  "'w Repos \<Rightarrow> 'w Store \<Rightarrow> zip_lib \<Rightarrow> 'fd compiler \<Rightarrow> User option \<Rightarrow> resource_ref option \<Rightarrow> 'w \<Rightarrow>
     connect_error + 'fd list \<times> proto_commit" where
  "GetFileDescriptorSet R S Z compile caller ref w =
     (case resolveResourceRef R ref w of
        Inl err \<Rightarrow> Inl (ConnectError CodeNotFound err)
      | Inr (m, co) \<Rightarrow>
          if \<not> CanReadModule (Auth R) (userID caller) m w
          then Inl (ConnectError CodeNotFound ''module not found'')
          else
            (case co of
               None \<Rightarrow> Inl (ConnectError CodeNotFound ''no commits found'')
             | Some commit \<Rightarrow>
                 (case Store_Get S (cStorageKey commit) w of
                    Inl _ \<Rightarrow> Inl (ConnectError CodeInternal ''failed to retrieve content'')
                  | Inr d \<Rightarrow>
                      (case unzipFiles Z d of
                         Inl _ \<Rightarrow> Inl (ConnectError CodeInternal ''failed to read content'')
                       | Inr files \<Rightarrow>
                           (let protoFiles = proto_paths files in
                            if length protoFiles = 0
                            then Inl (ConnectError CodeNotFound ''no .proto files found'')
                            else if length protoFiles > 500
                            then Inl (ConnectError CodeInvalidArgument ''too many proto files'')
                            else
                              (case compile (proto_sources files) protoFiles of
                                 Inl _ \<Rightarrow> Inl (ConnectError CodeInternal ''proto compilation failed'')
                               | Inr fds \<Rightarrow>
                                   Inr (fds,
                                     \<lparr>pc_id = cID commit, pc_create_time = cCreatedAt commit,
                                      pc_owner_id = resolveOwnerIDHelper R m w, pc_module_id = mID m,
                                      pc_created_by = cCreatedByUserID commit, pc_digest = None\<rparr>)))))))"

end
