(* ===== verification/RateLimit.thy ===== *)
theory RateLimit
  imports Connect "HOL-Library.AList"
begin

text \<open>
  The rate limiter of \<^verbatim>\<open>internal/auth/ratelimit.go\<close>: a table from remote addresses to the number of
  requests admitted in the current interval, emptied by a ticker. The mutex makes \<^verbatim>\<open>allow\<close> and the
  ticker's reset atomic, so a run of the limiter is a sequence of the two. The table is an
  association list with distinct keys (\<open>rl_inv\<close>), so \<^verbatim>\<open>len\<close> is its length.
\<close>

record rateLimiter =
  tokens :: "(string \<times> int) list"
  max_tokens :: int

definition newRateLimiter :: "int \<Rightarrow> rateLimiter" where
  "newRateLimiter n = \<lparr>tokens = [], max_tokens = n\<rparr>"

definition token_count :: "rateLimiter \<Rightarrow> string \<Rightarrow> int" where
  "token_count rl key = (case map_of (tokens rl) key of None \<Rightarrow> 0 | Some c \<Rightarrow> c)"

definition allow :: "string \<Rightarrow> rateLimiter \<Rightarrow> bool \<times> rateLimiter" where
  "allow key rl =
     (if length (tokens rl) > 100000 then (False, rl)
      else
        (let count = token_count rl key in
         if count \<ge> max_tokens rl then (False, rl)
         else (True, rl\<lparr>tokens := AList.update key (count + 1) (tokens rl)\<rparr>)))"

text \<open>One tick of the loop in \<^verbatim>\<open>cleanup\<close>.\<close>

definition cleanup :: "rateLimiter \<Rightarrow> rateLimiter" where
  "cleanup rl = rl\<lparr>tokens := []\<rparr>"

definition RateLimitMiddleware ::
  "string \<Rightarrow> ('w \<Rightarrow> http_response \<times> 'w) \<Rightarrow> rateLimiter \<times> 'w \<Rightarrow> http_response \<times> rateLimiter \<times> 'w" where
  "RateLimitMiddleware remoteAddr next_handler s =
     (case s of (rl, w) \<Rightarrow>
        (case allow remoteAddr rl of
           (False, rl') \<Rightarrow>
             (\<lparr>status = StatusTooManyRequests,
               headers = [(''Content-Type'', ''application/json''), (''Retry-After'', ''60'')],
               payload = TextBody ''{\"error\":\"rate limit exceeded\"}''\<rparr>, rl', w)
         | (True, rl') \<Rightarrow> (case next_handler w of (r, w') \<Rightarrow> (r, rl', w'))))"

section \<open>Runs\<close>

datatype rl_event = Request string | Tick

fun rl_step :: "rl_event \<Rightarrow> rateLimiter \<Rightarrow> bool \<times> rateLimiter" where
  "rl_step (Request k) rl = allow k rl"
| "rl_step Tick rl = (False, cleanup rl)"

fun rl_run :: "rl_event list \<Rightarrow> rateLimiter \<Rightarrow> rateLimiter" where
  "rl_run [] rl = rl"
| "rl_run (e # es) rl = rl_run es (snd (rl_step e rl))"

text \<open>The requests of one address that were admitted since the last tick of a run.\<close>

fun granted :: "string \<Rightarrow> rl_event list \<Rightarrow> rateLimiter \<Rightarrow> nat \<Rightarrow> nat" where
  "granted k [] rl n = n"
| "granted k (e # es) rl n =
     granted k es (snd (rl_step e rl))
       (if e = Tick then 0 else if e = Request k \<and> fst (rl_step e rl) then Suc n else n)"

section \<open>The invariant\<close>

definition rl_inv :: "rateLimiter \<Rightarrow> bool" where
  "rl_inv rl \<longleftrightarrow>
     distinct (map fst (tokens rl)) \<and> length (tokens rl) \<le> 100001 \<and>
     (\<forall>(k, c)\<in>set (tokens rl). 1 \<le> c \<and> c \<le> max_tokens rl)"

lemma length_update:
  "length (AList.update k v xs) = length xs + (if k \<in> fst ` set xs then 0 else 1)"
  by (induction xs) auto

lemma set_update_subset: "set (AList.update k v xs) \<subseteq> insert (k, v) (set xs)"
  by (induction xs) auto

lemma token_count_update:
  "token_count (rl\<lparr>tokens := AList.update k v (tokens rl)\<rparr>) k' = (if k' = k then v else token_count rl k')"
  by (simp add: token_count_def update_conv')

lemma token_count_range: "rl_inv rl \<Longrightarrow> 0 \<le> token_count rl k \<and> (0 \<le> max_tokens rl \<longrightarrow> token_count rl k \<le> max_tokens rl)"
  by (force simp: token_count_def rl_inv_def split: option.splits dest: map_of_SomeD)

lemma allow_max [simp]: "max_tokens (snd (allow k rl)) = max_tokens rl"
  by (simp add: allow_def Let_def)

lemma cleanup_max [simp]: "max_tokens (cleanup rl) = max_tokens rl"
  by (simp add: cleanup_def)

lemma rl_step_max [simp]: "max_tokens (snd (rl_step e rl)) = max_tokens rl"
  by (cases e) simp_all

lemma allow_inv:
  assumes "rl_inv rl"
  shows "rl_inv (snd (allow k rl))"
proof (cases "fst (allow k rl)")
  case False
  then have "snd (allow k rl) = rl" by (auto simp: allow_def Let_def split: if_splits)
  with assms show ?thesis by simp
next
  case True
  then have short: "length (tokens rl) \<le> 100000" and room: "token_count rl k < max_tokens rl"
    and eq: "snd (allow k rl) = rl\<lparr>tokens := AList.update k (token_count rl k + 1) (tokens rl)\<rparr>"
    by (auto simp: allow_def Let_def split: if_splits)
  have "1 \<le> c \<and> c \<le> max_tokens rl" if "(j, c) \<in> set (AList.update k (token_count rl k + 1) (tokens rl))" for j c
    using subsetD [OF set_update_subset that] assms room token_count_range [OF assms, of k]
    by (auto simp: rl_inv_def)
  with assms short show ?thesis
    by (auto simp: eq rl_inv_def length_update distinct_update)
qed

lemma rl_step_inv: "rl_inv rl \<Longrightarrow> rl_inv (snd (rl_step e rl))"
  by (cases e) (simp_all add: allow_inv, simp add: cleanup_def rl_inv_def)

lemma rl_run_inv: "rl_inv rl \<Longrightarrow> rl_inv (rl_run es rl)"
  by (induction es arbitrary: rl) (simp_all add: rl_step_inv)

lemma newRateLimiter_inv: "rl_inv (newRateLimiter n)"
  by (simp add: newRateLimiter_def rl_inv_def)

section \<open>How much is admitted\<close>

text \<open>The count kept for an address is the number of its requests admitted since the last tick.\<close>

lemma granted_count:
  assumes "rl_inv rl" and "token_count rl k = int n"
  shows "token_count (rl_run es rl) k = int (granted k es rl n)"
  using assms
proof (induction es arbitrary: rl n)
  case (Cons e es)
  have "token_count (snd (rl_step e rl)) k =
      int (if e = Tick then 0 else if e = Request k \<and> fst (rl_step e rl) then Suc n else n)"
    using Cons.prems(2)
    by (cases e) (auto simp: allow_def Let_def token_count_update cleanup_def token_count_def [of "_\<lparr>tokens := []\<rparr>"])
  from Cons.IH [OF rl_step_inv [OF Cons.prems(1)] this] show ?case by simp
qed simp

lemma rl_run_max [simp]: "max_tokens (rl_run es rl) = max_tokens rl"
  by (induction es arbitrary: rl) simp_all

text \<open>Requests alone, from a fresh table.\<close>

lemma allow_few:
  assumes "rl_inv rl" "length (tokens rl) \<le> 100000"
  shows "fst (allow k rl) \<longleftrightarrow> token_count rl k < max_tokens rl"
  using assms by (auto simp: allow_def Let_def)

lemma keys_update: "fst ` set (AList.update k v xs) = insert k (fst ` set xs)"
  by (induction xs) auto

lemma keys_allow: "fst ` set (tokens (snd (allow k rl))) \<subseteq> insert k (fst ` set (tokens rl))"
  by (auto simp: allow_def Let_def keys_update)

lemma keys_length: "rl_inv rl \<Longrightarrow> length (tokens rl) = card (fst ` set (tokens rl))"
  by (metis rl_inv_def distinct_card length_map set_map)

lemma granted_requests:
  assumes "rl_inv rl" and "fst ` set (tokens rl) \<union> set ks \<subseteq> K" "finite K" "card K \<le> 100000"
    and "token_count rl k = int n" and "n \<le> nat (max_tokens rl)"
  shows "granted k (map Request ks) rl n = min (n + count_list ks k) (nat (max_tokens rl))"
  using assms
proof (induction ks arbitrary: rl n)
  case (Cons j ks)
  let ?rl = "snd (allow j rl)"
  let ?n = "if j = k \<and> fst (allow j rl) then Suc n else n"
  have len: "length (tokens rl) \<le> 100000"
    using keys_length [OF Cons.prems(1)] card_mono [OF Cons.prems(3), of "fst ` set (tokens rl)"]
      Cons.prems(2,4) by simp
  have go: "fst (allow k rl) \<longleftrightarrow> n < nat (max_tokens rl)"
    using allow_few [OF Cons.prems(1) len] Cons.prems(5) by (simp add: zless_nat_eq_int_zless)
  have sub: "fst ` set (tokens ?rl) \<union> set ks \<subseteq> K" using keys_allow [of j rl] Cons.prems(2) by auto
  have cnt: "token_count ?rl k = int ?n"
    using granted_count [OF Cons.prems(1,5), of "[Request j]"] by simp
  have "?n \<le> nat (max_tokens ?rl)" using Cons.prems(6) go by (cases "j = k") auto
  from Cons.IH [OF allow_inv [OF Cons.prems(1)] sub Cons.prems(3,4) cnt this]
  show ?case using go Cons.prems(6) by (cases "j = k") (auto simp: min_def)
qed simp

lemma run_requests_blocked:
  assumes "length (tokens rl) > 100000"
  shows "rl_run (map Request ks) rl = rl"
  using assms by (induction ks) (simp_all add: allow_def)

section \<open>Properties\<close>

text \<open>
  No address is served more than \<^verbatim>\<open>max\<close> times in an interval: after any sequence of requests
  and ticks, the requests of an address admitted since the last tick number at most \<^verbatim>\<open>max\<close>.
\<close>

theorem rate_limit_bound: "granted k es (newRateLimiter n) 0 \<le> nat n"
proof -
  have "token_count (rl_run es (newRateLimiter n)) k = int (granted k es (newRateLimiter n) 0)"
    by (rule granted_count [OF newRateLimiter_inv]) (simp add: newRateLimiter_def token_count_def)
  moreover have "token_count (rl_run es (newRateLimiter n)) k \<le> max n 0"
    using rl_run_inv [OF newRateLimiter_inv, of es n]
    by (force simp: token_count_def rl_inv_def newRateLimiter_def split: option.splits dest: map_of_SomeD)
  ultimately show ?thesis by simp
qed

text \<open>
  C37. The limiter refuses nothing it could admit: while at most 100000 addresses are seen in an
  interval, each is served exactly the first \<^verbatim>\<open>max\<close> of its requests, however the requests of
  different addresses interleave.
\<close>

theorem rate_limit_exact:
  assumes "card (set ks) \<le> 100000"
  shows "granted k (map Request ks) (newRateLimiter n) 0 = min (count_list ks k) (nat n)"
proof -
  have "granted k (map Request ks) (newRateLimiter n) 0 =
      min (0 + count_list ks k) (nat (max_tokens (newRateLimiter n)))"
    by (rule granted_requests [OF newRateLimiter_inv, where K = "set ks"])
       (use assms in \<open>simp_all add: newRateLimiter_def token_count_def\<close>)
  then show ?thesis by (simp add: newRateLimiter_def)
qed

theorem rate_limit_exact_witness:
  "granted ''b'' (map Request [''a'', ''b'', ''a'', ''b'', ''b'']) (newRateLimiter 2) 0 = 2 \<and>
   granted ''a'' (map Request [''a'', ''b'', ''a'', ''b'', ''b'']) (newRateLimiter 2) 0 = 2"
proof -
  have "card (set [''a'', ''b'', ''a'', ''b'', ''b'']) \<le> 100000"
    by (rule order_trans [OF card_length]) simp
  from rate_limit_exact [OF this, of "''b''" 2] rate_limit_exact [OF this, of "''a''" 2]
  show ?thesis by simp
qed

text \<open>
  C38. The table stays bounded by 100001 addresses, and once it holds that many every request of
  every address, known or new, is answered 429 without reaching the server, until the next tick
  empties the table.
\<close>

theorem rate_limit_table:
  "length (tokens (rl_run es (newRateLimiter n))) \<le> 100001 \<and>
   (length (tokens rl) > 100000 \<longrightarrow>
      status (fst (RateLimitMiddleware addr nx (rl_run (map Request ks) rl, w))) = 429 \<and>
      snd (RateLimitMiddleware addr nx (rl_run (map Request ks) rl, w)) = (rl, w)) \<and>
   (0 < max_tokens rl \<longrightarrow> fst (allow addr (cleanup rl)))"
proof (intro conjI impI)
  show "length (tokens (rl_run es (newRateLimiter n))) \<le> 100001"
    using rl_run_inv [OF newRateLimiter_inv] by (simp add: rl_inv_def)
  assume "length (tokens rl) > 100000"
  then show "status (fst (RateLimitMiddleware addr nx (rl_run (map Request ks) rl, w))) = 429"
    and "snd (RateLimitMiddleware addr nx (rl_run (map Request ks) rl, w)) = (rl, w)"
    by (simp_all add: run_requests_blocked RateLimitMiddleware_def allow_def)
next
  show "fst (allow addr (cleanup rl))" if "0 < max_tokens rl"
    using that by (simp add: allow_def cleanup_def token_count_def)
qed

theorem rate_limit_table_witness:
  "fst (allow ''10.0.0.1:4242'' (cleanup \<lparr>tokens = [(''10.0.0.1:4242'', 200)], max_tokens = 200\<rparr>)) \<and>
   status (fst (RateLimitMiddleware ''10.0.0.1:4242'' (\<lambda>w. (writeErr 404 [], w))
     (rl_run (map Request []) \<lparr>tokens = map (\<lambda>i. (replicate i CHR ''x'', 1)) [0..<100001], max_tokens = 200\<rparr>, ()))) = 429"
  using rate_limit_table [of "[]" 200 "\<lparr>tokens = [(''10.0.0.1:4242'', 200)], max_tokens = 200\<rparr>"
      "''10.0.0.1:4242''" "\<lambda>w. (writeErr 404 [], w)" "[]" "()"]
    rate_limit_table [of "[]" 200 "\<lparr>tokens = map (\<lambda>i. (replicate i CHR ''x'', 1)) [0..<100001], max_tokens = 200\<rparr>"
      "''10.0.0.1:4242''" "\<lambda>w. (writeErr 404 [], w)" "[]" "()"]
  by (simp del: upt_conv_Cons upt_rec_numeral)

end
