(* ===== verification/Server.thy ===== *)
theory Server
  imports Rest_Service Label_Service Fds_Service RateLimit
begin

text \<open>
  The server: configuration, start-up and the handler that \<^verbatim>\<open>cmd/bsr/main.go\<close> puts together, with
  rate limiting outside, authentication inside it, and the REST routes and Connect procedures behind.
\<close>

section \<open>config.go\<close>

record Config =
  Port :: string
  DBDriver :: string
  MongoURI :: string
  PostgresDSN :: string
  StoragePath :: string
  AdminUser :: string
  AdminPass :: string
  OpenReg :: bool
  TLSCert :: string
  TLSKey :: string
  SQLitePath :: string
  StorageDriver :: string
  S3Endpoint :: string
  S3Region :: string
  S3Bucket :: string
  S3Prefix :: string
  S3AccessKey :: string
  S3SecretKey :: string

text \<open>\<^verbatim>\<open>os.Getenv\<close> is the argument: it answers the empty string for an unset variable.\<close>

definition envOr :: "(string \<Rightarrow> string) \<Rightarrow> string \<Rightarrow> string \<Rightarrow> string" where
  "envOr Getenv key fallback = (let v = Getenv key in if v \<noteq> [] then v else fallback)"

definition Load :: "(string \<Rightarrow> string) \<Rightarrow> Config" where
  "Load Getenv =
     \<lparr>Port = envOr Getenv ''BSR_PORT'' ''8080'',
      DBDriver = envOr Getenv ''DB_DRIVER'' ''sqlite'',
      MongoURI = envOr Getenv ''MONGO_URI'' ''mongodb://localhost:27017/bsr'',
      PostgresDSN = Getenv ''POSTGRES_DSN'',
      StoragePath = envOr Getenv ''STORAGE_PATH'' ''./data/modules'',
      AdminUser = Getenv ''ADMIN_USERNAME'',
      AdminPass = Getenv ''ADMIN_PASSWORD'',
      OpenReg = (Getenv ''OPEN_REGISTRATION'' = ''true''),
      TLSCert = Getenv ''TLS_CERT'',
      TLSKey = Getenv ''TLS_KEY'',
      SQLitePath = envOr Getenv ''SQLITE_PATH'' ''./data/bsr.db'',
      StorageDriver = envOr Getenv ''STORAGE_DRIVER'' ''local'',
      S3Endpoint = Getenv ''S3_ENDPOINT'',
      S3Region = envOr Getenv ''S3_REGION'' ''us-east-1'',
      S3Bucket = envOr Getenv ''S3_BUCKET'' ''openbsr'',
      S3Prefix = Getenv ''S3_PREFIX'',
      S3AccessKey = Getenv ''S3_ACCESS_KEY'',
      S3SecretKey = Getenv ''S3_SECRET_KEY''\<rparr>"

section \<open>Opening the database\<close>

text \<open>
  gorm with its drivers: opening a dialector, migrating the tables, and reaching the connection pool;
  each may fail with a message, as may closing the pool. The handle \<^verbatim>\<open>GormDB\<close> gives out is the one \<^verbatim>\<open>Connect\<close> opened.
\<close>

datatype dialector = PostgresOpen string | SqliteOpen string

record 'db gorm_sys =
  gorm_Open :: "dialector \<Rightarrow> string + 'db"
  AutoMigrate :: "'db \<Rightarrow> string option"
  gorm_DB :: "'db \<Rightarrow> string option"
  pool_Close :: "'db \<Rightarrow> string option"

definition sql_Connect :: "'db gorm_sys \<Rightarrow> string \<Rightarrow> string \<Rightarrow> string + 'db" where
  "sql_Connect Y driver dsn =
     (case (if driver = ''postgres'' then Inr (PostgresOpen dsn)
            else if driver = ''sqlite'' then Inr (SqliteOpen (dsn @ ''?_foreign_keys=on''))
            else Inl (''unsupported sql driver: '' @ driver)) of
        Inl err \<Rightarrow> Inl err
      | Inr dia \<Rightarrow>
          (case gorm_Open Y dia of
             Inl err \<Rightarrow> Inl err
           | Inr db \<Rightarrow>
               (case AutoMigrate Y db of
                  Some err \<Rightarrow> Inl err
                | None \<Rightarrow> (case gorm_DB Y db of Some err \<Rightarrow> Inl err | None \<Rightarrow> Inr db))))"

definition sql_Close :: "'db gorm_sys \<Rightarrow> 'db \<Rightarrow> string option" where
  "sql_Close Y db = pool_Close Y db"

text \<open>The MongoDB driver: a client for a URI, which is pinged once.\<close>

record 'client mongo_sys =
  mongo_Client :: "string \<Rightarrow> string + 'client"
  Ping :: "'client \<Rightarrow> string option"
  Disconnect :: "'client \<Rightarrow> string option"

definition mongo_Connect :: "'client mongo_sys \<Rightarrow> string \<Rightarrow> string + 'client" where
  "mongo_Connect Y uri =
     (case mongo_Client Y uri of
        Inl err \<Rightarrow> Inl err
      | Inr conn \<Rightarrow> (case Ping Y conn of Some err \<Rightarrow> Inl err | None \<Rightarrow> Inr conn))"

definition mongo_Close :: "'client mongo_sys \<Rightarrow> 'client \<Rightarrow> string option" where
  "mongo_Close Y conn = Disconnect Y conn"

section \<open>Start-up\<close>

text \<open>
  What \<^verbatim>\<open>main\<close> calls outside: the database drivers, the constructors of the stores, Casbin's enforcer, and
  \<^verbatim>\<open>os.MkdirAll\<close>, whose error it ignores.
\<close>

record ('w, 'db, 'client) platform =
  mongo_driver :: "'client mongo_sys"
  mongo_Repos_of :: "'client \<Rightarrow> 'w Repos"
  sql_sys :: "'db gorm_sys"
  sql_Repos :: "'db \<Rightarrow> 'w Repos"
  local_Store :: "string \<Rightarrow> 'w Store"
  s3_Store :: "string \<Rightarrow> string \<Rightarrow> string \<Rightarrow> string \<Rightarrow> string \<Rightarrow> string \<Rightarrow> string + 'w Store"
  db_Store :: "'db \<Rightarrow> string + 'w Store"
  NewEnforcer :: "string + enforcer"
  MkdirAll :: "string \<Rightarrow> 'w \<Rightarrow> 'w"

text \<open>The left side is the message \<^verbatim>\<open>main\<close> logs before it exits with status 1.\<close>

definition open_database ::
  "('w, 'db, 'client) platform \<Rightarrow> Config \<Rightarrow> 'w \<Rightarrow> (string + 'w Repos \<times> 'db option) \<times> 'w" where
  "open_database P cfg w =
     (if DBDriver cfg = ''mongo'' then
        (case mongo_Connect (mongo_driver P) (MongoURI cfg) of
           Inl _ \<Rightarrow> (Inl ''failed to connect to mongodb'', w)
         | Inr conn \<Rightarrow> (Inr (mongo_Repos_of P conn, None), w))
      else if DBDriver cfg = ''sqlite'' then
        (let w1 = MkdirAll P ''./data'' w in
         case sql_Connect (sql_sys P) ''sqlite'' (SQLitePath cfg) of
           Inl _ \<Rightarrow> (Inl ''failed to open sqlite'', w1)
         | Inr db \<Rightarrow> (Inr (sql_Repos P db, Some db), w1))
      else if DBDriver cfg = ''postgres'' then
        (case sql_Connect (sql_sys P) ''postgres'' (PostgresDSN cfg) of
           Inl _ \<Rightarrow> (Inl ''failed to connect to postgres'', w)
         | Inr db \<Rightarrow> (Inr (sql_Repos P db, Some db), w))
      else (Inl ''unsupported DB_DRIVER'', w))"

definition open_storage ::
  "('w, 'db, 'client) platform \<Rightarrow> Config \<Rightarrow> 'db option \<Rightarrow> 'w \<Rightarrow> (string + 'w Store) \<times> 'w" where
  "open_storage P cfg sqlDB w =
     (if StorageDriver cfg = ''local'' \<or> StorageDriver cfg = [] then
        (Inr (local_Store P (StoragePath cfg)), MkdirAll P (StoragePath cfg) w)
      else if StorageDriver cfg = ''s3'' then
        (case s3_Store P (S3Endpoint cfg) (S3Region cfg) (S3Bucket cfg) (S3Prefix cfg) (S3AccessKey cfg) (S3SecretKey cfg) of
           Inl _ \<Rightarrow> (Inl ''failed to create S3 store'', w)
         | Inr s \<Rightarrow> (Inr s, w))
      else if StorageDriver cfg = ''db'' then
        (case sqlDB of
           None \<Rightarrow> (Inl ''STORAGE_DRIVER=db requires DB_DRIVER=sqlite or postgres'', w)
         | Some db \<Rightarrow>
             (case db_Store P db of
                Inl _ \<Rightarrow> (Inl ''failed to create DB store'', w)
              | Inr s \<Rightarrow> (Inr s, w)))
      else (Inl ''unsupported STORAGE_DRIVER'', w))"

definition ensureAdmin :: "'w Repos \<Rightarrow> bcrypt \<Rightarrow> nat \<Rightarrow> gotime \<Rightarrow> string \<Rightarrow> string \<Rightarrow> 'w \<Rightarrow> 'w" where
  "ensureAdmin R B salt now username password w =
     (case Users_GetByUsername (Users R) username w of
        Ret _ \<Rightarrow> w
      | RetErr _ _ \<Rightarrow>
          (case HashPassword B salt password of
             Inl _ \<Rightarrow> w
           | Inr hash \<Rightarrow>
               (let u = \<lparr>uID = ''admin-'' @ username, uUsername = username, uPasswordHash = hash,
                         uCreatedAt = now\<rparr> in
                snd (Users_Create (Users R) u w))))"

definition main_setup ::
  "('w, 'db, 'client) platform \<Rightarrow> bcrypt \<Rightarrow> nat \<Rightarrow> gotime \<Rightarrow> Config \<Rightarrow> 'w \<Rightarrow> (string + 'w Repos \<times> 'w Store) \<times> 'w" where
  "main_setup P B salt now cfg w =
     (case open_database P cfg w of
        (Inl msg, w1) \<Rightarrow> (Inl msg, w1)
      | (Inr (repos, sqlDB), w1) \<Rightarrow>
          (case open_storage P cfg sqlDB w1 of
             (Inl msg, w2) \<Rightarrow> (Inl msg, w2)
           | (Inr store, w2) \<Rightarrow>
               (case NewEnforcer P of
                  Inl _ \<Rightarrow> (Inl ''failed to create authorizer'', w2)
                | Inr enf \<Rightarrow>
                    (let repos' = repos\<lparr>Auth := authz_New enf (Users repos) (Orgs repos)\<rparr> in
                     (Inr (repos', store),
                      if AdminUser cfg \<noteq> [] \<and> AdminPass cfg \<noteq> []
                      then ensureAdmin repos' B salt now (AdminUser cfg) (AdminPass cfg) w2 else w2)))))"

section \<open>Routing\<close>

text \<open>
  The patterns the REST handlers register with \<^verbatim>\<open>http.ServeMux\<close>: a method and segments, each a literal or a
  named wildcard, which matches one non-empty segment. A \<^verbatim>\<open>GET\<close> pattern also serves \<^verbatim>\<open>HEAD\<close>.
\<close>

datatype segment = Lit string | Wild string

datatype endpoint =
    EpRegister | EpLogin | EpMe | EpListTokens | EpCreateToken | EpRevokeToken
  | EpGetOrg | EpCreateOrg | EpAddMember | EpRemoveMember
  | EpGetUser
  | EpGetModule | EpListModules | EpCreateModule
  | EpListCommits | EpGetCommit | EpListLabels
  | EpListFiles | EpGetFileContent
  | EpHealthz

fun match_segments :: "segment list \<Rightarrow> string list \<Rightarrow> (string \<times> string) list option" where
  "match_segments [] [] = Some []"
| "match_segments (Lit s # ps) (x # xs) = (if x = s then match_segments ps xs else None)"
| "match_segments (Wild n # ps) (x # xs) =
     (if x = [] then None else map_option ((#) (n, x)) (match_segments ps xs))"
| "match_segments _ _ = None"

definition match_method :: "string \<Rightarrow> string \<Rightarrow> bool" where
  "match_method pat meth \<longleftrightarrow> meth = pat \<or> pat = ''GET'' \<and> meth = ''HEAD''"

abbreviation api :: "segment list" where "api \<equiv> [Lit ''api'', Lit ''v1'']"
abbreviation repo_path :: "segment list" where
  "repo_path \<equiv> api @ [Lit ''modules'', Wild ''owner'', Wild ''repo'']"

definition AuthHandler_Register :: "(string \<times> segment list \<times> endpoint) list" where
  "AuthHandler_Register =
     [(''POST'', api @ [Lit ''auth'', Lit ''register''], EpRegister),
      (''POST'', api @ [Lit ''auth'', Lit ''login''], EpLogin),
      (''GET'', api @ [Lit ''auth'', Lit ''me''], EpMe),
      (''GET'', api @ [Lit ''auth'', Lit ''tokens''], EpListTokens),
      (''POST'', api @ [Lit ''auth'', Lit ''tokens''], EpCreateToken),
      (''DELETE'', api @ [Lit ''auth'', Lit ''tokens'', Wild ''id''], EpRevokeToken)]"

definition OrgHandler_Register :: "(string \<times> segment list \<times> endpoint) list" where
  "OrgHandler_Register =
     [(''GET'', api @ [Lit ''orgs'', Wild ''name''], EpGetOrg),
      (''POST'', api @ [Lit ''orgs''], EpCreateOrg),
      (''POST'', api @ [Lit ''orgs'', Wild ''name'', Lit ''members''], EpAddMember),
      (''DELETE'', api @ [Lit ''orgs'', Wild ''name'', Lit ''members'', Wild ''username''], EpRemoveMember)]"

definition UserHandler_Register :: "(string \<times> segment list \<times> endpoint) list" where
  "UserHandler_Register = [(''GET'', api @ [Lit ''users'', Wild ''username''], EpGetUser)]"

definition ModuleHandler_Register :: "(string \<times> segment list \<times> endpoint) list" where
  "ModuleHandler_Register =
     [(''GET'', repo_path, EpGetModule),
      (''GET'', api @ [Lit ''modules''], EpListModules),
      (''POST'', api @ [Lit ''modules''], EpCreateModule)]"

definition CommitHandler_Register :: "(string \<times> segment list \<times> endpoint) list" where
  "CommitHandler_Register =
     [(''GET'', repo_path @ [Lit ''commits''], EpListCommits),
      (''GET'', repo_path @ [Lit ''commits'', Wild ''id''], EpGetCommit),
      (''GET'', repo_path @ [Lit ''labels''], EpListLabels)]"

definition FileHandler_Register :: "(string \<times> segment list \<times> endpoint) list" where
  "FileHandler_Register =
     [(''GET'', repo_path @ [Lit ''commits'', Wild ''id'', Lit ''files''], EpListFiles),
      (''GET'', repo_path @ [Lit ''commits'', Wild ''id'', Lit ''file''], EpGetFileContent)]"

definition routes :: "(string \<times> segment list \<times> endpoint) list" where
  "routes = AuthHandler_Register @ OrgHandler_Register @ UserHandler_Register @ ModuleHandler_Register @
     CommitHandler_Register @ FileHandler_Register @ [(''GET'', [Lit ''healthz''], EpHealthz)]"

fun find_route ::
  "(string \<times> segment list \<times> endpoint) list \<Rightarrow> string \<Rightarrow> string list \<Rightarrow> (endpoint \<times> (string \<times> string) list) option" where
  "find_route [] meth path = None"
| "find_route ((pm, ps, ep) # rs) meth path =
     (case (if match_method pm meth then match_segments ps path else None) of
        Some vals \<Rightarrow> Some (ep, vals)
      | None \<Rightarrow> find_route rs meth path)"

section \<open>Requests\<close>

text \<open>
  A request as the server sees it: address, \<^verbatim>\<open>Authorization\<close> header, what it asks for, and the readings of
  the clock and of the generators while it is served. A Connect request arrives decoded (the
  framework's work), a REST one as method, path segments, query parameters (empty when absent) and a
  body to be decoded: \<open>decode fs\<close> is what \<^verbatim>\<open>json.Decode\<close> finds for a structure with string fields \<open>fs\<close>,
  or \<open>None\<close> when it fails.
\<close>

datatype rpc =
    RpcAuthnGetCurrentUser
  | RpcGetOwners "name_ref list"
  | RpcGetOrganizations "name_ref list"
  | RpcCreateOrganizations "string list"
  | RpcGetUsers "name_ref list"
  | RpcGetCurrentUser
  | RpcCreateUsers "string list"
  | RpcGetModules "module_ref list"
  | RpcListModules "name_ref list"
  | RpcCreateModules "create_module_value list"
  | RpcUpload "upload_content list"
  | RpcDownload "resource_ref option list"
  | RpcGetCommits "resource_ref list"
  | RpcListCommits "resource_ref option"
  | RpcGetLabels "label_ref list"
  | RpcListLabels "resource_ref option"
  | RpcCreateOrUpdateLabels "label_value list"
  | RpcGetFileDescriptorSet "resource_ref option"

datatype 'fd rpc_answer =
    AnsAuthnUser authn_user
  | AnsOwners "proto_owner list"
  | AnsOrganizations "proto_org list"
  | AnsUsers "proto_user list"
  | AnsCurrentUser proto_user
  | AnsModules "proto_module list"
  | AnsCommits "proto_commit list"
  | AnsContents "(proto_commit \<times> proto_file list) list"
  | AnsLabels "proto_label list"
  | AnsFileDescriptorSet "'fd list \<times> proto_commit"

record rest_call =
  Method :: string
  Path :: "string list"
  Query :: "string \<Rightarrow> string"
  decode :: "string list \<Rightarrow> (string \<Rightarrow> string) option"

datatype call = Rpc rpc | Rest rest_call

record request =
  RemoteAddr :: string
  Authorization :: string
  target :: call
  clock :: "nat \<Rightarrow> gotime"
  handler_env :: env
  salt_of :: nat

text \<open>What the handlers are built from.\<close>

record ('w, 'fd) server =
  sv_repos :: "'w Repos"
  sv_casbin :: enforcer
  sv_store :: "'w Store"
  sv_zip :: zip_lib
  sv_compile :: "'fd compiler"
  sv_bcrypt :: bcrypt
  sv_openReg :: bool
  sv_encode :: "connect_error + 'fd rpc_answer \<Rightarrow> http_response"
  sv_web :: "rest_call \<Rightarrow> http_response"

definition answer :: "('a \<Rightarrow> 'b) \<Rightarrow> (connect_error + 'a) \<times> 'w \<Rightarrow> (connect_error + 'b) \<times> 'w" where
  "answer f r = (map_sum id f (fst r), snd r)"

text \<open>Reading procedures leave the world alone.\<close>

abbreviation reading :: "('a \<Rightarrow> 'b) \<Rightarrow> connect_error + 'a \<Rightarrow> 'w \<Rightarrow> (connect_error + 'b) \<times> 'w" where
  "reading f r w \<equiv> (map_sum id f r, w)"

fun serve_rpc :: "('w, 'fd) server \<Rightarrow> env \<Rightarrow> rpc \<Rightarrow> User option \<Rightarrow> ('w, 'fd rpc_answer) handler" where
  "serve_rpc V E RpcAuthnGetCurrentUser c w = reading AnsAuthnUser (Authn_GetCurrentUser c) w"
| "serve_rpc V E (RpcGetOwners refs) c w = reading AnsOwners (GetOwners (sv_repos V) refs w) w"
| "serve_rpc V E (RpcGetOrganizations refs) c w = reading AnsOrganizations (GetOrganizations (sv_repos V) refs w) w"
| "serve_rpc V E (RpcCreateOrganizations ns) c w = answer AnsOrganizations (CreateOrganizations (sv_repos V) E c ns w)"
| "serve_rpc V E (RpcGetUsers refs) c w = reading AnsUsers (GetUsers (sv_repos V) refs w) w"
| "serve_rpc V E RpcGetCurrentUser c w = reading AnsCurrentUser (GetCurrentUser c) w"
| "serve_rpc V E (RpcCreateUsers ns) c w = answer AnsUsers (CreateUsers (sv_repos V) (sv_openReg V) E ns w)"
| "serve_rpc V E (RpcGetModules refs) c w = reading AnsModules (GetModules (sv_repos V) c refs w) w"
| "serve_rpc V E (RpcListModules refs) c w = reading AnsModules (ListModules (sv_repos V) c refs w) w"
| "serve_rpc V E (RpcCreateModules vs) c w = answer AnsModules (CreateModules (sv_repos V) E c vs w)"
| "serve_rpc V E (RpcUpload cs) c w = answer AnsCommits (Upload (sv_repos V) (sv_store V) (sv_zip V) E c cs w)"
| "serve_rpc V E (RpcDownload refs) c w = reading AnsContents (Download (sv_repos V) (sv_store V) (sv_zip V) c refs w) w"
| "serve_rpc V E (RpcGetCommits refs) c w = reading AnsCommits (GetCommits (sv_repos V) c refs w) w"
| "serve_rpc V E (RpcListCommits ref) c w = reading AnsCommits (ListCommits (sv_repos V) c ref w) w"
| "serve_rpc V E (RpcGetLabels refs) c w = reading AnsLabels (GetLabels (sv_repos V) c refs w) w"
| "serve_rpc V E (RpcListLabels ref) c w = reading AnsLabels (ListLabels (sv_repos V) c ref w) w"
| "serve_rpc V E (RpcCreateOrUpdateLabels vs) c w = answer AnsLabels (CreateOrUpdateLabels (sv_repos V) E c vs w)"
| "serve_rpc V E (RpcGetFileDescriptorSet ref) c w =
     reading AnsFileDescriptorSet
       (GetFileDescriptorSet (sv_repos V) (sv_store V) (sv_zip V) (sv_compile V) c ref w) w"

definition field1 :: "rest_call \<Rightarrow> string \<Rightarrow> string option" where
  "field1 q a = map_option (\<lambda>g. g a) (decode q [a])"

definition field2 :: "rest_call \<Rightarrow> string \<Rightarrow> string \<Rightarrow> (string \<times> string) option" where
  "field2 q a b = map_option (\<lambda>g. (g a, g b)) (decode q [a, b])"

definition module_fields :: "rest_call \<Rightarrow> create_module_body option" where
  "module_fields q =
     map_option (\<lambda>g. \<lparr>cb_owner = g ''owner'', cb_name = g ''name'', cb_visibility = g ''visibility''\<rparr>)
       (decode q [''owner'', ''name'', ''visibility''])"

definition PathValue :: "(string \<times> string) list \<Rightarrow> string \<Rightarrow> string" where
  "PathValue vals n = (case map_of vals n of None \<Rightarrow> [] | Some v \<Rightarrow> v)"

fun serve_endpoint ::
  "('w, 'fd) server \<Rightarrow> nat \<Rightarrow> env \<Rightarrow> rest_call \<Rightarrow> endpoint \<Rightarrow> (string \<Rightarrow> string) \<Rightarrow> User option \<Rightarrow> 'w \<Rightarrow> http_response \<times> 'w" where
  "serve_endpoint V salt E q EpRegister pv c w =
     register (sv_repos V) (sv_openReg V) (sv_bcrypt V) salt E (field2 q ''username'' ''password'') w"
| "serve_endpoint V salt E q EpLogin pv c w =
     login (sv_repos V) (sv_bcrypt V) E (field2 q ''username'' ''password'') w"
| "serve_endpoint V salt E q EpMe pv c w = (me c, w)"
| "serve_endpoint V salt E q EpListTokens pv c w = (listTokens (sv_repos V) (Now E 0 0) c w, w)"
| "serve_endpoint V salt E q EpCreateToken pv c w = createToken (sv_repos V) E c (field1 q ''note'') w"
| "serve_endpoint V salt E q EpRevokeToken pv c w = revokeToken (sv_repos V) c (pv ''id'') w"
| "serve_endpoint V salt E q EpGetOrg pv c w = (getOrg (sv_repos V) (pv ''name'') w, w)"
| "serve_endpoint V salt E q EpCreateOrg pv c w = createOrg (sv_repos V) E c (field1 q ''name'') w"
| "serve_endpoint V salt E q EpAddMember pv c w =
     addMember (sv_repos V) c (pv ''name'') (field2 q ''username'' ''role'') w"
| "serve_endpoint V salt E q EpRemoveMember pv c w = removeMember (sv_repos V) c (pv ''name'') (pv ''username'') w"
| "serve_endpoint V salt E q EpGetUser pv c w = (getUser (sv_repos V) (pv ''username'') w, w)"
| "serve_endpoint V salt E q EpGetModule pv c w = (getModule (sv_repos V) c (pv ''owner'') (pv ''repo'') w, w)"
| "serve_endpoint V salt E q EpListModules pv c w =
     (listModules (sv_repos V) c (Query q ''owner'') (Query q ''q'') w, w)"
| "serve_endpoint V salt E q EpCreateModule pv c w = rest_createModule (sv_repos V) E c (module_fields q) w"
| "serve_endpoint V salt E q EpListCommits pv c w = (listCommits (sv_repos V) c (pv ''owner'') (pv ''repo'') w, w)"
| "serve_endpoint V salt E q EpGetCommit pv c w =
     (rest_getCommit (sv_repos V) c (pv ''owner'') (pv ''repo'') (pv ''id'') w, w)"
| "serve_endpoint V salt E q EpListLabels pv c w = (listLabels (sv_repos V) c (pv ''owner'') (pv ''repo'') w, w)"
| "serve_endpoint V salt E q EpListFiles pv c w =
     (listFiles (sv_repos V) (sv_store V) (sv_zip V) c (pv ''owner'') (pv ''repo'') (pv ''id'') w, w)"
| "serve_endpoint V salt E q EpGetFileContent pv c w =
     (getFileContent (sv_repos V) (sv_store V) (sv_zip V) c (pv ''owner'') (pv ''repo'') (pv ''id'') (Query q ''path'') w, w)"
| "serve_endpoint V salt E q EpHealthz pv c w = (\<lparr>status = StatusOK, headers = [], payload = TextBody ''ok''\<rparr>, w)"

text \<open>Everything the patterns do not match goes to the file server of the embedded web interface.\<close>

definition serve_rest ::
  "('w, 'fd) server \<Rightarrow> nat \<Rightarrow> env \<Rightarrow> rest_call \<Rightarrow> User option \<Rightarrow> 'w \<Rightarrow> http_response \<times> 'w" where
  "serve_rest V salt E q c w =
     (case find_route routes (Method q) (Path q) of
        None \<Rightarrow> (sv_web V q, w)
      | Some (ep, vals) \<Rightarrow> serve_endpoint V salt E q ep (PathValue vals) c w)"

definition serve_mux :: "('w, 'fd) server \<Rightarrow> request \<Rightarrow> User option \<Rightarrow> 'w \<Rightarrow> http_response \<times> 'w" where
  "serve_mux V rq c w =
     (case target rq of
        Rpc p \<Rightarrow>
          (case NewConnectInterceptor (sv_repos V) (clock rq 1) (Authorization rq)
                  (serve_rpc V (handler_env rq) p) c w of
             (r, w') \<Rightarrow> (sv_encode V r, w'))
      | Rest q \<Rightarrow> serve_rest V (salt_of rq) (handler_env rq) q c w)"

definition httpHandler :: "('w, 'fd) server \<Rightarrow> request \<Rightarrow> rateLimiter \<times> 'w \<Rightarrow> http_response \<times> rateLimiter \<times> 'w" where
  "httpHandler V rq =
     RateLimitMiddleware (RemoteAddr rq)
       (Middleware (sv_repos V) (clock rq 0) (Authorization rq) (serve_mux V rq) None)"

definition main_limiter :: rateLimiter where
  "main_limiter = newRateLimiter 200"

section \<open>Runs of the server\<close>

text \<open>
  Requests one after the other, and the ticks of the limiter's clock between them. Requests that are in flight
  at the same time, their calls interleaved, are the subject of the theory Concurrent, of which these sequences
  are a special case.
\<close>

datatype event = Arrive request | MinuteTick

fun server_step :: "('w, 'fd) server \<Rightarrow> event \<Rightarrow> rateLimiter \<times> 'w \<Rightarrow> rateLimiter \<times> 'w" where
  "server_step V (Arrive rq) s = snd (httpHandler V rq s)"
| "server_step V MinuteTick (rl, w) = (cleanup rl, w)"

fun server_run :: "('w, 'fd) server \<Rightarrow> event list \<Rightarrow> rateLimiter \<times> 'w \<Rightarrow> rateLimiter \<times> 'w" where
  "server_run V [] s = s"
| "server_run V (e # es) s = server_run V es (server_step V e s)"

end
