(* ===== verification/Content_Correct.thy ===== *)
theory Content_Correct
  imports Content_Service
begin

text \<open>
  Uploading and downloading are correct: what an upload does to the registry and to the store, the
  invariant that ties commits to blobs and labels to commits, and that a download after an upload
  returns the uploaded files.
\<close>

section \<open>Invariants\<close>

text \<open>A label points at a commit of its module.\<close>

definition labels_ok :: "Registry \<Rightarrow> bool" where
  "labels_ok r \<longleftrightarrow>
     (\<forall>l\<in>rLabels r. \<exists>c\<in>rCommits r. cModuleID c = lModuleID l \<and> cID c = lCommitID l)"

definition points :: "Registry \<Rightarrow> string \<Rightarrow> string \<Rightarrow> string \<Rightarrow> bool" where
  "points r mid n cid \<longleftrightarrow> (\<exists>l\<in>rLabels r. lModuleID l = mid \<and> lName l = n \<and> lCommitID l = cid)"

definition has_commit :: "Registry \<Rightarrow> string \<Rightarrow> string \<Rightarrow> bool" where
  "has_commit r mid cid \<longleftrightarrow> (\<exists>c\<in>rCommits r. cModuleID c = mid \<and> cID c = cid)"

text \<open>
  A commit's storage key is its module and identifier, and the store holds under it a content that hashes to the
  identifier (or a beginning of one, when \<open>bl\<close> is \<open>partial\<close>).
\<close>

definition storage_key :: "string \<Rightarrow> string \<Rightarrow> string" where
  "storage_key mid cid = mid @ ''/'' @ cid"

definition stored :: "(string \<Rightarrow> bytes \<Rightarrow> bool) \<Rightarrow> Registry \<Rightarrow> bool" where
  "stored bl r \<longleftrightarrow>
     (\<forall>c\<in>rCommits r. cStorageKey c = storage_key (cModuleID c) (cID c) \<and>
        (\<exists>d. bl (cStorageKey c) d \<and> commit_id d = cID c))"

definition keys_valid :: "(string \<Rightarrow> bool) \<Rightarrow> Registry \<Rightarrow> bool" where
  "keys_valid valid r \<longleftrightarrow>
     (\<forall>m\<in>rModules r. \<forall>d. valid (storage_key (mID m) (commit_id d))) \<and>
     (\<forall>c\<in>rCommits r. valid (cStorageKey c))"

text \<open>The invariant of the registry and the store together.\<close>

definition content_inv ::
  "('w \<Rightarrow> Registry) \<Rightarrow> ('w \<Rightarrow> string \<Rightarrow> bytes \<Rightarrow> bool) \<Rightarrow> (string \<Rightarrow> bool) \<Rightarrow> ('w \<Rightarrow> bool) \<Rightarrow> 'w \<Rightarrow> bool" where
  "content_inv reg blobs valid ok w \<longleftrightarrow>
     registry_keys (reg w) \<and> ok w \<and> labels_ok (reg w) \<and> stored (blobs w) (reg w) \<and> keys_valid valid (reg w)"

lemma commit_id_length [simp]: "length (commit_id d) = 64"
  by (simp add: commit_id_def)

lemma storage_key_inj:
  assumes "storage_key a (commit_id d) = storage_key b (commit_id d')"
  shows "a = b \<and> commit_id d = commit_id d'"
proof -
  have "length (commit_id d) = length (commit_id d')" by simp
  then show ?thesis using assms unfolding storage_key_def by (simp add: append_eq_append_conv)
qed

section \<open>Moving labels\<close>

definition only_labels :: "Registry \<Rightarrow> Registry \<Rightarrow> bool" where
  "only_labels r r' \<longleftrightarrow> r' = r\<lparr>rLabels := rLabels r'\<rparr>"

lemma only_labels_refl [simp]: "only_labels r r"
  by (simp add: only_labels_def)

lemma only_labels_simps:
  assumes "only_labels r r'"
  shows "rUsers r' = rUsers r" "rOrgs r' = rOrgs r" "rMembers r' = rMembers r" "rModules r' = rModules r"
    "rCommits r' = rCommits r" "rTokens r' = rTokens r"
  using arg_cong [OF assms [unfolded only_labels_def], of rUsers] arg_cong [OF assms [unfolded only_labels_def], of rOrgs]
    arg_cong [OF assms [unfolded only_labels_def], of rMembers] arg_cong [OF assms [unfolded only_labels_def], of rModules]
    arg_cong [OF assms [unfolded only_labels_def], of rCommits] arg_cong [OF assms [unfolded only_labels_def], of rTokens]
  by simp_all

lemma only_labels_trans: "only_labels r r' \<Longrightarrow> only_labels r' r'' \<Longrightarrow> only_labels r r''"
  unfolding only_labels_def by (metis Registry.update_convs(6) Registry.surjective)

lemma upsert_points:
  assumes "upsert_label l L L'"
  shows "\<exists>x\<in>L'. lModuleID x = lModuleID l \<and> lName x = lName l \<and> lCommitID x = lCommitID l"
    and "label_key x \<noteq> label_key l \<Longrightarrow> x \<in> L' \<longleftrightarrow> x \<in> L"
    and "x \<in> L' \<Longrightarrow> x \<in> L \<or> (lModuleID x = lModuleID l \<and> lName x = lName l \<and> lCommitID x = lCommitID l)"
  using assms unfolding upsert_label_def by auto

lemma upsert_labels_ok:
  assumes "labels_ok r" "upsert_label l (rLabels r) (rLabels r')" "only_labels r r'"
    and "has_commit r (lModuleID l) (lCommitID l)"
  shows "labels_ok r'"
  unfolding labels_ok_def
proof
  fix x
  assume "x \<in> rLabels r'"
  from upsert_points(3) [OF assms(2) this] assms(1,4) only_labels_simps(5) [OF assms(3)]
  show "\<exists>c\<in>rCommits r'. cModuleID c = lModuleID x \<and> cID c = lCommitID x"
    unfolding labels_ok_def has_commit_def by auto
qed

context repos_sound
begin

lemma upsertLabel_step:
  assumes "registry_keys (abs w)" "upsertLabel R E i mid cid now j n w = (r, w')"
  shows "only_labels (abs w) (abs w')" and "registry_keys (abs w')"
    and "has_commit (abs w) mid cid \<Longrightarrow> labels_ok (abs w) \<Longrightarrow> labels_ok (abs w')"
    and "points (abs w) mid n' cid \<Longrightarrow> points (abs w') mid n' cid"
    and "r = Inr () \<Longrightarrow> points (abs w') mid n cid"
    and "lModuleID x \<noteq> mid \<or> lName x \<noteq> n \<Longrightarrow> x \<in> rLabels (abs w') \<longleftrightarrow> x \<in> rLabels (abs w)"
    and "steps_from w w'"
proof -
  let ?l = "\<lparr>lID = NewString E i j, lModuleID = mid, lName = n, lCommitID = cid, lCreatedAt = now, lUpdatedAt = now\<rparr>"
  obtain e where e: "Labels_Upsert (Labels R) ?l w = (e, w')" "r = Inr () \<longleftrightarrow> e = None"
    using assms(2) by (auto simp: upsertLabel_def Let_def split: prod.splits option.splits)
  have st: "steps_from w w'"
    using steps_from_write [of w w "LabelUpsert ?l" e w'] assms(1) e(1) by simp
  show "steps_from w w'" "registry_keys (abs w')" using st by blast+
  have "only_labels (abs w) (abs w') \<and>
      (has_commit (abs w) mid cid \<longrightarrow> labels_ok (abs w) \<longrightarrow> labels_ok (abs w')) \<and>
      (points (abs w) mid n' cid \<longrightarrow> points (abs w') mid n' cid) \<and>
      (r = Inr () \<longrightarrow> points (abs w') mid n cid) \<and>
      (lModuleID x \<noteq> mid \<or> lName x \<noteq> n \<longrightarrow> (x \<in> rLabels (abs w') \<longleftrightarrow> x \<in> rLabels (abs w)))"
  proof (cases e)
    case (Some e')
    then have "abs w' = abs w" using labels_upsert_err e(1) by blast
    with Some e(2) show ?thesis by simp
  next
    case None
    have up: "upsert_label ?l (rLabels (abs w)) (rLabels (abs w'))" and ol: "only_labels (abs w) (abs w')"
      using labels_upsert [of ?l w w'] e(1) None assms(1) by (auto simp: registry_keys_def only_labels_def)
    note pts = upsert_points [OF up, simplified]
    have "points (abs w) mid n' cid \<longrightarrow> points (abs w') mid n' cid"
      using pts(1,2) unfolding points_def by metis
    moreover have "points (abs w') mid n cid" using pts(1) by (auto simp: points_def)
    ultimately show ?thesis using ol upsert_labels_ok [OF _ up ol] pts(2) [of x] by auto
  qed
  then show "only_labels (abs w) (abs w')"
    and "has_commit (abs w) mid cid \<Longrightarrow> labels_ok (abs w) \<Longrightarrow> labels_ok (abs w')"
    and "points (abs w) mid n' cid \<Longrightarrow> points (abs w') mid n' cid"
    and "r = Inr () \<Longrightarrow> points (abs w') mid n cid"
    and "lModuleID x \<noteq> mid \<or> lName x \<noteq> n \<Longrightarrow> x \<in> rLabels (abs w') \<longleftrightarrow> x \<in> rLabels (abs w)"
    by blast+
qed

end

context backend
begin

abbreviation inv :: "'w \<Rightarrow> bool" where
  "inv \<equiv> content_inv abs blobs valid ok"

text \<open>The loop over the labels of one content.\<close>

definition label_loop_post :: "string \<Rightarrow> string \<Rightarrow> string list \<Rightarrow> 'w \<Rightarrow> (connect_error + unit list) \<Rightarrow> 'w \<Rightarrow> bool" where
  "label_loop_post mid cid ns w r w' \<longleftrightarrow>
     only_labels (abs w) (abs w') \<and> steps_from w w' \<and> blobs w' = blobs w \<and> (ok w \<longrightarrow> ok w') \<and>
     (has_commit (abs w) mid cid \<longrightarrow> labels_ok (abs w) \<longrightarrow> labels_ok (abs w')) \<and>
     (\<forall>n. points (abs w) mid n cid \<longrightarrow> points (abs w') mid n cid) \<and>
     ((\<exists>us. r = Inr us) \<longrightarrow> (\<forall>n\<in>set ns. points (abs w') mid n cid)) \<and>
     (\<forall>x. lModuleID x \<noteq> mid \<or> lName x \<notin> set ns \<longrightarrow> (x \<in> rLabels (abs w') \<longleftrightarrow> x \<in> rLabels (abs w)))"

lemma upsertLabel_frame:
  assumes "upsertLabel R E i mid cid now j n w = (r, w')"
  shows "blobs w' = blobs w" and "ok w \<Longrightarrow> ok w'"
proof -
  let ?l = "\<lparr>lID = NewString E i j, lModuleID = mid, lName = n, lCommitID = cid, lCreatedAt = now, lUpdatedAt = now\<rparr>"
  obtain e where "do_write R (LabelUpsert ?l) w = (e, w')"
    using assms by (auto simp: upsertLabel_def Let_def split: prod.splits option.splits)
  from write_blobs [OF this] write_ok [OF this] show "blobs w' = blobs w" "ok w \<Longrightarrow> ok w'" .
qed

lemma label_loop:
  assumes "registry_keys (abs w)" "for_each (upsertLabel R E i mid cid now) j ns us w = (r, w')"
  shows "label_loop_post mid cid ns w r w'"
  using assms
proof (induction ns arbitrary: j us w)
  case Nil
  then show ?case by (simp add: label_loop_post_def)
next
  case (Cons n ns)
  obtain r1 w1 where b: "upsertLabel R E i mid cid now j n w = (r1, w1)" by fastforce
  note step = upsertLabel_step [OF Cons.prems(1) b] upsertLabel_frame [OF b]
  show ?case
  proof (cases r1)
    case (Inl e)
    with b Cons.prems(2) have "r = Inl e" "w' = w1" by simp_all
    with step show ?thesis unfolding label_loop_post_def by auto
  next
    case (Inr u)
    then have "for_each (upsertLabel R E i mid cid now) (Suc j) ns (us @ [u]) w1 = (r, w')"
      using b Cons.prems(2) by simp
    note ih = Cons.IH [OF step(2) this, unfolded label_loop_post_def]
    have "has_commit (abs w1) mid cid = has_commit (abs w) mid cid"
      using only_labels_simps(5) [OF step(1)] by (simp add: has_commit_def)
    then have lab: "has_commit (abs w) mid cid \<longrightarrow> labels_ok (abs w) \<longrightarrow> labels_ok (abs w')"
      using ih step(3) by blast
    have "points (abs w1) mid n cid" using step(5) Inr by simp
    then have "(\<exists>us. r = Inr us) \<longrightarrow> (\<forall>n'\<in>set (n # ns). points (abs w') mid n' cid)" using ih by auto
    moreover have "only_labels (abs w) (abs w')" using step(1) ih only_labels_trans by blast
    moreover have "steps_from w w'" using step(7) ih by (auto intro: rtranclp_trans)
    moreover have "\<forall>x. lModuleID x \<noteq> mid \<or> lName x \<notin> set (n # ns) \<longrightarrow> (x \<in> rLabels (abs w') \<longleftrightarrow> x \<in> rLabels (abs w))"
      using step(6) ih by auto
    moreover have "\<forall>n'. points (abs w) mid n' cid \<longrightarrow> points (abs w') mid n' cid" using step(4) ih by blast
    ultimately show ?thesis unfolding label_loop_post_def using lab step(8,9) ih by simp
  qed
qed

section \<open>Publishing\<close>

text \<open>Putting a blob under the key of its own hash keeps every commit's blob.\<close>

lemma put_stored:
  assumes "inv w" "m \<in> rModules (abs w)" "Store_Put S (storage_key (mID m) (commit_id d)) d w = (e, w')"
  shows "inv w'" and "abs w' = abs w"
    and "e = None \<Longrightarrow> blobs w' (storage_key (mID m) (commit_id d)) d"
proof -
  let ?k = "storage_key (mID m) (commit_id d)"
  have i: "ok w" "stored (blobs w) (abs w)" "keys_valid valid (abs w)" "valid ?k"
    using assms(1,2) by (auto simp: content_inv_def keys_valid_def)
  show abs: "abs w' = abs w" using put_abs [OF assms(3)] .
  show "e = None \<Longrightarrow> blobs w' ?k d" using put_done [OF i(1,4)] assms(3) by blast
  have "\<exists>d'. blobs w' (cStorageKey c) d' \<and> commit_id d' = cID c" if c: "c \<in> rCommits (abs w)" for c
  proof (cases "cStorageKey c = ?k")
    case True
    from c i(2) obtain d0 where d0: "blobs w (cStorageKey c) d0" "commit_id d0 = cID c"
        "cStorageKey c = storage_key (cModuleID c) (cID c)" by (auto simp: stored_def)
    have "cID c = commit_id d"
      using storage_key_inj [of "cModuleID c" d0 "mID m" d] True d0 by simp
    with put_any [OF i(1,4) assms(3)] d0 True show ?thesis by metis
  next
    case False
    have "valid (cStorageKey c)" using c i(3) by (simp add: keys_valid_def)
    from put_others [OF i(1,4) this False assms(3)] c i(2) show ?thesis unfolding stored_def by metis
  qed
  then have "stored (blobs w') (abs w')" using i(2) by (auto simp: stored_def abs)
  then show "inv w'" using assms(1) put_ok [OF i(1,4) assms(3)] by (simp add: content_inv_def abs)
qed

end

context backend
begin

definition publish_post :: "User \<Rightarrow> Module \<Rightarrow> bytes \<Rightarrow> string list \<Rightarrow> 'w \<Rightarrow> (connect_error + proto_commit) \<Rightarrow> 'w \<Rightarrow> bool" where
  "publish_post caller m d ns w r w' \<longleftrightarrow>
     inv w' \<and> steps_from w w' \<and>
     rUsers (abs w') = rUsers (abs w) \<and> rOrgs (abs w') = rOrgs (abs w) \<and> rMembers (abs w') = rMembers (abs w) \<and>
     rModules (abs w') = rModules (abs w) \<and> rTokens (abs w') = rTokens (abs w) \<and>
     (\<forall>c\<in>rCommits (abs w') - rCommits (abs w).
        cModuleID c = mID m \<and> cID c = commit_id d \<and> cCreatedByUserID c = uID caller) \<and>
     (\<forall>x. lModuleID x \<noteq> mID m \<or> lName x \<notin> set ns \<longrightarrow> (x \<in> rLabels (abs w') \<longleftrightarrow> x \<in> rLabels (abs w))) \<and>
     (\<forall>pc. r = Inr pc \<longrightarrow>
        pc_id pc = commit_id d \<and> pc_module_id pc = mID m \<and> pc_digest pc = Some (Sum256 d) \<and>
        blobs w' (storage_key (mID m) (commit_id d)) d \<and> has_commit (abs w') (mID m) (commit_id d) \<and>
        (\<forall>n\<in>set ns. points (abs w') (mID m) n (commit_id d)))"

text \<open>Recording the commit: reused when it is there, created otherwise.\<close>

lemma commit_recorded:
  assumes i: "inv w" and m: "m \<in> rModules (abs w)"
    and bl: "blobs w (storage_key (mID m) (commit_id d)) d"
    and ex: "fetch_ptr (Commits_GetByID (Commits R) (mID m) (commit_id d) w) = existing"
    and cr: "(case existing of Some _ \<Rightarrow> (None, w)
       | None \<Rightarrow> Commits_Create (Commits R) \<lparr>cID = commit_id d, cModuleID = mID m,
           cStorageKey = storage_key (mID m) (commit_id d), cManifest = [], cCreatedByUserID = uID caller,
           cCreatedAt = now\<rparr> w) = (e, w')"
  shows "inv w'" and "steps_from w w'" and "blobs w' = blobs w"
    and "\<exists>C. abs w' = (abs w)\<lparr>rCommits := C\<rparr> \<and> rCommits (abs w) \<subseteq> C \<and>
      (\<forall>c\<in>C - rCommits (abs w). cModuleID c = mID m \<and> cID c = commit_id d \<and> cCreatedByUserID c = uID caller)"
    and "e = None \<Longrightarrow> has_commit (abs w') (mID m) (commit_id d)"
proof -
  let ?c = "\<lparr>cID = commit_id d, cModuleID = mID m, cStorageKey = storage_key (mID m) (commit_id d), cManifest = [],
      cCreatedByUserID = uID caller, cCreatedAt = now\<rparr>"
  have "inv w' \<and> steps_from w w' \<and> blobs w' = blobs w \<and>
      (\<exists>C. abs w' = (abs w)\<lparr>rCommits := C\<rparr> \<and> rCommits (abs w) \<subseteq> C \<and>
        (\<forall>c\<in>C - rCommits (abs w). cModuleID c = mID m \<and> cID c = commit_id d \<and> cCreatedByUserID c = uID caller)) \<and>
      (e = None \<longrightarrow> has_commit (abs w') (mID m) (commit_id d))"
  proof (cases existing)
    case (Some c)
    with ex commit_nil have "Commits_GetByID (Commits R) (mID m) (commit_id d) w = Ret c"
      by (cases "Commits_GetByID (Commits R) (mID m) (commit_id d) w") (auto, metis option.distinct(1))
    from commit_by_id.get_Ret [of "(mID m, commit_id d)" w c] this have "has_commit (abs w) (mID m) (commit_id d)"
      by (auto simp: has_commit_def)
    with Some cr i show ?thesis by (auto simp: content_inv_def intro!: exI [of _ "rCommits (abs w)"])
  next
    case None
    with cr have w: "do_write R (CommitCreate ?c) w = (e, w')" by simp
    note frame = write_blobs [OF w] write_ok [OF w]
    have st: "steps_from w w'" by (rule steps_from_write [OF _ w]) (use i in \<open>simp add: content_inv_def\<close>)
    show ?thesis
    proof (cases e)
      case (Some e')
      then have "abs w' = abs w" using w write_failed by blast
      then show ?thesis using i st frame Some by (auto simp: content_inv_def intro!: exI [of _ "rCommits (abs w)"])
    next
      case None
      then have abs: "abs w' = (abs w)\<lparr>rCommits := insert ?c (rCommits (abs w))\<rparr>"
        using commits_create [of ?c w w'] w by simp
      have "labels_ok (abs w')" using i by (auto simp: content_inv_def labels_ok_def abs)
      moreover have "stored (blobs w') (abs w')"
        using i bl unfolding content_inv_def stored_def abs frame(1) by (simp, metis)
      moreover have "keys_valid valid (abs w')" using i m by (auto simp: content_inv_def keys_valid_def abs)
      ultimately have "inv w'" using i st frame by (simp add: content_inv_def)
      then show ?thesis using st frame(1) by (auto simp: abs has_commit_def)
    qed
  qed
  then show "inv w'" "steps_from w w'" "blobs w' = blobs w"
    "\<exists>C. abs w' = (abs w)\<lparr>rCommits := C\<rparr> \<and> rCommits (abs w) \<subseteq> C \<and>
      (\<forall>c\<in>C - rCommits (abs w). cModuleID c = mID m \<and> cID c = commit_id d \<and> cCreatedByUserID c = uID caller)"
    "e = None \<Longrightarrow> has_commit (abs w') (mID m) (commit_id d)"
    by blast+
qed

end

context backend
begin

lemma label_loop_inv:
  assumes "inv w" "label_loop_post mid cid ns w r w'" "has_commit (abs w) mid cid"
  shows "inv w'"
proof -
  note p = assms(2) [unfolded label_loop_post_def]
  note same = only_labels_simps [OF conjunct1 [OF p]]
  have "stored (blobs w') (abs w') = stored (blobs w) (abs w)" using p by (simp add: stored_def same)
  moreover have "keys_valid valid (abs w') = keys_valid valid (abs w)" by (simp add: keys_valid_def same)
  ultimately show ?thesis using assms(1,3) p by (simp add: content_inv_def)
qed

lemma publish_spec:
  assumes i: "inv w" and m: "m \<in> rModules (abs w)" and run: "publish R S E caller i m d ns w = (r, w')"
  shows "publish_post caller m d ns w r w'"
proof -
  obtain e1 w1 where put: "Store_Put S (storage_key (mID m) (commit_id d)) d w = (e1, w1)" by fastforce
  note w1 = put_stored [OF i m put]
  have keys: "registry_keys (abs w)" using i by (simp add: content_inv_def)
  note run' = run [unfolded publish_def Let_def storage_key_def [symmetric] put, simplified]
  show ?thesis
  proof (cases e1)
    case (Some e)
    with run' have "r = Inl (ConnectError CodeInternal ''failed to store content'')" "w' = w1" by auto
    with w1 keys show ?thesis by (simp add: publish_post_def)
  next
    case None
    define ex where "ex = fetch_ptr (Commits_GetByID (Commits R) (mID m) (commit_id d) w1)"
    define now where "now = (case ex of Some c \<Rightarrow> cCreatedAt c | None \<Rightarrow> Now E i 0)"
    obtain e2 w2 where cr: "(case ex of Some _ \<Rightarrow> (None, w1)
       | None \<Rightarrow> Commits_Create (Commits R) \<lparr>cID = commit_id d, cModuleID = mID m,
           cStorageKey = storage_key (mID m) (commit_id d), cManifest = [], cCreatedByUserID = uID caller,
           cCreatedAt = now\<rparr> w1) = (e2, w2)"
      by fastforce
    note run2 = run' [unfolded None, simplified, folded ex_def, folded now_def, unfolded cr, simplified]
    have m1: "m \<in> rModules (abs w1)" using m w1(2) by simp
    note w2 = commit_recorded [OF w1(1) m1 w1(3) [OF None] ex_def [symmetric] cr]
    obtain C where C: "abs w2 = (abs w)\<lparr>rCommits := C\<rparr>" "rCommits (abs w) \<subseteq> C"
        "\<forall>c\<in>C - rCommits (abs w). cModuleID c = mID m \<and> cID c = commit_id d \<and> cCreatedByUserID c = uID caller"
      using w2(4) by (auto simp: w1(2))
    have st2: "steps_from w w2" using w2(2) w1(2) by simp
    show ?thesis
    proof (cases e2)
      case (Some e)
      with run2 have "r = Inl (ConnectError CodeInternal ''failed to create commit'')" "w' = w2" by auto
      with w2(1) st2 C show ?thesis by (simp add: publish_post_def)
    next
      case None
      obtain r3 w3 where lp: "for_each (upsertLabel R E i (mID m) (commit_id d) now) 0 ns [] w2 = (r3, w3)" by fastforce
      have post: "label_loop_post (mID m) (commit_id d) ns w2 r3 w3"
        by (rule label_loop [OF _ lp]) (use st2 in blast)
      note p = post [unfolded label_loop_post_def]
      note same = only_labels_simps [OF conjunct1 [OF p]]
      have i3: "inv w3" by (rule label_loop_inv [OF w2(1) post w2(5) [OF None]])
      have st3: "steps_from w w3" using st2 p by (auto intro: rtranclp_trans)
      have hc: "has_commit (abs w3) (mID m) (commit_id d)" using w2(5) [OF None] by (simp add: has_commit_def same)
      have bl: "blobs w3 (storage_key (mID m) (commit_id d)) d" using p w2(3) w1(3) [OF \<open>e1 = None\<close>] by simp
      have r: "w' = w3" "\<And>pc. r = Inr pc \<Longrightarrow> (\<exists>us. r3 = Inr us) \<and> pc_id pc = commit_id d \<and>
          pc_module_id pc = mID m \<and> pc_digest pc = Some (Sum256 d)"
        using run2 [unfolded None, simplified, unfolded lp] by (auto split: sum.splits)
      show ?thesis
        unfolding publish_post_def r(1)
        using i3 st3 hc bl p r(2) C same by (auto simp: C(1))
    qed
  qed
qed

end

section \<open>Uploading\<close>

text \<open>
  What a request of \<open>uid\<close> may have done between two registries: new commits are its own and lie in
  modules it may write, labels moved only in such modules, and nothing else changed.
\<close>

definition writable :: "Registry \<Rightarrow> string \<Rightarrow> string \<Rightarrow> bool" where
  "writable r uid mid \<longleftrightarrow> (\<exists>m\<in>rModules r. mID m = mid \<and> may_write r uid m)"

definition within_write :: "string \<Rightarrow> Registry \<Rightarrow> Registry \<Rightarrow> bool" where
  "within_write uid r r' \<longleftrightarrow>
     rUsers r' = rUsers r \<and> rOrgs r' = rOrgs r \<and> rMembers r' = rMembers r \<and> rModules r' = rModules r \<and>
     rTokens r' = rTokens r \<and> rCommits r \<subseteq> rCommits r' \<and>
     (\<forall>c\<in>rCommits r' - rCommits r. cCreatedByUserID c = uid \<and> writable r uid (cModuleID c)) \<and>
     (\<forall>x. \<not> writable r uid (lModuleID x) \<longrightarrow> (x \<in> rLabels r' \<longleftrightarrow> x \<in> rLabels r))"

lemma within_write_refl: "within_write uid r r"
  by (auto simp: within_write_def)

lemma may_write_cong:
  "rUsers r' = rUsers r \<Longrightarrow> rOrgs r' = rOrgs r \<Longrightarrow> rMembers r' = rMembers r \<Longrightarrow> may_write r' uid m = may_write r uid m"
  by (simp add: may_write_def has_name_def has_role_def)

lemma within_write_trans:
  assumes "within_write uid r r'" "within_write uid r' r''"
  shows "within_write uid r r''"
proof -
  have "writable r' uid i = writable r uid i" for i
    using assms(1) may_write_cong [of r' r] by (simp add: within_write_def writable_def)
  then show ?thesis using assms unfolding within_write_def by (simp only:) blast
qed

context backend
begin

lemma publish_within:
  assumes "publish_post caller m d ns w r w'" "m \<in> rModules (abs w)" "may_write (abs w) (uID caller) m"
  shows "within_write (uID caller) (abs w) (abs w')"
proof -
  note p = assms(1) [unfolded publish_post_def]
  have "rCommits (abs w) \<subseteq> rCommits (abs w')" using p reg_steps_grow by blast
  moreover have "writable (abs w) (uID caller) (mID m)" using assms(2,3) by (auto simp: writable_def)
  moreover have "\<forall>x. \<not> writable (abs w) (uID caller) (lModuleID x) \<longrightarrow>
      (x \<in> rLabels (abs w') \<longleftrightarrow> x \<in> rLabels (abs w))"
    using p calculation(2) by metis
  ultimately show ?thesis using p unfolding within_write_def by simp
qed

text \<open>One content: either nothing was touched, or it was published to a module the caller may write.\<close>

lemma uploadContent_cases:
  assumes run: "uploadContent R S Z E caller i content w = (r, w')"
  obtains (rejected) e where "r = Inl e" "w' = w"
  | (published) own nm m d where "uc_module_ref content = Some (ModuleByName own nm)"
      "Modules_Get (Modules R) own nm w = Ret m" "m \<in> rModules (abs w)" "mOwnerName m = own" "mName m = nm"
      "may_write (abs w) (uID caller) m" "validateFiles (uc_files content) = None"
      "zipFiles Z (uc_files content) = Inr d" "publish R S E caller i m d (label_names content) w = (r, w')"
      "int (length d) \<le> maxUploadSize"
proof (cases "\<exists>own nm m d. uc_module_ref content = Some (ModuleByName own nm) \<and>
      Modules_Get (Modules R) own nm w = Ret m \<and> CanWriteModule (Auth R) (uID caller) m w \<and>
      validateFiles (uc_files content) = None \<and> zipFiles Z (uc_files content) = Inr d \<and>
      \<not> int (length d) > maxUploadSize")
  case True
  then obtain own nm m d where c: "uc_module_ref content = Some (ModuleByName own nm)"
      "Modules_Get (Modules R) own nm w = Ret m" "CanWriteModule (Auth R) (uID caller) m w"
      "validateFiles (uc_files content) = None" "zipFiles Z (uc_files content) = Inr d"
      "\<not> int (length d) > maxUploadSize" by blast
  have "publish R S E caller i m d (label_names content) w = (r, w')"
    using run c by (simp add: uploadContent_def)
  with c mod_by_name.get_Ret [of "(own, nm)" w m] write_sound [OF c(3)] published show thesis by simp
next
  case False
  then have "\<exists>e. r = Inl e \<and> w' = w"
    using run
    by (auto simp: uploadContent_def split: option.splits module_ref.splits fetch.splits if_splits sum.splits)
  with rejected show thesis by blast
qed

lemma uploadContent_inv:
  assumes "inv w" "uploadContent R S Z E caller i content w = (r, w')"
  shows "inv w'" and "steps_from w w'" and "within_write (uID caller) (abs w) (abs w')"
proof -
  have "inv w' \<and> steps_from w w' \<and> within_write (uID caller) (abs w) (abs w')"
  proof (cases rule: uploadContent_cases [OF assms(2)])
    case (1 e)
    with assms(1) show ?thesis by (simp add: content_inv_def within_write_refl)
  next
    case (2 own nm m d)
    from publish_spec [OF assms(1) 2(3,9)] publish_within [OF _ 2(3,6)] show ?thesis
      by (auto simp: publish_post_def)
  qed
  then show "inv w'" "steps_from w w'" "within_write (uID caller) (abs w) (abs w')" by blast+
qed

lemma Upload_inv:
  assumes "inv w" "Upload R S Z E caller contents w = (r, w')"
  shows "inv w' \<and> steps_from w w' \<and>
     (case caller of None \<Rightarrow> w' = w | Some u \<Rightarrow> within_write (uID u) (abs w) (abs w'))"
proof (cases caller)
  case None
  with assms show ?thesis by (simp add: Upload_def content_inv_def)
next
  case (Some u)
  with assms(2) have f: "for_each (uploadContent R S Z E u) 0 contents [] w = (r, w')" by (simp add: Upload_def)
  have "inv w' \<and> steps_from w w' \<and> within_write (uID u) (abs w) (abs w')"
  proof (rule for_each_preserves [OF f, where I = "\<lambda>v. inv v \<and> steps_from w v \<and> within_write (uID u) (abs w) (abs v)"])
    show "inv w \<and> steps_from w w \<and> within_write (uID u) (abs w) (abs w)"
      using assms(1) by (simp add: content_inv_def within_write_refl)
    fix j x v r' v'
    assume I: "inv v \<and> steps_from w v \<and> within_write (uID u) (abs w) (abs v)"
      and b: "uploadContent R S Z E u j x v = (r', v')"
    from uploadContent_inv [OF conjunct1 [OF I] b] I
    show "inv v' \<and> steps_from w v' \<and> within_write (uID u) (abs w) (abs v')"
      by (auto intro: rtranclp_trans within_write_trans)
  qed
  with Some show ?thesis by simp
qed

end

section \<open>Downloading\<close>

text \<open>The references that lead to the commit of an upload: one of its labels, its identifier, or \<^verbatim>\<open>main\<close>.\<close>

definition refers_to :: "resource_name \<Rightarrow> upload_content \<Rightarrow> string \<Rightarrow> bool" where
  "refers_to n content cid \<longleftrightarrow>
     uc_module_ref content = Some (ModuleByName (GetOwner n) (GetModule n)) \<and>
     (case child n of
        ChildLabel l \<Rightarrow> l \<in> set (label_names content)
      | ChildRef rf \<Rightarrow> rf = cid
      | NoChild \<Rightarrow> ''main'' \<in> set (label_names content))"

lemma label_names_not_empty: "[] \<notin> set (label_names content)"
  by (auto simp: label_names_def Let_def)

lemma refers_chooses:
  assumes "refers_to n content cid" "cid \<noteq> []" "c \<in> rCommits r" "cModuleID c = mID m" "cID c = cid"
    and "\<forall>l\<in>set (label_names content). points r (mID m) l cid"
  shows "chooses r n m (Some c)"
proof -
  have lab: "labelled r m l c" if "l \<in> set (label_names content)" for l
    using assms(3-6) that unfolding labelled_def points_def by metis
  show ?thesis
  proof (cases "child n")
    case NoChild
    then show ?thesis using assms(1) lab by (simp add: chooses_def refers_to_def GetLabelName_def GetRef_def)
  next
    case (ChildLabel l)
    then show ?thesis using assms(1) lab label_names_not_empty [of content]
      by (auto simp: chooses_def refers_to_def GetLabelName_def GetRef_def)
  next
    case (ChildRef i)
    then show ?thesis using assms by (auto simp: chooses_def refers_to_def GetLabelName_def GetRef_def identified_def)
  qed
qed

context backend_reliable
begin

lemma commit_id_not_Nil [simp]: "commit_id d \<noteq> []"
  using commit_id_length [of d] by (metis list.size(3) zero_neq_numeral)

lemma download_uploaded:
  assumes i: "inv w" and z: "zip_ok Z"
    and up: "Upload R S Z E (Some u) [content] w = (Inr [pc], w')"
    and n: "refers_to n content (pc_id pc)"
  shows "\<exists>m c. m \<in> rModules (abs w') \<and> mOwnerName m = GetOwner n \<and> mName m = GetModule n \<and>
     (may_read (abs w') (userID caller) m \<longrightarrow>
        downloadValue R S Z caller w' (Some (ResourceByName n)) = Inr (c, uc_files content) \<and> pc_id c = pc_id pc)"
proof -
  from up have run: "uploadContent R S Z E u 0 content w = (Inr pc, w')"
    by (auto simp: Upload_def split: prod.splits sum.splits)
  show ?thesis
  proof (cases rule: uploadContent_cases [OF run])
    case (1 e)
    then show ?thesis by simp
  next
    case (2 own nm m d)
    note p = publish_spec [OF i 2(3,9), unfolded publish_post_def]
    have i': "inv w'" and cid: "pc_id pc = commit_id d" and hc: "has_commit (abs w') (mID m) (commit_id d)"
      and bl: "blobs w' (storage_key (mID m) (commit_id d)) d"
      and pts: "\<forall>l\<in>set (label_names content). points (abs w') (mID m) l (commit_id d)"
      and m': "m \<in> rModules (abs w')"
      using p 2(3) by auto
    have keys: "registry_keys (abs w')" and okw: "ok w'" using i' by (simp_all add: content_inv_def)
    from hc obtain c where c: "c \<in> rCommits (abs w')" "cModuleID c = mID m" "cID c = commit_id d"
      by (auto simp: has_commit_def)
    have nm: "mOwnerName m = GetOwner n" "mName m = GetModule n" using n 2(1,4,5) by (auto simp: refers_to_def)
    have "chooses (abs w') n m (Some c)"
      by (rule refers_chooses [OF n _ c(1,2)]) (use c cid pts in simp_all)
    then have res: "resolveResourceRef R (Some (ResourceByName n)) w' = Inr (m, Some c)"
      using resolve_exact [OF keys] m' nm by (simp add: denotes_def)
    have key: "cStorageKey c = storage_key (mID m) (commit_id d)" "valid (cStorageKey c)"
      using i' c by (auto simp: content_inv_def stored_def keys_valid_def)
    have get: "Store_Get S (cStorageKey c) w' = Inr d"
      using get_complete [OF okw key(2)] bl key(1) by simp
    have unz: "unzipFiles Z d = Inr (uc_files content)"
      by (rule zip_unzip [OF z 2(8)]) (use 2(7) in \<open>auto simp: validateFiles_None file_ok_def\<close>)
    show ?thesis
      using m' nm by (intro exI [of _ m] exI) (auto simp: downloadValue_def res get unz verdicts(1) [OF keys] c(3) cid)
  qed
qed

end


context backend
begin

text \<open>Content that is already there is not recorded again.\<close>

lemma publish_again:
  assumes "publish_post caller m d ns w r w'" "has_commit (abs w) (mID m) (commit_id d)"
  shows "rCommits (abs w') = rCommits (abs w)"
proof -
  note p = assms(1) [unfolded publish_post_def]
  have sub: "rCommits (abs w) \<subseteq> rCommits (abs w')" using p reg_steps_grow by blast
  have inj: "inj_on commit_key (rCommits (abs w'))" using p by (simp add: registry_keys_def)
  from assms(2) obtain c0 where c0: "c0 \<in> rCommits (abs w)" "cModuleID c0 = mID m" "cID c0 = commit_id d"
    by (auto simp: has_commit_def)
  have "c \<in> rCommits (abs w)" if c: "c \<in> rCommits (abs w')" for c
  proof (rule ccontr)
    assume "c \<notin> rCommits (abs w)"
    with c p have "commit_key c = commit_key c0" using c0 by auto
    with inj_onD [OF inj, of c c0] c c0 sub \<open>c \<notin> rCommits (abs w)\<close> show False by auto
  qed
  with sub show ?thesis by blast
qed

text \<open>The commit that an upload reports is recorded with the time it reports.\<close>

lemma publish_recorded:
  assumes i: "inv w" and m: "m \<in> rModules (abs w)" and run: "publish R S E caller k m d ns w = (Inr pc, w')"
  shows "\<exists>c\<in>rCommits (abs w'). cModuleID c = mID m \<and> cID c = commit_id d \<and> cCreatedAt c = pc_create_time pc"
proof -
  obtain e1 w1 where put: "Store_Put S (storage_key (mID m) (commit_id d)) d w = (e1, w1)" by fastforce
  note run' = run [unfolded publish_def Let_def storage_key_def [symmetric] put, simplified]
  have e1: "e1 = None" using run' by (auto split: option.splits)
  define ex where "ex = fetch_ptr (Commits_GetByID (Commits R) (mID m) (commit_id d) w1)"
  define now where "now = (case ex of Some c \<Rightarrow> cCreatedAt c | None \<Rightarrow> Now E k 0)"
  let ?c = "\<lparr>cID = commit_id d, cModuleID = mID m, cStorageKey = storage_key (mID m) (commit_id d), cManifest = [],
      cCreatedByUserID = uID caller, cCreatedAt = now\<rparr>"
  obtain e2 w2 where cr: "(case ex of Some _ \<Rightarrow> (None, w1) | None \<Rightarrow> Commits_Create (Commits R) ?c w1) = (e2, w2)"
    by fastforce
  note run2 = run' [unfolded e1, simplified, folded ex_def, folded now_def, unfolded cr, simplified]
  have e2: "e2 = None" using run2 by (auto split: option.splits)
  have "\<exists>c\<in>rCommits (abs w2). cModuleID c = mID m \<and> cID c = commit_id d \<and> cCreatedAt c = now"
  proof (cases ex)
    case (Some c)
    with ex_def commit_nil have "Commits_GetByID (Commits R) (mID m) (commit_id d) w1 = Ret c"
      by (cases "Commits_GetByID (Commits R) (mID m) (commit_id d) w1") (auto, metis option.distinct(1))
    from commit_by_id.get_Ret [of "(mID m, commit_id d)" w1 c] this Some cr show ?thesis by (auto simp: now_def)
  next
    case None
    with cr e2 commits_create [of ?c w1 w2] show ?thesis by simp
  qed
  moreover obtain r3 w3 where lp: "for_each (upsertLabel R E k (mID m) (commit_id d) now) 0 ns [] w2 = (r3, w3)" by fastforce
  have "registry_keys (abs w1)" using put_stored(1) [OF i m put] by (simp add: content_inv_def)
  then have "registry_keys (abs w2)"
    using cr steps_from_write [of w1 w1 "CommitCreate ?c" e2 w2] by (auto split: option.splits)
  from label_loop [OF this lp] have "rCommits (abs w3) = rCommits (abs w2)"
    unfolding label_loop_post_def using only_labels_simps(5) by blast
  moreover have "w' = w3" "pc_create_time pc = now"
    using run2 [unfolded e2, simplified, unfolded lp] by (auto split: sum.splits)
  ultimately show ?thesis by simp
qed

lemma uploadContent_again:
  assumes "inv w" "uploadContent R S Z E u i content w = (Inr pc, w1)"
    and "uploadContent R S Z E' u' i' content w1 = (r, w2)"
  shows "rCommits (abs w2) = rCommits (abs w1) \<and> (\<forall>pc'. r = Inr pc' \<longrightarrow> pc_id pc' = pc_id pc \<and> pc_module_id pc' = pc_module_id pc)"
proof (cases rule: uploadContent_cases [OF assms(2)])
  case (2 own nm m d)
  note p = publish_spec [OF assms(1) 2(3,9)]
  note p' = p [unfolded publish_post_def]
  show ?thesis
  proof (cases rule: uploadContent_cases [OF assms(3)])
    case a: (2 own' nm' m' d')
    have eq: "d' = d" "own' = own" "nm' = nm" using 2 a by simp_all
    have "inj_on module_key (rModules (abs w1))" using p' unfolding registry_keys_def by blast
    then have mm: "m' = m" by (rule inj_onD) (use 2 a eq p' in auto)
    have i1: "inv w1" using p' by blast
    note q = publish_spec [OF i1 a(3,9)]
    have "has_commit (abs w1) (mID m') (commit_id d')" using p' mm eq by simp
    from publish_again [OF q this] q [unfolded publish_post_def] p' mm eq show ?thesis by auto
  qed auto
qed simp

end

section \<open>Uploads go through\<close>

text \<open>The identifiers a request draws are new: distinct from each other and from those in use.\<close>

definition fresh_labels :: "env \<Rightarrow> nat \<Rightarrow> nat \<Rightarrow> Registry \<Rightarrow> bool" where
  "fresh_labels E i j r \<longleftrightarrow> (\<forall>k\<ge>j. \<forall>l\<in>rLabels r. lID l \<noteq> NewString E i k)"

lemma upsert_fresh:
  assumes "upsert_label l (rLabels r) (rLabels r')" "lID l = NewString E i j" "inj (NewString E i)" "fresh_labels E i j r"
  shows "fresh_labels E i (Suc j) r'"
  using assms(1,2,4) unfolding upsert_label_def fresh_labels_def
  by (elim exE conjE) (auto simp: Suc_le_eq inj_eq [OF assms(3)] dest: less_imp_le)

context backend_reliable
begin

lemma label_loop_ok:
  assumes "registry_keys (abs w)" "inj (NewString E i)" "fresh_labels E i j (abs w)"
  shows "\<exists>us' w'. for_each (upsertLabel R E i mid cid now) j ns us w = (Inr us', w')"
  using assms
proof (induction ns arbitrary: j us w)
  case (Cons n ns)
  let ?l = "\<lparr>lID = NewString E i j, lModuleID = mid, lName = n, lCommitID = cid, lCreatedAt = now, lUpdatedAt = now\<rparr>"
  obtain w1 where up: "Labels_Upsert (Labels R) ?l w = (None, w1)"
    using labels_upsert_ok [of w ?l] Cons.prems(3) by (auto simp: fresh_labels_def)
  have b: "upsertLabel R E i mid cid now j n w = (Inr (), w1)" by (simp add: upsertLabel_def up)
  have "upsert_label ?l (rLabels (abs w)) (rLabels (abs w1))"
    using labels_upsert [OF up] Cons.prems(1) by (simp add: registry_keys_def)
  then have "fresh_labels E i (Suc j) (abs w1)" by (rule upsert_fresh) (use Cons.prems in simp_all)
  from Cons.IH [OF upsertLabel_step(2) [OF Cons.prems(1) b] Cons.prems(2) this, of "us @ [()]"] b show ?case by simp
qed simp

lemma publish_ok:
  assumes i: "inv w" and m: "m \<in> rModules (abs w)"
    and put: "\<And>k b. \<exists>w'. Store_Put S k b w = (None, w')"
    and fresh: "inj (NewString E i)" "fresh_labels E i 0 (abs w)"
  shows "\<exists>pc w'. publish R S E caller i m d ns w = (Inr pc, w')"
proof -
  let ?cid = "commit_id d"
  let ?k = "storage_key (mID m) ?cid"
  obtain w1 where w1: "Store_Put S ?k d w = (None, w1)" using put by blast
  note s1 = put_stored [OF i m w1]
  have keys1: "registry_keys (abs w1)" using s1(1) by (simp add: content_inv_def)
  define ex where "ex = fetch_ptr (Commits_GetByID (Commits R) (mID m) ?cid w1)"
  define now where "now = (case ex of Some c \<Rightarrow> cCreatedAt c | None \<Rightarrow> Now E i 0)"
  let ?c = "\<lparr>cID = ?cid, cModuleID = mID m, cStorageKey = ?k, cManifest = [], cCreatedByUserID = uID caller, cCreatedAt = now\<rparr>"
  have "\<exists>w2. (case ex of Some _ \<Rightarrow> (None, w1) | None \<Rightarrow> Commits_Create (Commits R) ?c w1) = (None, w2)"
  proof (cases ex)
    case None
    then obtain p e where "Commits_GetByID (Commits R) (mID m) ?cid w1 = RetErr p e"
      unfolding ex_def by (cases "Commits_GetByID (Commits R) (mID m) ?cid w1") auto
    then have "\<forall>v\<in>rCommits (abs w1). commit_key v \<noteq> commit_key ?c"
      using commit_by_id.get_error_iff [of "(mID m, ?cid)" w1] by auto
    then show ?thesis using commits_create_ok [of w1 ?c] None by auto
  qed simp
  then obtain w2 where w2: "(case ex of Some _ \<Rightarrow> (None, w1) | None \<Rightarrow> Commits_Create (Commits R) ?c w1) = (None, w2)"
    by blast
  have m1: "m \<in> rModules (abs w1)" using m s1(2) by simp
  note s2 = commit_recorded [OF s1(1) m1 s1(3) [OF refl] ex_def [symmetric] w2]
  have "fresh_labels E i 0 (abs w2)" using fresh(2) s2(4) by (auto simp: fresh_labels_def s1(2))
  then obtain us w3 where "for_each (upsertLabel R E i (mID m) ?cid now) 0 ns [] w2 = (Inr us, w3)"
    using label_loop_ok [of w2 E i 0 "mID m" ?cid now ns "[]"] s2(2) fresh(1) by blast
  then show ?thesis
    unfolding publish_def Let_def storage_key_def [symmetric] w1 prod.case option.case ex_def [symmetric]
      now_def [symmetric] w2 by simp
qed

end

context backend_reliable
begin

text \<open>A content that was uploaded goes through again, and is reported as it was.\<close>

lemma uploadContent_again_ok:
  assumes i: "inv w" and first: "uploadContent R S Z E u k content w = (Inr pc, w1)"
    and u': "m \<in> rModules (abs w1)" "mID m = pc_module_id pc" "may_write (abs w1) (uID u') m"
    and put: "\<And>k b w. \<exists>w'. Store_Put S k b w = (None, w')"
    and fresh: "inj (NewString E' k')" "fresh_labels E' k' 0 (abs w1)"
  shows "\<exists>pc' w2. uploadContent R S Z E' u' k' content w1 = (Inr pc', w2) \<and>
    pc_id pc' = pc_id pc \<and> pc_module_id pc' = pc_module_id pc \<and> pc_digest pc' = pc_digest pc \<and>
    pc_create_time pc' = pc_create_time pc \<and> rCommits (abs w2) = rCommits (abs w1)"
proof (cases rule: uploadContent_cases [OF first])
  case (2 own nm n d)
  note p = publish_spec [OF i 2(3,9), unfolded publish_post_def]
  have i1: "inv w1" and n1: "n \<in> rModules (abs w1)" and pc: "pc_module_id pc = mID n" "pc_id pc = commit_id d"
    "pc_digest pc = Some (Sum256 d)" using p 2(3) by auto
  have keys1: "registry_keys (abs w1)" using i1 by (simp add: content_inv_def)
  have "inj_on mID (rModules (abs w1))" using keys1 by (simp add: registry_keys_def)
  from inj_onD [OF this _ u'(1) n1] have mn: "m = n" using u'(2) pc(1) by simp
  obtain pc' w2 where pub: "publish R S E' u' k' n d (label_names content) w1 = (Inr pc', w2)"
    using publish_ok [OF i1 n1 put fresh] by blast
  have "Modules_Get (Modules R) own nm w1 = Ret n" using get_module_iff [OF keys1] n1 2(4,5) by blast
  moreover have "CanWriteModule (Auth R) (uID u') n w1" using verdicts(2) [OF keys1] u'(3) mn by blast
  ultimately have again: "uploadContent R S Z E' u' k' content w1 = (Inr pc', w2)"
    using 2(1,7,8,10) pub by (simp add: uploadContent_def)
  note same = uploadContent_again [OF i first again]
  have q: "inv w2" "pc_digest pc' = Some (Sum256 d)"
    using publish_spec [OF i1 n1 pub] unfolding publish_post_def by auto
  obtain c where c: "c \<in> rCommits (abs w1)" "cModuleID c = mID n" "cID c = commit_id d" "cCreatedAt c = pc_create_time pc"
    using publish_recorded [OF i 2(3,9)] by blast
  obtain c' where c': "c' \<in> rCommits (abs w2)" "cModuleID c' = mID n" "cID c' = commit_id d" "cCreatedAt c' = pc_create_time pc'"
    using publish_recorded [OF i1 n1 pub] by blast
  have "inj_on commit_key (rCommits (abs w2))" using q(1) by (simp add: content_inv_def registry_keys_def)
  from inj_onD [OF this _ c'(1)] have "c' = c" using same c c'(2,3) by simp
  with again same pc q(2) c(4) c'(4) show ?thesis by auto
qed simp

end

section \<open>Properties\<close>

text \<open>
  A world for the examples: the demonstration database, no blobs, an empty file system. And a
  source of identifiers that never repeats.
\<close>

definition demo_world :: World where
  "demo_world = SqlDB.extend demo_db \<lparr>sq_blobs = [], w_fs = (\<lambda>_. None)\<rparr>"

definition demo_env :: env where
  "demo_env = \<lparr>Now = (\<lambda>i j. 1000 + int j), NewString = (\<lambda>i j. replicate i CHR ''i'' @ ''-'' @ replicate j CHR ''j'')\<rparr>"

lemma demo_world_simps [simp]:
  "sq_users demo_world = sq_users demo_db" "sq_orgs demo_world = sq_orgs demo_db"
  "sq_members demo_world = sq_members demo_db" "sq_modules demo_world = sq_modules demo_db"
  "sq_commits demo_world = []" "sq_labels demo_world = []" "sq_tokens demo_world = []"
  "sq_blobs demo_world = []" "w_fs demo_world = (\<lambda>_. None)"
  by (simp_all add: demo_world_def demo_db_def SqlDB.extend_def)

lemma demo_world_abs: "sql_abs demo_world = sql_abs demo_db"
  by (simp add: sql_abs_def) (simp add: demo_db_def)

lemma demo_env_inj: "inj (NewString demo_env i)"
  by (rule injI) (simp add: demo_env_def)

lemma demo_inv: "content_inv sql_abs (whole db_blobs) (\<lambda>_. True) blob_keys demo_world"
  using demo_keys
  by (simp add: content_inv_def demo_world_abs labels_ok_def stored_def keys_valid_def blob_keys_def sql_abs_def)
     (simp add: demo_db_def)

definition demo_content :: upload_content where
  "demo_content = \<lparr>uc_module_ref = Some (ModuleByName ''acme'' ''api''),
     uc_files = [\<lparr>GetPath = ''a.proto'', GetContent = [1, 2, 3]\<rparr>], uc_scoped_label_refs = []\<rparr>"

text \<open>
  C1. What is uploaded can be downloaded. On the SQL backend with the database store: when a caller with
  write access uploads files that pass validation, the upload succeeds, and afterwards every reader of
  the module who refers to it by any of the labels of the upload (or by the default \<^verbatim>\<open>main\<close>), or by the
  returned commit identifier, downloads exactly the uploaded files under that commit.
\<close>

theorem upload_then_download:
  fixes w :: "'z World_scheme"
  assumes G: "gorm_db_reliable G" "casbin_matches enf" "gorm_reliable g blob_clash" and Z: "zip_ok Z"
    and i: "content_inv sql_abs (whole db_blobs) (\<lambda>_. True) blob_keys w"
    and m: "m \<in> rModules (sql_abs w)" "uc_module_ref content = Some (ModuleByName (mOwnerName m) (mName m))"
    and u: "may_write (sql_abs w) (uID u) m"
    and c: "validateFiles (uc_files content) = None" "zipFiles Z (uc_files content) = Inr d" "int (length d) \<le> maxUploadSize"
    and fresh: "inj (NewString E 0)" "fresh_labels E 0 0 (sql_abs w)"
  shows "\<exists>pc w'. Upload (sql_repos enf G) (NewDBStore g now) Z E (Some u) [content] w = (Inr [pc], w') \<and>
     pc_id pc = commit_id d \<and>
     (\<forall>n caller. refers_to n content (pc_id pc) \<and> may_read (sql_abs w) (userID caller) m \<longrightarrow>
        (\<exists>pc'. Download (sql_repos enf G) (NewDBStore g now) Z caller [Some (ResourceByName n)] w' =
                 Inr [(pc', uc_files content)] \<and> pc_id pc' = commit_id d))"
proof -
  let ?R = "sql_repos enf G :: 'z World_scheme Repos" and ?S = "NewDBStore g now :: 'z World_scheme Store"
  have B: "backend_reliable ?R sql_abs ?S (whole db_blobs) (\<lambda>_. True) blob_keys" by (rule sql_db_backend_reliable [OF G])
  note B1 = backend_reliable.axioms(1) [OF B]
  have RR: "registry_reliable ?R sql_abs" by (rule gorm_db_reliable.registry_reliable_sql [OF G(1,2)])
  have rr: "repos_reliable ?R sql_abs" and ae: "authorizer_exact (Auth ?R) sql_abs"
    using RR by (simp_all add: registry_reliable_def)
  have keys: "registry_keys (sql_abs w)" using i by (simp add: content_inv_def)
  have put: "\<exists>w'. Store_Put ?S k b w = (None, w')" for k b
    using blob_engine_reliable.db_put_goes_through G(3) by (simp add: blob_engine_reliable_def)
  obtain pc w' where pub: "publish ?R ?S E u 0 m d (label_names content) w = (Inr pc, w')"
    using backend_reliable.publish_ok [OF B i m(1) put fresh] by blast
  have "Modules_Get (Modules ?R) (mOwnerName m) (mName m) w = Ret m"
    using repos_reads_total.get_module_iff [OF repos_reliable.axioms(2) [OF rr] keys] m(1) by blast
  moreover have "CanWriteModule (Auth ?R) (uID u) m w" using authorizer_exact.verdicts(2) [OF ae keys] u by blast
  ultimately have "uploadContent ?R ?S Z E u 0 content w = (Inr pc, w')"
    using c pub by (simp add: uploadContent_def m(2))
  then have up: "Upload ?R ?S Z E (Some u) [content] w = (Inr [pc], w')" by (simp add: Upload_def)
  have post: "rModules (sql_abs w') = rModules (sql_abs w)" "rUsers (sql_abs w') = rUsers (sql_abs w)"
      "rOrgs (sql_abs w') = rOrgs (sql_abs w)" "rMembers (sql_abs w') = rMembers (sql_abs w)"
      "pc_id pc = commit_id d" "registry_keys (sql_abs w')"
    using backend.publish_spec [OF B1 i m(1) pub] unfolding backend.publish_post_def [OF B1] by auto
  have "\<exists>pc'. Download ?R ?S Z caller [Some (ResourceByName n)] w' = Inr [(pc', uc_files content)] \<and> pc_id pc' = commit_id d"
    if n: "refers_to n content (pc_id pc)" and rd: "may_read (sql_abs w) (userID caller) m" for n caller
  proof -
    from backend_reliable.download_uploaded [OF B i Z up n, of caller] obtain m' c' where
      m': "m' \<in> rModules (sql_abs w')" "mOwnerName m' = GetOwner n" "mName m' = GetModule n" and
      dl: "may_read (sql_abs w') (userID caller) m' \<longrightarrow>
        downloadValue ?R ?S Z caller w' (Some (ResourceByName n)) = Inr (c', uc_files content) \<and> pc_id c' = pc_id pc"
      by blast
    have inj: "inj_on module_key (rModules (sql_abs w))" using keys by (simp add: registry_keys_def)
    have "m' = m" by (rule inj_onD [OF inj]) (use m' m n post(1) in \<open>auto simp: refers_to_def\<close>)
    moreover have "may_read (sql_abs w') (userID caller) m = may_read (sql_abs w) (userID caller) m"
      using may_write_cong [OF post(2,3,4)] by (simp add: may_read_def)
    ultimately show ?thesis using dl rd post(5) by (auto simp: Download_def)
  qed
  then show ?thesis using up post(5) by blast
qed

lemma demo_upload_facts:
  defines "u \<equiv> \<lparr>uID = ''u2'', uUsername = ''bob'', uPasswordHash = ''h2'', uCreatedAt = 2\<rparr>"
  shows "demo_module \<in> rModules (sql_abs demo_world)" "may_write (sql_abs demo_world) (uID u) demo_module"
    "uc_module_ref demo_content = Some (ModuleByName (mOwnerName demo_module) (mName demo_module))"
    "validateFiles (uc_files demo_content) = None"
    "zipFiles demo_zip (uc_files demo_content) = Inr (pack [(''a.proto'', [1, 2, 3])])"
    "int (length (pack [(''a.proto'', [1, 2, 3])])) \<le> maxUploadSize"
    "fresh_labels demo_env 0 0 (sql_abs demo_world)"
proof -
  show "demo_module \<in> rModules (sql_abs demo_world)" "may_write (sql_abs demo_world) (uID u) demo_module"
    by (simp_all add: u_def demo_world_abs demo_defs may_write_def has_role_def)
  show "uc_module_ref demo_content = Some (ModuleByName (mOwnerName demo_module) (mName demo_module))"
    by (simp add: demo_content_def demo_module_def)
  show "validateFiles (uc_files demo_content) = None" by code_simp
  show "zipFiles demo_zip (uc_files demo_content) = Inr (pack [(''a.proto'', [1, 2, 3])])"
    by (simp add: zipFiles_def demo_zip_def demo_content_def)
  show "int (length (pack [(''a.proto'', [1, 2, 3])])) \<le> maxUploadSize"
    by (simp add: put_bytes_length bytes_of_string_def limits)
  show "fresh_labels demo_env 0 0 (sql_abs demo_world)" by (simp add: fresh_labels_def sql_abs_def)
qed

theorem upload_then_download_witness:
  "\<exists>pc w'. Upload (sql_repos policy_enforcer list_gorm) (NewDBStore (list_engine blob_clash) 5) demo_zip demo_env
        (Some \<lparr>uID = ''u2'', uUsername = ''bob'', uPasswordHash = ''h2'', uCreatedAt = 2\<rparr>) [demo_content] demo_world =
        (Inr [pc], w') \<and>
     (\<exists>pc'. Download (sql_repos policy_enforcer list_gorm) (NewDBStore (list_engine blob_clash) 5) demo_zip
        (Some \<lparr>uID = ''u1'', uUsername = ''alice'', uPasswordHash = ''h1'', uCreatedAt = 1\<rparr>)
        [Some (ResourceByName \<lparr>GetOwner = ''acme'', GetModule = ''api'', child = NoChild\<rparr>)] w' =
        Inr [(pc', uc_files demo_content)])"
proof -
  let ?u = "\<lparr>uID = ''u2'', uUsername = ''bob'', uPasswordHash = ''h2'', uCreatedAt = 2\<rparr>"
  let ?a = "\<lparr>uID = ''u1'', uUsername = ''alice'', uPasswordHash = ''h1'', uCreatedAt = 1\<rparr>"
  let ?n = "\<lparr>GetOwner = ''acme'', GetModule = ''api'', child = NoChild\<rparr>"
  have mr: "may_read (sql_abs demo_world) (userID (Some ?a)) demo_module"
    by (simp add: demo_world_abs demo_defs may_read_def may_write_def has_role_def)
  have n: "refers_to ?n demo_content cid" for cid
    by (simp add: refers_to_def demo_content_def label_names_def)
  from upload_then_download [OF list_db.gorm_db_reliable_axioms policy_enforcer_matches list_engine_reliable demo_zip_ok
      demo_inv demo_upload_facts(1,3,2,4-6) demo_env_inj demo_upload_facts(7), of 5] n mr
  show ?thesis by blast
qed

text \<open>
  C13. Uploading is safe whatever fails: on the SQL backend with the local store, with faults of the
  database and of the file system at any point, an upload request keeps the keys unique, every label pointing at
  a commit of its module, and under every commit's key a file that has content whose SHA-256 is the commit's identifier (with
  \<open>holding = whole\<close>: on a disk that cuts no write short) or a beginning of such content (with \<open>holding = partial\<close>: on any disk).
  It touches nothing for an anonymous caller, and otherwise adds only commits created by the caller, and moves only
  labels, in modules the caller may write.
\<close>

theorem upload_safe:
  fixes w :: "'z World_scheme"
  assumes "gorm_db G" "casbin_sound enf" "local_ok holding s"
    and "content_inv sql_abs (holding (local_blobs s)) valid_key (\<lambda>w. fs_ok (w_fs w)) w"
    and "Upload (sql_repos enf G) (NewLocalStore s) Z E caller contents w = (r, w')"
  shows "content_inv sql_abs (holding (local_blobs s)) valid_key (\<lambda>w. fs_ok (w_fs w)) w' \<and>
     (caller = None \<longrightarrow> w' = w) \<and>
     (\<forall>u. caller = Some u \<longrightarrow> within_write (uID u) (sql_abs w) (sql_abs w'))"
  using backend.Upload_inv [OF sql_local_backend [OF assms(1-3)] assms(4,5)] by (auto split: option.splits)

lemma commit_id_plain: "plain (commit_id d)"
proof -
  have "set (commit_id d) \<subseteq> set hextable" unfolding commit_id_def by (rule EncodeToString_chars)
  then have "CHR ''/'' \<notin> set (commit_id d)" by (auto simp: hextable_def)
  moreover have "length (commit_id d) \<noteq> length s" if "s \<in> {[], ''.'', ''..''}" for s :: string using that by auto
  ultimately show ?thesis unfolding plain_def by blast
qed

text \<open>The storage keys the service builds are valid keys of the local store.\<close>

lemma storage_key_valid:
  assumes "plain mid"
  shows "valid_key (storage_key mid (commit_id d))"
proof -
  have k: "storage_key mid (commit_id d) = JoinChar CHR ''/'' [mid, commit_id d]" by (simp add: storage_key_def)
  have "elems (JoinChar CHR ''/'' [mid, commit_id d]) = [mid, commit_id d]"
    by (rule elems_JoinChar) (simp add: assms commit_id_plain)
  then show ?thesis unfolding valid_key_def k by (simp add: assms commit_id_plain)
qed

lemma demo_local_inv:
  "content_inv sql_abs (holding (local_blobs default_local)) valid_key (\<lambda>w. fs_ok (w_fs w)) demo_world"
  using demo_keys storage_key_valid [of "''m1''"]
  by (simp add: content_inv_def demo_world_abs labels_ok_def stored_def keys_valid_def fs_ok_def sql_abs_def)
     (simp add: demo_db_def moduleToModel_def plain_def)

text \<open>Its disk breaks off every write after 100 bytes.\<close>

definition small_disk :: LocalStore where
  "small_disk = default_local\<lparr>disk := \<lambda>_ _ _. Some 100\<rparr>"

lemma small_disk_ok: "local_ok partial small_disk"
  proof -
  have "rooted small_disk" by code_simp
  then show ?thesis by (simp add: local_ok_def)
qed

lemma small_disk_inv: "content_inv sql_abs (partial (local_blobs small_disk)) valid_key (\<lambda>w. fs_ok (w_fs w)) demo_world"
  using demo_local_inv [of partial] by (simp add: content_inv_def stored_def demo_world_abs sql_abs_def)

theorem upload_safe_witness:
  "content_inv sql_abs (whole (local_blobs default_local)) valid_key (\<lambda>w. fs_ok (w_fs w))
     (snd (Upload (sql_repos policy_enforcer list_gorm) (NewLocalStore default_local) demo_zip demo_env
        (Some \<lparr>uID = ''u2'', uUsername = ''bob'', uPasswordHash = ''h2'', uCreatedAt = 2\<rparr>) [demo_content] demo_world)) \<and>
   content_inv sql_abs (partial (local_blobs small_disk)) valid_key (\<lambda>w. fs_ok (w_fs w))
     (snd (Upload (sql_repos policy_enforcer list_gorm) (NewLocalStore small_disk) demo_zip demo_env
        (Some \<lparr>uID = ''u2'', uUsername = ''bob'', uPasswordHash = ''h2'', uCreatedAt = 2\<rparr>) [demo_content] demo_world))"
  using upload_safe [where holding = whole, OF list_db.gorm_db_axioms casbin_matches_sound [OF policy_enforcer_matches]
      default_local_ok(1) demo_local_inv [of whole] prod.collapse [symmetric]]
    upload_safe [where holding = partial, OF list_db.gorm_db_axioms casbin_matches_sound [OF policy_enforcer_matches]
      small_disk_ok small_disk_inv prod.collapse [symmetric]] by blast

text \<open>The upload of the example goes through, as an instance of \<open>publish_ok\<close>.\<close>

lemma demo_upload:
  "\<exists>pc w'. Upload (sql_repos policy_enforcer list_gorm) (NewDBStore (list_engine blob_clash) 5) demo_zip demo_env
     (Some \<lparr>uID = ''u2'', uUsername = ''bob'', uPasswordHash = ''h2'', uCreatedAt = 2\<rparr>) [demo_content] demo_world =
     (Inr [pc], w')"
proof -
  let ?u = "\<lparr>uID = ''u2'', uUsername = ''bob'', uPasswordHash = ''h2'', uCreatedAt = 2\<rparr>"
  let ?R = "sql_repos policy_enforcer list_gorm :: World Repos"
  note f = demo_upload_facts
  have keys: "registry_keys (sql_abs demo_world)" using demo_inv by (simp add: content_inv_def)
  have g: "Modules_Get (Modules ?R) (mOwnerName demo_module) (mName demo_module) demo_world = Ret demo_module"
    using list_reg.get_module_iff [OF keys] f(1) by blast
  have w: "CanWriteModule (Auth ?R) (uID ?u) demo_module demo_world" using list_reg.verdicts(2) [OF keys] f(2) by blast
  obtain pc w' where "publish ?R (NewDBStore (list_engine blob_clash) 5) demo_env ?u 0 demo_module
      (pack [(''a.proto'', [1, 2, 3])]) (label_names demo_content) demo_world = (Inr pc, w')"
    using db_stack.publish_ok [OF demo_inv f(1) list_blobs.db_put_goes_through demo_env_inj f(7)] by blast
  then show ?thesis
    using f(3-6) g w by (auto simp: Upload_def uploadContent_def)
qed

text \<open>
  C22. Uploads are idempotent: after a content was uploaded, uploading it again, by anyone who may write the module, succeeds
  on a database that answers, adds no commit, and reports the same commit of the same module with the same digest and the
  creation time of the first upload.
\<close>

theorem upload_idempotent:
  fixes w :: "'z World_scheme"
  assumes G: "gorm_db_reliable G" "casbin_matches enf" "gorm_reliable g blob_clash"
    and i: "content_inv sql_abs (whole db_blobs) (\<lambda>_. True) blob_keys w"
    and first: "Upload (sql_repos enf G) (NewDBStore g now) Z E (Some u) [content] w = (Inr [pc], w1)"
    and u': "m \<in> rModules (sql_abs w1)" "mID m = pc_module_id pc" "may_write (sql_abs w1) (uID u') m"
    and fresh: "inj (NewString E' 0)" "fresh_labels E' 0 0 (sql_abs w1)"
  shows "\<exists>pc' w2. Upload (sql_repos enf G) (NewDBStore g now) Z E' (Some u') [content] w1 = (Inr [pc'], w2) \<and>
     pc_id pc' = pc_id pc \<and> pc_module_id pc' = pc_module_id pc \<and> pc_digest pc' = pc_digest pc \<and>
     pc_create_time pc' = pc_create_time pc \<and> rCommits (sql_abs w2) = rCommits (sql_abs w1)"
proof -
  note B = sql_db_backend_reliable [OF G, of now]
  have put: "\<exists>w'. Store_Put (NewDBStore g now :: 'z World_scheme Store) k b w = (None, w')" for k b w
    using blob_engine_reliable.db_put_goes_through G(3) by (simp add: blob_engine_reliable_def)
  have "uploadContent (sql_repos enf G) (NewDBStore g now) Z E u 0 content w = (Inr pc, w1)"
    using first by (auto simp: Upload_def split: prod.splits sum.splits)
  from backend_reliable.uploadContent_again_ok [OF B i this u' put fresh] show ?thesis by (auto simp: Upload_def)
qed

text \<open>Fresh identifiers are easy to find: longer ones.\<close>

lemma fresh_env: "\<exists>E. inj (NewString E 0) \<and> fresh_labels E 0 0 (sql_abs w)"
proof -
  have "finite (rLabels (sql_abs w))" by (simp add: sql_abs_def)
  then have "finite ((\<lambda>l. length (lID l)) ` rLabels (sql_abs w))" by simp
  then obtain n where n: "\<forall>k\<in>(\<lambda>l. length (lID l)) ` rLabels (sql_abs w). k < n"
    using finite_nat_set_iff_bounded by blast
  let ?E = "\<lparr>Now = (\<lambda>i j. 0), NewString = (\<lambda>i j. replicate (n + j) CHR ''x'')\<rparr>"
  have "inj (NewString ?E 0)" by (rule injI) simp
  moreover have "fresh_labels ?E 0 0 (sql_abs w)"
    unfolding fresh_labels_def
  proof (intro allI impI ballI notI)
    fix k l
    assume "l \<in> rLabels (sql_abs w)" "lID l = NewString ?E 0 k"
    with n have "length (replicate (n + k) CHR ''x'') < n" by force
    then show False by simp
  qed
  ultimately show ?thesis by blast
qed

theorem upload_idempotent_witness:
  "\<exists>pc w1 pc' w2 E'. Upload (sql_repos policy_enforcer list_gorm) (NewDBStore (list_engine blob_clash) 5) demo_zip demo_env
        (Some \<lparr>uID = ''u2'', uUsername = ''bob'', uPasswordHash = ''h2'', uCreatedAt = 2\<rparr>) [demo_content] demo_world =
        (Inr [pc], w1) \<and>
     Upload (sql_repos policy_enforcer list_gorm) (NewDBStore (list_engine blob_clash) 5) demo_zip E'
        (Some \<lparr>uID = ''u1'', uUsername = ''alice'', uPasswordHash = ''h1'', uCreatedAt = 1\<rparr>) [demo_content] w1 =
        (Inr [pc'], w2) \<and> pc_id pc' = pc_id pc \<and> rCommits (sql_abs w2) = rCommits (sql_abs w1)"
proof -
  let ?R = "sql_repos policy_enforcer list_gorm :: World Repos" and ?S = "NewDBStore (list_engine blob_clash) 5 :: World Store"
  let ?u = "\<lparr>uID = ''u2'', uUsername = ''bob'', uPasswordHash = ''h2'', uCreatedAt = 2\<rparr>"
  let ?a = "\<lparr>uID = ''u1'', uUsername = ''alice'', uPasswordHash = ''h1'', uCreatedAt = 1\<rparr>"
  obtain pc w1 where up: "Upload ?R ?S demo_zip demo_env (Some ?u) [demo_content] demo_world = (Inr [pc], w1)"
    using demo_upload by blast
  then have a: "uploadContent ?R ?S demo_zip demo_env ?u 0 demo_content demo_world = (Inr pc, w1)"
    by (auto simp: Upload_def split: prod.splits sum.splits)
  have within: "within_write ''u2'' (sql_abs demo_world) (sql_abs w1)" using db_stack.Upload_inv [OF demo_inv up] by simp
  have mod: "rModules (sql_abs demo_world) = {demo_module}" by (simp add: demo_world_abs demo_defs)
  then have m: "demo_module \<in> rModules (sql_abs w1)" using within by (simp add: within_write_def)
  have id: "mID demo_module = pc_module_id pc"
  proof (cases rule: db_stack.uploadContent_cases [OF a])
    case (2 own nm n d)
    with mod db_stack.publish_spec [OF demo_inv 2(3,9)] show ?thesis
      unfolding db_stack.publish_post_def by simp
  qed simp
  have may: "may_write (sql_abs w1) (uID ?a) demo_module"
    using within may_write_cong [of "sql_abs w1" "sql_abs demo_world" "''u1''" demo_module]
    by (simp add: within_write_def demo_world_abs demo_defs may_write_def has_role_def)
  obtain E' where E': "inj (NewString E' 0)" "fresh_labels E' 0 0 (sql_abs w1)" using fresh_env by blast
  from upload_idempotent [OF list_db.gorm_db_reliable_axioms policy_enforcer_matches list_engine_reliable demo_inv up m id may E']
    up show ?thesis by blast
qed



end
