(* ===== verification/Writes.thy ===== *)
theory Writes
  imports Rest_Service Content_Correct Label_Service
begin

text \<open>
  Every handler changes the world through the writes of the repositories (and, for uploads, the blob
  store). \<open>runs_to R P w w'\<close> says that a handler went from \<open>w\<close> to \<open>w'\<close> by writes that all satisfy \<open>P\<close>;
  it follows from the handlers' code alone, for any backend. What a backend promises about single
  writes then carries over to whole requests.
\<close>

definition runs_to :: "'w Repos \<Rightarrow> (write_op \<Rightarrow> bool) \<Rightarrow> 'w \<Rightarrow> 'w \<Rightarrow> bool" where
  "runs_to R P w w' \<longleftrightarrow> (\<exists>as. w' = run_writes R as w \<and> (\<forall>a\<in>set as. P a))"

lemma runs_to_refl [simp, intro]: "runs_to R P w w"
  unfolding runs_to_def by (intro exI [of _ "[]"]) simp

lemma run_writes_append: "run_writes R (as @ bs) w = run_writes R bs (run_writes R as w)"
  by (induction as arbitrary: w) simp_all

lemma runs_to_trans: "runs_to R P w w' \<Longrightarrow> runs_to R P w' w'' \<Longrightarrow> runs_to R P w w''"
  unfolding runs_to_def by (metis (no_types, lifting) run_writes_append Un_iff set_append)

lemma runs_to_write: "do_write R a w = (e, w') \<Longrightarrow> P a \<Longrightarrow> runs_to R P w w'"
  unfolding runs_to_def by (intro exI [of _ "[a]"]) simp

lemma runs_to_mono: "runs_to R P w w' \<Longrightarrow> (\<And>a. P a \<Longrightarrow> Q a) \<Longrightarrow> runs_to R Q w w'"
  unfolding runs_to_def by blast

lemma runs_to_for_each:
  assumes "for_each body i xs ys w = (r, w')"
    and "\<And>j x v r' v'. body j x v = (r', v') \<Longrightarrow> runs_to R P v v'"
  shows "runs_to R P w w'"
proof (rule for_each_preserves [OF assms(1), where I = "runs_to R P w"])
  fix j x v r' v'
  assume "runs_to R P w v" "body j x v = (r', v')"
  from runs_to_trans [OF this(1) assms(2) [OF this(2)]] show "runs_to R P w v'" .
qed simp

lemma runs_to_induct [consumes 1, case_names refl step]:
  assumes "runs_to R P w w'" and "I w" and "\<And>v a e v'. I v \<Longrightarrow> P a \<Longrightarrow> do_write R a v = (e, v') \<Longrightarrow> I v'"
  shows "I w'"
proof -
  from assms(1) obtain as where "w' = run_writes R as w" "\<forall>a\<in>set as. P a" unfolding runs_to_def by blast
  then show ?thesis
    using assms(2)
  proof (induction as arbitrary: w)
    case (Cons a as)
    obtain e v where v: "do_write R a w = (e, v)" by fastforce
    with Cons assms(3) [OF Cons.prems(3) _ v] show ?case by simp
  qed simp
qed

context repos_sound
begin

lemma runs_to_steps: "runs_to R P w w' \<Longrightarrow> registry_keys (abs w) \<Longrightarrow> steps_from w w'"
  by (induction rule: runs_to_induct) (auto dest: steps_from_write [rotated])

end

section \<open>The writes of each handler\<close>

lemma written:
  "Users_Create (Users R) u w = (e, w') \<Longrightarrow> P (UserCreate u) \<Longrightarrow> runs_to R P w w'"
  "Orgs_Create (Orgs R) g w = (e, w') \<Longrightarrow> P (OrgCreate g) \<Longrightarrow> runs_to R P w w'"
  "Orgs_AddMember (Orgs R) i k ro w = (e, w') \<Longrightarrow> P (AddMember i k ro) \<Longrightarrow> runs_to R P w w'"
  "Orgs_RemoveMember (Orgs R) i k w = (e, w') \<Longrightarrow> P (RemoveMember i k) \<Longrightarrow> runs_to R P w w'"
  "Modules_Create (Modules R) m w = (e, w') \<Longrightarrow> P (ModuleCreate m) \<Longrightarrow> runs_to R P w w'"
  "Labels_Upsert (Labels R) l w = (e, w') \<Longrightarrow> P (LabelUpsert l) \<Longrightarrow> runs_to R P w w'"
  "Tokens_Create (Tokens R) t w = (e, w') \<Longrightarrow> P (TokenCreate t) \<Longrightarrow> runs_to R P w w'"
  "Tokens_Revoke (Tokens R) i k w = (e, w') \<Longrightarrow> P (TokenRevoke i k) \<Longrightarrow> runs_to R P w w'"
  "Tokens_DeleteByUserAndNote (Tokens R) k n w = (e, w') \<Longrightarrow> P (DeleteByUserAndNote k n) \<Longrightarrow> runs_to R P w w'"
  by (auto intro: runs_to_write [of R "UserCreate u" w e w' P] runs_to_write [of R "OrgCreate g" w e w' P]
      runs_to_write [of R "AddMember i k ro" w e w' P] runs_to_write [of R "RemoveMember i k" w e w' P]
      runs_to_write [of R "ModuleCreate m" w e w' P] runs_to_write [of R "LabelUpsert l" w e w' P]
      runs_to_write [of R "TokenCreate t" w e w' P] runs_to_write [of R "TokenRevoke i k" w e w' P]
      runs_to_write [of R "DeleteByUserAndNote k n" w e w' P])

text \<open>New accounts have well-formed names; everything else a registration could do is excluded.\<close>

definition registers :: "string \<Rightarrow> write_op \<Rightarrow> bool" where
  "registers un a \<longleftrightarrow> (\<exists>u. a = UserCreate u \<and> uUsername u = un \<and> good_name 3 un)"

lemma usernameRe_iff: "usernameRe s \<longleftrightarrow> good_name 3 s"
  using nameRe_iff [of s] by (simp only: usernameRe_def nameRe_def)

lemma register_writes:
  "register R openReg B salt E (Some (un, pw)) w = (r, w') \<Longrightarrow> runs_to R (registers un) w w'"
  by (auto simp: register_def usernameRe_iff registers_def Let_def intro: written
      split: if_splits sum.splits fetch.splits prod.splits option.splits)

text \<open>The token writes of one user.\<close>

definition token_op :: "string \<Rightarrow> write_op \<Rightarrow> bool" where
  "token_op uid a \<longleftrightarrow>
     (case a of
        TokenCreate t \<Rightarrow> tUserID t = uid
      | TokenRevoke i k \<Rightarrow> k = uid
      | DeleteByUserAndNote k n \<Rightarrow> k = uid
      | _ \<Rightarrow> False)"

lemma token_op_simps [simp]:
  "token_op uid (TokenCreate t) \<longleftrightarrow> tUserID t = uid" "token_op uid (TokenRevoke i k) \<longleftrightarrow> k = uid"
  "token_op uid (DeleteByUserAndNote k n) \<longleftrightarrow> k = uid"
  by (simp_all add: token_op_def)

lemma login_writes:
  assumes "login R B E (Some (un, pw)) w = (r, w')"
  shows "w' = w \<or> (\<exists>u. Users_GetByUsername (Users R) un w = Ret u \<and> CheckPassword B (uPasswordHash u) pw \<and>
     runs_to R (token_op (uID u)) w w')"
proof (cases "Users_GetByUsername (Users R) un w")
  case (Ret u)
  show ?thesis
  proof (cases "CheckPassword B (uPasswordHash u) pw")
    case True
    obtain e w1 where d: "Tokens_DeleteByUserAndNote (Tokens R) (uID u) ''login'' w = (e, w1)" by fastforce
    have "runs_to R (token_op (uID u)) w w1" by (rule written(9) [OF d]) simp
    moreover have "runs_to R (token_op (uID u)) w1 w'"
      using assms Ret True d by (auto simp: login_def Let_def intro: written(7) split: prod.splits option.splits)
    ultimately have "runs_to R (token_op (uID u)) w w'" by (rule runs_to_trans)
    with Ret True show ?thesis by blast
  qed (use assms Ret in \<open>simp add: login_def\<close>)
qed (use assms in \<open>simp add: login_def\<close>)

lemma createToken_writes: "createToken R E (Some u) body w = (r, w') \<Longrightarrow> runs_to R (token_op (uID u)) w w'"
  by (auto simp: createToken_def Let_def intro: written(7) split: prod.splits option.splits)

lemma revokeToken_writes: "revokeToken R (Some u) i w = (r, w') \<Longrightarrow> runs_to R (token_op (uID u)) w w'"
  by (auto simp: revokeToken_def intro: written(8) split: prod.splits option.splits)

text \<open>Founding an organization: create it and make the founder its administrator.\<close>

definition founds :: "string \<Rightarrow> write_op \<Rightarrow> bool" where
  "founds uid a \<longleftrightarrow> (\<exists>g. a = OrgCreate g \<and> good_name 3 (oName g)) \<or> (\<exists>i. a = AddMember i uid OrgRoleAdmin)"

lemma createOrg_writes:
  assumes "createOrg R E (Some u) body w = (r, w')"
  shows "runs_to R (founds (uID u)) w w'"
proof (cases body)
  case (Some name)
  let ?g = "\<lparr>oID = NewString E 0 0, oName = name, oCreatedAt = Now E 0 0\<rparr>"
  obtain e w1 where c: "Orgs_Create (Orgs R) ?g w = (e, w1)" by fastforce
  obtain e2 w2 where a: "Orgs_AddMember (Orgs R) (oID ?g) (uID u) OrgRoleAdmin w1 = (e2, w2)" by fastforce
  show ?thesis
  proof (cases "usernameRe name")
    case True
    then have r1: "runs_to R (founds (uID u)) w w1" using written(2) [OF c] by (simp add: founds_def usernameRe_iff)
    have "runs_to R (founds (uID u)) w1 w2" using written(3) [OF a] by (simp add: founds_def)
    from runs_to_trans [OF r1 this] have "runs_to R (founds (uID u)) w w2" .
    moreover have "w' = w1 \<or> w' = w2"
      using assms True c a by (auto simp: createOrg_def Some Let_def split: option.splits fetch.splits prod.splits)
    ultimately show ?thesis using r1 by auto
  qed (use assms Some in \<open>simp add: createOrg_def\<close>)
qed (use assms in \<open>simp add: createOrg_def\<close>)

lemma createOrganization_writes:
  assumes "createOrganization R E u i name w = (r, w')"
  shows "runs_to R (founds (uID u)) w w'"
proof -
  let ?g = "\<lparr>oID = NewString E i 0, oName = name, oCreatedAt = Now E i 0\<rparr>"
  obtain e w1 where c: "Orgs_Create (Orgs R) ?g w = (e, w1)" by fastforce
  obtain e2 w2 where a: "Orgs_AddMember (Orgs R) (oID ?g) (uID u) OrgRoleAdmin w1 = (e2, w2)" by fastforce
  show ?thesis
  proof (cases "nameRe name")
    case True
    then have r1: "runs_to R (founds (uID u)) w w1" using written(2) [OF c] by (simp add: founds_def nameRe_iff)
    have "runs_to R (founds (uID u)) w1 w2" using written(3) [OF a] by (simp add: founds_def)
    from runs_to_trans [OF r1 this] have "runs_to R (founds (uID u)) w w2" .
    moreover have "w' = w \<or> w' = w1 \<or> w' = w2"
      using assms True c a by (auto simp: createOrganization_def Let_def split: option.splits fetch.splits prod.splits)
    ultimately show ?thesis using r1 by auto
  qed (use assms in \<open>simp add: createOrganization_def\<close>)
qed

lemma CreateOrganizations_writes:
  "CreateOrganizations R E (Some u) names w = (r, w') \<Longrightarrow> runs_to R (founds (uID u)) w w'"
  unfolding CreateOrganizations_def option.case by (rule runs_to_for_each) (auto intro: createOrganization_writes)

lemma createUser_writes: "createUser R E i name w = (r, w') \<Longrightarrow> runs_to R (\<lambda>a. \<exists>un. registers un a) w w'"
  by (auto simp: createUser_def registers_def nameRe_iff Let_def intro: written(1)
      split: if_splits prod.splits option.splits fetch.splits)

lemma CreateUsers_writes:
  "CreateUsers R openReg E names w = (r, w') \<Longrightarrow> runs_to R (\<lambda>a. openReg \<and> (\<exists>un. registers un a)) w w'"
proof (cases openReg)
  case True
  assume "CreateUsers R openReg E names w = (r, w')"
  then have "for_each (createUser R E) 0 names [] w = (r, w')" by (simp add: CreateUsers_def True)
  then show ?thesis by (rule runs_to_for_each) (use True createUser_writes in simp)
qed (simp add: CreateUsers_def)

text \<open>Membership: one write, behind the check that the caller manages the organization.\<close>

definition membership_op :: "string \<Rightarrow> write_op \<Rightarrow> bool" where
  "membership_op org a \<longleftrightarrow>
     (\<exists>k ro. a = AddMember org k ro \<and> ro \<in> {OrgRoleAdmin, OrgRoleMember}) \<or> (\<exists>k. a = RemoveMember org k)"

lemma membership_written:
  "Orgs_AddMember (Orgs R) i k OrgRoleAdmin w = (e, w') \<Longrightarrow> runs_to R (membership_op i) w w'"
  "Orgs_AddMember (Orgs R) i k OrgRoleMember w = (e, w') \<Longrightarrow> runs_to R (membership_op i) w w'"
  "Orgs_RemoveMember (Orgs R) i k w = (e, w') \<Longrightarrow> runs_to R (membership_op i) w w'"
  by (erule written(3) written(4); simp add: membership_op_def)+

lemma addMember_writes:
  assumes "addMember R (Some u) orgName body w = (r, w')"
  shows "w' = w \<or> (\<exists>g. Orgs_GetByName (Orgs R) orgName w = Ret g \<and> CanManageOrgMembers (Auth R) (uID u) (oID g) w \<and>
     runs_to R (membership_op (oID g)) w w')"
  using assms
  by (auto simp: addMember_def Let_def dest: membership_written split: fetch.splits if_splits option.splits prod.splits)

lemma removeMember_writes:
  assumes "removeMember R (Some u) orgName un w = (r, w')"
  shows "w' = w \<or> (\<exists>g. Orgs_GetByName (Orgs R) orgName w = Ret g \<and> CanManageOrgMembers (Auth R) (uID u) (oID g) w \<and>
     runs_to R (membership_op (oID g)) w w')"
  using assms
  by (auto simp: removeMember_def dest: membership_written split: fetch.splits if_splits option.splits prod.splits)

text \<open>Modules get fresh identifiers and well-formed names.\<close>

definition creates :: "env \<Rightarrow> write_op \<Rightarrow> bool" where
  "creates E a \<longleftrightarrow> (\<exists>m i. a = ModuleCreate m \<and> mID m = NewString E i 0 \<and> good_name 2 (mName m))"

lemma module_written:
  "Modules_Create (Modules R) m w = (e, w') \<Longrightarrow> mID m = NewString E i 0 \<Longrightarrow> good_name 2 (mName m) \<Longrightarrow>
     runs_to R (creates E) w w'"
  by (erule written(5)) (auto simp: creates_def)

lemma createModule_writes: "createModule R E u i v w = (r, w') \<Longrightarrow> runs_to R (creates E) w w'"
  by (auto simp: createModule_alt moduleNameRe_iff Let_def split: if_splits fetch.splits prod.splits option.splits)
     (erule module_written [where i = i]; simp)+

lemma CreateModules_writes: "CreateModules R E (Some u) vs w = (r, w') \<Longrightarrow> runs_to R (creates E) w w'"
  unfolding CreateModules_def option.case by (rule runs_to_for_each) (auto intro: createModule_writes)

lemma good_name_mono: "good_name j s \<Longrightarrow> i \<le> j \<Longrightarrow> good_name i s"
  by (auto simp: good_name_def)

lemma rest_createModule_writes: "rest_createModule R E (Some u) body w = (r, w') \<Longrightarrow> runs_to R (creates E) w w'"
  by (auto simp: rest_createModule_def usernameRe_iff Let_def
      split: option.splits if_splits fetch.splits prod.splits)
     (erule module_written [where i = 0]; simp add: good_name_mono [of 3 _ 2])+

lemma createOrUpdateLabel_writes:
  "createOrUpdateLabel R E u i v w = (r, w') \<Longrightarrow> runs_to R (\<lambda>a. \<exists>l. a = LabelUpsert l) w w'"
  by (auto simp: createOrUpdateLabel_def Let_def
      intro: written(6) [where P = "\<lambda>a. \<exists>l. a = LabelUpsert l"]
      split: option.splits label_ref.splits fetch.splits if_splits prod.splits)

lemma CreateOrUpdateLabels_writes:
  "CreateOrUpdateLabels R E (Some u) vs w = (r, w') \<Longrightarrow> runs_to R (\<lambda>a. \<exists>l. a = LabelUpsert l) w w'"
  unfolding CreateOrUpdateLabels_def option.case by (rule runs_to_for_each) (auto intro: createOrUpdateLabel_writes)

section \<open>Requests and the invariant of the content\<close>

definition account_op :: "write_op \<Rightarrow> bool" where
  "account_op a \<longleftrightarrow>
     (case a of ModuleCreate _ \<Rightarrow> False | SetVisibility _ _ \<Rightarrow> False | ModuleDelete _ \<Rightarrow> False
      | CommitCreate _ \<Rightarrow> False | LabelUpsert _ \<Rightarrow> False | _ \<Rightarrow> True)"

lemma account_opI:
  "registers un a \<Longrightarrow> account_op a" "token_op uid a \<Longrightarrow> account_op a" "founds uid a \<Longrightarrow> account_op a"
  "membership_op org a \<Longrightarrow> account_op a"
  by (auto simp: registers_def founds_def membership_op_def account_op_def token_op_def split: write_op.splits)

context repos_sound
begin

lemma account_op_keeps:
  assumes "do_write R a w = (e, w')" "account_op a"
  shows "rModules (abs w') = rModules (abs w)" "rCommits (abs w') = rCommits (abs w)" "rLabels (abs w') = rLabels (abs w)"
proof -
  have "rModules (abs w') = rModules (abs w) \<and> rCommits (abs w') = rCommits (abs w) \<and> rLabels (abs w') = rLabels (abs w)"
  proof (cases e)
    case (Some x)
    then show ?thesis using write_failed assms(1) by metis
  next
    case None
    then show ?thesis
      using assms
      by (cases a) (auto simp: account_op_def dest!: users_create orgs_create orgs_add orgs_remove tokens_create
          tokens_revoke tokens_delete_note tokens_delete_expired)
  qed
  then show "rModules (abs w') = rModules (abs w)" "rCommits (abs w') = rCommits (abs w)" "rLabels (abs w') = rLabels (abs w)"
    by blast+
qed

end

lemma content_inv_keep:
  assumes "content_inv reg blobs valid ok w"
    and "registry_keys (reg w')" "ok w'" "blobs w' = blobs w" "rCommits (reg w') = rCommits (reg w)"
    and "rLabels (reg w') = rLabels (reg w)" "keys_valid valid (reg w')"
  shows "content_inv reg blobs valid ok w'"
proof -
  have "labels_ok (reg w') = labels_ok (reg w)" unfolding labels_ok_def assms(5,6) ..
  moreover have "stored (blobs w') (reg w') = stored (blobs w) (reg w)" unfolding stored_def assms(4,5) ..
  ultimately show ?thesis using assms unfolding content_inv_def by simp
qed

context backend
begin

lemma runs_to_frame:
  "runs_to R P w w' \<Longrightarrow> blobs w' = blobs w \<and> (ok w \<longrightarrow> ok w')"
  by (induction rule: runs_to_induct) (auto dest: write_blobs write_ok)

lemma account_inv:
  assumes "runs_to R account_op w w'" "inv w"
  shows "inv w'"
  using assms(1)
proof (induction rule: runs_to_induct)
  case (step v a e v')
  note keep = account_op_keeps [OF step(3,2)]
  show ?case
  proof (rule content_inv_keep [OF step(1)])
    show "registry_keys (abs v')"
      using steps_from_write [OF steps_from_refl step(3)] step(1) by (simp add: content_inv_def)
    show "ok v'" using step(1) write_ok [OF step(3)] by (simp add: content_inv_def)
    have "keys_valid valid (abs v') = keys_valid valid (abs v)" unfolding keys_valid_def keep ..
    then show "keys_valid valid (abs v')" using step(1) unfolding content_inv_def by simp
  qed (simp_all add: keep write_blobs [OF step(3)])
qed (rule assms(2))

lemma creates_inv:
  assumes "runs_to R (creates E) w w'" "inv w" "\<And>i d. valid (storage_key (NewString E i 0) (commit_id d))"
  shows "inv w'"
  using assms(1)
proof (induction rule: runs_to_induct)
  case (step v a e v')
  from step(2) obtain m j where a: "a = ModuleCreate m" "mID m = NewString E j 0" by (auto simp: creates_def)
  have "(e \<noteq> None \<longrightarrow> abs v' = abs v) \<and> (e = None \<longrightarrow> abs v' = (abs v)\<lparr>rModules := insert (with_default m) (rModules (abs v))\<rparr>)"
    using step(3) write_failed [of a v _ v'] modules_create [of m v v'] by (auto simp: a)
  moreover have "keys_valid valid (abs v)" using step(1) unfolding content_inv_def by simp
  ultimately have e: "rCommits (abs v') = rCommits (abs v)" "rLabels (abs v') = rLabels (abs v)"
      "keys_valid valid (abs v')"
    using assms(3) [of j] a(2) by (cases e; auto simp: keys_valid_def)+
  show ?case
  proof (rule content_inv_keep [OF step(1)])
    show "registry_keys (abs v')"
      using steps_from_write [OF steps_from_refl step(3)] step(1) by (simp add: content_inv_def)
    show "ok v'" using step(1) write_ok [OF step(3)] by (simp add: content_inv_def)
  qed (simp_all add: e write_blobs [OF step(3)])
qed (rule assms(2))

end

end
