(* ===== verification/Module_Correct.thy ===== *)
theory Module_Correct
  imports Content_Correct Label_Service Fds_Service
begin

text \<open>
  The module, commit and label services are correct: what they read is what the registry holds
  and the caller may see, a module that may not be read answers like one that is not there, and
  what they write is authorized and leaves the registry's invariants alone.
\<close>

section \<open>Reading modules\<close>

text \<open>The specification: the module a reference designates, and the identifier of a module's owner.\<close>

definition designates :: "Registry \<Rightarrow> module_ref \<Rightarrow> Module \<Rightarrow> bool" where
  "designates r ref m \<longleftrightarrow> m \<in> rModules r \<and>
     (case ref of
        ModuleByName own n \<Rightarrow> mOwnerName m = own \<and> mName m = n
      | ModuleById i \<Rightarrow> i \<noteq> [] \<and> mID m = i
      | NoModuleRef \<Rightarrow> False)"

definition owner_is :: "Registry \<Rightarrow> Module \<Rightarrow> string \<Rightarrow> bool" where
  "owner_is r m i \<longleftrightarrow>
     (if mOwnerType m = OwnerTypeUser then
        (if \<exists>u\<in>rUsers r. uUsername u = mOwnerName m
         then \<exists>u\<in>rUsers r. uUsername u = mOwnerName m \<and> uID u = i else i = [])
      else
        (if \<exists>g\<in>rOrgs r. oName g = mOwnerName m
         then \<exists>g\<in>rOrgs r. oName g = mOwnerName m \<and> oID g = i else i = []))"

definition shows_module :: "Registry \<Rightarrow> Module \<Rightarrow> proto_module \<Rightarrow> bool" where
  "shows_module r m p \<longleftrightarrow>
     pm_id p = mID m \<and> pm_name p = mName m \<and> owner_is r m (pm_owner_id p) \<and>
     (pm_visibility p = VISIBILITY_PUBLIC \<longleftrightarrow> mVisibility m = VisibilityPublic) \<and>
     pm_create_time p = mCreatedAt m"

lemma moduleToProto_id [simp]: "pm_id (moduleToProto m i) = mID m"
  by (simp add: moduleToProto_def)

lemma moduleToProto_shows: "owner_is r m i \<Longrightarrow> shows_module r m (moduleToProto m i)"
  by (simp add: shows_module_def moduleToProto_def)

text \<open>A reference that names something; the handler refuses the others as malformed.\<close>

definition well_formed :: "module_ref \<Rightarrow> bool" where
  "well_formed ref \<longleftrightarrow> ref \<noteq> NoModuleRef \<and> ref \<noteq> ModuleById []"

definition visible_as :: "Registry \<Rightarrow> string \<Rightarrow> module_ref \<Rightarrow> proto_module \<Rightarrow> bool" where
  "visible_as r uid ref p \<longleftrightarrow> (\<exists>m. designates r ref m \<and> may_read r uid m \<and> shows_module r m p)"

context repos_reads_total
begin

lemma get_module_by_id_iff:
  "registry_keys (abs w) \<Longrightarrow> Modules_GetByID (Modules R) i w = Ret m \<longleftrightarrow> m \<in> rModules (abs w) \<and> mID m = i"
  using mod_by_id.get_iff [of w i m] by (simp add: registry_keys_def)

lemma owner_id_exact:
  assumes "registry_keys (abs w)"
  shows "owner_is (abs w) m (resolveOwnerIDHelper R m w)"
proof -
  have u: "(\<exists>u\<in>rUsers (abs w). uUsername u = mOwnerName m) \<longleftrightarrow> (\<exists>u. Users_GetByUsername (Users R) (mOwnerName m) w = Ret u)"
    using assms user_by_name.get_iff [of w "mOwnerName m"] by (auto simp: registry_keys_def)
  have g: "(\<exists>g\<in>rOrgs (abs w). oName g = mOwnerName m) \<longleftrightarrow> (\<exists>g. Orgs_GetByName (Orgs R) (mOwnerName m) w = Ret g)"
    using assms org_by_name.get_iff [of w "mOwnerName m"] by (auto simp: registry_keys_def)
  show ?thesis
    using user_by_name.get_Ret [of "mOwnerName m" w] org_by_name.get_Ret [of "mOwnerName m" w]
    unfolding owner_is_def u g resolveOwnerIDHelper_def by (auto split: fetch.splits)
qed

end

context registry_exact
begin

lemma getModuleRef_lookup:
  assumes "registry_keys (abs w)" "well_formed ref"
  obtains f :: "(db_error, Module) fetch" where "getModuleRef R caller w ref = (case f of
        RetErr _ e \<Rightarrow> Inl (ConnectError CodeNotFound ''module not found'')
      | Ret m \<Rightarrow> if \<not> may_read (abs w) (userID caller) m
          then Inl (ConnectError CodeNotFound ''module not found'')
          else Inr (moduleToProto m (resolveOwnerIDHelper R m w)))"
    and "\<And>m. designates (abs w) ref m \<longleftrightarrow> f = Ret m"
proof (cases ref)
  case (ModuleByName own n)
  show thesis
  proof (rule that [of "Modules_Get (Modules R) own n w"])
    show "designates (abs w) ref m \<longleftrightarrow> Modules_Get (Modules R) own n w = Ret m" for m
      by (simp add: designates_def ModuleByName get_module_iff [OF assms(1)])
  qed (cases "Modules_Get (Modules R) own n w",
       simp_all add: getModuleRef_def ModuleByName verdicts [OF assms(1)] mod_by_name_total)
next
  case (ModuleById i)
  show thesis
  proof (rule that [of "Modules_GetByID (Modules R) i w"])
    show "designates (abs w) ref m \<longleftrightarrow> Modules_GetByID (Modules R) i w = Ret m" for m
      using assms(2) by (simp add: designates_def ModuleById get_module_by_id_iff [OF assms(1)] well_formed_def)
  qed (use assms(2) in \<open>cases "Modules_GetByID (Modules R) i w",
       simp_all add: getModuleRef_def ModuleById verdicts [OF assms(1)] mod_by_id_total well_formed_def\<close>)
qed (use assms(2) in \<open>simp add: well_formed_def\<close>)

lemma getModuleRef_ill_formed:
  "\<not> well_formed ref \<Longrightarrow> getModuleRef R caller w ref =
     Inl (ConnectError CodeInvalidArgument ''module ref must have name or id'')"
  by (cases ref) (auto simp: well_formed_def getModuleRef_def)

lemma designates_well_formed: "designates r ref m \<Longrightarrow> well_formed ref"
  by (cases ref) (auto simp: designates_def well_formed_def)

lemma getModuleRef_exact:
  assumes keys: "registry_keys (abs w)"
  shows "getModuleRef R caller w ref = Inr p \<Longrightarrow> visible_as (abs w) (userID caller) ref p"
    and "(\<exists>p. getModuleRef R caller w ref = Inr p) \<longleftrightarrow>
           (\<exists>m. designates (abs w) ref m \<and> may_read (abs w) (userID caller) m)"
    and "well_formed ref \<Longrightarrow> \<nexists>m. designates (abs w) ref m \<and> may_read (abs w) (userID caller) m \<Longrightarrow>
           getModuleRef R caller w ref = Inl (ConnectError CodeNotFound ''module not found'')"
proof -
  have "(getModuleRef R caller w ref = Inr p \<longrightarrow> visible_as (abs w) (userID caller) ref p) \<and>
    ((\<exists>p. getModuleRef R caller w ref = Inr p) \<longleftrightarrow>
       (\<exists>m. designates (abs w) ref m \<and> may_read (abs w) (userID caller) m)) \<and>
    ((\<nexists>m. designates (abs w) ref m \<and> may_read (abs w) (userID caller) m) \<longrightarrow>
       getModuleRef R caller w ref = Inl (ConnectError CodeNotFound ''module not found''))"
    if "well_formed ref"
  proof (rule getModuleRef_lookup [OF keys that, of caller])
    fix f :: "(db_error, Module) fetch"
    assume f: "getModuleRef R caller w ref = (case f of
        RetErr _ e \<Rightarrow> Inl (ConnectError CodeNotFound ''module not found'')
      | Ret m \<Rightarrow> if \<not> may_read (abs w) (userID caller) m
          then Inl (ConnectError CodeNotFound ''module not found'')
          else Inr (moduleToProto m (resolveOwnerIDHelper R m w)))"
      and d: "\<And>m. designates (abs w) ref m \<longleftrightarrow> f = Ret m"
    show ?thesis
    proof (cases f)
      case (Ret m)
      then show ?thesis
        using moduleToProto_shows [OF owner_id_exact [OF keys, of m]]
        by (cases "may_read (abs w) (userID caller) m") (auto simp: f d visible_as_def)
    qed (simp add: f d)
  qed
  moreover have "\<not> well_formed ref \<Longrightarrow> \<not> designates (abs w) ref m" for m using designates_well_formed by blast
  ultimately show "getModuleRef R caller w ref = Inr p \<Longrightarrow> visible_as (abs w) (userID caller) ref p"
    and "(\<exists>p. getModuleRef R caller w ref = Inr p) \<longleftrightarrow>
           (\<exists>m. designates (abs w) ref m \<and> may_read (abs w) (userID caller) m)"
    and "well_formed ref \<Longrightarrow> \<nexists>m. designates (abs w) ref m \<and> may_read (abs w) (userID caller) m \<Longrightarrow>
           getModuleRef R caller w ref = Inl (ConnectError CodeNotFound ''module not found'')"
    using getModuleRef_ill_formed [of ref caller w] by (metis Inl_Inr_False)+
qed

lemma GetModules_answers:
  assumes "registry_keys (abs w)" "GetModules R caller refs w = Inr ps"
  shows "list_all2 (visible_as (abs w) (userID caller)) refs ps"
proof -
  from assms(2) have "list_all2 (\<lambda>x r. getModuleRef R caller w x = Inr r) refs ps"
    by (simp add: GetModules_def collect_Inr_iff)
  then show ?thesis by (rule list_all2_mono) (rule getModuleRef_exact(1) [OF assms(1)])
qed

lemma GetModules_succeeds:
  assumes "registry_keys (abs w)"
  shows "(\<exists>ps. GetModules R caller refs w = Inr ps) \<longleftrightarrow>
     (\<forall>ref\<in>set refs. \<exists>m. designates (abs w) ref m \<and> may_read (abs w) (userID caller) m)"
  unfolding GetModules_def collect_succeeds getModuleRef_exact(2) [OF assms] ..

end

context registry_exact
begin

lemma listOwner_total: "ref_GetName ref \<noteq> [] \<Longrightarrow> \<exists>ps. listOwner R caller w ref = Inr ps"
  using modules_list_ok [of "ref_GetName ref" w] by (auto simp: listOwner_def resolveOwnerRefName_def)

lemma listOwner_exact:
  assumes keys: "registry_keys (abs w)" and l: "listOwner R caller w ref = Inr ps"
  shows "p \<in> set ps \<Longrightarrow> \<exists>m\<in>rModules (abs w). mOwnerName m = ref_GetName ref \<and>
           may_read (abs w) (userID caller) m \<and> shows_module (abs w) m p"
    and "m \<in> rModules (abs w) \<Longrightarrow> mOwnerName m = ref_GetName ref \<Longrightarrow>
           may_read (abs w) (userID caller) m \<Longrightarrow> \<exists>p\<in>set ps. shows_module (abs w) m p"
proof -
  from l obtain ms where ms: "Modules_List (Modules R) (ref_GetName ref) w = Inr ms"
      and ps: "ps = map (\<lambda>m. moduleToProto m (resolveOwnerIDHelper R m w))
        (filter (\<lambda>m. CanReadModule (Auth R) (userID caller) m w) ms)"
    by (auto simp: listOwner_def resolveOwnerRefName_def Let_def split: if_splits sum.splits)
  note facts = modules_list [OF ms] moduleToProto_shows [OF owner_id_exact [OF keys]]
  show "p \<in> set ps \<Longrightarrow> \<exists>m\<in>rModules (abs w). mOwnerName m = ref_GetName ref \<and>
           may_read (abs w) (userID caller) m \<and> shows_module (abs w) m p"
    and "m \<in> rModules (abs w) \<Longrightarrow> mOwnerName m = ref_GetName ref \<Longrightarrow>
           may_read (abs w) (userID caller) m \<Longrightarrow> \<exists>p\<in>set ps. shows_module (abs w) m p"
    using facts by (auto simp: ps verdicts [OF keys])
qed

lemma ListModules_exact:
  assumes "registry_keys (abs w)" "\<forall>ref\<in>set refs. ref_GetName ref \<noteq> []"
  obtains ps where "ListModules R caller refs w = Inr ps"
    and "\<forall>p\<in>set ps. \<exists>m\<in>rModules (abs w). mOwnerName m \<in> ref_GetName ` set refs \<and>
           may_read (abs w) (userID caller) m \<and> shows_module (abs w) m p"
    and "\<forall>m\<in>rModules (abs w). mOwnerName m \<in> ref_GetName ` set refs \<longrightarrow>
           may_read (abs w) (userID caller) m \<longrightarrow> (\<exists>p\<in>set ps. shows_module (abs w) m p)"
proof -
  have "\<forall>ref\<in>set refs. \<exists>ps. listOwner R caller w ref = Inr ps"
    using assms(2) listOwner_total by blast
  then obtain pss where c: "collect (listOwner R caller w) refs [] = Inr pss" using collect_succeeds by metis
  then have all: "list_all2 (\<lambda>ref ps. listOwner R caller w ref = Inr ps) refs pss" by (simp add: collect_Inr_iff)
  have owner: "\<exists>ref\<in>set refs. listOwner R caller w ref = Inr ps" if "ps \<in> set pss" for ps
    using list_all2_elem(1) [OF all that] .
  have listed: "\<exists>ps\<in>set pss. listOwner R caller w ref = Inr ps" if "ref \<in> set refs" for ref
    using list_all2_elem(2) [OF all that] .
  show thesis
  proof (rule that)
    show "ListModules R caller refs w = Inr (concat pss)" by (simp add: ListModules_def c)
    show "\<forall>p\<in>set (concat pss). \<exists>m\<in>rModules (abs w). mOwnerName m \<in> ref_GetName ` set refs \<and>
           may_read (abs w) (userID caller) m \<and> shows_module (abs w) m p"
    proof
      fix p assume "p \<in> set (concat pss)"
      then obtain ps where ps: "ps \<in> set pss" "p \<in> set ps" by auto
      from owner [OF ps(1)] obtain ref where ref: "ref \<in> set refs" "listOwner R caller w ref = Inr ps" by blast
      show "\<exists>m\<in>rModules (abs w). mOwnerName m \<in> ref_GetName ` set refs \<and>
           may_read (abs w) (userID caller) m \<and> shows_module (abs w) m p"
        using listOwner_exact(1) [OF assms(1) ref(2) ps(2)] ref(1) by blast
    qed
    show "\<forall>m\<in>rModules (abs w). mOwnerName m \<in> ref_GetName ` set refs \<longrightarrow>
           may_read (abs w) (userID caller) m \<longrightarrow> (\<exists>p\<in>set (concat pss). shows_module (abs w) m p)"
    proof (intro ballI impI)
      fix m assume m: "m \<in> rModules (abs w)" "mOwnerName m \<in> ref_GetName ` set refs" "may_read (abs w) (userID caller) m"
      then obtain ref where ref: "ref \<in> set refs" "mOwnerName m = ref_GetName ref" by auto
      from listed [OF ref(1)] obtain ps where ps: "ps \<in> set pss" "listOwner R caller w ref = Inr ps" by blast
      show "\<exists>p\<in>set (concat pss). shows_module (abs w) m p"
        using listOwner_exact(2) [OF assms(1) ps(2) m(1) ref(2) m(3)] ps(1) by auto
    qed
  qed
qed

end

section \<open>Creating modules\<close>

text \<open>
  What a request of \<open>u\<close> to create modules may have done between two registries: new modules lie under
  owners where \<open>u\<close> may create, have well-formed names, and nothing else changed.
\<close>

definition within_create :: "User \<Rightarrow> Registry \<Rightarrow> Registry \<Rightarrow> bool" where
  "within_create u r r' \<longleftrightarrow>
     r' = r\<lparr>rModules := rModules r'\<rparr> \<and> rModules r \<subseteq> rModules r' \<and>
     (\<forall>m\<in>rModules r' - rModules r.
        may_create r (uID u) (mOwnerName m) \<and> good_name 2 (mName m) \<and>
        mOwnerType m = (if mOwnerName m = uUsername u then OwnerTypeUser else OwnerTypeOrg))"

lemma within_create_refl: "within_create u r r"
  by (simp add: within_create_def)

lemma may_create_modules [simp]: "may_create (r\<lparr>rModules := M\<rparr>) uid own = may_create r uid own"
  by (simp add: may_create_def has_name_def has_role_def)

lemma within_create_trans:
  assumes "within_create u r r'" "within_create u r' r''"
  shows "within_create u r r''"
proof -
  have r': "r' = r\<lparr>rModules := rModules r'\<rparr>" and r'': "r'' = r'\<lparr>rModules := rModules r''\<rparr>"
    using assms by (simp_all add: within_create_def)
  then obtain M M' where M: "r' = r\<lparr>rModules := M\<rparr>" "r'' = r'\<lparr>rModules := M'\<rparr>" by blast
  then have eq: "r'' = r\<lparr>rModules := rModules r''\<rparr>" by simp
  have "may_create r' uid own = may_create r uid own" for uid own by (simp add: M)
  then show ?thesis using assms eq unfolding within_create_def by blast
qed

context registry_sound
begin

lemma createModule_cases:
  assumes "createModule R E u i v w = (r, w')"
  obtains (kept) e where "r = Inl e" "abs w' = abs w"
  | (created) "r = Inr (moduleToProto (requested_module E u i v)
        (resolveOwnerIDHelper R (requested_module E u i v) w'))"
      "may_create (abs w) (uID u) (resolveOwnerRefName (cm_owner_ref v))" "good_name 2 (cm_name v)"
      "Modules_Create (Modules R) (requested_module E u i v) w = (None, w')"
proof (cases "CanCreateModule (Auth R) (uID u) (resolveOwnerRefName (cm_owner_ref v)) w \<and>
    moduleNameRe (cm_name v) \<and> Modules_Create (Modules R) (requested_module E u i v) w = (None, w') \<and>
    (\<exists>p. r = Inr p)")
  case True
  then have "r = Inr (moduleToProto (requested_module E u i v)
        (resolveOwnerIDHelper R (requested_module E u i v) w'))"
    using assms by (auto simp: createModule_alt Let_def split: fetch.splits)
  with True create_sound created show thesis unfolding moduleNameRe_iff by blast
next
  case False
  then have "(\<exists>e. r = Inl e) \<and> abs w' = abs w"
    using assms
    by (auto simp: createModule_alt Let_def dest: modules_create_err
        split: if_splits fetch.splits prod.splits option.splits)
  with kept show thesis by blast
qed

lemma createModule_within:
  assumes "createModule R E u i v w = (r, w')"
  shows "within_create u (abs w) (abs w')"
proof (cases rule: createModule_cases [OF assms])
  case 2
  from modules_create [OF 2(4)] 2(2,3) show ?thesis
    by (auto simp: within_create_def requested_module_def resolveOwnerTypeFromName_def Let_def)
qed (simp add: within_create_refl)

lemma CreateModules_within:
  assumes "CreateModules R E (Some u) vs w = (r, w')"
  shows "within_create u (abs w) (abs w')"
proof -
  from assms have f: "for_each (createModule R E u) 0 vs [] w = (r, w')" by (simp add: CreateModules_def)
  show ?thesis
    by (rule for_each_preserves [OF f, where I = "\<lambda>v. within_create u (abs w) (abs v)"])
       (use createModule_within within_create_trans within_create_refl in blast)+
qed

end

context registry_reliable
begin

lemma createModule_exact:
  fixes v
  defines "own \<equiv> resolveOwnerRefName (cm_owner_ref v)"
  assumes keys: "registry_keys (abs w)" and fresh: "\<forall>m\<in>rModules (abs w). mID m \<noteq> NewString E i 0"
  shows "\<not> may_create (abs w) (uID u) own \<Longrightarrow>
      createModule R E u i v w = reject CodePermissionDenied (''cannot create modules under: '' @ own) w"
    and "may_create (abs w) (uID u) own \<Longrightarrow> \<not> good_name 2 (cm_name v) \<Longrightarrow>
      createModule R E u i v w = reject CodeInvalidArgument
        ''module name must be 2-39 chars, lowercase alphanumeric and hyphens'' w"
    and "may_create (abs w) (uID u) own \<Longrightarrow> good_name 2 (cm_name v) \<Longrightarrow>
      \<exists>m\<in>rModules (abs w). module_key m = (own, cm_name v) \<Longrightarrow>
      createModule R E u i v w = reject CodeAlreadyExists (''module already exists: '' @ own @ ''/'' @ cm_name v) w"
    and "may_create (abs w) (uID u) own \<Longrightarrow> good_name 2 (cm_name v) \<Longrightarrow>
      \<forall>m\<in>rModules (abs w). module_key m \<noteq> (own, cm_name v) \<Longrightarrow>
      \<exists>w' p. createModule R E u i v w = (Inr p, w') \<and>
        abs w' = (abs w)\<lparr>rModules := insert (requested_module E u i v) (rModules (abs w))\<rparr> \<and>
        shows_module (abs w') (requested_module E u i v) p"
proof -
  note go = createModule_alt [of R E u i v w, folded own_def] moduleNameRe_iff verdicts [OF keys] Let_def
  show "\<not> may_create (abs w) (uID u) own \<Longrightarrow>
      createModule R E u i v w = reject CodePermissionDenied (''cannot create modules under: '' @ own) w"
    by (simp add: go)
  show "may_create (abs w) (uID u) own \<Longrightarrow> \<not> good_name 2 (cm_name v) \<Longrightarrow>
      createModule R E u i v w = reject CodeInvalidArgument
        ''module name must be 2-39 chars, lowercase alphanumeric and hyphens'' w"
    by (simp add: go)
  show "createModule R E u i v w = reject CodeAlreadyExists (''module already exists: '' @ own @ ''/'' @ cm_name v) w"
    if "may_create (abs w) (uID u) own" "good_name 2 (cm_name v)" "\<exists>m\<in>rModules (abs w). module_key m = (own, cm_name v)"
  proof -
    from that(3) obtain m where "Modules_Get (Modules R) own (cm_name v) w = Ret m"
      using get_module_iff [OF keys, of own "cm_name v"] by auto
    then show ?thesis using that(1,2) by (simp add: go)
  qed
  assume ok: "may_create (abs w) (uID u) own" "good_name 2 (cm_name v)"
    and none: "\<forall>m\<in>rModules (abs w). module_key m \<noteq> (own, cm_name v)"
  obtain p where miss: "Modules_Get (Modules R) own (cm_name v) w = RetErr p ErrNotFound"
    using mod_by_name.get_not_found [of w "(own, cm_name v)"] none by auto
  have "\<forall>m\<in>rModules (abs w). mID m \<noteq> mID (requested_module E u i v) \<and>
      module_key m \<noteq> module_key (requested_module E u i v)"
    using fresh none by (simp add: own_def)
  from modules_create_ok [OF this] obtain w'
    where cr: "Modules_Create (Modules R) (requested_module E u i v) w = (None, w')" by blast
  have abs': "abs w' = (abs w)\<lparr>rModules := insert (requested_module E u i v) (rModules (abs w))\<rparr>"
    using modules_create [OF cr] by simp
  have "registry_keys (abs w')"
    using steps_from_write [of w w "ModuleCreate (requested_module E u i v)" None w'] cr keys by simp
  from moduleToProto_shows [OF owner_id_exact [OF this]] cr miss ok abs'
  show "\<exists>w' p. createModule R E u i v w = (Inr p, w') \<and>
        abs w' = (abs w)\<lparr>rModules := insert (requested_module E u i v) (rModules (abs w))\<rparr> \<and>
        shows_module (abs w') (requested_module E u i v) p"
    by (intro exI [of _ w'] exI) (auto simp: go)
qed

end

section \<open>Moving labels\<close>

definition administrable :: "Registry \<Rightarrow> string \<Rightarrow> string \<Rightarrow> bool" where
  "administrable r uid mid \<longleftrightarrow> (\<exists>m\<in>rModules r. mID m = mid \<and> may_admin r uid m)"

text \<open>A request of \<open>uid\<close> moved labels only in modules it administers, and only to commits that are there.\<close>

definition within_labels :: "string \<Rightarrow> Registry \<Rightarrow> Registry \<Rightarrow> bool" where
  "within_labels uid r r' \<longleftrightarrow>
     only_labels r r' \<and> (labels_ok r \<longrightarrow> labels_ok r') \<and>
     (\<forall>x. \<not> administrable r uid (lModuleID x) \<longrightarrow> (x \<in> rLabels r' \<longleftrightarrow> x \<in> rLabels r))"

lemma within_labels_refl: "within_labels uid r r"
  by (simp add: within_labels_def)

lemma administrable_only_labels: "only_labels r r' \<Longrightarrow> administrable r' uid i = administrable r uid i"
  using only_labels_simps [of r r'] by (simp add: administrable_def may_admin_def has_name_def has_role_def)

lemma within_labels_trans:
  assumes "within_labels uid r r'" "within_labels uid r' r''"
  shows "within_labels uid r r''"
  using assms only_labels_trans administrable_only_labels [of r r' uid]
  unfolding within_labels_def by metis

text \<open>The label a value asks for.\<close>

definition requested_label :: "env \<Rightarrow> nat \<Rightarrow> Module \<Rightarrow> string \<Rightarrow> string \<Rightarrow> Label" where
  "requested_label E i m n cid =
     \<lparr>lID = NewString E i 0, lModuleID = mID m, lName = n, lCommitID = cid, lCreatedAt = Now E i 0,
      lUpdatedAt = Now E i 0\<rparr>"

lemma requested_label_simps [simp]:
  "lID (requested_label E i m n cid) = NewString E i 0" "lModuleID (requested_label E i m n cid) = mID m"
  "lName (requested_label E i m n cid) = n" "lCommitID (requested_label E i m n cid) = cid"
  by (simp_all add: requested_label_def)

context registry_sound
begin

lemma createOrUpdateLabel_cases:
  assumes "createOrUpdateLabel R E u i v w = (r, w')"
  obtains (kept) e where "r = Inl e" "abs w' = abs w"
  | (moved) own md n m where "lv_label_ref v = Some (LabelByName own md n)"
      "m \<in> rModules (abs w)" "mOwnerName m = own" "mName m = md" "may_admin (abs w) (uID u) m"
      "has_commit (abs w) (mID m) (lv_commit_id v)"
      "Labels_Upsert (Labels R) (requested_label E i m n (lv_commit_id v)) w = (None, w')"
      "r = Inr (labelToProto (requested_label E i m n (lv_commit_id v)) (resolveOwnerIDHelper R m w'))"
proof (cases "\<exists>own md n m c. lv_label_ref v = Some (LabelByName own md n) \<and>
    Modules_Get (Modules R) own md w = Ret m \<and> CanAdminModule (Auth R) (uID u) m w \<and>
    Commits_GetByID (Commits R) (mID m) (lv_commit_id v) w = Ret c \<and>
    Labels_Upsert (Labels R) (requested_label E i m n (lv_commit_id v)) w = (None, w')")
  case True
  then obtain own md n m c where c: "lv_label_ref v = Some (LabelByName own md n)"
    "Modules_Get (Modules R) own md w = Ret m" "CanAdminModule (Auth R) (uID u) m w"
    "Commits_GetByID (Commits R) (mID m) (lv_commit_id v) w = Ret c"
    "Labels_Upsert (Labels R) (requested_label E i m n (lv_commit_id v)) w = (None, w')" by blast
  then have "r = Inr (labelToProto (requested_label E i m n (lv_commit_id v)) (resolveOwnerIDHelper R m w'))"
    using assms by (simp add: createOrUpdateLabel_def Let_def requested_label_def)
  moreover have "has_commit (abs w) (mID m) (lv_commit_id v)"
    using commit_by_id.get_Ret [of "(mID m, lv_commit_id v)" w c] c(4) by (auto simp: has_commit_def)
  ultimately show thesis
    using moved [OF c(1), of m] c mod_by_name.get_Ret [of "(own, md)" w m] admin_sound [OF c(3)] by simp
next
  case False
  then have "(\<exists>e. r = Inl e) \<and> abs w' = abs w"
    using assms
    by (auto simp: createOrUpdateLabel_def Let_def requested_label_def dest: labels_upsert_err
        split: option.splits label_ref.splits fetch.splits if_splits prod.splits)
  with kept show thesis by blast
qed

lemma createOrUpdateLabel_within:
  assumes "registry_keys (abs w)" "createOrUpdateLabel R E u i v w = (r, w')"
  shows "within_labels (uID u) (abs w) (abs w') \<and> steps_from w w'"
proof (cases rule: createOrUpdateLabel_cases [OF assms(2)])
  case 1
  then show ?thesis using assms(1) by (simp add: within_labels_refl)
next
  case (2 own md n m)
  let ?l = "requested_label E i m n (lv_commit_id v)"
  have up: "upsert_label ?l (rLabels (abs w)) (rLabels (abs w'))" and ol: "only_labels (abs w) (abs w')"
    using labels_upsert [OF 2(7)] assms(1) by (auto simp: registry_keys_def only_labels_def)
  have "labels_ok (abs w) \<longrightarrow> labels_ok (abs w')" using upsert_labels_ok [OF _ up ol] 2(6) by simp
  moreover have "administrable (abs w) (uID u) (mID m)" using 2 by (auto simp: administrable_def)
  then have "\<forall>x. \<not> administrable (abs w) (uID u) (lModuleID x) \<longrightarrow> (x \<in> rLabels (abs w') \<longleftrightarrow> x \<in> rLabels (abs w))"
    using upsert_points(2) [OF up] by (metis prod.inject requested_label_simps(2))
  moreover have "steps_from w w'"
    using steps_from_write [of w w "LabelUpsert ?l" None w'] 2(7) assms(1) by simp
  ultimately show ?thesis using ol by (simp add: within_labels_def)
qed

lemma CreateOrUpdateLabels_within:
  assumes "registry_keys (abs w)" "CreateOrUpdateLabels R E (Some u) vs w = (r, w')"
  shows "within_labels (uID u) (abs w) (abs w') \<and> steps_from w w'"
proof -
  from assms(2) have f: "for_each (createOrUpdateLabel R E u) 0 vs [] w = (r, w')"
    by (simp add: CreateOrUpdateLabels_def)
  show ?thesis
  proof (rule for_each_preserves [OF f, where I = "\<lambda>v. within_labels (uID u) (abs w) (abs v) \<and> steps_from w v"])
    show "within_labels (uID u) (abs w) (abs w) \<and> steps_from w w" using assms(1) by (simp add: within_labels_refl)
    fix j x v r' v'
    assume I: "within_labels (uID u) (abs w) (abs v) \<and> steps_from w v" and b: "createOrUpdateLabel R E u j x v = (r', v')"
    from createOrUpdateLabel_within [OF _ b] I
    show "within_labels (uID u) (abs w) (abs v') \<and> steps_from w v'"
      using within_labels_trans rtranclp_trans [of reg_step] by blast
  qed
qed

end

context registry_reliable
begin

lemma createOrUpdateLabel_exact:
  assumes keys: "registry_keys (abs w)" and fresh: "\<forall>l\<in>rLabels (abs w). lID l \<noteq> NewString E i 0"
    and ref: "lv_label_ref v = Some (LabelByName own md n)"
  shows "\<forall>m\<in>rModules (abs w). module_key m \<noteq> (own, md) \<Longrightarrow>
      createOrUpdateLabel R E u i v w = reject CodeNotFound ''module not found'' w"
    and "m \<in> rModules (abs w) \<Longrightarrow> module_key m = (own, md) \<Longrightarrow> \<not> may_admin (abs w) (uID u) m \<Longrightarrow>
      createOrUpdateLabel R E u i v w = reject CodePermissionDenied ''no admin access'' w"
    and "m \<in> rModules (abs w) \<Longrightarrow> module_key m = (own, md) \<Longrightarrow> may_admin (abs w) (uID u) m \<Longrightarrow>
      \<not> has_commit (abs w) (mID m) (lv_commit_id v) \<Longrightarrow>
      createOrUpdateLabel R E u i v w = reject CodeInvalidArgument ''commit not found in module'' w"
    and "m \<in> rModules (abs w) \<Longrightarrow> module_key m = (own, md) \<Longrightarrow> may_admin (abs w) (uID u) m \<Longrightarrow>
      has_commit (abs w) (mID m) (lv_commit_id v) \<Longrightarrow>
      \<exists>w' p. createOrUpdateLabel R E u i v w = (Inr p, w') \<and>
        upsert_label (requested_label E i m n (lv_commit_id v)) (rLabels (abs w)) (rLabels (abs w')) \<and>
        only_labels (abs w) (abs w') \<and> pl_name p = n \<and> pl_module_id p = mID m \<and> pl_commit_id p = lv_commit_id v"
proof -
  show "\<forall>m\<in>rModules (abs w). module_key m \<noteq> (own, md) \<Longrightarrow>
      createOrUpdateLabel R E u i v w = reject CodeNotFound ''module not found'' w"
    using mod_by_name.get_not_found [of w "(own, md)"] by (auto simp: createOrUpdateLabel_def ref)
  assume m: "m \<in> rModules (abs w)" "module_key m = (own, md)"
  then have g: "Modules_Get (Modules R) own md w = Ret m" using get_module_iff [OF keys, of own md m] by simp
  show "\<not> may_admin (abs w) (uID u) m \<Longrightarrow>
      createOrUpdateLabel R E u i v w = reject CodePermissionDenied ''no admin access'' w"
    by (simp add: createOrUpdateLabel_def ref g verdicts [OF keys])
  assume a: "may_admin (abs w) (uID u) m"
  show "createOrUpdateLabel R E u i v w = reject CodeInvalidArgument ''commit not found in module'' w"
    if "\<not> has_commit (abs w) (mID m) (lv_commit_id v)"
  proof -
    have "\<forall>c\<in>rCommits (abs w). commit_key c \<noteq> (mID m, lv_commit_id v)" using that by (auto simp: has_commit_def)
    then obtain p where "Commits_GetByID (Commits R) (mID m) (lv_commit_id v) w = RetErr p ErrNotFound"
      using commit_by_id.get_not_found [of w "(mID m, lv_commit_id v)"] by auto
    then show ?thesis by (simp add: createOrUpdateLabel_def ref g a verdicts [OF keys])
  qed
  assume h: "has_commit (abs w) (mID m) (lv_commit_id v)"
  then obtain c where c: "Commits_GetByID (Commits R) (mID m) (lv_commit_id v) w = Ret c"
    using get_commit_iff [OF keys, of m "lv_commit_id v"] by (auto simp: has_commit_def identified_def)
  let ?l = "requested_label E i m n (lv_commit_id v)"
  from labels_upsert_ok [of w ?l] fresh obtain w' where up: "Labels_Upsert (Labels R) ?l w = (None, w')" by auto
  have "createOrUpdateLabel R E u i v w = (Inr (labelToProto ?l (resolveOwnerIDHelper R m w')), w')"
    using up by (simp add: createOrUpdateLabel_def ref g a c verdicts [OF keys] requested_label_def Let_def)
  moreover have "upsert_label ?l (rLabels (abs w)) (rLabels (abs w'))" "only_labels (abs w) (abs w')"
    using labels_upsert [OF up] keys by (auto simp: registry_keys_def only_labels_def)
  ultimately show "\<exists>w' p. createOrUpdateLabel R E u i v w = (Inr p, w') \<and>
        upsert_label (requested_label E i m n (lv_commit_id v)) (rLabels (abs w)) (rLabels (abs w')) \<and>
        only_labels (abs w) (abs w') \<and> pl_name p = n \<and> pl_module_id p = mID m \<and> pl_commit_id p = lv_commit_id v"
    by (auto simp: labelToProto_def)
qed

end

section \<open>Reading commits and labels\<close>

text \<open>The modules of a registry that a caller may read, by identifier.\<close>

definition readable :: "Registry \<Rightarrow> string \<Rightarrow> string \<Rightarrow> bool" where
  "readable r uid mid \<longleftrightarrow> (\<exists>m\<in>rModules r. mID m = mid \<and> may_read r uid m)"

lemma readableI: "m \<in> rModules r \<Longrightarrow> may_read r uid m \<Longrightarrow> readable r uid (mID m)"
  by (auto simp: readable_def)

context registry_reads
begin

lemma resolved_readable:
  assumes "resolveResourceRef R ref w = Inr (m, co)" "CanReadModule (Auth R) uid m w"
  shows "readable (abs w) uid (mID m)"
  by (rule resolve_module [OF assms(1)]) (rule readableI, assumption, rule read_sound [OF assms(2)])

lemma getModuleRef_readable: "getModuleRef R caller w ref = Inr p \<Longrightarrow> readable (abs w) (userID caller) (pm_id p)"
  using mod_by_name.get_Ret [of "(own, n)" w for own n] mod_by_id.get_Ret [of _ w] read_sound [of "userID caller" _ w]
  by (cases ref) (auto simp: getModuleRef_def readable_def split: if_splits fetch.splits, blast)

lemma listOwner_readable:
  assumes "listOwner R caller w ref = Inr ps" "p \<in> set ps"
  shows "readable (abs w) (userID caller) (pm_id p)"
proof -
  from assms obtain ms m where ms: "Modules_List (Modules R) (ref_GetName ref) w = Inr ms" "m \<in> set ms"
      "CanReadModule (Auth R) (userID caller) m w" "pm_id p = mID m"
    by (auto simp: listOwner_def resolveOwnerRefName_def Let_def moduleToProto_def split: if_splits sum.splits)
  with modules_list [OF ms(1)] have "m \<in> rModules (abs w)" by auto
  with ms(3,4) readableI read_sound show ?thesis by metis
qed

lemma getCommit_readable:
  assumes "getCommit R caller w ref = Inr p"
  shows "readable (abs w) (userID caller) (pc_module_id p)"
proof -
  from assms obtain m c where c: "resolveResourceRef R (Some ref) w = Inr (m, Some c)"
      "CanReadModule (Auth R) (userID caller) m w" "pc_module_id p = cModuleID c"
    by (auto simp: getCommit_def commitToProto_def split: sum.splits prod.splits if_splits option.splits)
  with resolved_readable [OF c(1,2)] resolve_commit(2) [OF c(1)] show ?thesis by simp
qed

lemma getLabel_readable:
  assumes "getLabel R caller w ref = Inr p"
  shows "readable (abs w) (userID caller) (pl_module_id p)"
proof -
  from assms obtain own md n m l where l: "Modules_Get (Modules R) own md w = Ret m"
      "CanReadModule (Auth R) (userID caller) m w" "Labels_Get (Labels R) (mID m) n w = Ret l"
      "pl_module_id p = lModuleID l"
    by (auto simp: getLabel_def labelToProto_def split: label_ref.splits fetch.splits if_splits)
  have "m \<in> rModules (abs w)" using mod_by_name.get_Ret [of "(own, md)" w m] l(1) by simp
  moreover have "lModuleID l = mID m" using label_by_name.get_Ret [of "(mID m, n)" w l] l(3) by simp
  ultimately show ?thesis using readableI read_sound [OF l(2)] l(4) by metis
qed

lemma ListCommits_readable:
  assumes "ListCommits R caller ref w = Inr ps" "p \<in> set ps"
  shows "readable (abs w) (userID caller) (pc_module_id p)"
proof -
  from assms obtain m co cs c where c: "resolveResourceRef R ref w = Inr (m, co)"
      "CanReadModule (Auth R) (userID caller) m w" "Commits_ListByModule (Commits R) (mID m) w = Inr cs" "c \<in> set cs"
      "pc_module_id p = cModuleID c"
    by (auto simp: ListCommits_def commitToProto_def Let_def split: sum.splits prod.splits if_splits)
  with commits_list [OF c(3)] have "cModuleID c = mID m" by auto
  with resolved_readable [OF c(1,2)] c(5) show ?thesis by simp
qed

lemma ListLabels_readable:
  assumes "ListLabels R caller ref w = Inr ps" "p \<in> set ps"
  shows "readable (abs w) (userID caller) (pl_module_id p)"
proof -
  from assms obtain m co ls l where l: "resolveResourceRef R ref w = Inr (m, co)"
      "CanReadModule (Auth R) (userID caller) m w" "Labels_List (Labels R) (mID m) w = Inr ls" "l \<in> set ls"
      "pl_module_id p = lModuleID l"
    by (auto simp: ListLabels_def labelToProto_def Let_def split: sum.splits prod.splits if_splits)
  with labels_list [OF l(3)] have "lModuleID l = mID m" by auto
  with resolved_readable [OF l(1,2)] l(5) show ?thesis by simp
qed

lemma reads_readable:
  shows "GetModules R caller mrefs w = Inr ms \<Longrightarrow> \<forall>p\<in>set ms. readable (abs w) (userID caller) (pm_id p)"
    and "ListModules R caller orefs w = Inr ms' \<Longrightarrow> \<forall>p\<in>set ms'. readable (abs w) (userID caller) (pm_id p)"
    and "GetCommits R caller rrefs w = Inr cs \<Longrightarrow> \<forall>p\<in>set cs. readable (abs w) (userID caller) (pc_module_id p)"
    and "ListCommits R caller rref w = Inr cs' \<Longrightarrow> \<forall>p\<in>set cs'. readable (abs w) (userID caller) (pc_module_id p)"
    and "GetLabels R caller lrefs w = Inr ls \<Longrightarrow> \<forall>p\<in>set ls. readable (abs w) (userID caller) (pl_module_id p)"
    and "ListLabels R caller rref w = Inr ls' \<Longrightarrow> \<forall>p\<in>set ls'. readable (abs w) (userID caller) (pl_module_id p)"
proof -
  show "GetModules R caller mrefs w = Inr ms \<Longrightarrow> \<forall>p\<in>set ms. readable (abs w) (userID caller) (pm_id p)"
    unfolding GetModules_def using collect_elem [of "getModuleRef R caller w" mrefs ms] getModuleRef_readable by blast
  show "GetCommits R caller rrefs w = Inr cs \<Longrightarrow> \<forall>p\<in>set cs. readable (abs w) (userID caller) (pc_module_id p)"
    unfolding GetCommits_def using collect_elem [of "getCommit R caller w" rrefs cs] getCommit_readable by blast
  show "GetLabels R caller lrefs w = Inr ls \<Longrightarrow> \<forall>p\<in>set ls. readable (abs w) (userID caller) (pl_module_id p)"
    unfolding GetLabels_def using collect_elem [of "getLabel R caller w" lrefs ls] getLabel_readable by blast
  show "ListCommits R caller rref w = Inr cs' \<Longrightarrow> \<forall>p\<in>set cs'. readable (abs w) (userID caller) (pc_module_id p)"
    using ListCommits_readable by blast
  show "ListLabels R caller rref w = Inr ls' \<Longrightarrow> \<forall>p\<in>set ls'. readable (abs w) (userID caller) (pl_module_id p)"
    using ListLabels_readable by blast
  assume "ListModules R caller orefs w = Inr ms'"
  then obtain pss where "collect (listOwner R caller w) orefs [] = Inr pss" "ms' = concat pss"
    by (cases "collect (listOwner R caller w) orefs []") (auto simp: ListModules_def)
  then show "\<forall>p\<in>set ms'. readable (abs w) (userID caller) (pm_id p)"
    using collect_elem [of "listOwner R caller w" orefs pss] listOwner_readable by fastforce
qed

end

context registry_reads
begin

lemma GetFileDescriptorSet_readable:
  assumes "GetFileDescriptorSet R S Z compile caller ref w = Inr (fds, p)"
  shows "readable (abs w) (userID caller) (pc_module_id p)"
proof -
  from assms obtain m co where "resolveResourceRef R ref w = Inr (m, co)"
      "CanReadModule (Auth R) (userID caller) m w" "pc_module_id p = mID m"
    by (auto simp: GetFileDescriptorSet_def Let_def split: sum.splits prod.splits if_splits option.splits)
  with resolved_readable show ?thesis by metis
qed

end

context registry_exact
begin

lemma commit_reads_exact:
  assumes keys: "registry_keys (abs w)" and d: "denotes (abs w) n m co" and rd: "may_read (abs w) (userID caller) m"
  defines "oid \<equiv> resolveOwnerIDHelper R m w"
  shows "\<exists>cs. ListCommits R caller (Some (ResourceByName n)) w = Inr (map (\<lambda>c. commitToProto c oid) cs) \<and>
      set cs = {c \<in> rCommits (abs w). cModuleID c = mID m} \<and> sorted_wrt (\<lambda>a b. cCreatedAt b \<le> cCreatedAt a) cs"
    and "\<exists>ls. ListLabels R caller (Some (ResourceByName n)) w = Inr (map (\<lambda>l. labelToProto l oid) ls) \<and>
      set ls = {l \<in> rLabels (abs w). lModuleID l = mID m}"
    and "GetCommits R caller [ResourceByName n] w =
      (case co of None \<Rightarrow> Inl (ConnectError CodeNotFound ''no commits found'') | Some c \<Rightarrow> Inr [commitToProto c oid])"
proof -
  have r: "resolveResourceRef R (Some (ResourceByName n)) w = Inr (m, co)" using resolve_exact [OF keys] d by blast
  obtain cs where cs: "Commits_ListByModule (Commits R) (mID m) w = Inr cs" using commits_list_ok by blast
  obtain ls where ls: "Labels_List (Labels R) (mID m) w = Inr ls" using labels_list_ok by blast
  show "\<exists>cs. ListCommits R caller (Some (ResourceByName n)) w = Inr (map (\<lambda>c. commitToProto c oid) cs) \<and>
      set cs = {c \<in> rCommits (abs w). cModuleID c = mID m} \<and> sorted_wrt (\<lambda>a b. cCreatedAt b \<le> cCreatedAt a) cs"
    using commits_list [OF cs] by (auto simp: ListCommits_def r cs verdicts [OF keys] rd oid_def)
  show "\<exists>ls. ListLabels R caller (Some (ResourceByName n)) w = Inr (map (\<lambda>l. labelToProto l oid) ls) \<and>
      set ls = {l \<in> rLabels (abs w). lModuleID l = mID m}"
    using labels_list [OF ls] by (auto simp: ListLabels_def r ls verdicts [OF keys] rd oid_def)
  show "GetCommits R caller [ResourceByName n] w =
      (case co of None \<Rightarrow> Inl (ConnectError CodeNotFound ''no commits found'') | Some c \<Rightarrow> Inr [commitToProto c oid])"
    by (simp add: GetCommits_def getCommit_def r verdicts [OF keys] rd oid_def split: option.splits)
qed

end

section \<open>Properties\<close>

lemma sql_registry_reads:
  "gorm_db G \<Longrightarrow> casbin_sound enf \<Longrightarrow> registry_reads (sql_repos enf G :: 'z SqlDB_scheme Repos) sql_abs"
  using gorm_db.registry_sound_sql [of G enf, where 'a = 'z] repos_sound.axioms(1)
  unfolding registry_sound_def registry_reads_def by blast

lemma sql_registry_exact:
  "gorm_db_reliable G \<Longrightarrow> casbin_matches enf \<Longrightarrow> registry_exact (sql_repos enf G :: 'z SqlDB_scheme Repos) sql_abs"
  using gorm_db_reliable.registry_reliable_sql [of G enf, where 'a = 'z] repos_reliable.axioms(2)
  unfolding registry_reliable_def registry_exact_def by blast

lemma sql_resolve:
  fixes d :: "'z SqlDB_scheme"
  assumes "gorm_db_reliable G" "casbin_matches enf" "registry_keys (sql_abs d)"
  shows "resolveResourceRef (sql_repos enf G) (Some (ResourceByName n)) d = Inr (m, co) \<longleftrightarrow>
     denotes (sql_abs d) n m co"
proof -
  have "repos_reads_total (sql_repos enf G :: 'z SqlDB_scheme Repos) sql_abs"
    using sql_registry_exact [OF assms(1,2), where 'z = 'z] by (simp add: registry_exact_def)
  from repos_reads_total.resolve_exact [OF this assms(3)] show ?thesis .
qed

text \<open>
  C15. The reading services of the registry keep private modules private, whatever database or Casbin
  calls fail: every module, commit, label and descriptor set they answer with belongs to a module
  the caller may read. An anonymous caller only ever sees public modules.
\<close>

theorem connect_reads_confidential:
  fixes d :: "'z SqlDB_scheme"
  assumes "gorm_db G" "casbin_sound enf"
  shows "(\<forall>ms. GetModules (sql_repos enf G) caller mrefs d = Inr ms \<longrightarrow>
       (\<forall>p\<in>set ms. readable (sql_abs d) (userID caller) (pm_id p))) \<and>
    (\<forall>ms. ListModules (sql_repos enf G) caller orefs d = Inr ms \<longrightarrow>
       (\<forall>p\<in>set ms. readable (sql_abs d) (userID caller) (pm_id p))) \<and>
    (\<forall>cs. GetCommits (sql_repos enf G) caller rrefs d = Inr cs \<longrightarrow>
       (\<forall>p\<in>set cs. readable (sql_abs d) (userID caller) (pc_module_id p))) \<and>
    (\<forall>cs. ListCommits (sql_repos enf G) caller rref d = Inr cs \<longrightarrow>
       (\<forall>p\<in>set cs. readable (sql_abs d) (userID caller) (pc_module_id p))) \<and>
    (\<forall>ls. GetLabels (sql_repos enf G) caller lrefs d = Inr ls \<longrightarrow>
       (\<forall>p\<in>set ls. readable (sql_abs d) (userID caller) (pl_module_id p))) \<and>
    (\<forall>ls. ListLabels (sql_repos enf G) caller rref d = Inr ls \<longrightarrow>
       (\<forall>p\<in>set ls. readable (sql_abs d) (userID caller) (pl_module_id p))) \<and>
    (\<forall>fds p. GetFileDescriptorSet (sql_repos enf G) S Z compile caller rref d = Inr (fds, p) \<longrightarrow>
       readable (sql_abs d) (userID caller) (pc_module_id p)) \<and>
    (readable (sql_abs d) '''' i \<longrightarrow> (\<exists>m\<in>rModules (sql_abs d). mID m = i \<and> mVisibility m = VisibilityPublic))"
proof -
  note R = sql_registry_reads [OF assms, where 'z = 'z]
  show ?thesis
    by (intro conjI allI impI;
        (erule registry_reads.reads_readable [OF R] registry_reads.GetFileDescriptorSet_readable [OF R]
         | auto simp: readable_def))
qed

theorem connect_reads_confidential_witness:
  "\<nexists>p. GetModules (sql_repos policy_enforcer list_gorm) None [ModuleById ''m1''] demo_db = Inr [p] \<and> pm_id p = ''m1''"
proof -
  have "\<not> readable (sql_abs demo_db) (userID None) ''m1''" by (auto simp: readable_def demo_defs)
  then show ?thesis
    using connect_reads_confidential [OF list_db.gorm_db_axioms casbin_matches_sound [OF policy_enforcer_matches],
        of None "[ModuleById ''m1'']" demo_db]
    by (metis list.set_intros(1))
qed

text \<open>
  C29. \<^verbatim>\<open>GetModules\<close> answers exactly what the registry holds and the caller may read: it succeeds when every
  reference designates such a module, and then lists them in the order of the references, with the
  owner's identifier; a module the caller may not read is answered like one that does not exist.
\<close>

theorem GetModules_exact:
  fixes d :: "'z SqlDB_scheme"
  assumes "gorm_db_reliable G" "casbin_matches enf" "registry_keys (sql_abs d)"
  shows "((\<exists>ps. GetModules (sql_repos enf G) caller refs d = Inr ps) \<longleftrightarrow>
       (\<forall>ref\<in>set refs. \<exists>m. designates (sql_abs d) ref m \<and> may_read (sql_abs d) (userID caller) m)) \<and>
    (\<forall>ps. GetModules (sql_repos enf G) caller refs d = Inr ps \<longrightarrow>
       list_all2 (visible_as (sql_abs d) (userID caller)) refs ps) \<and>
    (well_formed ref \<and> (\<nexists>m. designates (sql_abs d) ref m \<and> may_read (sql_abs d) (userID caller) m) \<longrightarrow>
       GetModules (sql_repos enf G) caller [ref] d = Inl (ConnectError CodeNotFound ''module not found''))"
proof -
  note R = sql_registry_exact [OF assms(1,2), where 'z = 'z]
  show ?thesis
    using registry_exact.GetModules_succeeds [OF R assms(3), of caller refs]
      registry_exact.GetModules_answers [OF R assms(3), of caller refs]
      registry_exact.getModuleRef_exact(3) [OF R assms(3), of ref caller]
    by (simp add: GetModules_def)
qed

theorem GetModules_exact_witness:
  "(\<exists>ps. GetModules (sql_repos policy_enforcer list_gorm)
      (Some \<lparr>uID = ''u2'', uUsername = ''bob'', uPasswordHash = ''h2'', uCreatedAt = 2\<rparr>)
      [ModuleByName ''acme'' ''api'', ModuleById ''m1''] demo_db = Inr ps) \<and>
   GetModules (sql_repos policy_enforcer list_gorm) None [ModuleByName ''acme'' ''api''] demo_db =
     GetModules (sql_repos policy_enforcer list_gorm) None [ModuleByName ''acme'' ''nope''] demo_db"
proof -
  note E = GetModules_exact [OF list_db.gorm_db_reliable_axioms policy_enforcer_matches demo_keys]
  have m: "demo_module \<in> rModules (sql_abs demo_db)" by (simp add: demo_defs)
  have "may_write (sql_abs demo_db) ''u2'' demo_module" by (simp add: may_write_def has_role_def demo_defs)
  then have "\<exists>ps. GetModules (sql_repos policy_enforcer list_gorm)
      (Some \<lparr>uID = ''u2'', uUsername = ''bob'', uPasswordHash = ''h2'', uCreatedAt = 2\<rparr>)
      [ModuleByName ''acme'' ''api'', ModuleById ''m1''] demo_db = Inr ps"
    using m by (subst E [THEN conjunct1]) (auto simp: designates_def may_read_def demo_module_def intro!: exI [of _ demo_module])
  moreover have "GetModules (sql_repos policy_enforcer list_gorm) None [ref] demo_db =
      Inl (ConnectError CodeNotFound ''module not found'')"
    if "ref \<in> {ModuleByName ''acme'' ''api'', ModuleByName ''acme'' ''nope''}" for ref
    using E [of None "[]" ref] that by (auto simp: well_formed_def designates_def demo_defs)
  ultimately show ?thesis by simp
qed

text \<open>
  C35. \<^verbatim>\<open>ListModules\<close> lists exactly the modules of the given owners that the caller may read: every entry shows such a module, and
  every such module has an entry.
\<close>

theorem list_modules_exact:
  fixes d :: "'z SqlDB_scheme"
  assumes "gorm_db_reliable G" "casbin_matches enf" "registry_keys (sql_abs d)" "\<forall>ref\<in>set refs. ref_GetName ref \<noteq> []"
  shows "\<exists>ps. ListModules (sql_repos enf G) caller refs d = Inr ps \<and>
     (\<forall>p\<in>set ps. \<exists>m\<in>rModules (sql_abs d). mOwnerName m \<in> ref_GetName ` set refs \<and>
        may_read (sql_abs d) (userID caller) m \<and> shows_module (sql_abs d) m p) \<and>
     (\<forall>m\<in>rModules (sql_abs d). mOwnerName m \<in> ref_GetName ` set refs \<longrightarrow>
        may_read (sql_abs d) (userID caller) m \<longrightarrow> (\<exists>p\<in>set ps. shows_module (sql_abs d) m p))"
  by (rule registry_exact.ListModules_exact [OF sql_registry_exact [OF assms(1,2)] assms(3,4)]) blast

theorem list_modules_exact_witness:
  "ListModules (sql_repos policy_enforcer list_gorm) None [ByName ''acme''] demo_db = Inr [] \<and>
   (\<exists>ps. ListModules (sql_repos policy_enforcer list_gorm)
       (Some \<lparr>uID = ''u2'', uUsername = ''bob'', uPasswordHash = ''h2'', uCreatedAt = 2\<rparr>) [ByName ''acme''] demo_db = Inr ps \<and> ps \<noteq> [])"
proof -
  obtain ps where ps: "ListModules (sql_repos policy_enforcer list_gorm) None [ByName ''acme''] demo_db = Inr ps"
      "\<forall>p\<in>set ps. \<exists>m\<in>rModules (sql_abs demo_db). mVisibility m = VisibilityPublic"
    using list_modules_exact [OF list_db.gorm_db_reliable_axioms policy_enforcer_matches demo_keys,
        of "[ByName ''acme'']" None] by fastforce
  have "mVisibility m \<noteq> VisibilityPublic" if "m \<in> rModules (sql_abs demo_db)" for m
    using that by (auto simp: demo_defs)
  with ps have "ps = []" by (cases ps) auto
  moreover have "may_read (sql_abs demo_db) ''u2'' demo_module \<and> demo_module \<in> rModules (sql_abs demo_db) \<and> mOwnerName demo_module = ''acme''"
    by (auto simp: may_read_def may_write_def has_role_def demo_defs)
  then have "\<exists>ps. ListModules (sql_repos policy_enforcer list_gorm)
       (Some \<lparr>uID = ''u2'', uUsername = ''bob'', uPasswordHash = ''h2'', uCreatedAt = 2\<rparr>) [ByName ''acme''] demo_db = Inr ps \<and> ps \<noteq> []"
    using list_modules_exact [OF list_db.gorm_db_reliable_axioms policy_enforcer_matches demo_keys,
        of "[ByName ''acme'']" "Some \<lparr>uID = ''u2'', uUsername = ''bob'', uPasswordHash = ''h2'', uCreatedAt = 2\<rparr>"]
    by (fastforce simp: userID_def)
  ultimately show ?thesis using ps by simp
qed

text \<open>
  C28. \<^verbatim>\<open>CreateModules\<close> decides each value as documented: no permission, a bad name and a taken name are
  refused, in this order, and leave the registry alone; anything else creates exactly the requested
  module and answers with it.
\<close>

theorem CreateModules_exact:
  fixes d :: "'z SqlDB_scheme" and u :: User and v :: create_module_value
  defines "own \<equiv> resolveOwnerRefName (cm_owner_ref v)"
  assumes "gorm_db_reliable G" "casbin_matches enf" "registry_keys (sql_abs d)"
    and "\<forall>m\<in>rModules (sql_abs d). mID m \<noteq> NewString E 0 0"
  shows "CreateModules (sql_repos enf G) E None vs d =
      (Inl (ConnectError CodeUnauthenticated ''not authenticated''), d) \<and>
    (if \<not> may_create (sql_abs d) (uID u) own then
       CreateModules (sql_repos enf G) E (Some u) [v] d =
         (Inl (ConnectError CodePermissionDenied (''cannot create modules under: '' @ own)), d)
     else if \<not> good_name 2 (cm_name v) then
       CreateModules (sql_repos enf G) E (Some u) [v] d =
         (Inl (ConnectError CodeInvalidArgument
            ''module name must be 2-39 chars, lowercase alphanumeric and hyphens''), d)
     else if \<exists>m\<in>rModules (sql_abs d). module_key m = (own, cm_name v) then
       CreateModules (sql_repos enf G) E (Some u) [v] d =
         (Inl (ConnectError CodeAlreadyExists (''module already exists: '' @ own @ ''/'' @ cm_name v)), d)
     else
       \<exists>d' p. CreateModules (sql_repos enf G) E (Some u) [v] d = (Inr [p], d') \<and>
         sql_abs d' = (sql_abs d)\<lparr>rModules := insert (requested_module E u 0 v) (rModules (sql_abs d))\<rparr> \<and>
         shows_module (sql_abs d') (requested_module E u 0 v) p)"
proof -
  note R = gorm_db_reliable.registry_reliable_sql [OF assms(2,3), where 'a = 'z]
  note X = registry_reliable.createModule_exact [OF R assms(4,5), of u v, folded own_def]
  consider "\<not> may_create (sql_abs d) (uID u) own" | "may_create (sql_abs d) (uID u) own" "\<not> good_name 2 (cm_name v)"
    | "may_create (sql_abs d) (uID u) own" "good_name 2 (cm_name v)" "\<exists>m\<in>rModules (sql_abs d). module_key m = (own, cm_name v)"
    | "may_create (sql_abs d) (uID u) own" "good_name 2 (cm_name v)" "\<forall>m\<in>rModules (sql_abs d). module_key m \<noteq> (own, cm_name v)"
    by blast
  then show ?thesis
  proof cases
    case 1
    with X(1) show ?thesis by (simp add: CreateModules_def)
  next
    case 2
    with X(2) show ?thesis by (simp add: CreateModules_def)
  next
    case 3
    with X(3) [OF 3] show ?thesis by (auto simp: CreateModules_def)
  next
    case 4
    from X(4) [OF 4] 4 show ?thesis by (auto simp: CreateModules_def)
  qed
qed

definition demo_module_value :: create_module_value where
  "demo_module_value = \<lparr>cm_owner_ref = Some (ByName ''acme''), cm_name = ''web'', cm_visibility = VISIBILITY_PUBLIC\<rparr>"

theorem CreateModules_exact_witness:
  "(\<exists>d' p. CreateModules (sql_repos policy_enforcer list_gorm) demo_env
       (Some \<lparr>uID = ''u1'', uUsername = ''alice'', uPasswordHash = ''h1'', uCreatedAt = 1\<rparr>) [demo_module_value] demo_db =
       (Inr [p], d') \<and> card (rModules (sql_abs d')) = 2) \<and>
   CreateModules (sql_repos policy_enforcer list_gorm) demo_env
       (Some \<lparr>uID = ''u2'', uUsername = ''bob'', uPasswordHash = ''h2'', uCreatedAt = 2\<rparr>) [demo_module_value] demo_db =
       (Inl (ConnectError CodePermissionDenied ''cannot create modules under: acme''), demo_db)"
proof -
  let ?a = "\<lparr>uID = ''u1'', uUsername = ''alice'', uPasswordHash = ''h1'', uCreatedAt = 1\<rparr>"
  let ?b = "\<lparr>uID = ''u2'', uUsername = ''bob'', uPasswordHash = ''h2'', uCreatedAt = 2\<rparr>"
  have fresh: "\<forall>m\<in>rModules (sql_abs demo_db). mID m \<noteq> NewString demo_env 0 0" by (simp add: demo_defs demo_env_def)
  note E = CreateModules_exact [OF list_db.gorm_db_reliable_axioms policy_enforcer_matches demo_keys fresh,
      where v = demo_module_value, THEN conjunct2]
  have own: "resolveOwnerRefName (cm_owner_ref demo_module_value) = ''acme''"
    by (simp add: demo_module_value_def resolveOwnerRefName_def)
  have may: "may_create (sql_abs demo_db) ''u1'' ''acme''" "\<not> may_create (sql_abs demo_db) ''u2'' ''acme''"
    by (auto simp: may_create_def has_role_def has_name_def demo_defs)
  have name: "good_name 2 (cm_name demo_module_value)"
    by (simp add: good_name_def demo_module_value_def name_char_def)
  have new: "\<not> (\<exists>m\<in>rModules (sql_abs demo_db). module_key m = (''acme'', cm_name demo_module_value))"
    by (simp add: demo_defs demo_module_value_def)
  have card: "card (rModules (sql_abs demo_db\<lparr>rModules := insert (requested_module demo_env ?a 0 demo_module_value)
      (rModules (sql_abs demo_db))\<rparr>)) = 2"
    by (simp add: demo_defs requested_module_def demo_module_value_def Let_def resolveOwnerRefName_def card_insert_if)
  from E [of ?a] may(1) name new obtain d' p where
      "CreateModules (sql_repos policy_enforcer list_gorm) demo_env (Some ?a) [demo_module_value] demo_db = (Inr [p], d')"
      "sql_abs d' = (sql_abs demo_db)\<lparr>rModules := insert (requested_module demo_env ?a 0 demo_module_value)
         (rModules (sql_abs demo_db))\<rparr>"
    unfolding own by (auto split: if_splits)
  moreover from E [of ?b] may(2) have "CreateModules (sql_repos policy_enforcer list_gorm) demo_env (Some ?b) [demo_module_value] demo_db =
       (Inl (ConnectError CodePermissionDenied ''cannot create modules under: acme''), demo_db)"
    unfolding own by simp
  ultimately show ?thesis using card by metis
qed

text \<open>The example database with a commit and a label on it.\<close>

definition demo_history :: SqlDB where
  "demo_history = demo_db\<lparr>
     sq_commits := [\<lparr>c_id = ''c1'', c_module_id = ''m1'', c_storage_key = ''m1/c1'', c_manifest = '''',
                     c_created_by_user_id = ''u2'', c_created_at = 5\<rparr>,
                    \<lparr>c_id = ''c2'', c_module_id = ''m1'', c_storage_key = ''m1/c2'', c_manifest = '''',
                     c_created_by_user_id = ''u1'', c_created_at = 7\<rparr>],
     sq_labels := [\<lparr>l_id = ''l1'', l_module_id = ''m1'', l_name = ''main'', l_commit_id = ''c1'',
                    l_created_at = 5, l_updated_at = 5\<rparr>]\<rparr>"

lemmas demo_history_defs = demo_history_def demo_defs

lemma demo_history_keys: "registry_keys (sql_abs demo_history)"
  by (simp add: registry_keys_def demo_history_defs inj_on_def)

definition demo_move :: label_value where
  "demo_move = \<lparr>lv_label_ref = Some (LabelByName ''acme'' ''api'' ''main''), lv_commit_id = ''c2''\<rparr>"

text \<open>
  C21. An administrator moves a label to any commit of the module, and to nothing else: a commit of
  another module is refused, others are denied; after a success the label resolves to the commit
  for every reference by that label.
\<close>

theorem label_move_exact:
  fixes d :: "'z SqlDB_scheme"
  assumes "gorm_db_reliable G" "casbin_matches enf" "registry_keys (sql_abs d)"
    and "\<forall>l\<in>rLabels (sql_abs d). lID l \<noteq> NewString E 0 0"
    and "lv_label_ref v = Some (LabelByName own md n)" "m \<in> rModules (sql_abs d)" "module_key m = (own, md)"
    and "n \<noteq> []"
  shows "if \<not> may_admin (sql_abs d) (uID u) m then
      CreateOrUpdateLabels (sql_repos enf G) E (Some u) [v] d = (Inl (ConnectError CodePermissionDenied ''no admin access''), d)
    else if \<not> has_commit (sql_abs d) (mID m) (lv_commit_id v) then
      CreateOrUpdateLabels (sql_repos enf G) E (Some u) [v] d =
        (Inl (ConnectError CodeInvalidArgument ''commit not found in module''), d)
    else
      \<exists>p d' c. CreateOrUpdateLabels (sql_repos enf G) E (Some u) [v] d = (Inr [p], d') \<and>
        pl_name p = n \<and> pl_commit_id p = lv_commit_id v \<and> cID c = lv_commit_id v \<and>
        resolveResourceRef (sql_repos enf G)
          (Some (ResourceByName \<lparr>GetOwner = own, GetModule = md, child = ChildLabel n\<rparr>)) d' = Inr (m, Some c)"
proof -
  note R = gorm_db_reliable.registry_reliable_sql [OF assms(1,2), where 'a = 'z]
  note X = registry_reliable.createOrUpdateLabel_exact [OF R assms(3-5)]
  consider "\<not> may_admin (sql_abs d) (uID u) m" | "may_admin (sql_abs d) (uID u) m" "\<not> has_commit (sql_abs d) (mID m) (lv_commit_id v)"
    | "may_admin (sql_abs d) (uID u) m" "has_commit (sql_abs d) (mID m) (lv_commit_id v)" by blast
  then show ?thesis
  proof cases
    case 1
    with X(2) [OF assms(6,7) 1] show ?thesis by (simp add: CreateOrUpdateLabels_def)
  next
    case 2
    with X(3) [OF assms(6,7) 2] show ?thesis by (simp add: CreateOrUpdateLabels_def)
  next
    case 3
    from X(4) [OF assms(6,7) 3] obtain d' p where p: "createOrUpdateLabel (sql_repos enf G) E u 0 v d = (Inr p, d')"
        "upsert_label (requested_label E 0 m n (lv_commit_id v)) (rLabels (sql_abs d)) (rLabels (sql_abs d'))"
        "only_labels (sql_abs d) (sql_abs d')" "pl_name p = n" "pl_commit_id p = lv_commit_id v" by blast
    note same = only_labels_simps [OF p(3)]
    obtain c where c: "c \<in> rCommits (sql_abs d')" "cModuleID c = mID m" "cID c = lv_commit_id v"
      using 3(2) by (auto simp: has_commit_def same)
    have "labelled (sql_abs d') m n c" using upsert_points(1) [OF p(2)] c by (auto simp: labelled_def)
    then have "denotes (sql_abs d') \<lparr>GetOwner = own, GetModule = md, child = ChildLabel n\<rparr> m (Some c)"
      using assms(6-8) by (simp add: denotes_def chooses_def GetLabelName_def same)
    moreover have "registry_keys (sql_abs d')"
      using registry_sound.createOrUpdateLabel_within [OF gorm_db.registry_sound_sql _ p(1)] assms(1-3)
        gorm_db_reliable.axioms(1) casbin_matches_sound by blast
    ultimately have "resolveResourceRef (sql_repos enf G)
        (Some (ResourceByName \<lparr>GetOwner = own, GetModule = md, child = ChildLabel n\<rparr>)) d' = Inr (m, Some c)"
      using sql_resolve [OF assms(1,2)] by blast
    then show ?thesis using 3 p(1,4,5) c(3) by (auto simp: CreateOrUpdateLabels_def)
  qed
qed

theorem label_move_exact_witness:
  "\<exists>p d' c. CreateOrUpdateLabels (sql_repos policy_enforcer list_gorm) demo_env
       (Some \<lparr>uID = ''u1'', uUsername = ''alice'', uPasswordHash = ''h1'', uCreatedAt = 1\<rparr>) [demo_move] demo_history =
       (Inr [p], d') \<and> cID c = ''c2'' \<and>
     resolveResourceRef (sql_repos policy_enforcer list_gorm)
       (Some (ResourceByName \<lparr>GetOwner = ''acme'', GetModule = ''api'', child = ChildLabel ''main''\<rparr>)) d' =
       Inr (demo_module, Some c)"
proof -
  have f: "\<forall>l\<in>rLabels (sql_abs demo_history). lID l \<noteq> NewString demo_env 0 0"
    by (simp add: demo_history_defs demo_env_def)
  have v: "lv_label_ref demo_move = Some (LabelByName ''acme'' ''api'' ''main'')" "lv_commit_id demo_move = ''c2''"
    by (simp_all add: demo_move_def)
  have m: "demo_module \<in> rModules (sql_abs demo_history)" "module_key demo_module = (''acme'', ''api'')"
    by (simp_all add: demo_history_defs)
  have a: "may_admin (sql_abs demo_history) ''u1'' demo_module"
    by (simp add: may_admin_def has_role_def demo_history_defs)
  have c: "has_commit (sql_abs demo_history) (mID demo_module) ''c2''"
    by (simp add: has_commit_def demo_history_defs)
  from label_move_exact [OF list_db.gorm_db_reliable_axioms policy_enforcer_matches demo_history_keys f v(1) m,
      of "\<lparr>uID = ''u1'', uUsername = ''alice'', uPasswordHash = ''h1'', uCreatedAt = 1\<rparr>"] a c
  show ?thesis unfolding v(2) by (auto split: if_splits)
qed

text \<open>
  C17. A resource name resolves to exactly the module it names and the commit its child chooses (a label's
  commit; a commit identifier before a label of that spelling; the label \<^verbatim>\<open>main\<close>, or no commit when
  there is none); a name that denotes nothing, an identifier and an empty reference are errors.
\<close>

theorem resource_ref_exact:
  fixes d :: "'z SqlDB_scheme"
  assumes "gorm_db_reliable G" "casbin_matches enf" "registry_keys (sql_abs d)"
  shows "(resolveResourceRef (sql_repos enf G) (Some (ResourceByName n)) d = Inr (m, co) \<longleftrightarrow> denotes (sql_abs d) n m co) \<and>
    ((\<nexists>m co. denotes (sql_abs d) n m co) \<longrightarrow>
       (\<exists>msg. resolveResourceRef (sql_repos enf G) (Some (ResourceByName n)) d = Inl msg)) \<and>
    ((\<forall>m'\<in>rModules (sql_abs d). module_key m' \<noteq> (GetOwner n, GetModule n)) \<longrightarrow>
       resolveResourceRef (sql_repos enf G) (Some (ResourceByName n)) d =
         Inl (''module not found: '' @ GetOwner n @ ''/'' @ GetModule n)) \<and>
    (i \<noteq> [] \<longrightarrow> resolveResourceRef (sql_repos enf G) (Some (ResourceById i)) d =
       Inl ''ID-based resource ref not yet supported'') \<and>
    resolveResourceRef (sql_repos enf G) None d = Inl ''resource ref required''"
proof -
  note R = sql_registry_exact [OF assms(1,2), where 'z = 'z]
  then have T: "repos_reads_total (sql_repos enf G :: 'z SqlDB_scheme Repos) sql_abs" by (simp add: registry_exact_def)
  note res = sql_resolve [OF assms]
  have "\<exists>msg. resolveResourceRef (sql_repos enf G) (Some (ResourceByName n)) d = Inl msg"
    if "\<nexists>m co. denotes (sql_abs d) n m co"
    using that res [of n] by (cases "resolveResourceRef (sql_repos enf G) (Some (ResourceByName n)) d") auto
  moreover have "resolveResourceRef (sql_repos enf G) (Some (ResourceByName n)) d =
         Inl (''module not found: '' @ GetOwner n @ ''/'' @ GetModule n)"
    if none: "\<forall>m'\<in>rModules (sql_abs d). module_key m' \<noteq> (GetOwner n, GetModule n)"
  proof -
    obtain p where "Modules_Get (Modules (sql_repos enf G)) (GetOwner n) (GetModule n) d = RetErr p ErrNotFound"
      using repos_reads_total.get_module_iff [OF T assms(3), of "GetOwner n" "GetModule n"] none
        repos_reads_total.mod_by_name_total [OF T, of "GetOwner n" "GetModule n" d]
      by (cases "Modules_Get (Modules (sql_repos enf G)) (GetOwner n) (GetModule n) d") auto
    then show ?thesis by (simp add: resolveResourceRef_def)
  qed
  ultimately show ?thesis using res by (simp add: resolveResourceRef_def)
qed

theorem resource_ref_exact_witness:
  "denotes (sql_abs demo_history) \<lparr>GetOwner = ''acme'', GetModule = ''api'', child = NoChild\<rparr> demo_module
     (Some \<lparr>cID = ''c1'', cModuleID = ''m1'', cStorageKey = ''m1/c1'', cManifest = '''', cCreatedByUserID = ''u2'', cCreatedAt = 5\<rparr>) \<and>
   resolveResourceRef (sql_repos policy_enforcer list_gorm)
     (Some (ResourceByName \<lparr>GetOwner = ''acme'', GetModule = ''api'', child = NoChild\<rparr>)) demo_history =
     Inr (demo_module, Some \<lparr>cID = ''c1'', cModuleID = ''m1'', cStorageKey = ''m1/c1'', cManifest = '''',
       cCreatedByUserID = ''u2'', cCreatedAt = 5\<rparr>)"
proof -
  have "denotes (sql_abs demo_history) \<lparr>GetOwner = ''acme'', GetModule = ''api'', child = NoChild\<rparr> demo_module
     (Some \<lparr>cID = ''c1'', cModuleID = ''m1'', cStorageKey = ''m1/c1'', cManifest = '''', cCreatedByUserID = ''u2'', cCreatedAt = 5\<rparr>)"
    by (simp add: denotes_def chooses_def labelled_def GetLabelName_def GetRef_def demo_history_defs)
  with resource_ref_exact [OF list_db.gorm_db_reliable_axioms policy_enforcer_matches demo_history_keys]
  show ?thesis by blast
qed

text \<open>
  C30. The history services are exact: for a module the caller may read, \<^verbatim>\<open>ListCommits\<close> answers with all and
  only its commits, newest first, \<^verbatim>\<open>ListLabels\<close> with its labels, and \<^verbatim>\<open>GetCommits\<close> with the commit the
  reference denotes, or that there is none.
\<close>

theorem commit_history_exact:
  fixes d :: "'z SqlDB_scheme"
  assumes "gorm_db_reliable G" "casbin_matches enf" "registry_keys (sql_abs d)"
    and "denotes (sql_abs d) n m co" "may_read (sql_abs d) (userID caller) m"
  shows "\<exists>oid cs ls. owner_is (sql_abs d) m oid \<and>
    ListCommits (sql_repos enf G) caller (Some (ResourceByName n)) d = Inr (map (\<lambda>c. commitToProto c oid) cs) \<and>
    set cs = {c \<in> rCommits (sql_abs d). cModuleID c = mID m} \<and> sorted_wrt (\<lambda>a b. cCreatedAt b \<le> cCreatedAt a) cs \<and>
    ListLabels (sql_repos enf G) caller (Some (ResourceByName n)) d = Inr (map (\<lambda>l. labelToProto l oid) ls) \<and>
    set ls = {l \<in> rLabels (sql_abs d). lModuleID l = mID m} \<and>
    GetCommits (sql_repos enf G) caller [ResourceByName n] d =
      (case co of None \<Rightarrow> Inl (ConnectError CodeNotFound ''no commits found'') | Some c \<Rightarrow> Inr [commitToProto c oid])"
proof -
  note R = sql_registry_exact [OF assms(1,2), where 'z = 'z]
  then have T: "repos_reads_total (sql_repos enf G :: 'z SqlDB_scheme Repos) sql_abs" by (simp add: registry_exact_def)
  note X = registry_exact.commit_reads_exact [OF R assms(3-5)]
  show ?thesis
    by (rule exI [of _ "resolveOwnerIDHelper (sql_repos enf G) m d"])
       (use X repos_reads_total.owner_id_exact [OF T assms(3), of m] in blast)
qed

theorem commit_history_exact_witness:
  "\<exists>ps. ListCommits (sql_repos policy_enforcer list_gorm)
      (Some \<lparr>uID = ''u2'', uUsername = ''bob'', uPasswordHash = ''h2'', uCreatedAt = 2\<rparr>)
      (Some (ResourceByName \<lparr>GetOwner = ''acme'', GetModule = ''api'', child = NoChild\<rparr>)) demo_history = Inr ps \<and>
     pc_id ` set ps = {''c1'', ''c2''}"
proof -
  let ?n = "\<lparr>GetOwner = ''acme'', GetModule = ''api'', child = NoChild\<rparr>"
  let ?u = "Some \<lparr>uID = ''u2'', uUsername = ''bob'', uPasswordHash = ''h2'', uCreatedAt = 2\<rparr>"
  let ?c = "\<lparr>cID = ''c1'', cModuleID = ''m1'', cStorageKey = ''m1/c1'', cManifest = '''', cCreatedByUserID = ''u2'', cCreatedAt = 5\<rparr>"
  have d: "denotes (sql_abs demo_history) ?n demo_module (Some ?c)"
    by (simp add: denotes_def chooses_def labelled_def GetLabelName_def GetRef_def demo_history_defs)
  have r: "may_read (sql_abs demo_history) (userID ?u) demo_module"
    by (simp add: may_read_def may_write_def has_role_def demo_history_defs)
  obtain oid cs where "ListCommits (sql_repos policy_enforcer list_gorm) ?u (Some (ResourceByName ?n)) demo_history =
        Inr (map (\<lambda>c. commitToProto c oid) cs)" "set cs = {c \<in> rCommits (sql_abs demo_history). cModuleID c = ''m1''}"
    using commit_history_exact [OF list_db.gorm_db_reliable_axioms policy_enforcer_matches demo_history_keys d r]
    by (auto simp: demo_module_def)
  moreover have "cID ` {c \<in> rCommits (sql_abs demo_history). cModuleID c = ''m1''} = {''c1'', ''c2''}"
  proof -
    have "{c \<in> rCommits (sql_abs demo_history). cModuleID c = ''m1''} = rCommits (sql_abs demo_history)"
      by (auto simp: demo_history_defs)
    moreover have "cID ` rCommits (sql_abs demo_history) = {''c1'', ''c2''}" by (simp add: demo_history_defs)
    ultimately show ?thesis by simp
  qed
  ultimately show ?thesis by (auto simp: commitToProto_def image_image)
qed

context gorm_db
begin

text \<open>On the SQL backend, an upsert of a label that exists keeps the stored identifier.\<close>

lemma upsert_keeps_id:
  assumes up: "LabelStore_Upsert G lab d = (None, d')"
    and x: "x \<in> rLabels (sql_abs d)" "label_key x = label_key lab"
  shows "touch_label lab x \<in> rLabels (sql_abs d')"
proof -
  let ?same = "\<lambda>a b :: LabelRow. l_module_id a = l_module_id b \<and> l_name a = l_name b"
  let ?upd = "\<lambda>new old :: LabelRow. old\<lparr>l_commit_id := l_commit_id new, l_updated_at := l_updated_at new\<rparr>"
  let ?r = "labelFromModel lab"
  from up obtain t' where g: "gUpsert (gLabels G) ?same ?upd ?r (sq_labels d) = (None, t')"
      and d': "d' = d\<lparr>sq_labels := t'\<rparr>"
    by (auto simp: LabelStore_Upsert_def split: prod.splits)
  from x obtain y where y: "y \<in> set (sq_labels d)" "x = labelToModel y" "?same y ?r" by (auto simp: sql_abs_def)
  then have ex: "\<exists>x\<in>set (sq_labels d). ?same x ?r" by blast
  have "set t' = (\<lambda>y. if ?same y ?r then ?upd ?r y else y) ` set (sq_labels d)"
    using l.upsert_set [OF g] unfolding if_P [OF ex] .
  then have "?upd ?r y \<in> set t'" using y by force
  moreover have "labelToModel (?upd ?r y) = touch_label lab x"
    using y by (simp add: touch_label_def) (simp add: labelToModel_def)
  ultimately show ?thesis by (force simp: d' sql_abs_def)
qed

end

text \<open>
  The answer to moving a label that exists misreports it: \<^verbatim>\<open>CreateOrUpdateLabels\<close> answers with the
  fresh identifier and creation time it drew, while the SQL backend keeps the stored ones, so asking
  for the label afterwards answers with another identifier.
\<close>

theorem label_answer_misreports_id:
  fixes d :: "'z SqlDB_scheme"
  assumes "gorm_db_reliable G" "casbin_matches enf" "registry_keys (sql_abs d)"
    and "lv_label_ref v = Some (LabelByName own md n)" "m \<in> rModules (sql_abs d)" "module_key m = (own, md)"
    and "x \<in> rLabels (sql_abs d)" "label_key x = (mID m, n)"
    and "CreateOrUpdateLabels (sql_repos enf G) E (Some u) [v] d = (Inr [p], d')"
  shows "pl_id p = NewString E 0 0 \<and> pl_create_time p = Now E 0 0 \<and>
    (\<exists>q. GetLabels (sql_repos enf G) (Some u) [LabelByName own md n] d' = Inr [q] \<and>
       pl_id q = lID x \<and> pl_create_time q = lCreatedAt x \<and> pl_commit_id q = pl_commit_id p)"
proof -
  have G: "gorm_db G" "casbin_sound enf" using assms(1,2) gorm_db_reliable.axioms(1) casbin_matches_sound by blast+
  note R = gorm_db.registry_sound_sql [OF G, where 'a = 'z]
  note X = sql_registry_exact [OF assms(1,2), where 'z = 'z]
  then have T: "repos_reads_total (sql_repos enf G :: 'z SqlDB_scheme Repos) sql_abs"
    and A: "authorizer_exact (Auth (sql_repos enf G)) (sql_abs :: 'z SqlDB_scheme \<Rightarrow> Registry)" by (simp_all add: registry_exact_def)
  have c: "createOrUpdateLabel (sql_repos enf G) E u 0 v d = (Inr p, d')"
    using assms(9) by (auto simp: CreateOrUpdateLabels_def split: prod.splits sum.splits)
  from registry_sound.createOrUpdateLabel_within [OF R assms(3) c]
  have keys': "registry_keys (sql_abs d')" and ol: "only_labels (sql_abs d) (sql_abs d')" by (auto simp: within_labels_def)
  note same = only_labels_simps [OF ol]
  show ?thesis
  proof (cases rule: registry_sound.createOrUpdateLabel_cases [OF R c])
    case (2 own' md' n' m')
    have "m' = m" "n' = n" "own' = own" "md' = md"
      using 2(1-4) assms(3-6) by (auto simp: registry_keys_def inj_on_def)
    note 2 = 2 [unfolded this]
    let ?l = "requested_label E 0 m n (lv_commit_id v)"
    have t: "touch_label ?l x \<in> rLabels (sql_abs d')"
      using gorm_db.upsert_keeps_id [OF G(1), of ?l d d' x] 2(7) assms(7,8) by (simp add: sql_repos_def)
    have keyx: "label_key (touch_label ?l x) = (mID m, n)" using assms(8) by simp
    have lab: "Labels_Get (Labels (sql_repos enf G)) (mID m) n d' = Ret (touch_label ?l x)"
      using repos_reads_total.get_label_iff [OF T keys', of "mID m" n "touch_label ?l x"] t keyx by simp
    have md: "Modules_Get (Modules (sql_repos enf G)) own md d' = Ret m"
      using repos_reads_total.get_module_iff [OF T keys', of own md m] assms(5,6) by (simp add: same)
    have "may_admin (sql_abs d') (uID u) m" using 2(5) by (auto simp: may_admin_def has_name_def has_role_def same split: if_splits)
    then have rd: "CanReadModule (Auth (sql_repos enf G)) (uID u) m d'"
      using authorizer_exact.verdicts(1) [OF A keys', of "uID u" m] may_write_read [OF may_admin_write] by blast
    have "GetLabels (sql_repos enf G) (Some u) [LabelByName own md n] d' =
        Inr [labelToProto (touch_label ?l x) (resolveOwnerIDHelper (sql_repos enf G) m d')]"
      by (simp add: GetLabels_def getLabel_def md rd lab)
    moreover have "lCommitID (touch_label ?l x) = lv_commit_id v" "lID (touch_label ?l x) = lID x"
      "lCreatedAt (touch_label ?l x) = lCreatedAt x"
      using assms(8) by (simp_all add: touch_label_def)
    ultimately show ?thesis using 2(8) by (auto simp: labelToProto_def requested_label_def)
  qed simp
qed

theorem label_answer_misreports_id_witness:
  "\<exists>p d' q. CreateOrUpdateLabels (sql_repos policy_enforcer list_gorm) demo_env
       (Some \<lparr>uID = ''u1'', uUsername = ''alice'', uPasswordHash = ''h1'', uCreatedAt = 1\<rparr>) [demo_move] demo_history =
       (Inr [p], d') \<and>
     GetLabels (sql_repos policy_enforcer list_gorm)
       (Some \<lparr>uID = ''u1'', uUsername = ''alice'', uPasswordHash = ''h1'', uCreatedAt = 1\<rparr>)
       [LabelByName ''acme'' ''api'' ''main''] d' = Inr [q] \<and> pl_id q = ''l1'' \<and> pl_id p \<noteq> pl_id q"
proof -
  let ?u = "\<lparr>uID = ''u1'', uUsername = ''alice'', uPasswordHash = ''h1'', uCreatedAt = 1\<rparr>"
  let ?x = "\<lparr>lID = ''l1'', lModuleID = ''m1'', lName = ''main'', lCommitID = ''c1'', lCreatedAt = 5, lUpdatedAt = 5\<rparr>"
  have f: "\<forall>l\<in>rLabels (sql_abs demo_history). lID l \<noteq> NewString demo_env 0 0"
    by (simp add: demo_history_defs demo_env_def)
  have v: "lv_label_ref demo_move = Some (LabelByName ''acme'' ''api'' ''main'')" by (simp add: demo_move_def)
  have m: "demo_module \<in> rModules (sql_abs demo_history)" "module_key demo_module = (''acme'', ''api'')"
    "may_admin (sql_abs demo_history) (uID ?u) demo_module" "has_commit (sql_abs demo_history) (mID demo_module) (lv_commit_id demo_move)"
    by (simp_all add: demo_history_defs may_admin_def has_role_def has_commit_def demo_move_def)
  have x: "?x \<in> rLabels (sql_abs demo_history)" "label_key ?x = (mID demo_module, ''main'')" by (simp_all add: demo_history_defs)
  obtain p d' where p: "createOrUpdateLabel (sql_repos policy_enforcer list_gorm) demo_env ?u 0 demo_move demo_history = (Inr p, d')"
    using list_reg.createOrUpdateLabel_exact(4) [OF demo_history_keys f v m] by blast
  then have c: "CreateOrUpdateLabels (sql_repos policy_enforcer list_gorm) demo_env (Some ?u) [demo_move] demo_history = (Inr [p], d')"
    by (simp add: CreateOrUpdateLabels_def)
  have "NewString demo_env 0 0 \<noteq> ''l1''" by (simp add: demo_env_def)
  with label_answer_misreports_id [OF list_db.gorm_db_reliable_axioms policy_enforcer_matches demo_history_keys v m(1,2) x c] c
  show ?thesis by auto
qed

end
