(* ===== verification/Account_Correct.thy ===== *)
theory Account_Correct
  imports Writes Module_Correct
begin

text \<open>
  Accounts, sessions and organizations are correct: who a bearer token proves, what registration, login
  and the token endpoints do to the registry, and that organizations and their members are only
  changed by those who may.
\<close>

section \<open>Tokens and sessions\<close>

text \<open>The header a client sends.\<close>

definition Bearer :: "string \<Rightarrow> string" where
  "Bearer raw = ''Bearer '' @ raw"

lemma bears_Bearer: "bears (Bearer raw) raw' \<longleftrightarrow> raw' = raw \<and> raw \<noteq> []"
  by (auto simp: bears_def Bearer_def)

lemma proves_Bearer:
  "proves r now (Bearer raw) u \<longleftrightarrow>
     raw \<noteq> [] \<and> (\<exists>t\<in>rTokens r. tHash t = HashToken raw \<and> \<not> expired_at now t \<and> u \<in> rUsers r \<and> uID u = tUserID t)"
  by (auto simp: proves_def bears_Bearer)

lemma proves_token:
  assumes "registry_keys r" "t \<in> rTokens r" "tHash t = HashToken raw" "raw \<noteq> []" "u \<in> rUsers r" "uID u = tUserID t"
  shows "proves r now (Bearer raw) v \<longleftrightarrow> v = u \<and> \<not> expired_at now t"
proof -
  have "inj_on tHash (rTokens r)" "inj_on uID (rUsers r)" using assms(1) by (simp_all add: registry_keys_def)
  then have "t' = t" if "t' \<in> rTokens r" "tHash t' = HashToken raw" for t' using that assms(2,3) by (metis inj_onD)
  moreover have "v = u" if "v \<in> rUsers r" "uID v = tUserID t" for v
    using that assms(5,6) \<open>inj_on uID (rUsers r)\<close> by (metis inj_onD)
  ultimately show ?thesis unfolding proves_Bearer using assms by blast
qed

lemma no_token_proves_nobody:
  "\<forall>t\<in>rTokens r. tHash t \<noteq> HashToken raw \<Longrightarrow> \<not> proves r now (Bearer raw) u"
  by (auto simp: proves_Bearer)

section \<open>Login\<close>

definition login_token :: "env \<Rightarrow> User \<Rightarrow> Token" where
  "login_token E u =
     \<lparr>tID = NewString E 0 1, tUserID = uID u, tHash = HashToken (NewString E 0 0), tNote = ''login'',
      tExpiresAt = Some (Now E 0 0 + day_ns), tCreatedAt = Now E 0 1\<rparr>"

lemma login_alt:
  "login R B E (Some (username, password)) w =
     (case Users_GetByUsername (Users R) username w of
        RetErr _ _ \<Rightarrow> (writeErr StatusUnauthorized ''invalid credentials'', w)
      | Ret u \<Rightarrow>
          if \<not> CheckPassword B (uPasswordHash u) password
          then (writeErr StatusUnauthorized ''invalid credentials'', w)
          else
            (case Tokens_Create (Tokens R) (login_token E u)
                    (snd (Tokens_DeleteByUserAndNote (Tokens R) (uID u) ''login'' w)) of
               (Some _, w2) \<Rightarrow> (writeErr StatusInternalServerError ''internal error'', w2)
             | (None, w2) \<Rightarrow>
                 (writeJSON StatusOK (JObj [(''token'', NewString E 0 0), (''user_id'', uID u), (''username'', uUsername u)]), w2)))"
  by (simp only: login_def login_token_def Let_def option.case prod.case)

context repos_sound
begin

lemma login_steps:
  assumes "registry_keys (abs w)" "login R B E (Some (un, pw)) w = (r, w')"
  shows "steps_from w w'"
  using login_writes [OF assms(2)] runs_to_steps assms(1) by blast

end

context repos_reliable
begin

lemma get_user_iff:
  "registry_keys (abs w) \<Longrightarrow> Users_GetByUsername (Users R) n w = Ret u \<longleftrightarrow> u \<in> rUsers (abs w) \<and> uUsername u = n"
  using user_by_name.get_iff [of w n u] by (simp add: registry_keys_def)

lemma login_refused:
  assumes "registry_keys (abs w)"
    and "\<forall>u\<in>rUsers (abs w). uUsername u = un \<longrightarrow> \<not> CheckPassword B (uPasswordHash u) pw"
  shows "login R B E (Some (un, pw)) w = (writeErr StatusUnauthorized ''invalid credentials'', w)"
  using assms(2) get_user_iff [OF assms(1), of un]
  by (cases "Users_GetByUsername (Users R) un w") (auto simp: login_alt)

lemma login_granted:
  assumes keys: "registry_keys (abs w)" and u: "u \<in> rUsers (abs w)" "CheckPassword B (uPasswordHash u) pw"
    and fresh: "\<forall>t\<in>rTokens (abs w). tID t \<noteq> NewString E 0 1 \<and> tHash t \<noteq> HashToken (NewString E 0 0)"
  obtains w' where "login R B E (Some (uUsername u, pw)) w =
      (writeJSON StatusOK (JObj [(''token'', NewString E 0 0), (''user_id'', uID u), (''username'', uUsername u)]), w')"
    and "abs w' = (abs w)\<lparr>rTokens := insert (login_token E u)
           {t \<in> rTokens (abs w). \<not> (tUserID t = uID u \<and> tNote t = ''login'')}\<rparr>"
    and "registry_keys (abs w')"
proof -
  have g: "Users_GetByUsername (Users R) (uUsername u) w = Ret u" using get_user_iff [OF keys] u(1) by blast
  obtain w1 where d: "Tokens_DeleteByUserAndNote (Tokens R) (uID u) ''login'' w = (None, w1)"
    using tokens_delete_note_ok by blast
  note abs1 = tokens_delete_note [OF d]
  have "\<forall>t\<in>rTokens (abs w1). tID t \<noteq> tID (login_token E u) \<and> tHash t \<noteq> tHash (login_token E u)"
    using fresh by (simp add: abs1 login_token_def)
  from tokens_create_ok [OF this] obtain w2 where c: "Tokens_Create (Tokens R) (login_token E u) w1 = (None, w2)" by blast
  have eq: "login R B E (Some (uUsername u, pw)) w =
      (writeJSON StatusOK (JObj [(''token'', NewString E 0 0), (''user_id'', uID u), (''username'', uUsername u)]), w2)"
    by (simp add: login_alt g u(2) d c)
  have "abs w2 = (abs w)\<lparr>rTokens := insert (login_token E u)
           {t \<in> rTokens (abs w). \<not> (tUserID t = uID u \<and> tNote t = ''login'')}\<rparr>"
    using tokens_create [OF c] by (simp add: abs1)
  with that [OF eq] login_steps [OF keys eq] show thesis by blast
qed

end

section \<open>The SQL repositories\<close>

context gorm_db
begin

lemma repos_sound_sql: "repos_sound (sql_repos enf G) sql_abs"
  unfolding sql_repos_def by (rule sql.repos_sound_axioms)

end

context gorm_db_reliable
begin

lemma repos_reliable_sql: "repos_reliable (sql_repos enf G) sql_abs"
  unfolding sql_repos_def by (rule sql.repos_reliable_axioms)

lemma repos_reads_total_sql: "repos_reads_total (sql_repos enf G) sql_abs"
  by (rule repos_reliable.axioms(2) [OF repos_reliable_sql])

end

section \<open>Properties of authentication\<close>

text \<open>
  C12. Authentication never invents a caller, whatever calls fail: the user that the HTTP middleware or the
  Connect interceptor puts into the context owns an unexpired token whose secret the header carries;
  a header without a bearer token reaches the handler as it came, and the interceptor answers a
  bad token itself, with an error and an untouched world.
\<close>

theorem auth_never_impersonates:
  fixes d :: "'z SqlDB_scheme" and nx :: "User option \<Rightarrow> 'z SqlDB_scheme \<Rightarrow> 'r"
    and nc :: "User option \<Rightarrow> ('z SqlDB_scheme, 's) handler"
  assumes "gorm_db G"
  shows "((\<exists>u. proves (sql_abs d) now header u \<and> Middleware (sql_repos enf G) now header nx caller d = nx (Some u) d) \<or>
      Middleware (sql_repos enf G) now header nx caller d = nx caller d) \<and>
    ((\<exists>u. proves (sql_abs d) now header u \<and> NewConnectInterceptor (sql_repos enf G) now header nc caller d = nc (Some u) d) \<or>
      (\<nexists>raw. bears header raw) \<and> NewConnectInterceptor (sql_repos enf G) now header nc caller d = nc caller d \<or>
      (\<exists>raw e. bears header raw \<and> NewConnectInterceptor (sql_repos enf G) now header nc caller d = (Inl e, d)))"
proof -
  have R: "repos_reads (sql_repos enf G :: 'z SqlDB_scheme Repos) sql_abs"
    by (rule repos_sound.axioms(1) [OF gorm_db.repos_sound_sql [OF assms]])
  show ?thesis
    using repos_reads.middleware_sound [OF R, of d now header nx caller]
      repos_reads.interceptor_sound [OF R, of d now header nc caller] by blast
qed

theorem auth_never_impersonates_witness:
  "Middleware (sql_repos policy_enforcer list_gorm) 9 ''Bearer stolen'' (\<lambda>c _. c) None demo_db = None"
proof -
  have "\<not> proves (sql_abs demo_db) 9 ''Bearer stolen'' u" for u by (simp add: proves_def demo_defs)
  then show ?thesis
    using auth_never_impersonates [OF list_db.gorm_db_axioms,
        of demo_db 9 "''Bearer stolen''" policy_enforcer "\<lambda>c _. c" None] by blast
qed

text \<open>
  C23. A live bearer token authenticates its owner everywhere: on a database that answers, a header that
  proves a user makes both the middleware and the interceptor call the handler with that user, the
  only one it proves; a header that proves nobody is anonymous to the middleware and, if it carries a
  token, refused by the interceptor.
\<close>

theorem bearer_authenticates:
  fixes d :: "'z SqlDB_scheme" and nx :: "User option \<Rightarrow> 'z SqlDB_scheme \<Rightarrow> 'r"
    and nc :: "User option \<Rightarrow> ('z SqlDB_scheme, 's) handler"
  assumes "gorm_db_reliable G" "registry_keys (sql_abs d)"
  shows "(proves (sql_abs d) now header u \<longrightarrow>
      Middleware (sql_repos enf G) now header nx caller d = nx (Some u) d \<and>
      NewConnectInterceptor (sql_repos enf G) now header nc caller d = nc (Some u) d \<and>
      (\<forall>v. proves (sql_abs d) now header v \<longrightarrow> v = u)) \<and>
    ((\<nexists>v. proves (sql_abs d) now header v) \<longrightarrow>
      Middleware (sql_repos enf G) now header nx caller d = nx caller d \<and>
      (bears header raw \<longrightarrow> (\<exists>e. NewConnectInterceptor (sql_repos enf G) now header nc caller d = (Inl e, d))))"
proof -
  have T: "repos_reads_total (sql_repos enf G :: 'z SqlDB_scheme Repos) sql_abs"
    by (rule gorm_db_reliable.repos_reads_total_sql [OF assms(1)])
  then have R: "repos_reads (sql_repos enf G :: 'z SqlDB_scheme Repos) sql_abs" by (rule repos_reads_total.axioms(1))
  show ?thesis
    using repos_reads_total.middleware_exact(1) [OF T assms(2), of now header u nx caller]
      repos_reads_total.middleware_exact(2) [OF T assms(2), of now header nx caller]
      repos_reads_total.interceptor_exact [OF T assms(2), of now header u nc caller]
      repos_reads_total.proves_unique [OF T assms(2), of now header _ u]
      repos_reads.interceptor_sound [OF R, of d now header nc caller] by blast
qed

text \<open>A database with a token: its hash is the digest of the secret.\<close>

definition demo_tokens :: SqlDB where
  "demo_tokens = demo_db\<lparr>sq_tokens :=
     [\<lparr>t_id = ''t1'', t_user_id = ''u2'', t_hash = HashToken ''s3cret'', t_note = ''ci'', t_expires_at = Some 100,
       t_created_at = 3\<rparr>]\<rparr>"

lemma demo_tokens_keys: "registry_keys (sql_abs demo_tokens)"
  by (simp add: registry_keys_def demo_tokens_def demo_defs)

theorem bearer_authenticates_witness:
  "Middleware (sql_repos policy_enforcer list_gorm) 9 ''Bearer s3cret'' (\<lambda>c _. map_option uUsername c) None demo_tokens =
     Some ''bob'' \<and>
   Middleware (sql_repos policy_enforcer list_gorm) 101 ''Bearer s3cret'' (\<lambda>c _. map_option uUsername c) None demo_tokens = None"
proof -
  let ?u = "\<lparr>uID = ''u2'', uUsername = ''bob'', uPasswordHash = ''h2'', uCreatedAt = 2\<rparr>"
  let ?t = "\<lparr>tID = ''t1'', tUserID = ''u2'', tHash = HashToken ''s3cret'', tNote = ''ci'', tExpiresAt = Some 100, tCreatedAt = 3\<rparr>"
  have "proves (sql_abs demo_tokens) now (Bearer ''s3cret'') v \<longleftrightarrow> v = ?u \<and> \<not> expired_at now ?t" for now v
    by (rule proves_token [OF demo_tokens_keys]) (simp_all add: demo_tokens_def demo_defs)
  then have p: "proves (sql_abs demo_tokens) now ''Bearer s3cret'' v \<longleftrightarrow> v = ?u \<and> now \<le> 100" for now v
    by (simp add: Bearer_def expired_at_def not_less)
  note B = bearer_authenticates [OF list_db.gorm_db_reliable_axioms demo_tokens_keys, where header = "''Bearer s3cret''"
      and enf = policy_enforcer and nx = "\<lambda>c _. map_option uUsername c" and caller = None and nc = "\<lambda>_ w. (Inr (), w)"]
  have "Middleware (sql_repos policy_enforcer list_gorm) 9 ''Bearer s3cret'' (\<lambda>c _. map_option uUsername c) None demo_tokens =
     map_option uUsername (Some ?u)"
    using B [of 9 ?u] p [of 9] by simp
  moreover have "Middleware (sql_repos policy_enforcer list_gorm) 101 ''Bearer s3cret'' (\<lambda>c _. map_option uUsername c) None demo_tokens =
     map_option uUsername None"
    using B [of 101] p [of 101] by simp
  ultimately show ?thesis by simp
qed

text \<open>
  C24. Logging in works as documented. The right password yields a token that authenticates the user for
  24 hours (in nanoseconds) and not longer, and ends the user's earlier login sessions; a wrong password and an
  unknown user get the same answer, and change nothing.
\<close>

theorem login_session:
  fixes d :: "'z SqlDB_scheme"
  assumes "gorm_db_reliable G" "registry_keys (sql_abs d)" "u \<in> rUsers (sql_abs d)"
    and "CheckPassword B (uPasswordHash u) pw" "\<not> CheckPassword B (uPasswordHash u) wrong"
    and "\<forall>v\<in>rUsers (sql_abs d). uUsername v \<noteq> nobody"
    and "\<forall>t\<in>rTokens (sql_abs d). tID t \<noteq> NewString E 0 1 \<and> tHash t \<noteq> HashToken (NewString E 0 0)"
    and "NewString E 0 0 \<noteq> []"
  shows "(\<exists>d'. login (sql_repos enf G) B E (Some (uUsername u, pw)) d =
        (writeJSON 200 (JObj [(''token'', NewString E 0 0), (''user_id'', uID u), (''username'', uUsername u)]), d') \<and>
      (\<forall>now v. proves (sql_abs d') now (Bearer (NewString E 0 0)) v \<longleftrightarrow> v = u \<and> now \<le> Now E 0 0 + 24 * 60 * 60 * 1000000000) \<and>
      (\<forall>raw t now v. t \<in> rTokens (sql_abs d) \<and> tUserID t = uID u \<and> tNote t = ''login'' \<and> tHash t = HashToken raw \<longrightarrow>
        \<not> proves (sql_abs d') now (Bearer raw) v)) \<and>
    login (sql_repos enf G) B E (Some (uUsername u, wrong)) d = (writeErr 401 ''invalid credentials'', d) \<and>
    login (sql_repos enf G) B E (Some (nobody, pw)) d = (writeErr 401 ''invalid credentials'', d)"
proof (intro conjI)
  note R = gorm_db_reliable.repos_reliable_sql [OF assms(1), where 'a = 'z]
  have inj: "inj_on uUsername (rUsers (sql_abs d))" "inj_on tHash (rTokens (sql_abs d))"
    using assms(2) by (simp_all add: registry_keys_def)
  show "login (sql_repos enf G) B E (Some (uUsername u, wrong)) d = (writeErr 401 ''invalid credentials'', d)"
    by (rule repos_reliable.login_refused [OF R assms(2)]) (use assms(3,5) inj(1) in \<open>metis inj_onD\<close>)
  show "login (sql_repos enf G) B E (Some (nobody, pw)) d = (writeErr 401 ''invalid credentials'', d)"
    by (rule repos_reliable.login_refused [OF R assms(2)]) (use assms(6) in blast)
  obtain d' where l: "login (sql_repos enf G) B E (Some (uUsername u, pw)) d =
        (writeJSON 200 (JObj [(''token'', NewString E 0 0), (''user_id'', uID u), (''username'', uUsername u)]), d')"
    and ab: "sql_abs d' = (sql_abs d)\<lparr>rTokens := insert (login_token E u)
           {t \<in> rTokens (sql_abs d). \<not> (tUserID t = uID u \<and> tNote t = ''login'')}\<rparr>"
    and keys': "registry_keys (sql_abs d')"
    by (rule repos_reliable.login_granted [OF R assms(2,3,4,7)])
  have "proves (sql_abs d') now (Bearer (NewString E 0 0)) v \<longleftrightarrow> v = u \<and> \<not> expired_at now (login_token E u)" for now v
    by (rule proves_token [OF keys']) (simp_all add: ab login_token_def assms(3,8))
  moreover have "\<not> expired_at now (login_token E u) \<longleftrightarrow> now \<le> Now E 0 0 + 24 * 60 * 60 * 1000000000" for now
    by (auto simp: expired_at_def login_token_def day_ns_def)
  moreover have "\<not> proves (sql_abs d') now (Bearer raw) v"
    if t: "t \<in> rTokens (sql_abs d)" "tUserID t = uID u" "tNote t = ''login''" "tHash t = HashToken raw" for raw t now v
  proof (rule no_token_proves_nobody, intro ballI notI)
    fix t' assume t': "t' \<in> rTokens (sql_abs d')" "tHash t' = HashToken raw"
    then consider "t' = login_token E u" | "t' \<in> rTokens (sql_abs d)" "\<not> (tUserID t' = uID u \<and> tNote t' = ''login'')"
      by (auto simp: ab)
    then show False
    proof cases
      case 1
      with t' t(1,4) assms(7) show False by (auto simp: login_token_def)
    next
      case 2
      with t t' inj(2) show False by (metis inj_onD)
    qed
  qed
  ultimately show "\<exists>d'. login (sql_repos enf G) B E (Some (uUsername u, pw)) d =
        (writeJSON 200 (JObj [(''token'', NewString E 0 0), (''user_id'', uID u), (''username'', uUsername u)]), d') \<and>
      (\<forall>now v. proves (sql_abs d') now (Bearer (NewString E 0 0)) v \<longleftrightarrow> v = u \<and> now \<le> Now E 0 0 + 24 * 60 * 60 * 1000000000) \<and>
      (\<forall>raw t now v. t \<in> rTokens (sql_abs d) \<and> tUserID t = uID u \<and> tNote t = ''login'' \<and> tHash t = HashToken raw \<longrightarrow>
        \<not> proves (sql_abs d') now (Bearer raw) v)"
    using l by (intro exI [of _ d']) blast
qed

text \<open>A password scheme for the examples: the hash is the password behind a marker.\<close>

definition demo_bcrypt :: bcrypt where
  "demo_bcrypt =
     \<lparr>GenerateFromPassword = (\<lambda>_ pw. if length pw > 72 then Inl ''bcrypt: password length exceeds 72 bytes'' else Inr (CHR ''h'' # pw)),
      CompareHashAndPassword = (\<lambda>h pw. if h = CHR ''h'' # pw then None else Some ''mismatch'')\<rparr>"

lemma demo_bcrypt_ok: "bcrypt_ok demo_bcrypt"
  by (simp add: bcrypt_ok_def demo_bcrypt_def)

theorem login_session_witness:
  "\<exists>d'. login (sql_repos policy_enforcer list_gorm) demo_bcrypt demo_env (Some (''bob'', ''2'')) demo_db =
      (writeJSON 200 (JObj [(''token'', NewString demo_env 0 0), (''user_id'', ''u2''), (''username'', ''bob'')]), d') \<and>
    proves (sql_abs d') (Now demo_env 0 0) (Bearer (NewString demo_env 0 0))
      \<lparr>uID = ''u2'', uUsername = ''bob'', uPasswordHash = ''h2'', uCreatedAt = 2\<rparr>"
proof -
  let ?u = "\<lparr>uID = ''u2'', uUsername = ''bob'', uPasswordHash = ''h2'', uCreatedAt = 2\<rparr>"
  have "?u \<in> rUsers (sql_abs demo_db)" "CheckPassword demo_bcrypt (uPasswordHash ?u) ''2''"
    "\<not> CheckPassword demo_bcrypt (uPasswordHash ?u) ''x''" "\<forall>v\<in>rUsers (sql_abs demo_db). uUsername v \<noteq> ''eve''"
    "\<forall>t\<in>rTokens (sql_abs demo_db). tID t \<noteq> NewString demo_env 0 1 \<and> tHash t \<noteq> HashToken (NewString demo_env 0 0)"
    "NewString demo_env 0 0 \<noteq> []"
    by (simp_all add: demo_defs CheckPassword_def demo_bcrypt_def demo_env_def)
  from login_session [OF list_db.gorm_db_reliable_axioms demo_keys this, of policy_enforcer]
  show ?thesis by auto
qed

end
