(* ===== verification/Permits.thy ===== *)
theory Permits
  imports Account_Correct
begin

text \<open>
  What one request may change, as a relation between the registry before and after, over the access
  policy alone; and that every writing handler stays within it, whatever calls fail.
\<close>

section \<open>The policy for changes\<close>

text \<open>
  \<open>openReg\<close>: registration is open. \<open>c\<close>: the authenticated caller. \<open>knows uid\<close>: the request presents the password
  of the user \<open>uid\<close>. New accounts need open registration; tokens change only for the caller or for a user
  whose password was presented; everything else needs a caller, and the rights over what changes.
\<close>

definition member_change :: "string \<Rightarrow> Registry \<Rightarrow> Registry \<Rightarrow> bool" where
  "member_change uid r r' \<longleftrightarrow>
     (\<forall>mb. (mb \<in> rMembers r') \<noteq> (mb \<in> rMembers r) \<longrightarrow>
        may_manage r uid (omOrgID mb) \<or>
        mb \<in> rMembers r' \<and> omUserID mb = uid \<and> (\<forall>g\<in>rOrgs r. oID g \<noteq> omOrgID mb))"

definition content_change :: "string \<Rightarrow> Registry \<Rightarrow> Registry \<Rightarrow> bool" where
  "content_change uid r r' \<longleftrightarrow>
     rModules r \<subseteq> rModules r' \<and> (\<forall>m\<in>rModules r' - rModules r. may_create r uid (mOwnerName m)) \<and>
     rCommits r \<subseteq> rCommits r' \<and> (\<forall>c\<in>rCommits r' - rCommits r. writable r uid (cModuleID c) \<and> cCreatedByUserID c = uid) \<and>
     (\<forall>l. (l \<in> rLabels r') \<noteq> (l \<in> rLabels r) \<longrightarrow> writable r uid (lModuleID l))"

definition permitted :: "bool \<Rightarrow> User option \<Rightarrow> (string \<Rightarrow> bool) \<Rightarrow> Registry \<Rightarrow> Registry \<Rightarrow> bool" where
  "permitted openReg c knows r r' \<longleftrightarrow>
     (rUsers r' \<noteq> rUsers r \<longrightarrow> openReg) \<and> rUsers r \<subseteq> rUsers r' \<and> rOrgs r \<subseteq> rOrgs r' \<and>
     (\<forall>t. (t \<in> rTokens r') \<noteq> (t \<in> rTokens r) \<longrightarrow> c \<noteq> None \<and> tUserID t = userID c \<or> knows (tUserID t)) \<and>
     (case c of
        None \<Rightarrow> rOrgs r' = rOrgs r \<and> rMembers r' = rMembers r \<and> rModules r' = rModules r \<and>
          rCommits r' = rCommits r \<and> rLabels r' = rLabels r
      | Some u \<Rightarrow> member_change (uID u) r r' \<and> content_change (uID u) r r')"

lemma permitted_refl [simp, intro]: "permitted openReg c knows r r"
  by (simp add: permitted_def member_change_def content_change_def split: option.split)

text \<open>One table at a time.\<close>

lemma permitted_users: "openReg \<Longrightarrow> rUsers r \<subseteq> U \<Longrightarrow> permitted openReg c knows r (r\<lparr>rUsers := U\<rparr>)"
  by (simp add: permitted_def member_change_def content_change_def split: option.split)

lemma permitted_tokens:
  "\<forall>t. (t \<in> T) \<noteq> (t \<in> rTokens r) \<longrightarrow> c \<noteq> None \<and> tUserID t = userID c \<or> knows (tUserID t) \<Longrightarrow>
     permitted openReg c knows r (r\<lparr>rTokens := T\<rparr>)"
  by (auto simp: permitted_def member_change_def content_change_def split: option.split)

lemma permitted_orgs:
  "rOrgs r \<subseteq> G \<Longrightarrow> member_change (uID u) r (r\<lparr>rOrgs := G, rMembers := M\<rparr>) \<Longrightarrow>
     permitted openReg (Some u) knows r (r\<lparr>rOrgs := G, rMembers := M\<rparr>)"
  by (simp add: permitted_def content_change_def)

lemma permitted_members:
  "member_change (uID u) r (r\<lparr>rMembers := M\<rparr>) \<Longrightarrow> permitted openReg (Some u) knows r (r\<lparr>rMembers := M\<rparr>)"
  by (simp add: permitted_def content_change_def)

lemma permitted_create: "within_create u r r' \<Longrightarrow> permitted openReg (Some u) knows r r'"
proof -
  assume w: "within_create u r r'"
  then have r': "r' = r\<lparr>rModules := rModules r'\<rparr>" by (simp add: within_create_def)
  then obtain M where "r' = r\<lparr>rModules := M\<rparr>" by blast
  with w show ?thesis by (auto simp: within_create_def permitted_def member_change_def content_change_def)
qed

lemma permitted_upload: "within_write (uID u) r r' \<Longrightarrow> permitted openReg (Some u) knows r r'"
  by (auto simp: within_write_def permitted_def member_change_def content_change_def)

lemma permitted_labels: "within_labels (uID u) r r' \<Longrightarrow> permitted openReg (Some u) knows r r'"
proof -
  assume w: "within_labels (uID u) r r'"
  then have same: "only_labels r r'" by (simp add: within_labels_def)
  have "administrable r (uID u) i \<Longrightarrow> writable r (uID u) i" for i
    by (auto simp: administrable_def writable_def intro: may_admin_write)
  with w show ?thesis
    by (auto simp: within_labels_def permitted_def member_change_def content_change_def only_labels_simps [OF same])
qed

section \<open>The writes and the policy\<close>

context repos_sound
begin

lemma registers_users:
  assumes "runs_to R (\<lambda>a. \<exists>un. registers un a) w w'"
  obtains U where "abs w' = (abs w)\<lparr>rUsers := U\<rparr>" "rUsers (abs w) \<subseteq> U"
proof -
  from assms have "\<exists>U. abs w' = (abs w)\<lparr>rUsers := U\<rparr> \<and> rUsers (abs w) \<subseteq> U"
  proof (induction rule: runs_to_induct)
    case refl
    show ?case by (rule exI [of _ "rUsers (abs w)"]) simp
  next
    case (step v a e v')
    from step(2) obtain u where a: "a = UserCreate u" by (auto simp: registers_def)
    show ?case
    proof (cases e)
      case None
      with step(3) a users_create [of u v v'] step(1) show ?thesis by auto
    next
      case (Some x)
      with step(1,3) write_failed show ?thesis by metis
    qed
  qed
  with that show thesis by blast
qed

lemma token_op_tokens:
  assumes "runs_to R (token_op uid) w w'"
  obtains T where "abs w' = (abs w)\<lparr>rTokens := T\<rparr>" "\<forall>t. (t \<in> T) \<noteq> (t \<in> rTokens (abs w)) \<longrightarrow> tUserID t = uid"
proof -
  from assms have "\<exists>T. abs w' = (abs w)\<lparr>rTokens := T\<rparr> \<and> (\<forall>t. (t \<in> T) \<noteq> (t \<in> rTokens (abs w)) \<longrightarrow> tUserID t = uid)"
  proof (induction rule: runs_to_induct)
    case refl
    show ?case by (rule exI [of _ "rTokens (abs w)"]) simp
  next
    case (step v a e v')
    show ?case
    proof (cases e)
      case None
      with step(3) step(2) obtain T' where T': "abs v' = (abs v)\<lparr>rTokens := T'\<rparr>"
          "\<forall>t. (t \<in> T') \<noteq> (t \<in> rTokens (abs v)) \<longrightarrow> tUserID t = uid"
        by (auto simp: token_op_def dest!: tokens_create tokens_revoke tokens_delete_note split: write_op.splits)
      from step(1) obtain T where T: "abs v = (abs w)\<lparr>rTokens := T\<rparr>"
          "\<forall>t. (t \<in> T) \<noteq> (t \<in> rTokens (abs w)) \<longrightarrow> tUserID t = uid" by blast
      have "abs v' = (abs w)\<lparr>rTokens := T'\<rparr>" using T'(1) T(1) by simp
      moreover have "\<forall>t. (t \<in> T') \<noteq> (t \<in> rTokens (abs w)) \<longrightarrow> tUserID t = uid"
        using T'(2) T by (simp; blast)
      ultimately show ?thesis by blast
    next
      case (Some x)
      with step(1,3) write_failed show ?thesis by metis
    qed
  qed
  with that show thesis by blast
qed

end

section \<open>The handlers and the policy\<close>

text \<open>A body presents the password of a user.\<close>

definition password_of :: "bcrypt \<Rightarrow> (string \<times> string) option \<Rightarrow> Registry \<Rightarrow> string \<Rightarrow> bool" where
  "password_of B body r uid \<longleftrightarrow>
     (\<exists>u\<in>rUsers r. uID u = uid \<and> (\<exists>pw. body = Some (uUsername u, pw) \<and> CheckPassword B (uPasswordHash u) pw))"

text \<open>Founding organizations: the only member that appears is the founder, in an organization that is new.\<close>

definition founding :: "string \<Rightarrow> Registry \<Rightarrow> Registry \<Rightarrow> bool" where
  "founding uid r r' \<longleftrightarrow>
     (\<exists>G M. r' = r\<lparr>rOrgs := G, rMembers := M\<rparr> \<and> rOrgs r \<subseteq> G \<and> rMembers r \<subseteq> M \<and>
        (\<forall>mb\<in>M - rMembers r. omUserID mb = uid \<and> (\<forall>g\<in>rOrgs r. oID g \<noteq> omOrgID mb)))"

lemma founding_refl: "founding uid r r"
  unfolding founding_def by (intro exI [of _ "rOrgs r"] exI [of _ "rMembers r"]) simp

lemma founding_trans:
  assumes "founding uid r r'" "founding uid r' r''"
  shows "founding uid r r''"
proof -
  from assms(1) obtain G M where 1: "r' = r\<lparr>rOrgs := G, rMembers := M\<rparr>" "rOrgs r \<subseteq> G" "rMembers r \<subseteq> M"
    "\<forall>mb\<in>M - rMembers r. omUserID mb = uid \<and> (\<forall>g\<in>rOrgs r. oID g \<noteq> omOrgID mb)" unfolding founding_def by blast
  from assms(2) obtain G' M' where 2: "r'' = r'\<lparr>rOrgs := G', rMembers := M'\<rparr>" "rOrgs r' \<subseteq> G'" "rMembers r' \<subseteq> M'"
    "\<forall>mb\<in>M' - rMembers r'. omUserID mb = uid \<and> (\<forall>g\<in>rOrgs r'. oID g \<noteq> omOrgID mb)" unfolding founding_def by blast
  show ?thesis
    unfolding founding_def by (intro exI [of _ G'] exI [of _ M']) (use 1 2 in \<open>auto; blast\<close>)
qed

lemma founding_permitted: "founding (uID u) r r' \<Longrightarrow> permitted openReg (Some u) knows r r'"
  unfolding founding_def by (auto intro!: permitted_orgs simp: member_change_def)

context repos_sound
begin

lemma register_permitted:
  assumes "register R openReg B salt E body w = (r, w')"
  shows "permitted openReg c knows (abs w) (abs w')"
proof (cases "openReg \<and> body \<noteq> None")
  case True
  then obtain un pw where "body = Some (un, pw)" by auto
  with assms have "runs_to R (registers un) w w'" using register_writes by metis
  then have "runs_to R (\<lambda>a. \<exists>un. registers un a) w w'" by (rule runs_to_mono) blast
  then obtain U where "abs w' = (abs w)\<lparr>rUsers := U\<rparr>" "rUsers (abs w) \<subseteq> U" by (rule registers_users)
  with True show ?thesis by (simp add: permitted_users)
qed (use assms in \<open>auto simp: register_def split: if_splits option.splits\<close>)

lemma CreateUsers_permitted:
  assumes "CreateUsers R openReg E ns w = (r, w')"
  shows "permitted openReg c knows (abs w) (abs w')"
proof (cases openReg)
  case True
  from CreateUsers_writes [OF assms] have "runs_to R (\<lambda>a. \<exists>un. registers un a) w w'" by (rule runs_to_mono) blast
  then obtain U where "abs w' = (abs w)\<lparr>rUsers := U\<rparr>" "rUsers (abs w) \<subseteq> U" by (rule registers_users)
  with True show ?thesis by (simp add: permitted_users)
qed (use assms in \<open>simp add: CreateUsers_def\<close>)

lemma tokens_permitted:
  assumes "runs_to R (token_op uid) w w'" "c \<noteq> None \<and> uid = userID c \<or> knows uid"
  shows "permitted openReg c knows (abs w) (abs w')"
proof -
  obtain T where "abs w' = (abs w)\<lparr>rTokens := T\<rparr>" "\<forall>t. (t \<in> T) \<noteq> (t \<in> rTokens (abs w)) \<longrightarrow> tUserID t = uid"
    using assms(1) by (rule token_op_tokens)
  with assms(2) show ?thesis by (metis permitted_tokens)
qed

lemma login_permitted:
  assumes "login R B E body w = (r, w')"
  shows "permitted openReg c (password_of B body (abs w)) (abs w) (abs w')"
proof (cases body)
  case (Some b)
  then obtain un pw where b: "body = Some (un, pw)" by (cases b) simp
  from login_writes [OF assms [unfolded b]] show ?thesis
  proof (elim disjE exE conjE)
    fix u
    assume u: "Users_GetByUsername (Users R) un w = Ret u" "CheckPassword B (uPasswordHash u) pw"
      "runs_to R (token_op (uID u)) w w'"
    have "password_of B body (abs w) (uID u)"
      using user_by_name.get_Ret [OF u(1)] u(2) by (auto simp: password_of_def b)
    with tokens_permitted [OF u(3)] show ?thesis by blast
  qed simp
qed (use assms in \<open>simp add: login_def\<close>)

lemma createToken_permitted:
  "createToken R E c body w = (r, w') \<Longrightarrow> permitted openReg c knows (abs w) (abs w')"
proof (cases c)
  case (Some u)
  assume "createToken R E c body w = (r, w')"
  with Some show ?thesis by (intro tokens_permitted [of "uID u"]) (auto intro: createToken_writes)
qed (simp add: createToken_def)

lemma revokeToken_permitted:
  "revokeToken R c i w = (r, w') \<Longrightarrow> permitted openReg c knows (abs w) (abs w')"
proof (cases c)
  case (Some u)
  assume "revokeToken R c i w = (r, w')"
  with Some show ?thesis by (intro tokens_permitted [of "uID u"]) (auto intro: revokeToken_writes)
qed (simp add: revokeToken_def)

lemma found_steps:
  assumes c: "Orgs_Create (Orgs R) g w = (e, w1)" and a: "Orgs_AddMember (Orgs R) (oID g) uid ro w1 = (e2, w2)"
  shows "founding uid (abs w) (abs w1)" and "e = None \<Longrightarrow> founding uid (abs w) (abs w2)"
proof -
  show 1: "founding uid (abs w) (abs w1)"
  proof (cases e)
    case None
    with orgs_create [of g w w1] c show ?thesis
      unfolding founding_def by (intro exI [of _ "insert g (rOrgs (abs w))"] exI [of _ "rMembers (abs w)"]) auto
  next
    case (Some x)
    with c orgs_create_err show ?thesis by (metis founding_refl)
  qed
  assume "e = None"
  with c have g: "\<forall>v\<in>rOrgs (abs w). oID v \<noteq> oID g" and w1: "abs w1 = (abs w)\<lparr>rOrgs := insert g (rOrgs (abs w))\<rparr>"
    using orgs_create by blast+
  show "founding uid (abs w) (abs w2)"
  proof (cases e2)
    case None
    let ?mb = "\<lparr>omOrgID = oID g, omUserID = uid, omRole = ro\<rparr>"
    have "abs w2 = (abs w1)\<lparr>rMembers := insert ?mb (rMembers (abs w1))\<rparr>" using orgs_add a None by blast
    then have "abs w2 = (abs w)\<lparr>rOrgs := insert g (rOrgs (abs w)), rMembers := insert ?mb (rMembers (abs w))\<rparr>"
      by (simp add: w1)
    then show ?thesis
      unfolding founding_def
      by (intro exI [of _ "insert g (rOrgs (abs w))"] exI [of _ "insert ?mb (rMembers (abs w))"]) (use g in auto)
  next
    case (Some x)
    with a orgs_add_err have "abs w2 = abs w1" by blast
    with 1 show ?thesis by simp
  qed
qed

end

context repos_sound
begin

lemma createOrg_founding:
  assumes "createOrg R E (Some u) body w = (r, w')"
  shows "founding (uID u) (abs w) (abs w')"
proof (cases "\<exists>name. body = Some name \<and> usernameRe name")
  case True
  then obtain name where n: "body = Some name" "usernameRe name" by blast
  let ?g = "\<lparr>oID = NewString E 0 0, oName = name, oCreatedAt = Now E 0 0\<rparr>"
  obtain e w1 where c: "Orgs_Create (Orgs R) ?g w = (e, w1)" by fastforce
  obtain e2 w2 where a: "Orgs_AddMember (Orgs R) (oID ?g) (uID u) OrgRoleAdmin w1 = (e2, w2)" by fastforce
  have "w' = (if e = None then w2 else w1)"
    using assms n c a by (auto simp: createOrg_def Let_def split: option.splits fetch.splits prod.splits)
  with found_steps [OF c a] show ?thesis by simp
qed (use assms in \<open>auto simp: createOrg_def founding_refl split: option.splits\<close>)

lemma createOrganization_founding:
  assumes "createOrganization R E u i name w = (r, w')"
  shows "founding (uID u) (abs w) (abs w')"
proof -
  let ?g = "\<lparr>oID = NewString E i 0, oName = name, oCreatedAt = Now E i 0\<rparr>"
  obtain e w1 where c: "Orgs_Create (Orgs R) ?g w = (e, w1)" by fastforce
  obtain e2 w2 where a: "Orgs_AddMember (Orgs R) (oID ?g) (uID u) OrgRoleAdmin w1 = (e2, w2)" by fastforce
  have "w' = w \<or> w' = (if e = None then w2 else w1)"
    using assms c a by (auto simp: createOrganization_def Let_def split: if_splits option.splits fetch.splits prod.splits)
  with found_steps [OF c a] show ?thesis using founding_refl by (auto split: if_splits)
qed

lemma CreateOrganizations_founding:
  assumes "CreateOrganizations R E (Some u) names w = (r, w')"
  shows "founding (uID u) (abs w) (abs w')"
proof (rule for_each_preserves [where I = "\<lambda>v. founding (uID u) (abs w) (abs v)"])
  show "for_each (createOrganization R E u) 0 names [] w = (r, w')" using assms by (simp add: CreateOrganizations_def)
  show "founding (uID u) (abs w) (abs v')"
    if "founding (uID u) (abs w) (abs v)" "createOrganization R E u j x v = (r', v')" for j x v r' v'
    using founding_trans [OF that(1) createOrganization_founding [OF that(2)]] .
qed (rule founding_refl)

end

context registry_sound
begin

lemma membership_permitted:
  assumes "runs_to R (membership_op org) w w'" "may_manage (abs w) (uID u) org"
  shows "permitted openReg (Some u) knows (abs w) (abs w')"
proof -
  from assms(1) have "\<exists>M. abs w' = (abs w)\<lparr>rMembers := M\<rparr> \<and> (\<forall>mb. (mb \<in> M) \<noteq> (mb \<in> rMembers (abs w)) \<longrightarrow> omOrgID mb = org)"
  proof (induction rule: runs_to_induct)
    case refl
    show ?case by (rule exI [of _ "rMembers (abs w)"]) simp
  next
    case (step v a e v')
    then show ?case
      using orgs_add [of org _ _ v v'] orgs_add_err [of org _ _ v _ v'] orgs_remove [of org _ v v'] orgs_remove_err [of org _ v _ v']
      by (cases e) (auto simp: membership_op_def)
  qed
  with assms(2) show ?thesis by (auto intro!: permitted_members simp: member_change_def)
qed

lemma addMember_permitted:
  assumes "addMember R c orgName body w = (r, w')"
  shows "permitted openReg c knows (abs w) (abs w')"
proof (cases c)
  case (Some u)
  from addMember_writes [OF assms [unfolded Some]] show ?thesis
    unfolding Some
    by (auto intro: membership_permitted manage_sound)
qed (use assms in \<open>simp add: addMember_def\<close>)

lemma removeMember_permitted:
  assumes "removeMember R c orgName un w = (r, w')"
  shows "permitted openReg c knows (abs w) (abs w')"
proof (cases c)
  case (Some u)
  from removeMember_writes [OF assms [unfolded Some]] show ?thesis
    unfolding Some
    by (auto intro: membership_permitted manage_sound)
qed (use assms in \<open>simp add: removeMember_def\<close>)

lemma rest_createModule_within:
  assumes "rest_createModule R E (Some u) body w = (r, w')"
  shows "within_create u (abs w) (abs w')"
proof (cases "\<exists>req. body = Some req \<and> usernameRe (cb_name req) \<and> CanCreateModule (Auth R) (uID u) (cb_owner req) w")
  case True
  then obtain req where q: "body = Some req" "usernameRe (cb_name req)" "CanCreateModule (Auth R) (uID u) (cb_owner req) w"
    by blast
  let ?m = "\<lparr>mID = NewString E 0 0, mOwnerName = cb_owner req,
    mOwnerType = (if cb_owner req = uUsername u then OwnerTypeUser else OwnerTypeOrg), mName = cb_name req,
    mVisibility = (if cb_visibility req = ''public'' then VisibilityPublic else VisibilityPrivate), mCreatedAt = Now E 0 0\<rparr>"
  obtain e w1 where c: "Modules_Create (Modules R) ?m w = (e, w1)" by fastforce
  have "w' = w \<or> w' = w1"
    using assms q c by (auto simp: rest_createModule_def Let_def split: fetch.splits prod.splits option.splits)
  moreover have "within_create u (abs w) (abs w1)"
  proof (cases e)
    case None
    from q have "may_create (abs w) (uID u) (mOwnerName ?m)" "good_name 2 (mName ?m)"
      by (auto dest: create_sound intro: good_name_mono [of 3] simp: usernameRe_iff)
    with modules_create [of ?m w w1] c None show ?thesis by (auto simp: within_create_def)
  next
    case (Some x)
    with c modules_create_err show ?thesis by (metis within_create_refl)
  qed
  ultimately show ?thesis by (auto simp: within_create_refl)
qed (use assms in \<open>auto simp: rest_createModule_def within_create_refl split: option.splits if_splits\<close>)

end

end
