(* ===== verification/Server_Correct.thy ===== *)
theory Server_Correct
  imports Server Permits
begin

text \<open>
  The server as a whole: every request, and so every run, keeps the invariant of registry and blob
  store and stays within the access policy, whatever calls fail; routing is unambiguous; and after
  start-up the administrator can log in.
\<close>

section \<open>Requests\<close>

text \<open>What a request leaves behind.\<close>

definition presents :: "('w, 'fd) server \<Rightarrow> request \<Rightarrow> Registry \<Rightarrow> string \<Rightarrow> bool" where
  "presents V rq r uid \<longleftrightarrow>
     (\<exists>q. target rq = Rest q \<and> password_of (sv_bcrypt V) (field2 q ''username'' ''password'') r uid)"

text \<open>The caller of a request is nobody, or somebody the header proves when the middleware or the interceptor asks.\<close>

definition caller_of :: "request \<Rightarrow> Registry \<Rightarrow> User option \<Rightarrow> bool" where
  "caller_of rq r c \<longleftrightarrow> c = None \<or> (\<exists>u n. n \<in> {0, 1} \<and> c = Some u \<and> proves r (clock rq n) (Authorization rq) u)"

lemma answer_world: "answer f x = (r, w') \<Longrightarrow> \<exists>r0. x = (r0, w')"
  by (cases x) (auto simp: answer_def)

lemma permitted_knows:
  "permitted opn c k r r' \<Longrightarrow> (\<And>i. k i \<Longrightarrow> k' i) \<Longrightarrow> permitted opn c k' r r'"
  by (auto simp: permitted_def)

locale server_on = backend R abs S blobs valid ok
  for R :: "'w Repos" and abs :: "'w \<Rightarrow> Registry" and S :: "'w Store"
    and blobs :: "'w \<Rightarrow> string \<Rightarrow> bytes \<Rightarrow> bool" and valid :: "string \<Rightarrow> bool" and ok :: "'w \<Rightarrow> bool" +
  fixes V :: "('w, 'fd) server"
  assumes uses_repos: "sv_repos V = R" and uses_store: "sv_store V = S"
begin

definition safe :: "User option \<Rightarrow> (string \<Rightarrow> bool) \<Rightarrow> 'w \<Rightarrow> 'w \<Rightarrow> bool" where
  "safe c knows w w' \<longleftrightarrow> inv w' \<and> steps_from w w' \<and> permitted (sv_openReg V) c knows (abs w) (abs w')"

lemma safe_refl [simp]: "inv w \<Longrightarrow> safe c knows w w"
  by (simp add: safe_def content_inv_def)

lemma safe_account:
  assumes "runs_to R P w w'" "inv w" "\<And>a. P a \<Longrightarrow> account_op a" "permitted (sv_openReg V) c knows (abs w) (abs w')"
  shows "safe c knows w w'"
proof -
  have "runs_to R account_op w w'" using assms(1,3) by (rule runs_to_mono)
  from account_inv [OF this assms(2)] runs_to_steps [OF this] assms(2,4) show ?thesis
    by (simp add: safe_def content_inv_def)
qed

lemma safe_creates:
  assumes "runs_to R (creates E) w w'" "inv w" "\<And>i d. valid (storage_key (NewString E i 0) (commit_id d))"
    and "permitted (sv_openReg V) c knows (abs w) (abs w')"
  shows "safe c knows w w'"
  using creates_inv [OF assms(1-3)] runs_to_steps [OF assms(1)] assms(2,4) by (simp add: safe_def content_inv_def)

lemma labels_safe:
  assumes "CreateOrUpdateLabels R E c vs w = (r, w')" "inv w"
  shows "safe c knows w w'"
proof (cases c)
  case (Some u)
  have keys: "registry_keys (abs w)" "labels_ok (abs w)" using assms(2) by (simp_all add: content_inv_def)
  from CreateOrUpdateLabels_within [OF keys(1)] assms(1) Some
  have l: "within_labels (uID u) (abs w) (abs w')" "steps_from w w'" by simp_all
  then have same: "only_labels (abs w) (abs w')" and lab: "labels_ok (abs w')"
    using keys(2) by (simp_all add: within_labels_def)
  note same = only_labels_simps [OF same]
  from runs_to_frame [OF CreateOrUpdateLabels_writes] assms Some
  have frame: "blobs w' = blobs w" "ok w'" by (auto simp: content_inv_def)
  have "stored (blobs w') (abs w') = stored (blobs w) (abs w)" unfolding stored_def same frame ..
  moreover have "keys_valid valid (abs w') = keys_valid valid (abs w)" unfolding keys_valid_def same ..
  ultimately have "inv w'" using assms(2) l(2) lab frame unfolding content_inv_def by simp
  with l show ?thesis unfolding safe_def Some by (simp add: permitted_labels)
qed (use assms in \<open>simp add: CreateOrUpdateLabels_def\<close>)

lemma upload_safe_for:
  assumes "Upload R S Z E c cs w = (r, w')" "inv w"
  shows "safe c knows w w'"
  using Upload_inv [OF assms(2,1)] assms(2) by (cases c) (auto simp: safe_def intro: permitted_upload)

lemma CreateModules_safe_for:
  assumes "CreateModules R E c vs w = (r, w')" "inv w" "\<And>i d. valid (storage_key (NewString E i 0) (commit_id d))"
  shows "safe c knows w w'"
proof (cases c)
  case (Some u)
  note run = assms(1) [unfolded Some]
  from safe_creates [OF CreateModules_writes [OF run] assms(2,3)] permitted_create [OF CreateModules_within [OF run]]
  show ?thesis unfolding Some by blast
qed (use assms in \<open>simp add: CreateModules_def\<close>)

lemma CreateOrganizations_safe_for:
  assumes "CreateOrganizations R E c ns w = (r, w')" "inv w"
  shows "safe c knows w w'"
proof (cases c)
  case (Some u)
  note run = assms(1) [unfolded Some]
  show ?thesis
    unfolding Some
    by (rule safe_account [OF CreateOrganizations_writes [OF run] assms(2) _
          founding_permitted [OF CreateOrganizations_founding [OF run]]]) (rule account_opI(3))
qed (use assms in \<open>simp add: CreateOrganizations_def\<close>)

lemma CreateUsers_safe_for:
  assumes "CreateUsers R (sv_openReg V) E ns w = (r, w')" "inv w"
  shows "safe c knows w w'"
  by (rule safe_account [OF CreateUsers_writes [OF assms(1)] assms(2) _ CreateUsers_permitted [OF assms(1)]])
     (blast intro: account_opI(1))

lemma serve_rpc_safe:
  assumes run: "serve_rpc V E p c w = (r, w')" and i: "inv w"
    and v: "\<And>i d. valid (storage_key (NewString E i 0) (commit_id d))"
  shows "safe c knows w w'"
  using run i
  by (cases p)
     (auto simp: uses_repos uses_store dest!: answer_world
       intro: CreateOrganizations_safe_for CreateUsers_safe_for CreateModules_safe_for [OF _ _ v] upload_safe_for labels_safe)

lemma createOrg_safe:
  assumes "createOrg R E c body w = (r, w')" "inv w"
  shows "safe c knows w w'"
proof (cases c)
  case (Some u)
  note run = assms(1) [unfolded Some]
  show ?thesis
    unfolding Some
    by (rule safe_account [OF createOrg_writes [OF run] assms(2) _ founding_permitted [OF createOrg_founding [OF run]]])
       (rule account_opI(3))
qed (use assms in \<open>simp add: createOrg_def\<close>)

lemma rest_createModule_safe:
  assumes "rest_createModule R E c body w = (r, w')" "inv w" "\<And>i d. valid (storage_key (NewString E i 0) (commit_id d))"
  shows "safe c knows w w'"
proof (cases c)
  case (Some u)
  note run = assms(1) [unfolded Some]
  from safe_creates [OF rest_createModule_writes [OF run] assms(2,3)] permitted_create [OF rest_createModule_within [OF run]]
  show ?thesis unfolding Some by blast
qed (use assms in \<open>simp add: rest_createModule_def\<close>)

text \<open>The handlers of accounts, tokens and members: their writes are all account writes.\<close>

lemma register_safe:
  assumes "register R (sv_openReg V) B salt E body w = (r, w')" "inv w"
  shows "safe c knows w w'"
proof (cases "\<exists>un pw. body = Some (un, pw)")
  case True
  then obtain un pw where "body = Some (un, pw)" by blast
  with assms(1) have "runs_to R (registers un) w w'" using register_writes by metis
  then show ?thesis
    by (rule safe_account [OF _ assms(2) _ register_permitted [OF assms(1)]]) (rule account_opI(1))
qed (use assms in \<open>auto simp: register_def split: option.splits if_splits\<close>)

lemma login_safe:
  assumes "login R B E body w = (r, w')" "inv w"
  shows "safe c (password_of B body (abs w)) w w'"
proof (cases "w' = w")
  case False
  obtain un pw where b: "body = Some (un, pw)" using assms(1) False by (auto simp: login_def split: option.splits)
  with login_writes [OF assms(1) [unfolded b]] False obtain u :: User where "runs_to R (token_op (uID u)) w w'" by blast
  then show ?thesis
    by (rule safe_account [OF _ assms(2) _ login_permitted [OF assms(1)]]) (rule account_opI(2))
qed (simp add: assms(2))

lemma token_safe:
  "createToken R E c body w = (r, w') \<Longrightarrow> inv w \<Longrightarrow> safe c knows w w'"
  "revokeToken R c i w = (r, w') \<Longrightarrow> inv w \<Longrightarrow> safe c knows w w'"
proof -
  show "safe c knows w w'" if run: "createToken R E c body w = (r, w')" and "inv w"
  proof (cases c)
    case (Some u)
    show ?thesis
      by (rule safe_account [OF createToken_writes [OF run [unfolded Some]] that(2) _ createToken_permitted [OF run]])
         (rule account_opI(2))
  qed (use that in \<open>simp add: createToken_def\<close>)
  show "safe c knows w w'" if run: "revokeToken R c i w = (r, w')" and "inv w"
  proof (cases c)
    case (Some u)
    show ?thesis
      by (rule safe_account [OF revokeToken_writes [OF run [unfolded Some]] that(2) _ revokeToken_permitted [OF run]])
         (rule account_opI(2))
  qed (use that in \<open>simp add: revokeToken_def\<close>)
qed

lemma member_safe:
  "addMember R c orgName body w = (r, w') \<Longrightarrow> inv w \<Longrightarrow> safe c knows w w'"
  "removeMember R c orgName un w = (r, w') \<Longrightarrow> inv w \<Longrightarrow> safe c knows w w'"
proof -
  have *: "safe c knows w w'"
    if "w' = w \<or> (\<exists>org. runs_to R (membership_op org) w w')" "inv w" "permitted (sv_openReg V) c knows (abs w) (abs w')"
    using that(1)
  proof (elim disjE exE)
    fix org
    assume "runs_to R (membership_op org) w w'"
    then show ?thesis by (rule safe_account [OF _ that(2) _ that(3)]) (rule account_opI(4))
  qed (simp add: that(2))
  show "safe c knows w w'" if run: "addMember R c orgName body w = (r, w')" and "inv w"
  proof (cases c)
    case (Some u)
    show ?thesis by (rule * [OF _ that(2) addMember_permitted [OF run]]) (use addMember_writes [OF run [unfolded Some]] in blast)
  qed (use that in \<open>simp add: addMember_def\<close>)
  show "safe c knows w w'" if run: "removeMember R c orgName un w = (r, w')" and "inv w"
  proof (cases c)
    case (Some u)
    show ?thesis by (rule * [OF _ that(2) removeMember_permitted [OF run]]) (use removeMember_writes [OF run [unfolded Some]] in blast)
  qed (use that in \<open>simp add: removeMember_def\<close>)
qed

lemma serve_endpoint_safe:
  assumes run: "serve_endpoint V salt E q ep pv c w = (r, w')" and i: "inv w"
    and v: "\<And>i d. valid (storage_key (NewString E i 0) (commit_id d))"
  shows "safe c (password_of (sv_bcrypt V) (field2 q ''username'' ''password'') (abs w)) w w'"
  using run i
  by (cases ep)
     (auto simp: uses_repos intro: register_safe login_safe token_safe createOrg_safe member_safe rest_createModule_safe [OF _ _ v])

lemma serve_rest_safe:
  assumes run: "serve_rest V salt E q c w = (r, w')" and i: "inv w"
    and v: "\<And>i d. valid (storage_key (NewString E i 0) (commit_id d))"
  shows "safe c (password_of (sv_bcrypt V) (field2 q ''username'' ''password'') (abs w)) w w'"
  using run i serve_endpoint_safe [OF _ i v]
  by (auto simp: serve_rest_def split: option.splits prod.splits)

lemma serve_mux_safe:
  assumes run: "serve_mux V rq c w = (r, w')" and i: "inv w" and c: "caller_of rq (abs w) c"
    and v: "\<And>i d. valid (storage_key (NewString (handler_env rq) i 0) (commit_id d))"
  shows "\<exists>c'. caller_of rq (abs w) c' \<and> safe c' (presents V rq (abs w)) w w'"
proof (cases "target rq")
  case (Rest q)
  with run have "serve_rest V (salt_of rq) (handler_env rq) q c w = (r, w')" by (simp add: serve_mux_def)
  from serve_rest_safe [OF this i v] have "safe c (presents V rq (abs w)) w w'"
    unfolding safe_def using permitted_knows Rest by (auto simp: presents_def)
  with c show ?thesis by blast
next
  case (Rpc p)
  let ?next = "serve_rpc V (handler_env rq) p"
  let ?run = "NewConnectInterceptor R (clock rq 1) (Authorization rq) ?next c w"
  from run Rpc obtain r0 where r0: "?run = (r0, w')" by (auto simp: serve_mux_def uses_repos split: prod.splits)
  consider (user) u where "proves (abs w) (clock rq 1) (Authorization rq) u" "?run = ?next (Some u) w"
    | (same) "?run = ?next c w" | (refused) e where "?run = (Inl e, w)"
    using interceptor_sound [of w "clock rq 1" "Authorization rq" ?next c] by blast
  then show ?thesis
  proof cases
    case user
    then have "caller_of rq (abs w) (Some u)" by (auto simp: caller_of_def)
    with serve_rpc_safe [OF _ i v] user r0 show ?thesis by metis
  next
    case same
    with serve_rpc_safe [OF _ i v] c r0 show ?thesis by metis
  next
    case refused
    with r0 i c show ?thesis by auto
  qed
qed

lemma httpHandler_safe:
  assumes run: "httpHandler V rq (rl, w) = (r, rl', w')" and i: "inv w"
    and v: "\<And>i d. valid (storage_key (NewString (handler_env rq) i 0) (commit_id d))"
  shows "\<exists>c. caller_of rq (abs w) c \<and> safe c (presents V rq (abs w)) w w'"
proof -
  let ?mw = "Middleware R (clock rq 0) (Authorization rq) (serve_mux V rq) None w"
  obtain r1 w1 where m: "?mw = (r1, w1)" by fastforce
  have "w' = w \<or> w' = w1"
    using run m by (auto simp: httpHandler_def RateLimitMiddleware_def uses_repos split: prod.splits bool.splits)
  moreover have "\<exists>c. caller_of rq (abs w) c \<and> safe c (presents V rq (abs w)) w w1"
  proof -
    consider (user) u where "proves (abs w) (clock rq 0) (Authorization rq) u" "?mw = serve_mux V rq (Some u) w"
      | (none) "?mw = serve_mux V rq None w"
      using middleware_sound [of w "clock rq 0" "Authorization rq" "serve_mux V rq" None] by blast
    then show ?thesis
    proof cases
      case user
      then have "caller_of rq (abs w) (Some u)" by (auto simp: caller_of_def)
      from serve_mux_safe [OF _ i this v] user m show ?thesis by metis
    next
      case none
      have "caller_of rq (abs w) None" by (simp add: caller_of_def)
      from serve_mux_safe [OF _ i this v] none m show ?thesis by metis
    qed
  qed
  moreover have "caller_of rq (abs w) None" "safe None (presents V rq (abs w)) w w" using i by (simp_all add: caller_of_def)
  ultimately show ?thesis by blast
qed

lemma server_step_safe:
  assumes "inv w" "\<And>rq i d. e = Arrive rq \<Longrightarrow> valid (storage_key (NewString (handler_env rq) i 0) (commit_id d))"
    and "server_step V e (rl, w) = (rl', w')"
  shows "inv w' \<and> steps_from w w' \<and> (rl_inv rl \<longrightarrow> rl_inv rl')"
proof (cases e)
  case (Arrive rq)
  obtain r where h: "httpHandler V rq (rl, w) = (r, rl', w')"
    using assms(3) Arrive by (cases "httpHandler V rq (rl, w)") auto
  have "rl' = snd (allow (RemoteAddr rq) rl)"
    using h by (auto simp: httpHandler_def RateLimitMiddleware_def split: prod.splits bool.splits)
  moreover from httpHandler_safe [OF h assms(1)] assms(2) [OF Arrive] have "inv w' \<and> steps_from w w'"
    by (auto simp: safe_def)
  ultimately show ?thesis using allow_inv by blast
next
  case MinuteTick
  then show ?thesis
    using assms by (auto simp: rl_inv_def cleanup_def content_inv_def)
qed

lemma server_run_safe:
  assumes "inv w" "\<And>rq i d. Arrive rq \<in> set es \<Longrightarrow> valid (storage_key (NewString (handler_env rq) i 0) (commit_id d))"
    and "server_run V es (rl, w) = (rl', w')"
  shows "inv w' \<and> steps_from w w' \<and> (rl_inv rl \<longrightarrow> rl_inv rl')"
  using assms
proof (induction es arbitrary: rl w)
  case Nil
  then show ?case by (simp add: content_inv_def)
next
  case (Cons e es)
  obtain rl1 w1 where s: "server_step V e (rl, w) = (rl1, w1)" by fastforce
  have st: "inv w1 \<and> steps_from w w1 \<and> (rl_inv rl \<longrightarrow> rl_inv rl1)"
    by (rule server_step_safe [OF Cons.prems(1) _ s]) (use Cons.prems(2) in auto)
  have "inv w' \<and> steps_from w1 w' \<and> (rl_inv rl1 \<longrightarrow> rl_inv rl')"
    by (rule Cons.IH) (use st Cons.prems s in auto)
  with st show ?case by (meson rtranclp_trans)
qed

end

section \<open>An example server\<close>

definition demo_encode :: "connect_error + 'fd rpc_answer \<Rightarrow> http_response" where
  "demo_encode r =
     \<lparr>status = (case r of Inl (ConnectError CodeUnauthenticated _) \<Rightarrow> 401 | Inl _ \<Rightarrow> 500 | Inr _ \<Rightarrow> 200), headers = [],
      payload = TextBody (case r of Inl e \<Rightarrow> message_of e | Inr _ \<Rightarrow> ''ok'')\<rparr>"

definition demo_server :: "World Store \<Rightarrow> (World, nat) server" where
  "demo_server store =
     \<lparr>sv_repos = sql_repos policy_enforcer list_gorm, sv_casbin = policy_enforcer, sv_store = store, sv_zip = demo_zip,
      sv_compile = (\<lambda>srcs ps. Inr (map length ps)), sv_bcrypt = demo_bcrypt, sv_openReg = False,
      sv_encode = demo_encode, sv_web = (\<lambda>_. writeErr 404 ''404 page not found'')\<rparr>"

lemma demo_server_simps [simp]:
  "sv_repos (demo_server store) = sql_repos policy_enforcer list_gorm" "sv_store (demo_server store) = store"
  "sv_bcrypt (demo_server store) = demo_bcrypt" "sv_openReg (demo_server store) = False"
  "sv_casbin (demo_server store) = policy_enforcer"
  by (simp_all add: demo_server_def)

interpretation db_server: server_on "sql_repos policy_enforcer list_gorm" sql_abs
    "NewDBStore (list_engine blob_clash) now" "whole db_blobs" "\<lambda>_. True" blob_keys
    "demo_server (NewDBStore (list_engine blob_clash) now)" for now
  by unfold_locales simp_all

interpretation local_server: server_on "sql_repos policy_enforcer list_gorm" sql_abs
    "NewLocalStore default_local" "whole (local_blobs default_local)" valid_key "\<lambda>w. fs_ok (w_fs w)"
    "demo_server (NewLocalStore default_local)"
  by unfold_locales simp_all

definition demo_request :: "string \<Rightarrow> call \<Rightarrow> request" where
  "demo_request hdr cl =
     \<lparr>RemoteAddr = ''10.0.0.1:5000'', Authorization = hdr, target = cl, clock = (\<lambda>_. 9), handler_env = demo_env, salt_of = 0\<rparr>"

lemma demo_ids_plain: "plain (NewString demo_env i j)"
proof -
  have "CHR ''-'' \<in> set (NewString demo_env i j)" "CHR ''/'' \<notin> set (NewString demo_env i j)"
    by (simp_all add: demo_env_def)
  then show ?thesis by (force simp: plain_def)
qed

section \<open>Properties of the server\<close>

text \<open>
  C6. The server never loses its footing. On the default stack (SQL and the local store), whatever
  sequence of requests arrives and whatever database or Casbin calls fail, the registry moves along allowed
  steps, its keys stay unique, accounts, organizations and commits are never lost, every label points
  at a commit of its module, every commit's archive is stored under its digest, and the limiter's table stays bounded.
\<close>

theorem server_invariant:
  fixes w :: "'z World_scheme" and V :: "('z World_scheme, 'fd) server"
  assumes "gorm_db G" "casbin_sound enf" "local_ok holding s" "sv_repos V = sql_repos enf G" "sv_store V = NewLocalStore s"
    and "content_inv sql_abs (holding (local_blobs s)) valid_key (\<lambda>w. fs_ok (w_fs w)) w"
    and "\<forall>rq i. Arrive rq \<in> set es \<longrightarrow> plain (NewString (handler_env rq) i 0)"
    and "server_run V es (main_limiter, w) = (rl', w')"
  shows "content_inv sql_abs (holding (local_blobs s)) valid_key (\<lambda>w. fs_ok (w_fs w)) w' \<and>
    reg_step\<^sup>*\<^sup>* (sql_abs w) (sql_abs w') \<and> rUsers (sql_abs w) \<subseteq> rUsers (sql_abs w') \<and>
    rOrgs (sql_abs w) \<subseteq> rOrgs (sql_abs w') \<and> rCommits (sql_abs w) \<subseteq> rCommits (sql_abs w') \<and> rl_inv rl'"
proof -
  have V: "server_on (sql_repos enf G) sql_abs (NewLocalStore s) (holding (local_blobs s)) valid_key (\<lambda>w. fs_ok (w_fs w)) V"
    by (rule server_on.intro [OF sql_local_backend [OF assms(1-3)]]) (unfold_locales, simp_all add: assms)
  have "rl_inv main_limiter" by (simp add: main_limiter_def newRateLimiter_inv)
  with server_on.server_run_safe [OF V assms(6) _ assms(8)] assms(7) storage_key_valid reg_steps_grow show ?thesis
    by (metis (no_types, lifting))
qed

theorem server_invariant_witness:
  "content_inv sql_abs (partial (local_blobs small_disk)) valid_key (\<lambda>w. fs_ok (w_fs w))
     (snd (server_run (demo_server (NewLocalStore small_disk))
       [Arrive (demo_request '''' (Rpc (RpcUpload [demo_content]))), MinuteTick,
        Arrive (demo_request ''Bearer x'' (Rpc (RpcCreateModules [])))] (main_limiter, demo_world)))"
proof -
  let ?V = "demo_server (NewLocalStore small_disk)"
  let ?es = "[Arrive (demo_request '''' (Rpc (RpcUpload [demo_content]))), MinuteTick,
        Arrive (demo_request ''Bearer x'' (Rpc (RpcCreateModules [])))]"
  have ids: "\<forall>rq i. Arrive rq \<in> set ?es \<longrightarrow> plain (NewString (handler_env rq) i 0)"
    using demo_ids_plain by (auto simp: demo_request_def)
  show ?thesis
    using server_invariant [where holding = partial, OF list_db.gorm_db_axioms casbin_matches_sound [OF policy_enforcer_matches] small_disk_ok
        demo_server_simps(1,2) small_disk_inv ids prod.collapse [symmetric]] by blast
qed

text \<open>
  C2. Every request stays within the access policy, whatever calls fail. Its caller is nobody or the owner of a
  live token it carries; new accounts appear only when registration is open; tokens change only for
  the caller, or for a user whose password the request presents; and organizations, members, modules,
  commits and labels change only under the rights the caller has.
\<close>

theorem request_authorized:
  fixes w :: "'z World_scheme" and V :: "('z World_scheme, 'fd) server"
  assumes "gorm_db G" "casbin_sound enf" "gorm_sound g blob_clash"
    and "sv_repos V = sql_repos enf G" "sv_store V = NewDBStore g now"
    and "content_inv sql_abs (whole db_blobs) (\<lambda>_. True) blob_keys w"
    and "httpHandler V rq (rl, w) = (r, rl', w')"
  shows "\<exists>c. caller_of rq (sql_abs w) c \<and>
     permitted (sv_openReg V) c (presents V rq (sql_abs w)) (sql_abs w) (sql_abs w')"
proof -
  have V: "server_on (sql_repos enf G) sql_abs (NewDBStore g now) (whole db_blobs) (\<lambda>_. True) blob_keys V"
    by (rule server_on.intro [OF sql_db_backend [OF assms(1-3)]]) (unfold_locales, simp_all add: assms)
  from server_on.httpHandler_safe [OF V assms(7,6)] show ?thesis
    by (auto simp: server_on.safe_def [OF V])
qed

theorem request_authorized_witness:
  "let w' = snd (snd (httpHandler (demo_server (NewDBStore (list_engine blob_clash) 5))
       (demo_request ''Bearer stolen'' (Rpc (RpcUpload [demo_content]))) (main_limiter, demo_world)))
   in rUsers (sql_abs w') = rUsers (sql_abs demo_world) \<and> rTokens (sql_abs w') = rTokens (sql_abs demo_world) \<and>
      rCommits (sql_abs w') = rCommits (sql_abs demo_world) \<and> rLabels (sql_abs w') = rLabels (sql_abs demo_world)"
proof -
  let ?V = "demo_server (NewDBStore (list_engine blob_clash) 5)"
  let ?rq = "demo_request ''Bearer stolen'' (Rpc (RpcUpload [demo_content]))"
  let ?w = "snd (snd (httpHandler ?V ?rq (main_limiter, demo_world)))"
  have "\<exists>c. caller_of ?rq (sql_abs demo_world) c \<and>
      permitted (sv_openReg ?V) c (presents ?V ?rq (sql_abs demo_world)) (sql_abs demo_world) (sql_abs ?w)"
    by (rule request_authorized [OF list_db.gorm_db_axioms casbin_matches_sound [OF policy_enforcer_matches]
          gorm_reliable.axioms(1) [OF list_engine_reliable] demo_server_simps(1,2) demo_inv]) (simp add: prod_eq_iff)
  then obtain c where c: "caller_of ?rq (sql_abs demo_world) c"
      "permitted False c (presents ?V ?rq (sql_abs demo_world)) (sql_abs demo_world) (sql_abs ?w)"
    by auto
  have "\<not> proves (sql_abs demo_world) t (Authorization ?rq) u" for t u
    by (simp add: proves_def demo_world_abs demo_defs)
  with c(1) have "c = None" by (auto simp: caller_of_def)
  moreover have "\<not> presents ?V ?rq (sql_abs demo_world) i" for i by (simp add: presents_def demo_request_def)
  ultimately show ?thesis using c(2) by (simp add: permitted_def Let_def set_eq_iff)
qed

section \<open>Routing\<close>

text \<open>Two patterns that can match the same path.\<close>

fun overlap :: "segment list \<Rightarrow> segment list \<Rightarrow> bool" where
  "overlap [] [] = True"
| "overlap (Lit a # ps) (Lit b # qs) = (a = b \<and> overlap ps qs)"
| "overlap (Lit a # ps) (Wild n # qs) = (a \<noteq> [] \<and> overlap ps qs)"
| "overlap (Wild n # ps) (Lit b # qs) = (b \<noteq> [] \<and> overlap ps qs)"
| "overlap (Wild n # ps) (Wild k # qs) = overlap ps qs"
| "overlap _ _ = False"

fun seg_ok :: "segment \<Rightarrow> string \<Rightarrow> bool" where
  "seg_ok (Lit s) x = (x = s)"
| "seg_ok (Wild n) x = (x \<noteq> [])"

lemma match_ok: "match_segments ps xs = Some v \<Longrightarrow> list_all2 seg_ok ps xs"
  by (induction ps xs arbitrary: v rule: match_segments.induct) (auto split: if_splits)

lemma ok_overlap: "list_all2 seg_ok ps xs \<Longrightarrow> list_all2 seg_ok qs xs \<Longrightarrow> overlap ps qs"
  by (induction ps qs arbitrary: xs rule: overlap.induct) (auto simp: list_all2_Cons1)

lemma routes_disjoint:
  "sorted_wrt (\<lambda>(m, ps, _) (m', qs, _). \<not> (m = m' \<and> overlap ps qs)) routes" "\<forall>(m, _)\<in>set routes. m \<noteq> ''HEAD''"
  by code_simp+

lemma find_route_Some:
  assumes "sorted_wrt (\<lambda>(m, ps, _) (m', qs, _). \<not> (m = m' \<and> overlap ps qs)) rs" "\<forall>(m, _)\<in>set rs. m \<noteq> ''HEAD''"
    and "(pm, ps, ep) \<in> set rs" "match_method pm meth" "match_segments ps path = Some vals"
  shows "find_route rs meth path = Some (ep, vals)"
  using assms
proof (induction rs)
  case (Cons r rs)
  obtain pm' ps' ep' where r: "r = (pm', ps', ep')" by (cases r)
  show ?case
  proof (cases "r = (pm, ps, ep)")
    case True
    with Cons.prems show ?thesis by simp
  next
    case False
    with Cons.prems have m: "(pm, ps, ep) \<in> set rs" by auto
    have "\<not> (match_method pm' meth \<and> match_segments ps' path = Some v)" for v
      using Cons.prems m ok_overlap [OF match_ok match_ok, of ps' path v ps vals] by (auto simp: r match_method_def)
    with Cons m show ?thesis by (auto simp: r split: option.splits)
  qed
qed simp

lemma find_route_in: "find_route rs meth path = Some (ep, vals) \<Longrightarrow>
    \<exists>pm ps. (pm, ps, ep) \<in> set rs \<and> match_method pm meth \<and> match_segments ps path = Some vals"
proof (induction rs)
  case (Cons r rs)
  obtain pm ps ep' where r: "r = (pm, ps, ep')" by (cases r)
  show ?case
  proof (cases "match_method pm meth \<and> match_segments ps path \<noteq> None")
    case True
    with Cons.prems have "ep' = ep" "match_segments ps path = Some vals" by (auto simp: r)
    with True r show ?thesis by (metis list.set_intros(1))
  next
    case False
    with Cons.prems have "find_route rs meth path = Some (ep, vals)" by (auto simp: r split: if_splits)
    with Cons.IH show ?thesis by (metis list.set_intros(2))
  qed
qed simp

text \<open>
  Routing is unambiguous: a method and path that some registered pattern matches is served by that
  pattern's endpoint, with the path values the pattern names, so the order in which the handlers
  register does not matter; what no pattern matches goes to the web interface.
\<close>

theorem routing_exact:
  "(find_route routes meth path = Some (ep, vals) \<longleftrightarrow>
     (\<exists>pm ps. (pm, ps, ep) \<in> set routes \<and> match_method pm meth \<and> match_segments ps path = Some vals)) \<and>
   (find_route routes meth path = None \<longleftrightarrow>
     \<not> (\<exists>pm ps ep. (pm, ps, ep) \<in> set routes \<and> match_method pm meth \<and> list_all2 seg_ok ps path))"
proof
  show *: "find_route routes meth path = Some (ep, vals) \<longleftrightarrow>
     (\<exists>pm ps. (pm, ps, ep) \<in> set routes \<and> match_method pm meth \<and> match_segments ps path = Some vals)" for ep vals
    using find_route_Some [OF routes_disjoint] find_route_in by blast
  have "list_all2 seg_ok ps path \<longleftrightarrow> (\<exists>v. match_segments ps path = Some v)" for ps
    by (induction ps path rule: match_segments.induct) auto
  with * show "find_route routes meth path = None \<longleftrightarrow>
     \<not> (\<exists>pm ps ep. (pm, ps, ep) \<in> set routes \<and> match_method pm meth \<and> list_all2 seg_ok ps path)"
    by (metis not_None_eq surj_pair)
qed

section \<open>Start-up\<close>

context repos_reliable
begin

lemma ensureAdmin_kept:
  assumes "registry_keys (abs w)" "\<exists>u\<in>rUsers (abs w). uUsername u = n \<or> uID u = ''admin-'' @ n"
  shows "abs (ensureAdmin R B salt now n pw w) = abs w"
proof (cases "Users_GetByUsername (Users R) n w")
  case (RetErr p e)
  show ?thesis
  proof (cases "HashPassword B salt pw")
    case (Inr h)
    let ?u = "\<lparr>uID = ''admin-'' @ n, uUsername = n, uPasswordHash = h, uCreatedAt = now\<rparr>"
    obtain e' w' where w': "Users_Create (Users R) ?u w = (e', w')" by fastforce
    then have "e' \<noteq> None" using users_create [of ?u w w'] assms(2) by auto
    with w' users_create_err [of ?u w _ w'] show ?thesis by (auto simp: ensureAdmin_def RetErr Inr)
  qed (simp add: ensureAdmin_def RetErr)
qed (simp add: ensureAdmin_def)

lemma ensureAdmin_creates:
  assumes "registry_keys (abs w)" "\<forall>u\<in>rUsers (abs w). uUsername u \<noteq> n \<and> uID u \<noteq> ''admin-'' @ n"
    and "HashPassword B salt pw = Inr h"
  shows "abs (ensureAdmin R B salt now n pw w) = (abs w)\<lparr>rUsers :=
     insert \<lparr>uID = ''admin-'' @ n, uUsername = n, uPasswordHash = h, uCreatedAt = now\<rparr> (rUsers (abs w))\<rparr>"
proof -
  let ?u = "\<lparr>uID = ''admin-'' @ n, uUsername = n, uPasswordHash = h, uCreatedAt = now\<rparr>"
  have "\<forall>v\<in>rUsers (abs w). uID v \<noteq> uID ?u \<and> uUsername v \<noteq> uUsername ?u" using assms(2) by simp
  from users_create_ok [OF this] obtain w' where w': "Users_Create (Users R) ?u w = (None, w')" by blast
  obtain p e where "Users_GetByUsername (Users R) n w = RetErr p e"
    using get_user_iff [OF assms(1), of n] assms(2) by (cases "Users_GetByUsername (Users R) n w") auto
  then have "ensureAdmin R B salt now n pw w = w'" using assms(3) w' by (simp add: ensureAdmin_def)
  with users_create [OF w'] show ?thesis by simp
qed

lemma ensureAdmin_unhashed: "HashPassword B salt pw = Inl e \<Longrightarrow> ensureAdmin R B salt now n pw w = w"
  by (simp add: ensureAdmin_def split: fetch.splits)

end

lemma sql_repos_setup: "(DB_Repos G az)\<lparr>Auth := authz_New enf (Users (DB_Repos G az)) (Orgs (DB_Repos G az))\<rparr> = sql_repos enf G"
  by (simp add: sql_repos_def DB_Repos_def)

text \<open>Configurations that name an SQL database which opens, and a store which opens.\<close>

definition sql_opens :: "('w, 'db, 'client) platform \<Rightarrow> Config \<Rightarrow> 'db \<Rightarrow> bool" where
  "sql_opens P cfg db \<longleftrightarrow>
     DBDriver cfg = ''sqlite'' \<and> sql_Connect (sql_sys P) ''sqlite'' (SQLitePath cfg) = Inr db \<or>
     DBDriver cfg = ''postgres'' \<and> sql_Connect (sql_sys P) ''postgres'' (PostgresDSN cfg) = Inr db"

definition store_opens :: "('w, 'db, 'client) platform \<Rightarrow> Config \<Rightarrow> 'db \<Rightarrow> 'w Store \<Rightarrow> bool" where
  "store_opens P cfg db st \<longleftrightarrow>
     StorageDriver cfg \<in> {''local'', []} \<and> st = local_Store P (StoragePath cfg) \<or>
     StorageDriver cfg = ''s3'' \<and>
       s3_Store P (S3Endpoint cfg) (S3Region cfg) (S3Bucket cfg) (S3Prefix cfg) (S3AccessKey cfg) (S3SecretKey cfg) = Inr st \<or>
     StorageDriver cfg = ''db'' \<and> db_Store P db = Inr st"

text \<open>The administrator's account that start-up adds.\<close>

definition admin_account :: "Config \<Rightarrow> string \<Rightarrow> gotime \<Rightarrow> User" where
  "admin_account cfg h now =
     \<lparr>uID = ''admin-'' @ AdminUser cfg, uUsername = AdminUser cfg, uPasswordHash = h, uCreatedAt = now\<rparr>"

lemma setup_opens:
  fixes w :: "'z World_scheme"
  assumes "sql_opens P cfg db" "sql_Repos P db = DB_Repos G az" "store_opens P cfg db st" "NewEnforcer P = Inr enf"
    and "\<forall>p v. sql_abs (MkdirAll P p v) = sql_abs v"
  obtains v where "sql_abs v = sql_abs w"
    and "\<And>salt now. main_setup P B salt now cfg w = (Inr (sql_repos enf G, st),
        if AdminUser cfg \<noteq> [] \<and> AdminPass cfg \<noteq> []
        then ensureAdmin (sql_repos enf G) B salt now (AdminUser cfg) (AdminPass cfg) v else v)"
proof -
  obtain v1 where v1: "open_database P cfg w = (Inr (DB_Repos G az, Some db), v1)" "sql_abs v1 = sql_abs w"
    using assms(1,2,5) by (auto simp: sql_opens_def open_database_def)
  obtain v where v: "open_storage P cfg (Some db) v1 = (Inr st, v)" "sql_abs v = sql_abs v1"
    using assms(3,5) by (auto simp: store_opens_def open_storage_def)
  show thesis
    by (rule that [of v]) (use v1 v assms(4) in \<open>simp_all add: main_setup_def sql_repos_setup Let_def\<close>)
qed

lemma setup_stops:
  assumes "main_setup P B salt now cfg w = (Inl msg, w')" "\<forall>p v. sql_abs (MkdirAll P p v) = sql_abs v"
  shows "sql_abs w' = sql_abs w"
proof -
  have "sql_abs (snd (open_database P cfg w)) = sql_abs w"
    using assms(2) by (auto simp: open_database_def Let_def split: sum.splits)
  moreover have "sql_abs (snd (open_storage P cfg d v)) = sql_abs v" for d v
    using assms(2) by (auto simp: open_storage_def split: sum.splits option.splits)
  ultimately show ?thesis
    using assms(1) by (auto simp: main_setup_def Let_def split: prod.splits sum.splits) (metis snd_conv)+
qed

text \<open>
  C39. Start-up adds the configured administrator when the name is free, and nothing else. With an SQL database (SQLite or
  PostgreSQL) that answers and a store that opens (local, S3 or the blob table), start-up hands out the SQL repositories with the
  policy's authorizer and that store. When a name and a password are configured, no account has the name or the id that goes with it, and
  bcrypt hashes the password, the registry gains exactly this account and its password gets a session; in every other case the
  registry stays as it is (an account of that name keeps its own password). Starting again changes nothing, unless
  hashing had failed. Unknown drivers, and the blob table without SQL, stop the start-up, and a start-up that stops leaves the
  registry as it is.
\<close>

theorem startup_admin:
  fixes w :: "'z World_scheme" and P :: "('z World_scheme, 'db, 'client) platform"
  assumes "gorm_db_reliable G" "bcrypt_ok B" "sql_opens P cfg db" "sql_Repos P db = DB_Repos G az" "store_opens P cfg db st"
    and "NewEnforcer P = Inr enf" "\<forall>p v. sql_abs (MkdirAll P p v) = sql_abs v" "registry_keys (sql_abs w)"
    and "\<forall>t\<in>rTokens (sql_abs w). tID t \<noteq> NewString E 0 1 \<and> tHash t \<noteq> HashToken (NewString E 0 0)"
  shows "(\<exists>w'. main_setup P B salt now cfg w = (Inr (sql_repos enf G, st), w') \<and>
      (if AdminUser cfg = [] \<or> AdminPass cfg = [] \<or>
          (\<exists>u\<in>rUsers (sql_abs w). uUsername u = AdminUser cfg \<or> uID u = ''admin-'' @ AdminUser cfg)
       then sql_abs w' = sql_abs w
       else case HashPassword B salt (AdminPass cfg) of
         Inl _ \<Rightarrow> sql_abs w' = sql_abs w
       | Inr h \<Rightarrow>
           sql_abs w' = (sql_abs w)\<lparr>rUsers := insert (admin_account cfg h now) (rUsers (sql_abs w))\<rparr> \<and>
           (\<exists>w''. login (sql_repos enf G) B E (Some (AdminUser cfg, AdminPass cfg)) w' =
              (writeJSON 200 (JObj [(''token'', NewString E 0 0), (''user_id'', ''admin-'' @ AdminUser cfg),
                 (''username'', AdminUser cfg)]), w''))) \<and>
      (\<exists>w''. main_setup P B salt' now' cfg w' = (Inr (sql_repos enf G, st), w'') \<and>
         ((\<exists>h. HashPassword B salt (AdminPass cfg) = Inr h) \<longrightarrow> sql_abs w'' = sql_abs w'))) \<and>
    (DBDriver cfg' \<notin> {''mongo'', ''sqlite'', ''postgres''} \<longrightarrow>
       main_setup P B salt now cfg' w = (Inl ''unsupported DB_DRIVER'', w)) \<and>
    (DBDriver cfg' = ''mongo'' \<and> StorageDriver cfg' = ''db'' \<or> StorageDriver cfg' \<notin> {''local'', [], ''s3'', ''db''} \<longrightarrow>
       (\<exists>msg w'. main_setup P B salt now cfg' w = (Inl msg, w'))) \<and>
    (\<forall>msg w'. main_setup P B salt now cfg' w = (Inl msg, w') \<longrightarrow> sql_abs w' = sql_abs w)"
proof (intro conjI)
  let ?R = "sql_repos enf G :: 'z World_scheme Repos" and ?n = "AdminUser cfg" and ?pw = "AdminPass cfg"
  note R = gorm_db_reliable.repos_reliable_sql [OF assms(1), where enf = enf and 'a = "\<lparr>sq_blobs :: Blob list, w_fs :: file_system, \<dots> :: 'z\<rparr>"]
  let ?taken = "\<lambda>r. \<exists>u\<in>rUsers r. uUsername u = ?n \<or> uID u = ''admin-'' @ ?n"
  obtain v where v: "sql_abs v = sql_abs w" and run: "\<And>salt now. main_setup P B salt now cfg w = (Inr (?R, st),
      if ?n \<noteq> [] \<and> ?pw \<noteq> [] then ensureAdmin ?R B salt now ?n ?pw v else v)"
    by (rule setup_opens [OF assms(3-7), where w = w and B = B]) (rule that)
  let ?w = "if ?n \<noteq> [] \<and> ?pw \<noteq> [] then ensureAdmin ?R B salt now ?n ?pw v else v"
  have keysv: "registry_keys (sql_abs v)" using assms(8) v by simp
  have kept: "sql_abs ?w = sql_abs w" if "?n = [] \<or> ?pw = [] \<or> ?taken (sql_abs w) \<or> HashPassword B salt ?pw = Inl e" for e
    using that repos_reliable.ensureAdmin_kept [OF R, OF keysv, of ?n B salt now ?pw]
      repos_reliable.ensureAdmin_unhashed [OF R, of B salt ?pw e now ?n v] v by auto
  have added: "sql_abs ?w = (sql_abs w)\<lparr>rUsers := insert (admin_account cfg h now) (rUsers (sql_abs w))\<rparr>"
    if "?n \<noteq> []" "?pw \<noteq> []" "\<not> ?taken (sql_abs w)" "HashPassword B salt ?pw = Inr h" for h
    using repos_reliable.ensureAdmin_creates [OF R, OF keysv, of ?n B salt ?pw h now] that v by (simp add: admin_account_def)
  have keys: "registry_keys (sql_abs ?w)"
  proof (cases "?n = [] \<or> ?pw = [] \<or> ?taken (sql_abs w) \<or> (\<exists>e. HashPassword B salt ?pw = Inl e)")
    case True
    with kept assms(8) show ?thesis by metis
  next
    case False
    then obtain h where "HashPassword B salt ?pw = Inr h" by (meson obj_sumE)
    with False added [of h] assms(8) show ?thesis by (auto simp: registry_keys_def inj_on_insert_fresh admin_account_def)
  qed
  have session: "\<exists>w''. login ?R B E (Some (?n, ?pw)) ?w = (writeJSON 200 (JObj [(''token'', NewString E 0 0),
      (''user_id'', ''admin-'' @ ?n), (''username'', ?n)]), w'')"
    if n: "?n \<noteq> []" "?pw \<noteq> []" "\<not> ?taken (sql_abs w)" "HashPassword B salt ?pw = Inr h" for h
  proof -
    let ?u = "admin_account cfg h now"
    have "CheckPassword B (uPasswordHash ?u) ?pw"
      using assms(2) n(4) by (simp add: bcrypt_ok_def CheckPassword_def HashPassword_def admin_account_def)
    with repos_reliable.login_granted [OF R, OF keys, of ?u B ?pw E] added [OF n] assms(9) obtain w'' where
      "login ?R B E (Some (uUsername ?u, ?pw)) ?w =
        (writeJSON StatusOK (JObj [(''token'', NewString E 0 0), (''user_id'', uID ?u), (''username'', uUsername ?u)]), w'')"
      by auto
    then show ?thesis by (simp add: admin_account_def)
  qed
  obtain v' where v': "sql_abs v' = sql_abs ?w" and again: "\<And>salt now. main_setup P B salt now cfg ?w = (Inr (?R, st),
      if ?n \<noteq> [] \<and> ?pw \<noteq> [] then ensureAdmin ?R B salt now ?n ?pw v' else v')"
    by (rule setup_opens [OF assms(3-7), where w = ?w and B = B]) (rule that)
  have still: "sql_abs (if ?n \<noteq> [] \<and> ?pw \<noteq> [] then ensureAdmin ?R B salt' now' ?n ?pw v' else v') = sql_abs ?w"
    if h: "HashPassword B salt ?pw = Inr h" for h
  proof (cases "?n = [] \<or> ?pw = []")
    case False
    have "?taken (sql_abs ?w)"
      using kept added [OF _ _ _ h] False by (cases "?taken (sql_abs w)") (auto simp: admin_account_def)
    with repos_reliable.ensureAdmin_kept [OF R, of v' ?n B salt' now' ?pw] keys v' False show ?thesis by simp
  qed (use v' in auto)
  let ?new = "\<lambda>h. sql_abs ?w = (sql_abs w)\<lparr>rUsers := insert (admin_account cfg h now) (rUsers (sql_abs w))\<rparr> \<and>
     (\<exists>w''. login ?R B E (Some (?n, ?pw)) ?w = (writeJSON 200 (JObj [(''token'', NewString E 0 0),
        (''user_id'', ''admin-'' @ ?n), (''username'', ?n)]), w''))"
  have result: "if ?n = [] \<or> ?pw = [] \<or> ?taken (sql_abs w) then sql_abs ?w = sql_abs w
     else case HashPassword B salt ?pw of Inl _ \<Rightarrow> sql_abs ?w = sql_abs w | Inr h \<Rightarrow> ?new h"
  proof (cases "?n = [] \<or> ?pw = [] \<or> ?taken (sql_abs w)")
    case True
    with kept have "sql_abs ?w = sql_abs w" by blast
    then show ?thesis unfolding if_P [OF True] .
  next
    case False
    show ?thesis
      unfolding if_not_P [OF False]
    proof (cases "HashPassword B salt ?pw")
      case (Inl e)
      with kept have "sql_abs ?w = sql_abs w" by blast
      then show "case HashPassword B salt ?pw of Inl _ \<Rightarrow> sql_abs ?w = sql_abs w | Inr h \<Rightarrow> ?new h" unfolding Inl sum.case .
    next
      case (Inr h)
      with False added [of h] session [of h] have "?new h" by blast
      then show "case HashPassword B salt ?pw of Inl _ \<Rightarrow> sql_abs ?w = sql_abs w | Inr h \<Rightarrow> ?new h" unfolding Inr sum.case .
    qed
  qed
  show "\<exists>w'. main_setup P B salt now cfg w = (Inr (?R, st), w') \<and>
      (if ?n = [] \<or> ?pw = [] \<or> ?taken (sql_abs w) then sql_abs w' = sql_abs w
       else case HashPassword B salt ?pw of Inl _ \<Rightarrow> sql_abs w' = sql_abs w
         | Inr h \<Rightarrow> sql_abs w' = (sql_abs w)\<lparr>rUsers := insert (admin_account cfg h now) (rUsers (sql_abs w))\<rparr> \<and>
           (\<exists>w''. login ?R B E (Some (?n, ?pw)) w' = (writeJSON 200 (JObj [(''token'', NewString E 0 0),
              (''user_id'', ''admin-'' @ ?n), (''username'', ?n)]), w''))) \<and>
      (\<exists>w''. main_setup P B salt' now' cfg w' = (Inr (?R, st), w'') \<and>
         ((\<exists>h. HashPassword B salt ?pw = Inr h) \<longrightarrow> sql_abs w'' = sql_abs w'))"
    by (rule exI [of _ ?w], intro conjI run result exI, rule again) (use still in blast)
  show "\<forall>msg w'. main_setup P B salt now cfg' w = (Inl msg, w') \<longrightarrow> sql_abs w' = sql_abs w"
    using setup_stops [OF _ assms(7)] by blast
qed (auto simp: main_setup_def open_database_def open_storage_def Let_def split: sum.splits prod.splits)

definition demo_platform :: "(World, unit, unit) platform" where
  "demo_platform =
     \<lparr>mongo_driver = \<lparr>mongo_Client = (\<lambda>_. Inl ''no server''), Ping = (\<lambda>_. None), Disconnect = (\<lambda>_. None)\<rparr>,
      mongo_Repos_of = (\<lambda>_. DB_Repos list_gorm (authz_New policy_enforcer (UserStore list_gorm) (OrgStore list_gorm))),
      sql_sys = \<lparr>gorm_Open = (\<lambda>_. Inr ()), AutoMigrate = (\<lambda>_. None), gorm_DB = (\<lambda>_. None), pool_Close = (\<lambda>_. None)\<rparr>,
      sql_Repos = (\<lambda>_. DB_Repos list_gorm (authz_New policy_enforcer (UserStore list_gorm) (OrgStore list_gorm))),
      local_Store = (\<lambda>p. NewLocalStore \<lparr>root = p, getwd = Inr ''/'', disk = (\<lambda>_ _ _. None)\<rparr>),
      s3_Store = (\<lambda>_ _ _ _ _ _. Inl ''no S3''), db_Store = (\<lambda>_. Inl ''no table''),
      NewEnforcer = Inr policy_enforcer,
      MkdirAll = (\<lambda>p w. w\<lparr>w_fs := snd (os_MkdirAll (elems p) (w_fs w))\<rparr>)\<rparr>"

text \<open>A first start with an administrator, and one where the name is taken.\<close>

theorem startup_admin_witness:
  "(\<exists>w'. main_setup demo_platform demo_bcrypt 0 7
      (Load (\<lambda>k. if k = ''ADMIN_USERNAME'' then ''root'' else if k = ''ADMIN_PASSWORD'' then ''hunter22'' else [])) demo_world =
      (Inr (sql_repos policy_enforcer list_gorm, NewLocalStore \<lparr>root = ''./data/modules'', getwd = Inr ''/'', disk = (\<lambda>_ _ _. None)\<rparr>), w') \<and>
    (\<exists>b w''. login (sql_repos policy_enforcer list_gorm) demo_bcrypt demo_env (Some (''root'', ''hunter22'')) w' = (writeJSON 200 b, w''))) \<and>
   (\<exists>w'. main_setup demo_platform demo_bcrypt 0 7
      (Load (\<lambda>k. if k = ''ADMIN_USERNAME'' then ''bob'' else if k = ''ADMIN_PASSWORD'' then ''hunter22'' else [])) demo_world =
      (Inr (sql_repos policy_enforcer list_gorm, NewLocalStore \<lparr>root = ''./data/modules'', getwd = Inr ''/'', disk = (\<lambda>_ _ _. None)\<rparr>), w') \<and>
    sql_abs w' = sql_abs demo_world)"
proof -
  let ?cfg = "\<lambda>n. Load (\<lambda>k. if k = ''ADMIN_USERNAME'' then n else if k = ''ADMIN_PASSWORD'' then ''hunter22'' else [])"
  let ?st = "NewLocalStore \<lparr>root = ''./data/modules'', getwd = Inr ''/'', disk = (\<lambda>_ _ _. None)\<rparr> :: World Store"
  have cfg: "DBDriver (?cfg n) = ''sqlite''" "StorageDriver (?cfg n) = ''local''" "AdminUser (?cfg n) = n" "AdminPass (?cfg n) = ''hunter22''"
    "StoragePath (?cfg n) = ''./data/modules''" for n
    by (simp_all add: Load_def envOr_def)
  have P: "sql_opens demo_platform (?cfg n) ()"
      "sql_Repos demo_platform () = DB_Repos list_gorm (authz_New policy_enforcer (UserStore list_gorm) (OrgStore list_gorm))"
      "store_opens demo_platform (?cfg n) () ?st"
      "NewEnforcer demo_platform = Inr policy_enforcer" "\<forall>p v. sql_abs (MkdirAll demo_platform p v) = sql_abs v" for n
    by (simp_all add: sql_opens_def store_opens_def cfg demo_platform_def sql_Connect_def sql_abs_def)
  have tokens: "\<forall>t\<in>rTokens (sql_abs demo_world). tID t \<noteq> NewString demo_env 0 1 \<and> tHash t \<noteq> HashToken (NewString demo_env 0 0)"
    and keys: "registry_keys (sql_abs demo_world)"
    and pw: "HashPassword demo_bcrypt 0 ''hunter22'' = Inr ''hhunter22''"
    and free: "\<not> (\<exists>u\<in>rUsers (sql_abs demo_world). uUsername u = ''root'' \<or> uID u = ''admin-'' @ ''root'')"
    and taken: "\<exists>u\<in>rUsers (sql_abs demo_world). uUsername u = ''bob'' \<or> uID u = ''admin-'' @ ''bob''"
    using demo_keys by (simp_all add: demo_world_abs demo_defs HashPassword_def demo_bcrypt_def)
  note start = startup_admin [OF list_db.gorm_db_reliable_axioms demo_bcrypt_ok P keys tokens, THEN conjunct1,
      of 0 7, unfolded cfg pw]
  have first: "\<exists>w'. main_setup demo_platform demo_bcrypt 0 7 (?cfg ''root'') demo_world = (Inr (sql_repos policy_enforcer list_gorm, ?st), w') \<and>
      (\<exists>b w''. login (sql_repos policy_enforcer list_gorm) demo_bcrypt demo_env (Some (''root'', ''hunter22'')) w' = (writeJSON 200 b, w''))"
    using start [of "''root''" 0 7] free by (simp, blast)
  have "\<exists>w'. main_setup demo_platform demo_bcrypt 0 7 (?cfg ''bob'') demo_world = (Inr (sql_repos policy_enforcer list_gorm, ?st), w') \<and>
      sql_abs w' = sql_abs demo_world"
    using start [of "''bob''" 0 7] taken by (simp, blast)
  with first show ?thesis by blast
qed

end
