(* ===== verification/Account_Life.thy ===== *)
theory Account_Life
  imports Account_Correct
begin

text \<open>
  The life of accounts, tokens and organizations over several requests, on repositories that answer:
  what registration, the token endpoints and the organization endpoints achieve, branch by branch, and
  what the requests after them see.
\<close>

section \<open>Registration\<close>

definition new_user :: "env \<Rightarrow> string \<Rightarrow> string \<Rightarrow> User" where
  "new_user E un h = \<lparr>uID = NewString E 0 0, uUsername = un, uPasswordHash = h, uCreatedAt = Now E 0 0\<rparr>"

context repos_reliable
begin

lemma register_taken:
  assumes "registry_keys (abs w)" "u \<in> rUsers (abs w)" "good_name 3 (uUsername u)" "8 \<le> length pw" "HashPassword B salt pw = Inr h"
  shows "register R True B salt E (Some (uUsername u, pw)) w = (writeErr StatusConflict ''username already exists'', w)"
  using assms get_user_iff [OF assms(1), of "uUsername u" u] by (simp add: register_def usernameRe_iff)

lemma register_done:
  assumes "registry_keys (abs w)" "\<forall>u\<in>rUsers (abs w). uUsername u \<noteq> un \<and> uID u \<noteq> NewString E 0 0"
    and "good_name 3 un" "8 \<le> length pw" "HashPassword B salt pw = Inr h"
  obtains w' where "register R True B salt E (Some (un, pw)) w =
      (writeJSON StatusCreated (JObj [(''id'', NewString E 0 0), (''username'', un)]), w')"
    and "abs w' = (abs w)\<lparr>rUsers := insert (new_user E un h) (rUsers (abs w))\<rparr>"
proof -
  have "\<forall>v\<in>rUsers (abs w). uID v \<noteq> uID (new_user E un h) \<and> uUsername v \<noteq> uUsername (new_user E un h)"
    using assms(2) by (simp add: new_user_def)
  from users_create_ok [OF this] obtain w' where w': "Users_Create (Users R) (new_user E un h) w = (None, w')" by blast
  obtain p e where g: "Users_GetByUsername (Users R) un w = RetErr p e"
    using get_user_iff [OF assms(1), of un] assms(2) by (cases "Users_GetByUsername (Users R) un w") auto
  have "register R True B salt E (Some (un, pw)) w =
      (writeJSON StatusCreated (JObj [(''id'', NewString E 0 0), (''username'', un)]), w')"
    using assms(3-5) g w' by (simp add: register_def usernameRe_iff Let_def new_user_def not_less)
  with that users_create [OF w'] show thesis by blast
qed

end

text \<open>
  C27. Registration works as documented. Closed, it refuses everything; open, it refuses a body it cannot read, malformed names,
  short passwords, passwords that bcrypt does not hash (those over 72 bytes) and taken names, in this order and without
  effect; anything else creates exactly that account, and its owner can log in with the password at once.
\<close>

theorem registration_exact:
  fixes d :: "'z SqlDB_scheme"
  assumes "gorm_db_reliable G" "bcrypt_ok B" "registry_keys (sql_abs d)"
    and "\<forall>u\<in>rUsers (sql_abs d). uID u \<noteq> NewString E 0 0"
    and "\<forall>t\<in>rTokens (sql_abs d). tID t \<noteq> NewString E' 0 1 \<and> tHash t \<noteq> HashToken (NewString E' 0 0)"
  shows "register (sql_repos enf G) False B salt E body d = (writeErr 403 ''registration is closed'', d) \<and>
    register (sql_repos enf G) True B salt E None d = (writeErr 400 ''invalid json'', d) \<and>
    (if \<not> good_name 3 un then
       register (sql_repos enf G) True B salt E (Some (un, pw)) d =
         (writeErr 400 ''username must be 3-39 chars, lowercase alphanumeric and hyphens'', d)
     else if length pw < 8 then
       register (sql_repos enf G) True B salt E (Some (un, pw)) d = (writeErr 400 ''password must be at least 8 characters'', d)
     else case HashPassword B salt pw of
       Inl _ \<Rightarrow> register (sql_repos enf G) True B salt E (Some (un, pw)) d = (writeErr 500 ''internal error'', d)
     | Inr h \<Rightarrow>
         if \<exists>u\<in>rUsers (sql_abs d). uUsername u = un then
           register (sql_repos enf G) True B salt E (Some (un, pw)) d = (writeErr 409 ''username already exists'', d)
         else
           \<exists>d' d''. register (sql_repos enf G) True B salt E (Some (un, pw)) d =
               (writeJSON 201 (JObj [(''id'', NewString E 0 0), (''username'', un)]), d') \<and>
             sql_abs d' = (sql_abs d)\<lparr>rUsers := insert \<lparr>uID = NewString E 0 0, uUsername = un, uPasswordHash = h,
               uCreatedAt = Now E 0 0\<rparr> (rUsers (sql_abs d))\<rparr> \<and>
             login (sql_repos enf G) B E' (Some (un, pw)) d' =
               (writeJSON 200 (JObj [(''token'', NewString E' 0 0), (''user_id'', NewString E 0 0), (''username'', un)]), d''))"
proof -
  note R = gorm_db_reliable.repos_reliable_sql [OF assms(1), where enf = enf and 'a = 'z]
  let ?R = "sql_repos enf G :: 'z SqlDB_scheme Repos"
  have closed: "register ?R False B salt E body d = (writeErr 403 ''registration is closed'', d)"
    "register ?R True B salt E None d = (writeErr 400 ''invalid json'', d)" by (simp_all add: register_def)
  consider (name) "\<not> good_name 3 un" | (short) "good_name 3 un" "length pw < 8"
    | (long) e where "good_name 3 un" "8 \<le> length pw" "HashPassword B salt pw = Inl e"
    | (taken) h u where "good_name 3 un" "8 \<le> length pw" "HashPassword B salt pw = Inr h" "u \<in> rUsers (sql_abs d)" "uUsername u = un"
    | (fresh) h where "good_name 3 un" "8 \<le> length pw" "HashPassword B salt pw = Inr h" "\<forall>u\<in>rUsers (sql_abs d). uUsername u \<noteq> un"
    by (cases "HashPassword B salt pw") (fastforce simp: not_less)+
  then show ?thesis
  proof cases
    case name
    with closed show ?thesis by (simp add: register_def usernameRe_iff)
  next
    case short
    with closed show ?thesis by (simp add: register_def usernameRe_iff)
  next
    case long
    with closed show ?thesis by (simp add: register_def usernameRe_iff not_less)
  next
    case taken
    with closed repos_reliable.register_taken [OF R, OF assms(3) taken(4) _ taken(2,3)] show ?thesis by auto
  next
    case fresh
    let ?u = "new_user E un h"
    have un: "\<forall>u\<in>rUsers (sql_abs d). uUsername u \<noteq> un \<and> uID u \<noteq> NewString E 0 0" using fresh(4) assms(4) by blast
    from repos_reliable.register_done [OF R, OF assms(3) un fresh(1-3)] obtain d' where
      r: "register ?R True B salt E (Some (un, pw)) d = (writeJSON 201 (JObj [(''id'', NewString E 0 0), (''username'', un)]), d')"
      and abs: "sql_abs d' = (sql_abs d)\<lparr>rUsers := insert ?u (rUsers (sql_abs d))\<rparr>" by blast
    have keys: "registry_keys (sql_abs d')"
      unfolding abs using assms(3) un by (auto simp: registry_keys_def inj_on_insert_fresh new_user_def)
    have "CheckPassword B (uPasswordHash ?u) pw"
      using assms(2) fresh(3) by (simp add: bcrypt_ok_def CheckPassword_def HashPassword_def new_user_def)
    with repos_reliable.login_granted [OF R, OF keys, of ?u B pw E'] abs assms(5) obtain d'' where
      "login ?R B E' (Some (uUsername ?u, pw)) d' = (writeJSON StatusOK (JObj [(''token'', NewString E' 0 0),
         (''user_id'', uID ?u), (''username'', uUsername ?u)]), d'')" by auto
    with closed r abs fresh show ?thesis by (auto simp: new_user_def)
  qed
qed

text \<open>An account is created and its owner logs in; a password of 73 bytes creates none.\<close>

theorem registration_exact_witness:
  "(\<exists>d' d''. register (sql_repos policy_enforcer list_gorm) True demo_bcrypt 0 demo_env (Some (''carol'', ''hunter22'')) demo_db =
      (writeJSON 201 (JObj [(''id'', ''-''), (''username'', ''carol'')]), d') \<and>
    login (sql_repos policy_enforcer list_gorm) demo_bcrypt demo_env (Some (''carol'', ''hunter22'')) d' =
      (writeJSON 200 (JObj [(''token'', ''-''), (''user_id'', ''-''), (''username'', ''carol'')]), d'')) \<and>
   register (sql_repos policy_enforcer list_gorm) True demo_bcrypt 0 demo_env (Some (''carol'', replicate 73 CHR ''a'')) demo_db =
      (writeErr 500 ''internal error'', demo_db)"
proof -
  have pw: "HashPassword demo_bcrypt 0 ''hunter22'' = Inr ''hhunter22''"
    "HashPassword demo_bcrypt 0 (replicate 73 CHR ''a'') = Inl ''bcrypt: password length exceeds 72 bytes''"
    by (simp_all add: HashPassword_def demo_bcrypt_def)
  have fresh: "\<forall>u\<in>rUsers (sql_abs demo_db). uID u \<noteq> NewString demo_env 0 0"
    "\<forall>t\<in>rTokens (sql_abs demo_db). tID t \<noteq> NewString demo_env 0 1 \<and> tHash t \<noteq> HashToken (NewString demo_env 0 0)"
    by (simp_all add: demo_defs demo_env_def)
  have n: "good_name 3 ''carol''" by code_simp
  have id: "NewString demo_env 0 0 = ''-''" by (simp add: demo_env_def)
  have new: "\<not> (\<exists>u\<in>rUsers (sql_abs demo_db). uUsername u = ''carol'')" by (simp add: demo_defs)
  note exact = registration_exact [OF list_db.gorm_db_reliable_axioms demo_bcrypt_ok demo_keys fresh,
      of policy_enforcer 0 None "''carol''"]
  show ?thesis
    using exact [of "''hunter22''"] exact [of "replicate 73 CHR ''a''"] n new
    by (auto simp: pw id)
qed

section \<open>API tokens\<close>

definition api_token :: "env \<Rightarrow> User \<Rightarrow> string \<Rightarrow> Token" where
  "api_token E u note =
     \<lparr>tID = NewString E 0 1, tUserID = uID u, tHash = HashToken (NewString E 0 0), tNote = note,
      tExpiresAt = None, tCreatedAt = Now E 0 0\<rparr>"

lemma proves_new_token:
  assumes "registry_keys r" "u \<in> rUsers r" "tUserID t = uID u" "tHash t = HashToken raw" "raw \<noteq> []"
    and "\<forall>x\<in>rTokens r. tHash x \<noteq> tHash t \<and> tID x \<noteq> tID t"
  shows "proves (r\<lparr>rTokens := insert t (rTokens r)\<rparr>) now (Bearer raw) v \<longleftrightarrow> v = u \<and> \<not> expired_at now t"
proof (rule proves_token)
  show "registry_keys (r\<lparr>rTokens := insert t (rTokens r)\<rparr>)"
    by (rule reg_step_keys [OF reg_step.token_created assms(1)]) (use assms(6) in blast)
qed (use assms in simp_all)

context repos_reliable
begin

lemma createToken_done:
  assumes "\<forall>t\<in>rTokens (abs w). tID t \<noteq> NewString E 0 1 \<and> tHash t \<noteq> HashToken (NewString E 0 0)"
  obtains w' where "createToken R E (Some u) (Some note) w =
      (writeJSON StatusOK (JObj [(''token'', NewString E 0 0), (''id'', NewString E 0 1)]), w')"
    and "abs w' = (abs w)\<lparr>rTokens := insert (api_token E u note) (rTokens (abs w))\<rparr>"
proof -
  have "\<forall>t\<in>rTokens (abs w). tID t \<noteq> tID (api_token E u note) \<and> tHash t \<noteq> tHash (api_token E u note)"
    using assms by (simp add: api_token_def)
  from tokens_create_ok [OF this] obtain w' where w': "Tokens_Create (Tokens R) (api_token E u note) w = (None, w')" by blast
  from that [of w'] tokens_create [OF w'] w' show thesis by (simp add: createToken_def api_token_def Let_def)
qed

lemma revokeToken_own:
  assumes "registry_keys (abs w)" "t \<in> rTokens (abs w)" "tUserID t = uID u"
  obtains w' where "revokeToken R (Some u) (tID t) w = (writeJSON StatusOK (JObj [(''status'', ''revoked'')]), w')"
    and "abs w' = (abs w)\<lparr>rTokens := rTokens (abs w) - {t}\<rparr>"
proof -
  obtain w' where w': "Tokens_Revoke (Tokens R) (tID t) (uID u) w = (None, w')"
    using tokens_revoke_ok [of w "tID t" "uID u"] assms(2,3) by blast
  have "{x \<in> rTokens (abs w). \<not> (tID x = tID t \<and> tUserID x = uID u)} = rTokens (abs w) - {t}"
    using assms by (auto simp: registry_keys_def dest: inj_onD)
  with that [of w'] tokens_revoke [OF w'] w' show thesis by (simp add: revokeToken_def)
qed

lemma revokeToken_foreign:
  assumes "registry_keys (abs w)" "t \<in> rTokens (abs w)" "tUserID t \<noteq> uID x"
  shows "fst (revokeToken R (Some x) (tID t) w) = writeErr StatusNotFound ''token not found'' \<and>
    abs (snd (revokeToken R (Some x) (tID t) w)) = abs w"
proof -
  obtain e w' where r: "Tokens_Revoke (Tokens R) (tID t) (uID x) w = (e, w')" by fastforce
  have "e \<noteq> None"
  proof
    assume "e = None"
    with tokens_revoke [of "tID t" "uID x" w w'] r assms show False by (auto simp: registry_keys_def dest: inj_onD)
  qed
  then obtain y where "e = Some y" by blast
  with r tokens_revoke_err [of "tID t" "uID x" w y w'] show ?thesis by (simp add: revokeToken_def)
qed

lemma listTokens_entry:
  assumes "registry_keys (abs w)" "t \<in> rTokens (abs w)" "tUserID t = uID u" "\<not> expired_at now t"
  shows "\<exists>ts. listTokens R now (Some u) w = writeJSON StatusOK (JList ts) \<and>
    ([(''id'', tID t), (''note'', tNote t)] \<in> set ts \<longleftrightarrow> tNote t \<noteq> ''login'')"
proof -
  obtain ts where l: "Tokens_ListByUser (Tokens R) (uID u) w = Inr ts" using tokens_list_ok by blast
  have "x = t" if "x \<in> set ts" "tID x = tID t" for x
    using that tokens_list [OF l] assms(1,2) by (auto simp: registry_keys_def dest: inj_onD)
  moreover have "t \<in> set ts" using tokens_list [OF l] assms(2,3) by blast
  moreover have "(case tExpiresAt x of None \<Rightarrow> False | Some e \<Rightarrow> e < now) \<longleftrightarrow> expired_at now x" for x
    by (simp add: expired_at_def split: option.splits)
  ultimately have "(\<exists>x\<in>set ts. \<not> expired_at now x \<and> tNote x \<noteq> ''login'' \<and> tID x = tID t \<and> tNote x = tNote t) \<longleftrightarrow>
      tNote t \<noteq> ''login''" using assms(4) by metis
  then show ?thesis by (simp add: listTokens_def l expired_case image_iff) metis
qed

end

text \<open>
  C25. An API token works until its owner revokes it. A new token is answered once with its secret, which from
  then on proves exactly its owner, at any time; nobody else can revoke it; the owner can, and then it
  proves nobody. The owner's list shows it, unless it was given the note \<^verbatim>\<open>login\<close>, which hides it.
\<close>

theorem token_lifecycle:
  fixes d :: "'z SqlDB_scheme"
  assumes "gorm_db_reliable G" "registry_keys (sql_abs d)" "u \<in> rUsers (sql_abs d)" "NewString E 0 0 \<noteq> []"
    and "\<forall>t\<in>rTokens (sql_abs d). tID t \<noteq> NewString E 0 1 \<and> tHash t \<noteq> HashToken (NewString E 0 0)"
  shows "\<exists>d' ts. createToken (sql_repos enf G) E (Some u) (Some note) d =
      (writeJSON 200 (JObj [(''token'', NewString E 0 0), (''id'', NewString E 0 1)]), d') \<and>
    (\<forall>now v. proves (sql_abs d') now (Bearer (NewString E 0 0)) v \<longleftrightarrow> v = u) \<and>
    listTokens (sql_repos enf G) now (Some u) d' = writeJSON 200 (JList ts) \<and>
    ([(''id'', NewString E 0 1), (''note'', note)] \<in> set ts \<longleftrightarrow> note \<noteq> ''login'') \<and>
    (\<forall>x. uID x \<noteq> uID u \<longrightarrow>
      fst (revokeToken (sql_repos enf G) (Some x) (NewString E 0 1) d') = writeErr 404 ''token not found'' \<and>
      sql_abs (snd (revokeToken (sql_repos enf G) (Some x) (NewString E 0 1) d')) = sql_abs d') \<and>
    (\<exists>d''. revokeToken (sql_repos enf G) (Some u) (NewString E 0 1) d' = (writeJSON 200 (JObj [(''status'', ''revoked'')]), d'') \<and>
      sql_abs d'' = sql_abs d \<and> (\<forall>now v. \<not> proves (sql_abs d'') now (Bearer (NewString E 0 0)) v))"
proof -
  note R = gorm_db_reliable.repos_reliable_sql [OF assms(1), where enf = enf and 'a = 'z]
  let ?t = "api_token E u note" and ?raw = "NewString E 0 0"
  from repos_reliable.createToken_done [OF R, OF assms(5)] obtain d' where
    c: "createToken (sql_repos enf G) E (Some u) (Some note) d =
      (writeJSON 200 (JObj [(''token'', ?raw), (''id'', NewString E 0 1)]), d')"
    and abs: "sql_abs d' = (sql_abs d)\<lparr>rTokens := insert ?t (rTokens (sql_abs d))\<rparr>" by blast
  have t: "tID ?t = NewString E 0 1" "tUserID ?t = uID u" "tHash ?t = HashToken ?raw" "tNote ?t = note" "\<not> expired_at now ?t" for now
    by (simp_all add: api_token_def expired_at_def)
  have in': "?t \<in> rTokens (sql_abs d')" by (simp add: abs)
  have keys: "registry_keys (sql_abs d')"
    unfolding abs by (rule reg_step_keys [OF reg_step.token_created assms(2)]) (use assms(5) in \<open>simp add: t\<close>)
  have p: "proves (sql_abs d') now (Bearer ?raw) v \<longleftrightarrow> v = u" for now v
    using proves_new_token [OF assms(2,3) t(2,3) assms(4)] assms(5) by (simp add: abs t)
  obtain ts where l: "listTokens (sql_repos enf G) now (Some u) d' = writeJSON 200 (JList ts)"
      "[(''id'', NewString E 0 1), (''note'', note)] \<in> set ts \<longleftrightarrow> note \<noteq> ''login''"
    using repos_reliable.listTokens_entry [OF R, OF keys in' t(2) t(5)] by (auto simp: t)
  have f: "fst (revokeToken (sql_repos enf G) (Some x) (NewString E 0 1) d') = writeErr 404 ''token not found'' \<and>
      sql_abs (snd (revokeToken (sql_repos enf G) (Some x) (NewString E 0 1) d')) = sql_abs d'" if "uID x \<noteq> uID u" for x
    using repos_reliable.revokeToken_foreign [OF R, OF keys in', of x] that by (simp add: t)
  from repos_reliable.revokeToken_own [OF R, OF keys in' t(2)] obtain d'' where
    r: "revokeToken (sql_repos enf G) (Some u) (tID ?t) d' = (writeJSON 200 (JObj [(''status'', ''revoked'')]), d'')"
    and abs'': "sql_abs d'' = (sql_abs d')\<lparr>rTokens := rTokens (sql_abs d') - {?t}\<rparr>" by blast
  have "?t \<notin> rTokens (sql_abs d)" using assms(5) by (auto simp: t)
  then have same: "sql_abs d'' = sql_abs d" by (simp add: abs'' abs)
  moreover have "\<not> proves (sql_abs d'') now (Bearer ?raw) v" for now v
    by (rule no_token_proves_nobody) (use assms(5) same in simp)
  ultimately show ?thesis using c p l f r t(1) by metis
qed

theorem token_lifecycle_witness:
  "\<exists>d'. createToken (sql_repos policy_enforcer list_gorm) demo_env
      (Some \<lparr>uID = ''u2'', uUsername = ''bob'', uPasswordHash = ''h2'', uCreatedAt = 2\<rparr>) (Some ''ci'') demo_db =
      (writeJSON 200 (JObj [(''token'', ''-''), (''id'', ''-j'')]), d') \<and>
    proves (sql_abs d') 9 (Bearer ''-'') \<lparr>uID = ''u2'', uUsername = ''bob'', uPasswordHash = ''h2'', uCreatedAt = 2\<rparr>"
proof -
  let ?u = "\<lparr>uID = ''u2'', uUsername = ''bob'', uPasswordHash = ''h2'', uCreatedAt = 2\<rparr>"
  have "?u \<in> rUsers (sql_abs demo_db)" "NewString demo_env 0 0 \<noteq> []"
    "\<forall>t\<in>rTokens (sql_abs demo_db). tID t \<noteq> NewString demo_env 0 1 \<and> tHash t \<noteq> HashToken (NewString demo_env 0 0)"
    by (simp_all add: demo_defs demo_env_def)
  from token_lifecycle [OF list_db.gorm_db_reliable_axioms demo_keys this, of policy_enforcer "''ci''" 9] obtain d' where
    "createToken (sql_repos policy_enforcer list_gorm) demo_env (Some ?u) (Some ''ci'') demo_db =
      (writeJSON 200 (JObj [(''token'', NewString demo_env 0 0), (''id'', NewString demo_env 0 1)]), d')"
    "proves (sql_abs d') 9 (Bearer (NewString demo_env 0 0)) ?u" by blast
  then show ?thesis by (simp add: demo_env_def)
qed

section \<open>Organizations\<close>

context repos_reliable
begin

lemma get_org_iff:
  "registry_keys (abs w) \<Longrightarrow> Orgs_GetByName (Orgs R) n w = Ret g \<longleftrightarrow> g \<in> rOrgs (abs w) \<and> oName g = n"
  using org_by_name.get_iff [of w n g] by (simp add: registry_keys_def)

lemma createOrg_done:
  assumes "\<forall>g\<in>rOrgs (abs w). oName g \<noteq> name \<and> oID g \<noteq> NewString E 0 0" "good_name 3 name"
    and "\<forall>mb\<in>rMembers (abs w). omOrgID mb \<noteq> NewString E 0 0"
  obtains w' where "createOrg R E (Some u) (Some name) w =
      (writeJSON StatusCreated (JObj [(''id'', NewString E 0 0), (''name'', name)]), w')"
    and "abs w' = (abs w)\<lparr>rOrgs := insert \<lparr>oID = NewString E 0 0, oName = name, oCreatedAt = Now E 0 0\<rparr> (rOrgs (abs w)),
      rMembers := insert \<lparr>omOrgID = NewString E 0 0, omUserID = uID u, omRole = OrgRoleAdmin\<rparr> (rMembers (abs w))\<rparr>"
proof -
  let ?g = "\<lparr>oID = NewString E 0 0, oName = name, oCreatedAt = Now E 0 0\<rparr>"
  obtain w1 where c: "Orgs_Create (Orgs R) ?g w = (None, w1)" using orgs_create_ok [of w ?g] assms(1) by auto
  note abs1 = conjunct2 [OF orgs_create [OF c]]
  have "\<forall>v\<in>rMembers (abs w1). member_key v \<noteq> (oID ?g, uID u)" using assms(3) by (simp add: abs1)
  from orgs_add_ok [OF this, of OrgRoleAdmin] obtain w2 where
    a: "Orgs_AddMember (Orgs R) (NewString E 0 0) (uID u) OrgRoleAdmin w1 = (None, w2)" by auto
  show thesis
    by (rule that [of w2]) (use c a assms(2) orgs_add [OF a] abs1 in \<open>simp_all add: createOrg_def usernameRe_iff Let_def\<close>)
qed

end

context registry_reliable
begin

lemma addMember_refused:
  assumes "registry_keys (abs w)" "g \<in> rOrgs (abs w)" "\<not> may_manage (abs w) (uID u) (oID g)"
  shows "addMember R (Some u) (oName g) body w = (writeErr StatusForbidden ''must be org admin'', w)"
    and "removeMember R (Some u) (oName g) un w = (writeErr StatusForbidden ''must be org admin'', w)"
  using assms get_org_iff [OF assms(1), of "oName g" g] verdicts(5) [OF assms(1)]
  by (simp_all add: addMember_def removeMember_def)

lemma addMember_done:
  assumes "registry_keys (abs w)" "g \<in> rOrgs (abs w)" "may_manage (abs w) (uID u) (oID g)" "v \<in> rUsers (abs w)"
    and "\<forall>mb\<in>rMembers (abs w). member_key mb \<noteq> (oID g, uID v)"
  obtains w' where "addMember R (Some u) (oName g) (Some (uUsername v, rl)) w = (writeJSON StatusOK (JObj [(''status'', ''added'')]), w')"
    and "abs w' = (abs w)\<lparr>rMembers := insert \<lparr>omOrgID = oID g, omUserID = uID v,
      omRole = (if rl = OrgRoleAdmin then OrgRoleAdmin else OrgRoleMember)\<rparr> (rMembers (abs w))\<rparr>"
proof -
  let ?ro = "if rl = OrgRoleAdmin then OrgRoleAdmin else OrgRoleMember"
  obtain w' where a: "Orgs_AddMember (Orgs R) (oID g) (uID v) ?ro w = (None, w')" using orgs_add_ok [OF assms(5)] by blast
  show thesis
    by (rule that [of w'])
       (use a orgs_add [OF a] assms get_org_iff [OF assms(1), of "oName g" g] get_user_iff [OF assms(1), of "uUsername v" v]
          verdicts(5) [OF assms(1)] in \<open>simp_all add: addMember_def Let_def\<close>)
qed

lemma removeMember_done:
  assumes "registry_keys (abs w)" "g \<in> rOrgs (abs w)" "may_manage (abs w) (uID u) (oID g)" "v \<in> rUsers (abs w)"
  obtains w' where "removeMember R (Some u) (oName g) (uUsername v) w = (writeJSON StatusOK (JObj [(''status'', ''removed'')]), w')"
    and "abs w' = (abs w)\<lparr>rMembers := {mb \<in> rMembers (abs w). member_key mb \<noteq> (oID g, uID v)}\<rparr>"
proof -
  obtain w' where a: "Orgs_RemoveMember (Orgs R) (oID g) (uID v) w = (None, w')" using orgs_remove_ok by blast
  show thesis
    by (rule that [of w'])
       (use a orgs_remove [OF a] assms get_org_iff [OF assms(1), of "oName g" g] get_user_iff [OF assms(1), of "uUsername v" v]
          verdicts(5) [OF assms(1)] in \<open>simp_all add: removeMember_def\<close>)
qed

end

text \<open>
  C26. Organizations work end to end. The founder of an organization administers it and may create modules under
  its name; an administrator adds any user in the requested role (anything but \<^verbatim>\<open>admin\<close> means member), a
  plain member may not add or remove anybody, and removing the user restores the organization as it was.
\<close>

theorem organization_lifecycle:
  fixes d :: "'z SqlDB_scheme"
  assumes "gorm_db_reliable G" "casbin_matches enf" "registry_keys (sql_abs d)" "uID u \<noteq> []" "uID v \<notin> {[], uID u}"
    and "v \<in> rUsers (sql_abs d)" "good_name 3 name"
    and "\<forall>g\<in>rOrgs (sql_abs d). oName g \<noteq> name \<and> oID g \<noteq> NewString E 0 0"
    and "\<forall>mb\<in>rMembers (sql_abs d). omOrgID mb \<noteq> NewString E 0 0"
  shows "\<exists>d1 d2 d3. createOrg (sql_repos enf G) E (Some u) (Some name) d =
      (writeJSON 201 (JObj [(''id'', NewString E 0 0), (''name'', name)]), d1) \<and>
    may_manage (sql_abs d1) (uID u) (NewString E 0 0) \<and> may_create (sql_abs d1) (uID u) name \<and>
    addMember (sql_repos enf G) (Some u) name (Some (uUsername v, rl)) d1 = (writeJSON 200 (JObj [(''status'', ''added'')]), d2) \<and>
    (rl = OrgRoleAdmin \<longrightarrow> may_manage (sql_abs d2) (uID v) (NewString E 0 0)) \<and>
    (rl \<noteq> OrgRoleAdmin \<longrightarrow>
      addMember (sql_repos enf G) (Some v) name body d2 = (writeErr 403 ''must be org admin'', d2) \<and>
      removeMember (sql_repos enf G) (Some v) name un d2 = (writeErr 403 ''must be org admin'', d2)) \<and>
    removeMember (sql_repos enf G) (Some u) name (uUsername v) d2 = (writeJSON 200 (JObj [(''status'', ''removed'')]), d3) \<and>
    sql_abs d3 = sql_abs d1"
proof -
  note RR = gorm_db_reliable.registry_reliable_sql [OF assms(1,2), where 'a = 'z]
  note R = gorm_db_reliable.repos_reliable_sql [OF assms(1), where enf = enf and 'a = 'z]
  let ?i = "NewString E 0 0"
  let ?g = "\<lparr>oID = ?i, oName = name, oCreatedAt = Now E 0 0\<rparr>"
  from repos_reliable.createOrg_done [OF R, OF assms(8,7,9), of u] obtain d1 where
    c: "createOrg (sql_repos enf G) E (Some u) (Some name) d = (writeJSON 201 (JObj [(''id'', ?i), (''name'', name)]), d1)"
    and abs1: "sql_abs d1 = (sql_abs d)\<lparr>rOrgs := insert ?g (rOrgs (sql_abs d)),
      rMembers := insert \<lparr>omOrgID = ?i, omUserID = uID u, omRole = OrgRoleAdmin\<rparr> (rMembers (sql_abs d))\<rparr>" by blast
  have keys1: "registry_keys (sql_abs d1)"
    using assms(3,8,9) by (auto simp: abs1 registry_keys_def inj_on_insert_fresh)
  have g1: "?g \<in> rOrgs (sql_abs d1)" "v \<in> rUsers (sql_abs d1)" using assms(6) by (simp_all add: abs1)
  have m1: "may_manage (sql_abs d1) (uID u) (oID ?g)" "may_create (sql_abs d1) (uID u) name"
    using assms(4) by (auto simp: abs1 may_defs has_role_def)
  have free: "\<forall>mb\<in>rMembers (sql_abs d1). member_key mb \<noteq> (oID ?g, uID v)" using assms(5,9) by (auto simp: abs1)
  let ?mb = "\<lparr>omOrgID = ?i, omUserID = uID v, omRole = (if rl = OrgRoleAdmin then OrgRoleAdmin else OrgRoleMember)\<rparr>"
  from registry_reliable.addMember_done [OF RR, OF keys1 g1(1) m1(1) g1(2) free, of rl] obtain d2 where
    a: "addMember (sql_repos enf G) (Some u) name (Some (uUsername v, rl)) d1 = (writeJSON 200 (JObj [(''status'', ''added'')]), d2)"
    and abs2: "sql_abs d2 = (sql_abs d1)\<lparr>rMembers := insert ?mb (rMembers (sql_abs d1))\<rparr>" by auto
  have keys2: "registry_keys (sql_abs d2)"
    unfolding abs2 by (rule reg_step_keys [OF reg_step.member_added keys1]) (use free in simp)
  have g2: "?g \<in> rOrgs (sql_abs d2)" "v \<in> rUsers (sql_abs d2)" using g1 by (simp_all add: abs2)
  have m2: "may_manage (sql_abs d2) (uID u) (oID ?g)" using m1(1) by (auto simp: abs2 may_manage_def)
  have admin: "rl = OrgRoleAdmin \<Longrightarrow> may_manage (sql_abs d2) (uID v) ?i" using assms(5) by (auto simp: abs2 may_manage_def)
  have plain_member: "\<not> may_manage (sql_abs d2) (uID v) (oID ?g)" if "rl \<noteq> OrgRoleAdmin"
    using that free by (auto simp: abs2 may_manage_def model_consts)
  note refused = registry_reliable.addMember_refused [OF RR, OF keys2 g2(1) plain_member]
  from registry_reliable.removeMember_done [OF RR, OF keys2 g2(1) m2 g2(2)] obtain d3 where
    r: "removeMember (sql_repos enf G) (Some u) name (uUsername v) d2 = (writeJSON 200 (JObj [(''status'', ''removed'')]), d3)"
    and abs3: "sql_abs d3 = (sql_abs d2)\<lparr>rMembers := {mb \<in> rMembers (sql_abs d2). member_key mb \<noteq> (oID ?g, uID v)}\<rparr>" by auto
  have "{mb \<in> rMembers (sql_abs d2). member_key mb \<noteq> (oID ?g, uID v)} = rMembers (sql_abs d1)" using free by (auto simp: abs2)
  then have "sql_abs d3 = sql_abs d1" by (simp add: abs3 abs2)
  with c m1 a admin refused r show ?thesis
    by (intro exI [of _ d1] exI [of _ d2] exI [of _ d3] conjI impI) simp_all
qed

theorem organization_lifecycle_witness:
  "\<exists>d1 d2. createOrg (sql_repos policy_enforcer list_gorm) demo_env
      (Some \<lparr>uID = ''u1'', uUsername = ''alice'', uPasswordHash = ''h1'', uCreatedAt = 1\<rparr>) (Some ''tools'') demo_db =
      (writeJSON 201 (JObj [(''id'', ''-''), (''name'', ''tools'')]), d1) \<and>
    addMember (sql_repos policy_enforcer list_gorm)
      (Some \<lparr>uID = ''u1'', uUsername = ''alice'', uPasswordHash = ''h1'', uCreatedAt = 1\<rparr>) ''tools'' (Some (''bob'', ''member'')) d1 =
      (writeJSON 200 (JObj [(''status'', ''added'')]), d2)"
proof -
  let ?u = "\<lparr>uID = ''u1'', uUsername = ''alice'', uPasswordHash = ''h1'', uCreatedAt = 1\<rparr>"
  let ?v = "\<lparr>uID = ''u2'', uUsername = ''bob'', uPasswordHash = ''h2'', uCreatedAt = 2\<rparr>"
  have "uID ?u \<noteq> []" "uID ?v \<notin> {[], uID ?u}" "?v \<in> rUsers (sql_abs demo_db)" by (simp_all add: demo_defs)
  moreover have "good_name 3 ''tools''" by code_simp
  moreover have "\<forall>g\<in>rOrgs (sql_abs demo_db). oName g \<noteq> ''tools'' \<and> oID g \<noteq> NewString demo_env 0 0"
    "\<forall>mb\<in>rMembers (sql_abs demo_db). omOrgID mb \<noteq> NewString demo_env 0 0" by (simp_all add: demo_defs demo_env_def)
  ultimately obtain d1 d2 where
    "createOrg (sql_repos policy_enforcer list_gorm) demo_env (Some ?u) (Some ''tools'') demo_db =
      (writeJSON 201 (JObj [(''id'', NewString demo_env 0 0), (''name'', ''tools'')]), d1)"
    "addMember (sql_repos policy_enforcer list_gorm) (Some ?u) ''tools'' (Some (uUsername ?v, ''member'')) d1 =
      (writeJSON 200 (JObj [(''status'', ''added'')]), d2)"
    using organization_lifecycle [OF list_db.gorm_db_reliable_axioms policy_enforcer_matches demo_keys,
        where u = ?u and v = ?v and rl = "''member''"] by blast
  then show ?thesis by (auto simp: demo_env_def)
qed

section \<open>Corners\<close>

text \<open>
  Users and organizations share one namespace of owners, but registration only looks at user names: whoever registers
  the name of an organization may create modules under that name, without being a member.
\<close>

theorem user_takes_org_name:
  fixes d :: "'z SqlDB_scheme"
  assumes "gorm_db_reliable G" "registry_keys (sql_abs d)" "g \<in> rOrgs (sql_abs d)" "good_name 3 (oName g)" "8 \<le> length pw"
    and "HashPassword B salt pw = Inr h" "NewString E 0 0 \<noteq> []"
    and "\<forall>u\<in>rUsers (sql_abs d). uUsername u \<noteq> oName g \<and> uID u \<noteq> NewString E 0 0"
  shows "\<exists>d'. register (sql_repos enf G) True B salt E (Some (oName g, pw)) d =
      (writeJSON 201 (JObj [(''id'', NewString E 0 0), (''username'', oName g)]), d') \<and>
    may_create (sql_abs d') (NewString E 0 0) (oName g)"
proof -
  note R = gorm_db_reliable.repos_reliable_sql [OF assms(1), where enf = enf and 'a = 'z]
  from repos_reliable.register_done [OF R, OF assms(2,8,4,5,6)] obtain d' where
    "register (sql_repos enf G) True B salt E (Some (oName g, pw)) d =
      (writeJSON 201 (JObj [(''id'', NewString E 0 0), (''username'', oName g)]), d')"
    "sql_abs d' = (sql_abs d)\<lparr>rUsers := insert (new_user E (oName g) h) (rUsers (sql_abs d))\<rparr>" by blast
  with assms(7) show ?thesis by (auto simp: may_create_def has_name_def new_user_def)
qed

text \<open>
  Founding an organization is not atomic: when adding the founder fails, the answer is an error, but the organization stays,
  and nobody may manage it.
\<close>

theorem organization_without_admin:
  fixes d :: "'z SqlDB_scheme"
  assumes "gorm_db G" "good_name 3 name" "\<forall>mb\<in>rMembers (sql_abs d). omOrgID mb \<noteq> NewString E 0 0"
    and "OrgStore_Create G \<lparr>oID = NewString E 0 0, oName = name, oCreatedAt = Now E 0 0\<rparr> d = (None, d1)"
    and "OrgStore_AddMember G (NewString E 0 0) (uID u) OrgRoleAdmin d1 = (Some e, d2)"
  shows "createOrg (sql_repos enf G) E (Some u) (Some name) d = (writeErr 500 ''failed to add admin member'', d2) \<and>
    \<lparr>oID = NewString E 0 0, oName = name, oCreatedAt = Now E 0 0\<rparr> \<in> rOrgs (sql_abs d2) \<and>
    (\<forall>uid. \<not> may_manage (sql_abs d2) uid (NewString E 0 0))"
proof -
  note R = gorm_db.repos_sound_sql [OF assms(1), where enf = enf and 'a = 'z]
  let ?R = "sql_repos enf G :: 'z SqlDB_scheme Repos"
  let ?g = "\<lparr>oID = NewString E 0 0, oName = name, oCreatedAt = Now E 0 0\<rparr>"
  have c: "Orgs_Create (Orgs ?R) ?g d = (None, d1)" "Orgs_AddMember (Orgs ?R) (NewString E 0 0) (uID u) OrgRoleAdmin d1 = (Some e, d2)"
    using assms(4,5) by (simp_all add: sql_repos_def DB_Repos_def OrgStore_def)
  have "sql_abs d2 = sql_abs d1" by (rule repos_sound.orgs_add_err [OF R c(2)])
  moreover have "sql_abs d1 = (sql_abs d)\<lparr>rOrgs := insert ?g (rOrgs (sql_abs d))\<rparr>"
    using repos_sound.orgs_create [OF R c(1)] by blast
  moreover have "createOrg ?R E (Some u) (Some name) d = (writeErr 500 ''failed to add admin member'', d2)"
    using assms(2) c by (simp add: createOrg_def usernameRe_iff Let_def)
  ultimately show ?thesis using assms(3) by (auto simp: may_manage_def)
qed

end
