(* ===== verification/Rest_Correct.thy ===== *)
theory Rest_Correct
  imports Account_Correct
begin

text \<open>
  The REST reading endpoints are correct: they give away nothing about modules the caller may not read,
  not even their existence, and they serve the files of an upload as they were.
\<close>

section \<open>Hidden modules\<close>

text \<open>No module of this name that the user may read: there is none, or it is private to others.\<close>

definition hidden :: "Registry \<Rightarrow> string \<Rightarrow> string \<Rightarrow> string \<Rightarrow> bool" where
  "hidden r uid own md \<longleftrightarrow> (\<forall>m\<in>rModules r. module_key m = (own, md) \<longrightarrow> \<not> may_read r uid m)"

abbreviation module_404 :: http_response where
  "module_404 \<equiv> writeErr StatusNotFound ''module not found''"

context registry_exact
begin

lemma hidden_lookup:
  assumes "registry_keys (abs w)" "hidden (abs w) uid own md"
  obtains p where "Modules_Get (Modules R) own md w = RetErr p ErrNotFound"
  | m where "Modules_Get (Modules R) own md w = Ret m" "\<not> CanReadModule (Auth R) uid m w"
proof (cases "Modules_Get (Modules R) own md w")
  case (Ret m)
  with mod_by_name.get_Ret [of "(own, md)" w m] assms verdicts(1) [OF assms(1)] that(2) show thesis
    by (auto simp: hidden_def)
next
  case (RetErr p e)
  with mod_by_name_total that(1) show thesis by metis
qed

lemma hidden_reads:
  assumes "registry_keys (abs w)" "hidden (abs w) (userID c) own md"
  shows "getModule R c own md w = module_404" "checkModuleAccess R c own md w = Inl module_404"
    "resolveCommitZip R S c own md cid w = Inl module_404"
  by (rule hidden_lookup [OF assms]; simp add: getModule_def checkModuleAccess_def resolveCommitZip_def)+

lemma listModules_readable:
  assumes "registry_keys (abs w)"
  shows "\<exists>ms. listModules R c own q w = writeJSON StatusOK (JList (map moduleToJSON ms)) \<and>
    (\<forall>m\<in>set ms. m \<in> rModules (abs w) \<and> may_read (abs w) (userID c) m) \<and>
    (own \<noteq> [] \<longrightarrow> set ms = {m \<in> rModules (abs w). mOwnerName m = own \<and> may_read (abs w) (userID c) m})"
proof (cases "own = []")
  case True
  obtain ms where l: "Modules_ListPublic (Modules R) q 50 w = Inr ms" using modules_list_public_ok by blast
  show ?thesis
    by (rule exI [of _ "filter (\<lambda>m. CanReadModule (Auth R) (userID c) m w) ms"])
       (use l True modules_list_public [OF l] verdicts(1) [OF assms] in \<open>auto simp: listModules_def\<close>)
next
  case False
  obtain ms where l: "Modules_List (Modules R) own w = Inr ms" using modules_list_ok by blast
  show ?thesis
    by (rule exI [of _ "filter (\<lambda>m. CanReadModule (Auth R) (userID c) m w) ms"])
       (use l False modules_list [OF l] verdicts(1) [OF assms] in \<open>auto simp: listModules_def\<close>)
qed

end

text \<open>
  C16. The REST API does not reveal private modules. For a module the caller may not read, the endpoints for
  the module, its commits, one commit, its labels and its files answer exactly as they do for a name nobody
  has taken, and the listing contains only modules the caller may read (all of those, for a given owner).
\<close>

theorem rest_hides_private:
  fixes d :: "'z SqlDB_scheme"
  assumes "gorm_db_reliable G" "casbin_matches enf" "registry_keys (sql_abs d)" "hidden (sql_abs d) (userID c) own md"
  shows "getModule (sql_repos enf G) c own md d = module_404 \<and>
    listCommits (sql_repos enf G) c own md d = module_404 \<and>
    rest_getCommit (sql_repos enf G) c own md cid d = module_404 \<and>
    listLabels (sql_repos enf G) c own md d = module_404 \<and>
    listFiles (sql_repos enf G) S Z c own md cid d = module_404 \<and>
    (path \<noteq> [] \<longrightarrow> getFileContent (sql_repos enf G) S Z c own md cid path d = module_404) \<and>
    (\<exists>ms. listModules (sql_repos enf G) c o' q d = writeJSON 200 (JList (map moduleToJSON ms)) \<and>
       (\<forall>m\<in>set ms. m \<in> rModules (sql_abs d) \<and> may_read (sql_abs d) (userID c) m) \<and>
       (o' \<noteq> [] \<longrightarrow> set ms = {m \<in> rModules (sql_abs d). mOwnerName m = o' \<and> may_read (sql_abs d) (userID c) m}))"
proof -
  note R = sql_registry_exact [OF assms(1,2), where 'z = 'z]
  note h = registry_exact.hidden_reads [OF R, OF assms(3,4)]
  note l = registry_exact.listModules_readable [OF R, OF assms(3), of c o' q]
  show ?thesis
    by (intro conjI impI l) (simp_all add: h listCommits_def rest_getCommit_def listLabels_def listFiles_def getFileContent_def)
qed

theorem rest_hides_private_witness:
  "getModule (sql_repos policy_enforcer list_gorm) None ''acme'' ''api'' demo_db = module_404 \<and>
   getModule (sql_repos policy_enforcer list_gorm) None ''acme'' ''nothing'' demo_db = module_404"
proof -
  have "hidden (sql_abs demo_db) (userID None) ''acme'' ''api''" "hidden (sql_abs demo_db) (userID None) ''acme'' ''nothing''"
    by (simp_all add: hidden_def demo_defs)
  then show ?thesis
    using rest_hides_private [OF list_db.gorm_db_reliable_axioms policy_enforcer_matches demo_keys] by blast
qed

section \<open>Files\<close>

text \<open>What the endpoint answers about one file, over the files of the upload.\<close>

definition file_answer :: "proto_file list \<Rightarrow> string \<Rightarrow> http_response" where
  "file_answer files path =
     (case map_of (entries files) path of
        None \<Rightarrow> writeErr StatusNotFound ''file not found''
      | Some b \<Rightarrow> writeJSON StatusOK (JObj [(''path'', path), (''content'', StdEncoding b)]))"

lemma find_file_members:
  assumes "\<forall>f\<in>set files. int (length (GetContent f)) \<le> maxFileSize"
  shows "find_file path (map zip_member (entries files)) = file_answer files path"
  using assms
proof (induction files)
  case (Cons f fs)
  have "read_limited (10 * 1024 * 1024) (GetContent f, None) = Inr (GetContent f)"
    using Cons.prems by (simp add: read_limited_def maxFileSize_def)
  with Cons show ?case by (simp add: file_answer_def zip_member_def)
qed (simp add: file_answer_def)

lemma member_size: "int (length b) \<le> maxFileSize \<Longrightarrow> unat (of_nat (length b) :: 64 word) = length b"
  by (simp add: unsigned_of_nat take_bit_nat_eq_self maxFileSize_def)

definition file_entry :: "proto_file \<Rightarrow> (string \<times> string) list" where
  "file_entry f = [(''path'', GetPath f), (''size'', decimal (length (GetContent f)))]"

context backend_reliable
begin

lemma files_uploaded:
  assumes i: "inv w" and z: "zip_ok Z" and run: "uploadContent R S Z E u 0 content w = (Inr pc, w')"
    and ref: "uc_module_ref content = Some (ModuleByName own md)"
    and rd: "\<forall>m\<in>rModules (abs w'). module_key m = (own, md) \<longrightarrow> may_read (abs w') (userID c) m"
  shows "listFiles R S Z c own md (pc_id pc) w' = writeJSON StatusOK (JList (map file_entry (uc_files content)))"
    and "path \<noteq> [] \<Longrightarrow> getFileContent R S Z c own md (pc_id pc) path w' = file_answer (uc_files content) path"
proof -
  obtain m d where m: "m \<in> rModules (abs w)" "mOwnerName m = own" "mName m = md" "validateFiles (uc_files content) = None"
      "zipFiles Z (uc_files content) = Inr d" "publish R S E u 0 m d (label_names content) w = (Inr pc, w')"
    using run ref by (cases rule: uploadContent_cases) auto
  note p = publish_spec [OF i m(1,6), unfolded publish_post_def]
  have i': "inv w'" and cid: "pc_id pc = commit_id d" and hc: "has_commit (abs w') (mID m) (commit_id d)"
    and bl: "blobs w' (storage_key (mID m) (commit_id d)) d" and m': "m \<in> rModules (abs w')"
    using p m(1) by auto
  have keys: "registry_keys (abs w')" and okw: "ok w'" using i' by (simp_all add: content_inv_def)
  from hc obtain cm where cm: "cm \<in> rCommits (abs w')" "cModuleID cm = mID m" "cID cm = commit_id d"
    by (auto simp: has_commit_def)
  have key: "cStorageKey cm = storage_key (mID m) (commit_id d)" "valid (cStorageKey cm)"
    using i' cm by (auto simp: content_inv_def stored_def keys_valid_def)
  have "Modules_Get (Modules R) own md w' = Ret m" using get_module_iff [OF keys, of own md m] m m' by simp
  moreover have "CanReadModule (Auth R) (userID c) m w'" using rd m m' verdicts(1) [OF keys] by simp
  moreover have "Commits_GetByID (Commits R) (mID m) (pc_id pc) w' = Ret cm"
    using commit_by_id.get_iff [of w' "(mID m, pc_id pc)" cm] keys cm cid by (simp add: registry_keys_def)
  moreover have "Store_Get S (cStorageKey cm) w' = Inr d" using get_complete [OF okw key(2)] bl key(1) by simp
  ultimately have zip: "resolveCommitZip R S c own md (pc_id pc) w' = Inr d" by (simp add: resolveCommitZip_def)
  have nr: "zip_NewReader Z d = Inr (map zip_member (entries (uc_files content)))"
    using z zipFiles_Close [OF m(5)] by (simp add: zip_ok_def)
  have small: "\<forall>f\<in>set (uc_files content). int (length (GetContent f)) \<le> maxFileSize"
    using m(4) by (auto simp: validateFiles_None file_ok_def)
  show "listFiles R S Z c own md (pc_id pc) w' = writeJSON StatusOK (JList (map file_entry (uc_files content)))"
    using small by (simp add: listFiles_def zip nr file_entry_def zip_member_def member_size o_def)
  show "getFileContent R S Z c own md (pc_id pc) path w' = file_answer (uc_files content) path" if "path \<noteq> []"
    using that by (simp add: getFileContent_def zip nr find_file_members [OF small] del: map_map)
qed

end

text \<open>
  C31. The web interface shows what was uploaded. After a successful upload, for every caller who may read the
  module, the file listing of the new commit has exactly the uploaded paths and sizes, in order, and the
  content endpoint answers each path with base64 text that decodes to the uploaded bytes of the (first) file
  of that path, and other paths with 404.
\<close>

theorem rest_serves_upload:
  fixes w :: "'z World_scheme"
  assumes "gorm_db_reliable G" "casbin_matches enf" "gorm_reliable g blob_clash" "zip_ok Z"
    and "content_inv sql_abs (whole db_blobs) (\<lambda>_. True) blob_keys w"
    and "Upload (sql_repos enf G) (NewDBStore g now) Z E (Some u) [content] w = (Inr [pc], w')"
    and "uc_module_ref content = Some (ModuleByName own md)"
    and "\<forall>m\<in>rModules (sql_abs w'). module_key m = (own, md) \<longrightarrow> may_read (sql_abs w') (userID c) m"
  shows "listFiles (sql_repos enf G) (NewDBStore g now) Z c own md (pc_id pc) w' =
      writeJSON 200 (JList (map (\<lambda>f. [(''path'', GetPath f), (''size'', decimal (length (GetContent f)))]) (uc_files content))) \<and>
    (\<forall>path b. path \<noteq> [] \<and> map_of (entries (uc_files content)) path = Some b \<longrightarrow>
      (\<exists>txt. getFileContent (sql_repos enf G) (NewDBStore g now) Z c own md (pc_id pc) path w' =
         writeJSON 200 (JObj [(''path'', path), (''content'', txt)]) \<and> StdDecoding txt = b)) \<and>
    (\<forall>path. path \<noteq> [] \<and> map_of (entries (uc_files content)) path = None \<longrightarrow>
      getFileContent (sql_repos enf G) (NewDBStore g now) Z c own md (pc_id pc) path w' = writeErr 404 ''file not found'')"
proof -
  note B = sql_db_backend_reliable [OF assms(1-3), of now]
  have run: "uploadContent (sql_repos enf G) (NewDBStore g now) Z E u 0 content w = (Inr pc, w')"
    using assms(6) by (auto simp: Upload_def split: prod.splits sum.splits)
  note f = backend_reliable.files_uploaded [OF B, OF assms(5,4) run assms(7,8)]
  show ?thesis
    using f StdDecoding_StdEncoding by (auto simp: file_entry_def file_answer_def)
qed

theorem rest_serves_upload_witness:
  "\<exists>cid (w' :: World) txt. getFileContent (sql_repos policy_enforcer list_gorm) (NewDBStore (list_engine blob_clash) 5) demo_zip
      (Some \<lparr>uID = ''u1'', uUsername = ''alice'', uPasswordHash = ''h1'', uCreatedAt = 1\<rparr>) ''acme'' ''api'' cid ''a.proto'' w' =
      writeJSON 200 (JObj [(''path'', ''a.proto''), (''content'', txt)]) \<and> StdDecoding txt = [1, 2, 3]"
proof -
  let ?u = "\<lparr>uID = ''u2'', uUsername = ''bob'', uPasswordHash = ''h2'', uCreatedAt = 2\<rparr>"
  let ?a = "\<lparr>uID = ''u1'', uUsername = ''alice'', uPasswordHash = ''h1'', uCreatedAt = 1\<rparr>"
  from demo_upload obtain pc w' where up: "Upload (sql_repos policy_enforcer list_gorm) (NewDBStore (list_engine blob_clash) 5)
      demo_zip demo_env (Some ?u) [demo_content] demo_world = (Inr [pc], w')" by blast
  have "within_write ''u2'' (sql_abs demo_world) (sql_abs w')" using db_stack.Upload_inv [OF demo_inv up] by simp
  then have rd: "\<forall>m\<in>rModules (sql_abs w'). module_key m = (''acme'', ''api'') \<longrightarrow> may_read (sql_abs w') (userID (Some ?a)) m"
    by (simp add: within_write_def demo_world_abs demo_defs may_read_def may_write_def has_role_def)
  have ref: "uc_module_ref demo_content = Some (ModuleByName ''acme'' ''api'')" by (simp add: demo_content_def)
  have "map_of (entries (uc_files demo_content)) ''a.proto'' = Some [1, 2, 3]" by (simp add: demo_content_def)
  with rest_serves_upload [OF list_db.gorm_db_reliable_axioms policy_enforcer_matches list_engine_reliable demo_zip_ok
      demo_inv up ref rd]
  have "\<exists>txt. getFileContent (sql_repos policy_enforcer list_gorm) (NewDBStore (list_engine blob_clash) 5) demo_zip
      (Some ?a) ''acme'' ''api'' (pc_id pc) ''a.proto'' w' =
      writeJSON 200 (JObj [(''path'', ''a.proto''), (''content'', txt)]) \<and> StdDecoding txt = [1, 2, 3]"
    by simp
  then show ?thesis by blast
qed

end
