(* ===== verification/Mongo.thy ===== *)
theory Mongo
  imports Authz Go_Lib
begin

text \<open>
  The MongoDB backend, \<^verbatim>\<open>internal/db/mongo/mongo.go\<close>: the stores, each method over an arbitrary driver.
  A collection is the list of the values its documents decode to; \<open>MongoDB\<close> is the contents of the
  collections. The backend declares no indexes, so nothing keeps keys unique.

  \<open>mongo_sound\<close> is the documented meaning of the driver's calls. Reading through this backend meets the same
  contract as through SQL (\<open>repos_reads\<close>), so what is proved of the reading services from that contract holds
  here too; writing does not, and the last section shows what that means for memberships and uploads.
\<close>

section \<open>The driver\<close>

datatype mongo_error = ErrNoDocuments | DriverError string

text \<open>
  \<open>FindOne\<close> includes \<^verbatim>\<open>Decode(&u)\<close>: with an error comes what was decoded into \<open>u\<close> so far (the zero value if
  nothing was). \<open>Find\<close> includes \<^verbatim>\<open>cursor.All\<close>. \<open>UpdateOne p f ins\<close> applies \<open>f\<close> to one document that matches \<open>p\<close>;
  when none does, \<open>ins\<close> is the document an upsert inserts. The deletions report \<^verbatim>\<open>DeletedCount\<close>.
\<close>

record 'r collection =
  InsertOne :: "'r \<Rightarrow> 'r list \<Rightarrow> mongo_error option \<times> 'r list"
  FindOne :: "'r query \<Rightarrow> 'r list \<Rightarrow> mongo_error \<times> 'r + 'r"
  Find :: "'r query \<Rightarrow> 'r list \<Rightarrow> mongo_error + 'r list"
  UpdateOne :: "('r \<Rightarrow> bool) \<Rightarrow> ('r \<Rightarrow> 'r) \<Rightarrow> 'r option \<Rightarrow> 'r list \<Rightarrow> mongo_error option \<times> 'r list"
  DeleteOne :: "('r \<Rightarrow> bool) \<Rightarrow> 'r list \<Rightarrow> (mongo_error option \<times> nat) \<times> 'r list"
  DeleteMany :: "('r \<Rightarrow> bool) \<Rightarrow> 'r list \<Rightarrow> (mongo_error option \<times> nat) \<times> 'r list"

text \<open>\<open>reads_as\<close>: what an inserted value decodes to (a date keeps milliseconds only).\<close>

locale mongo_sound =
  fixes C :: "'r collection" and reads_as :: "'r \<Rightarrow> 'r"
  assumes insert_done: "InsertOne C r t = (None, t') \<Longrightarrow> mset t' = add_mset (reads_as r) (mset t)"
    and insert_failed: "InsertOne C r t = (Some e, t') \<Longrightarrow> t' = t"
    and find_one: "FindOne C q t = Inr r \<Longrightarrow> r \<in> set t \<and> q_where q r \<and>
      (\<forall>col. q_order q = Some col \<longrightarrow> (\<forall>x\<in>set t. q_where q x \<longrightarrow> col x \<le> col r))"
    and find_none: "FindOne C q t = Inl (ErrNoDocuments, p) \<Longrightarrow> x \<in> set t \<Longrightarrow> \<not> q_where q x"
    and find_all: "Find C q t = Inr rs \<Longrightarrow> answers q t rs"
    and delete_one: "DeleteOne C f t = ((None, n), t') \<Longrightarrow>
      (if \<exists>x\<in>set t. f x then n = 1 \<and> (\<exists>x\<in>set t. f x \<and> mset t = add_mset x (mset t')) else n = 0 \<and> t' = t)"
    and delete_one_failed: "DeleteOne C f t = ((Some e, n), t') \<Longrightarrow> t' = t"
    and update_one: "UpdateOne C f h ins t = (None, t') \<Longrightarrow>
      (if \<exists>x\<in>set t. f x
       then \<exists>x M. f x \<and> mset t = add_mset x M \<and> mset t' = add_mset (reads_as (h x)) M
       else case ins of None \<Rightarrow> t' = t | Some r \<Rightarrow> mset t' = add_mset (reads_as r) (mset t))"
    and update_one_failed: "UpdateOne C f h ins t = (Some e, t') \<Longrightarrow> t' = t"

section \<open>The collections\<close>

record MongoDB =
  mg_users :: "User list"
  mg_orgs :: "Org list"
  mg_members :: "OrgMember list"
  mg_modules :: "Module list"
  mg_commits :: "Commit list"
  mg_labels :: "Label list"
  mg_tokens :: "Token list"

text \<open>The driver's collections, and its case-insensitive regular expression match (\<^verbatim>\<open>$regex\<close> with option \<^verbatim>\<open>i\<close>).\<close>

record Driver =
  dUsers :: "User collection"
  dOrgs :: "Org collection"
  dMembers :: "OrgMember collection"
  dModules :: "Module collection"
  dCommits :: "Commit collection"
  dLabels :: "Label collection"
  dTokens :: "Token collection"
  regex_i :: "string \<Rightarrow> string \<Rightarrow> bool"

fun mongo_message :: "mongo_error \<Rightarrow> db_error" where
  "mongo_message ErrNoDocuments = DBError ''mongo: no documents in result''"
| "mongo_message (DriverError m) = DBError m"

text \<open>
  The end of every lookup: \<^verbatim>\<open>ErrNoDocuments\<close> becomes \<^verbatim>\<open>nil, ErrNotFound\<close>, everything else is \<^verbatim>\<open>&u, err\<close>,
  so that an error comes with a non-nil pointer.
\<close>

fun lookup_result :: "mongo_error \<times> 'r + 'r \<Rightarrow> (db_error, 'r) fetch" where
  "lookup_result (Inl (ErrNoDocuments, _)) = RetErr None ErrNotFound"
| "lookup_result (Inl (DriverError m, u)) = RetErr (Some u) (DBError m)"
| "lookup_result (Inr r) = Ret r"

abbreviation findOne :: "'r collection \<Rightarrow> ('r \<Rightarrow> bool) \<Rightarrow> 'r list \<Rightarrow> mongo_error \<times> 'r + 'r" where
  "findOne C p t \<equiv> FindOne C (Where p query0) t"

definition find_list :: "'r collection \<Rightarrow> 'r query \<Rightarrow> 'r list \<Rightarrow> db_error + 'r list" where
  "find_list C q t = map_sum mongo_message id (Find C q t)"

section \<open>UserStore\<close>

definition MUser_Create :: "Driver \<Rightarrow> User \<Rightarrow> ('z MongoDB_scheme, db_error) action" where
  "MUser_Create D u d =
     (case InsertOne (dUsers D) u (mg_users d) of (e, t) \<Rightarrow> (map_option mongo_message e, d\<lparr>mg_users := t\<rparr>))"

definition MUser_GetByUsername :: "Driver \<Rightarrow> string \<Rightarrow> 'z MongoDB_scheme \<Rightarrow> (db_error, User) fetch" where
  "MUser_GetByUsername D username d = lookup_result (findOne (dUsers D) (\<lambda>u. uUsername u = username) (mg_users d))"

definition MUser_GetByID :: "Driver \<Rightarrow> string \<Rightarrow> 'z MongoDB_scheme \<Rightarrow> (db_error, User) fetch" where
  "MUser_GetByID D i d = lookup_result (findOne (dUsers D) (\<lambda>u. uID u = i) (mg_users d))"

text \<open>Members whose user cannot be read are skipped.\<close>

definition MUser_ListByOrg :: "Driver \<Rightarrow> string \<Rightarrow> 'z MongoDB_scheme \<Rightarrow> db_error + User list" where
  "MUser_ListByOrg D orgID d =
     (case find_list (dMembers D) (Where (\<lambda>m. omOrgID m = orgID) query0) (mg_members d) of
        Inl e \<Rightarrow> Inl e
      | Inr members \<Rightarrow>
          Inr (concat (map (\<lambda>m. case findOne (dUsers D) (\<lambda>u. uID u = omUserID m) (mg_users d) of
                                  Inl _ \<Rightarrow> [] | Inr u \<Rightarrow> [u]) members)))"

section \<open>TokenStore\<close>

definition MToken_Create :: "Driver \<Rightarrow> Token \<Rightarrow> ('z MongoDB_scheme, db_error) action" where
  "MToken_Create D t d =
     (case InsertOne (dTokens D) t (mg_tokens d) of (e, ts) \<Rightarrow> (map_option mongo_message e, d\<lparr>mg_tokens := ts\<rparr>))"

definition MToken_GetByHash :: "Driver \<Rightarrow> string \<Rightarrow> 'z MongoDB_scheme \<Rightarrow> (db_error, Token) fetch" where
  "MToken_GetByHash D hash d = lookup_result (findOne (dTokens D) (\<lambda>t. tHash t = hash) (mg_tokens d))"

definition MToken_ListByUser :: "Driver \<Rightarrow> string \<Rightarrow> 'z MongoDB_scheme \<Rightarrow> db_error + Token list" where
  "MToken_ListByUser D userID d = find_list (dTokens D) (Where (\<lambda>t. tUserID t = userID) query0) (mg_tokens d)"

text \<open>\<^verbatim>\<open>$lt\<close> compares dates with dates only: a token without an expiry is not matched.\<close>

definition MToken_DeleteExpired :: "Driver \<Rightarrow> gotime \<Rightarrow> ('z MongoDB_scheme, db_error) action" where
  "MToken_DeleteExpired D now d =
     (case DeleteMany (dTokens D) (\<lambda>t. case tExpiresAt t of None \<Rightarrow> False | Some e \<Rightarrow> e < now) (mg_tokens d) of
        ((e, _), ts) \<Rightarrow> (map_option mongo_message e, d\<lparr>mg_tokens := ts\<rparr>))"

definition MToken_DeleteByUserAndNote :: "Driver \<Rightarrow> string \<Rightarrow> string \<Rightarrow> ('z MongoDB_scheme, db_error) action" where
  "MToken_DeleteByUserAndNote D userID note d =
     (case DeleteMany (dTokens D) (\<lambda>t. tUserID t = userID \<and> tNote t = note) (mg_tokens d) of
        ((e, _), ts) \<Rightarrow> (map_option mongo_message e, d\<lparr>mg_tokens := ts\<rparr>))"

definition MToken_Revoke :: "Driver \<Rightarrow> string \<Rightarrow> string \<Rightarrow> ('z MongoDB_scheme, db_error) action" where
  "MToken_Revoke D i userID d =
     (case DeleteOne (dTokens D) (\<lambda>t. tID t = i \<and> tUserID t = userID) (mg_tokens d) of
        ((Some e, _), ts) \<Rightarrow> (Some (mongo_message e), d\<lparr>mg_tokens := ts\<rparr>)
      | ((None, n), ts) \<Rightarrow> (if n = 0 then Some ErrNotFound else None, d\<lparr>mg_tokens := ts\<rparr>))"

section \<open>OrgStore\<close>

definition MOrg_Create :: "Driver \<Rightarrow> Org \<Rightarrow> ('z MongoDB_scheme, db_error) action" where
  "MOrg_Create D g d =
     (case InsertOne (dOrgs D) g (mg_orgs d) of (e, t) \<Rightarrow> (map_option mongo_message e, d\<lparr>mg_orgs := t\<rparr>))"

definition MOrg_GetByName :: "Driver \<Rightarrow> string \<Rightarrow> 'z MongoDB_scheme \<Rightarrow> (db_error, Org) fetch" where
  "MOrg_GetByName D name d = lookup_result (findOne (dOrgs D) (\<lambda>g. oName g = name) (mg_orgs d))"

definition MOrg_GetByID :: "Driver \<Rightarrow> string \<Rightarrow> 'z MongoDB_scheme \<Rightarrow> (db_error, Org) fetch" where
  "MOrg_GetByID D i d = lookup_result (findOne (dOrgs D) (\<lambda>g. oID g = i) (mg_orgs d))"

definition MOrg_AddMember :: "Driver \<Rightarrow> string \<Rightarrow> string \<Rightarrow> OrgRole \<Rightarrow> ('z MongoDB_scheme, db_error) action" where
  "MOrg_AddMember D orgID userID role d =
     (case InsertOne (dMembers D) \<lparr>omOrgID = orgID, omUserID = userID, omRole = role\<rparr> (mg_members d) of
        (e, t) \<Rightarrow> (map_option mongo_message e, d\<lparr>mg_members := t\<rparr>))"

definition MOrg_RemoveMember :: "Driver \<Rightarrow> string \<Rightarrow> string \<Rightarrow> ('z MongoDB_scheme, db_error) action" where
  "MOrg_RemoveMember D orgID userID d =
     (case DeleteOne (dMembers D) (\<lambda>m. omOrgID m = orgID \<and> omUserID m = userID) (mg_members d) of
        ((e, _), t) \<Rightarrow> (map_option mongo_message e, d\<lparr>mg_members := t\<rparr>))"

definition MOrg_ListMembers :: "Driver \<Rightarrow> string \<Rightarrow> 'z MongoDB_scheme \<Rightarrow> db_error + OrgMember list" where
  "MOrg_ListMembers D orgID d = find_list (dMembers D) (Where (\<lambda>m. omOrgID m = orgID) query0) (mg_members d)"

definition MOrg_GetMember :: "Driver \<Rightarrow> string \<Rightarrow> string \<Rightarrow> 'z MongoDB_scheme \<Rightarrow> (db_error, OrgMember) fetch" where
  "MOrg_GetMember D orgID userID d =
     lookup_result (findOne (dMembers D) (\<lambda>m. omOrgID m = orgID \<and> omUserID m = userID) (mg_members d))"

section \<open>ModuleStore\<close>

definition MModule_Create :: "Driver \<Rightarrow> Module \<Rightarrow> ('z MongoDB_scheme, db_error) action" where
  "MModule_Create D m d =
     (case InsertOne (dModules D) m (mg_modules d) of (e, t) \<Rightarrow> (map_option mongo_message e, d\<lparr>mg_modules := t\<rparr>))"

definition MModule_Get :: "Driver \<Rightarrow> string \<Rightarrow> string \<Rightarrow> 'z MongoDB_scheme \<Rightarrow> (db_error, Module) fetch" where
  "MModule_Get D ownerName repoName d =
     lookup_result (findOne (dModules D) (\<lambda>m. mOwnerName m = ownerName \<and> mName m = repoName) (mg_modules d))"

definition MModule_GetByID :: "Driver \<Rightarrow> string \<Rightarrow> 'z MongoDB_scheme \<Rightarrow> (db_error, Module) fetch" where
  "MModule_GetByID D i d = lookup_result (findOne (dModules D) (\<lambda>m. mID m = i) (mg_modules d))"

definition MModule_List :: "Driver \<Rightarrow> string \<Rightarrow> 'z MongoDB_scheme \<Rightarrow> db_error + Module list" where
  "MModule_List D ownerName d = find_list (dModules D) (Where (\<lambda>m. mOwnerName m = ownerName) query0) (mg_modules d)"

definition regex_special :: string where
  "regex_special = [CHR 0x5C] @ ''.+*?^$()[]{}|''"

definition escapeRegex :: "string \<Rightarrow> string" where
  "escapeRegex s = concat (map (\<lambda>c. if c \<in> set regex_special then [CHR 0x5C, c] else [c]) s)"

definition MModule_ListPublic :: "Driver \<Rightarrow> string \<Rightarrow> int \<Rightarrow> 'z MongoDB_scheme \<Rightarrow> db_error + Module list" where
  "MModule_ListPublic D query limit d =
     (let filter0 = Where (\<lambda>m. mVisibility m = ''public'') query0;
          filter = (if query \<noteq> [] then
                      Where (\<lambda>m. regex_i D (escapeRegex query) (mName m) \<or> regex_i D (escapeRegex query) (mOwnerName m)) filter0
                    else filter0) in
      find_list (dModules D) (OrderDesc mCreatedAt (Limit limit filter)) (mg_modules d))"

definition MModule_SetVisibility :: "Driver \<Rightarrow> string \<Rightarrow> Visibility \<Rightarrow> ('z MongoDB_scheme, db_error) action" where
  "MModule_SetVisibility D i vis d =
     (case UpdateOne (dModules D) (\<lambda>m. mID m = i) (\<lambda>m. m\<lparr>mVisibility := vis\<rparr>) None (mg_modules d) of
        (e, t) \<Rightarrow> (map_option mongo_message e, d\<lparr>mg_modules := t\<rparr>))"

definition MModule_Delete :: "Driver \<Rightarrow> string \<Rightarrow> ('z MongoDB_scheme, db_error) action" where
  "MModule_Delete D i d =
     (case DeleteOne (dModules D) (\<lambda>m. mID m = i) (mg_modules d) of
        ((e, _), t) \<Rightarrow> (map_option mongo_message e, d\<lparr>mg_modules := t\<rparr>))"

section \<open>CommitStore and LabelStore\<close>

definition MCommit_Create :: "Driver \<Rightarrow> Commit \<Rightarrow> ('z MongoDB_scheme, db_error) action" where
  "MCommit_Create D c d =
     (case InsertOne (dCommits D) c (mg_commits d) of (e, t) \<Rightarrow> (map_option mongo_message e, d\<lparr>mg_commits := t\<rparr>))"

definition MCommit_GetByID :: "Driver \<Rightarrow> string \<Rightarrow> string \<Rightarrow> 'z MongoDB_scheme \<Rightarrow> (db_error, Commit) fetch" where
  "MCommit_GetByID D moduleID commitID d =
     lookup_result (findOne (dCommits D) (\<lambda>c. cModuleID c = moduleID \<and> cID c = commitID) (mg_commits d))"

definition MCommit_GetLatest :: "Driver \<Rightarrow> string \<Rightarrow> 'z MongoDB_scheme \<Rightarrow> (db_error, Commit) fetch" where
  "MCommit_GetLatest D moduleID d =
     lookup_result (FindOne (dCommits D) (OrderDesc cCreatedAt (Where (\<lambda>c. cModuleID c = moduleID) query0)) (mg_commits d))"

definition MCommit_ListByModule :: "Driver \<Rightarrow> string \<Rightarrow> 'z MongoDB_scheme \<Rightarrow> db_error + Commit list" where
  "MCommit_ListByModule D moduleID d =
     find_list (dCommits D) (OrderDesc cCreatedAt (Where (\<lambda>c. cModuleID c = moduleID) query0)) (mg_commits d)"

text \<open>\<^verbatim>\<open>$set: l\<close> assigns every field, so the updated document is \<open>l\<close>, identifier and creation time included.\<close>

definition MLabel_Upsert :: "Driver \<Rightarrow> Label \<Rightarrow> ('z MongoDB_scheme, db_error) action" where
  "MLabel_Upsert D l d =
     (case UpdateOne (dLabels D) (\<lambda>x. lModuleID x = lModuleID l \<and> lName x = lName l) (\<lambda>_. l) (Some l) (mg_labels d) of
        (e, t) \<Rightarrow> (map_option mongo_message e, d\<lparr>mg_labels := t\<rparr>))"

definition MLabel_Get :: "Driver \<Rightarrow> string \<Rightarrow> string \<Rightarrow> 'z MongoDB_scheme \<Rightarrow> (db_error, Label) fetch" where
  "MLabel_Get D moduleID name d =
     lookup_result (findOne (dLabels D) (\<lambda>l. lModuleID l = moduleID \<and> lName l = name) (mg_labels d))"

definition MLabel_List :: "Driver \<Rightarrow> string \<Rightarrow> 'z MongoDB_scheme \<Rightarrow> db_error + Label list" where
  "MLabel_List D moduleID d = find_list (dLabels D) (Where (\<lambda>l. lModuleID l = moduleID) query0) (mg_labels d)"

section \<open>Repos\<close>

definition Mongo_Users :: "Driver \<Rightarrow> 'z MongoDB_scheme UserRepo" where
  "Mongo_Users D =
     \<lparr>Users_Create = MUser_Create D, Users_GetByUsername = MUser_GetByUsername D, Users_GetByID = MUser_GetByID D,
      Users_ListByOrg = MUser_ListByOrg D\<rparr>"

definition Mongo_Orgs :: "Driver \<Rightarrow> 'z MongoDB_scheme OrgRepo" where
  "Mongo_Orgs D =
     \<lparr>Orgs_Create = MOrg_Create D, Orgs_GetByName = MOrg_GetByName D, Orgs_GetByID = MOrg_GetByID D,
      Orgs_AddMember = MOrg_AddMember D, Orgs_RemoveMember = MOrg_RemoveMember D,
      Orgs_ListMembers = MOrg_ListMembers D, Orgs_GetMember = MOrg_GetMember D\<rparr>"

definition Mongo_Repos :: "Driver \<Rightarrow> 'z MongoDB_scheme Authorizer \<Rightarrow> 'z MongoDB_scheme Repos" where
  "Mongo_Repos D az =
     \<lparr>Users = Mongo_Users D, Orgs = Mongo_Orgs D,
      Modules = \<lparr>Modules_Create = MModule_Create D, Modules_Get = MModule_Get D, Modules_GetByID = MModule_GetByID D,
        Modules_List = MModule_List D, Modules_ListPublic = MModule_ListPublic D,
        Modules_SetVisibility = MModule_SetVisibility D, Modules_Delete = MModule_Delete D\<rparr>,
      Commits = \<lparr>Commits_Create = MCommit_Create D, Commits_GetByID = MCommit_GetByID D,
        Commits_GetLatest = MCommit_GetLatest D, Commits_ListByModule = MCommit_ListByModule D\<rparr>,
      Labels = \<lparr>Labels_Upsert = MLabel_Upsert D, Labels_Get = MLabel_Get D, Labels_List = MLabel_List D\<rparr>,
      Tokens = \<lparr>Tokens_Create = MToken_Create D, Tokens_GetByHash = MToken_GetByHash D,
        Tokens_ListByUser = MToken_ListByUser D, Tokens_Revoke = MToken_Revoke D,
        Tokens_DeleteExpired = MToken_DeleteExpired D, Tokens_DeleteByUserAndNote = MToken_DeleteByUserAndNote D\<rparr>,
      Auth = az\<rparr>"

text \<open>With the authorizer, as the server runs on it.\<close>

definition mongo_repos :: "enforcer \<Rightarrow> Driver \<Rightarrow> 'z MongoDB_scheme Repos" where
  "mongo_repos enf D = Mongo_Repos D (authz_New enf (Mongo_Users D) (Mongo_Orgs D))"

section \<open>Reading meets the contract\<close>

definition mongo_abs :: "'z MongoDB_scheme \<Rightarrow> Registry" where
  "mongo_abs d =
     \<lparr>rUsers = set (mg_users d), rOrgs = set (mg_orgs d), rMembers = set (mg_members d), rModules = set (mg_modules d),
      rCommits = set (mg_commits d), rLabels = set (mg_labels d), rTokens = set (mg_tokens d)\<rparr>"

lemma lookup_result_Ret [simp]: "lookup_result x = Ret r \<longleftrightarrow> x = Inr r"
  by (cases x rule: lookup_result.cases) simp_all

lemma lookup_result_missing: "lookup_result x = RetErr p ErrNotFound \<Longrightarrow> \<exists>u. x = Inl (ErrNoDocuments, u)"
  by (cases x rule: lookup_result.cases) simp_all

text \<open>An error other than a missing document comes with a pointer.\<close>

lemma lookup_result_pointer: "lookup_result x = RetErr p (DBError m) \<Longrightarrow> \<exists>u. p = Some u \<and> x = Inl (DriverError m, u)"
  by (cases x rule: lookup_result.cases) simp_all

lemma find_list_Inr [simp]: "find_list C q t = Inr rs \<longleftrightarrow> Find C q t = Inr rs"
  by (cases "Find C q t") (simp_all add: find_list_def)

context mongo_sound
begin

lemma lookup_keyed:
  assumes "\<And>k d. get k d = lookup_result (findOne C (\<lambda>x. key x = k) (rows d))" "\<And>d. elems d = set (rows d)"
  shows "keyed_read get elems key"
proof
  fix k d a p
  show "get k d = Ret a \<Longrightarrow> a \<in> elems d \<and> key a = k"
    using find_one [of "Where (\<lambda>x. key x = k) query0" "rows d" a] by (simp add: assms query_defs)
  show "key a \<noteq> k" if "get k d = RetErr p ErrNotFound" "a \<in> elems d"
    using find_none [of "Where (\<lambda>x. key x = k) query0" "rows d" _ a] lookup_result_missing [of _ p] that
    by (auto simp: assms query_defs)
qed

lemmas find_set = answers_set [OF find_all]
lemmas find_sorted = answers_sorted [OF find_all]
lemmas find_subset = answers_subset [OF find_all]

end

locale mongo_db =
    u: mongo_sound "dUsers D" ru + o: mongo_sound "dOrgs D" ro + mb: mongo_sound "dMembers D" rmb +
    m: mongo_sound "dModules D" rm + c: mongo_sound "dCommits D" rc + l: mongo_sound "dLabels D" rl +
    t: mongo_sound "dTokens D" rt
  for D :: Driver and ru ro rmb rm rc rl rt
begin

lemma reads: "repos_reads (Mongo_Repos D az :: 'z MongoDB_scheme Repos) mongo_abs"
proof (intro repos_reads.intro repos_reads_axioms.intro)
  let ?R = "Mongo_Repos D az :: 'z MongoDB_scheme Repos"
  show "keyed_read (Users_GetByUsername (Users ?R)) (\<lambda>w. rUsers (mongo_abs w)) uUsername"
    by (rule u.lookup_keyed [of _ _ mg_users]) (simp_all add: Mongo_Repos_def Mongo_Users_def MUser_GetByUsername_def mongo_abs_def)
  show "keyed_read (Users_GetByID (Users ?R)) (\<lambda>w. rUsers (mongo_abs w)) uID"
    by (rule u.lookup_keyed [of _ _ mg_users]) (simp_all add: Mongo_Repos_def Mongo_Users_def MUser_GetByID_def mongo_abs_def)
  show "keyed_read (Orgs_GetByName (Orgs ?R)) (\<lambda>w. rOrgs (mongo_abs w)) oName"
    by (rule o.lookup_keyed [of _ _ mg_orgs]) (simp_all add: Mongo_Repos_def Mongo_Orgs_def MOrg_GetByName_def mongo_abs_def)
  show "keyed_read (Orgs_GetByID (Orgs ?R)) (\<lambda>w. rOrgs (mongo_abs w)) oID"
    by (rule o.lookup_keyed [of _ _ mg_orgs]) (simp_all add: Mongo_Repos_def Mongo_Orgs_def MOrg_GetByID_def mongo_abs_def)
  show "keyed_read (\<lambda>(org, u). Orgs_GetMember (Orgs ?R) org u) (\<lambda>w. rMembers (mongo_abs w)) member_key"
    by (rule mb.lookup_keyed [of _ _ mg_members]) (auto simp: Mongo_Repos_def Mongo_Orgs_def MOrg_GetMember_def mongo_abs_def)
  show "keyed_read (\<lambda>(own, n). Modules_Get (Modules ?R) own n) (\<lambda>w. rModules (mongo_abs w)) module_key"
    by (rule m.lookup_keyed [of _ _ mg_modules]) (auto simp: Mongo_Repos_def MModule_Get_def mongo_abs_def)
  show "keyed_read (Modules_GetByID (Modules ?R)) (\<lambda>w. rModules (mongo_abs w)) mID"
    by (rule m.lookup_keyed [of _ _ mg_modules]) (simp_all add: Mongo_Repos_def MModule_GetByID_def mongo_abs_def)
  show "keyed_read (\<lambda>(m, c). Commits_GetByID (Commits ?R) m c) (\<lambda>w. rCommits (mongo_abs w)) commit_key"
    by (rule c.lookup_keyed [of _ _ mg_commits]) (auto simp: Mongo_Repos_def MCommit_GetByID_def mongo_abs_def)
  show "keyed_read (\<lambda>(m, n). Labels_Get (Labels ?R) m n) (\<lambda>w. rLabels (mongo_abs w)) label_key"
    by (rule l.lookup_keyed [of _ _ mg_labels]) (auto simp: Mongo_Repos_def MLabel_Get_def mongo_abs_def)
  show "keyed_read (Tokens_GetByHash (Tokens ?R)) (\<lambda>w. rTokens (mongo_abs w)) tHash"
    by (rule t.lookup_keyed [of _ _ mg_tokens]) (simp_all add: Mongo_Repos_def MToken_GetByHash_def mongo_abs_def)
next
  let ?R = "Mongo_Repos D az :: 'z MongoDB_scheme Repos"
  fix own i q lim uid ms cs ls ts and w :: "'z MongoDB_scheme"
  show "Modules_List (Modules ?R) own w = Inr ms \<Longrightarrow> set ms = {m \<in> rModules (mongo_abs w). mOwnerName m = own}"
    using m.find_set [of "Where (\<lambda>m. mOwnerName m = own) query0"] by (simp add: Mongo_Repos_def MModule_List_def mongo_abs_def query_defs)
  show "Labels_List (Labels ?R) i w = Inr ls \<Longrightarrow> set ls = {l \<in> rLabels (mongo_abs w). lModuleID l = i}"
    using l.find_set [of "Where (\<lambda>l. lModuleID l = i) query0"] by (simp add: Mongo_Repos_def MLabel_List_def mongo_abs_def query_defs)
  show "Tokens_ListByUser (Tokens ?R) uid w = Inr ts \<Longrightarrow> set ts = {t \<in> rTokens (mongo_abs w). tUserID t = uid}"
    using t.find_set [of "Where (\<lambda>t. tUserID t = uid) query0"] by (simp add: Mongo_Repos_def MToken_ListByUser_def mongo_abs_def query_defs)
  show "Commits_ListByModule (Commits ?R) i w = Inr cs \<Longrightarrow>
      set cs = {c \<in> rCommits (mongo_abs w). cModuleID c = i} \<and> sorted_wrt (\<lambda>a b. cCreatedAt b \<le> cCreatedAt a) cs"
    using c.find_set [of "OrderDesc cCreatedAt (Where (\<lambda>c. cModuleID c = i) query0)"]
      c.find_sorted [of "OrderDesc cCreatedAt (Where (\<lambda>c. cModuleID c = i) query0)"]
    by (simp add: Mongo_Repos_def MCommit_ListByModule_def mongo_abs_def query_defs)
  show "Modules_ListPublic (Modules ?R) q lim w = Inr ms \<Longrightarrow>
      set ms \<subseteq> {m \<in> rModules (mongo_abs w). mVisibility m = VisibilityPublic}"
    by (auto simp: Mongo_Repos_def MModule_ListPublic_def mongo_abs_def query_defs VisibilityPublic_def Let_def
        dest!: m.find_subset split: if_splits)
qed

lemma registry_reads_mongo: "casbin_sound enf \<Longrightarrow> registry_reads (mongo_repos enf D) mongo_abs"
  using repos_reads.authz_sound [OF reads, of enf]
  by (simp add: registry_reads_def mongo_repos_def reads) (simp add: Mongo_Repos_def)

end

section \<open>A driver on lists\<close>

fun update_first :: "('r \<Rightarrow> bool) \<Rightarrow> ('r \<Rightarrow> 'r) \<Rightarrow> 'r list \<Rightarrow> 'r list" where
  "update_first p f [] = []"
| "update_first p f (x # xs) = (if p x then f x # xs else x # update_first p f xs)"

fun delete_first :: "('r \<Rightarrow> bool) \<Rightarrow> 'r list \<Rightarrow> 'r list" where
  "delete_first p [] = []"
| "delete_first p (x # xs) = (if p x then xs else x # delete_first p xs)"

text \<open>\<open>zero\<close> is the value a failed decode leaves.\<close>

definition list_collection :: "'r \<Rightarrow> 'r collection" where
  "list_collection zero =
     \<lparr>InsertOne = (\<lambda>r t. (None, t @ [r])),
      FindOne = (\<lambda>q t. case list_first q t of Inl _ \<Rightarrow> Inl (ErrNoDocuments, zero) | Inr r \<Rightarrow> Inr r),
      Find = (\<lambda>q t. Inr (list_find q t)),
      UpdateOne = (\<lambda>p f ins t. (None, if list_ex p t then update_first p f t else t @ (case ins of None \<Rightarrow> [] | Some r \<Rightarrow> [r]))),
      DeleteOne = (\<lambda>p t. ((None, if list_ex p t then 1 else 0), delete_first p t)),
      DeleteMany = (\<lambda>p t. ((None, length (filter p t)), filter (\<lambda>x. \<not> p x) t))\<rparr>"

lemma update_first_mset:
  "\<exists>x\<in>set t. p x \<Longrightarrow> \<exists>x M. p x \<and> mset t = add_mset x M \<and> mset (update_first p f t) = add_mset (f x) M"
proof (induction t)
  case (Cons y t)
  show ?case
  proof (cases "p y")
    case False
    with Cons obtain x M where "p x" "mset t = add_mset x M" "mset (update_first p f t) = add_mset (f x) M" by auto
    with False show ?thesis by (intro exI [of _ x] exI [of _ "add_mset y M"]) simp
  qed auto
qed simp

lemma delete_first_mset: "\<exists>x\<in>set t. p x \<Longrightarrow> \<exists>x\<in>set t. p x \<and> mset t = add_mset x (mset (delete_first p t))"
  by (induction t) auto

lemma delete_first_none: "\<forall>x\<in>set t. \<not> p x \<Longrightarrow> delete_first p t = t"
  by (induction t) auto

lemma list_collection_sound: "mongo_sound (list_collection zero) id"
proof
  fix q t rs p
  show "FindOne (list_collection zero) q t = Inr r \<Longrightarrow> r \<in> set t \<and> q_where q r \<and>
      (\<forall>col. q_order q = Some col \<longrightarrow> (\<forall>x\<in>set t. q_where q x \<longrightarrow> col x \<le> col r))" for r
    using list_first_Inr [of q t r] by (auto simp: list_collection_def split: sum.splits)
  show "\<not> q_where q x" if "FindOne (list_collection zero) q t = Inl (ErrNoDocuments, p)" "x \<in> set t" for x
    using that list_first_Inl [of q t] by (auto simp: list_collection_def split: sum.splits)
  show "Find (list_collection zero) q t = Inr rs \<Longrightarrow> answers q t rs"
    by (auto simp: list_collection_def list_find_answers)
next
  fix f h ins n and t t' :: "'a list"
  show "DeleteOne (list_collection zero) f t = ((None, n), t') \<Longrightarrow>
      (if \<exists>x\<in>set t. f x then n = 1 \<and> (\<exists>x\<in>set t. f x \<and> mset t = add_mset x (mset t')) else n = 0 \<and> t' = t)"
    using delete_first_mset [of t f] delete_first_none [of t f] by (auto simp: list_collection_def list_ex_iff)
  show "UpdateOne (list_collection zero) f h ins t = (None, t') \<Longrightarrow>
      (if \<exists>x\<in>set t. f x then \<exists>x M. f x \<and> mset t = add_mset x M \<and> mset t' = add_mset (id (h x)) M
       else case ins of None \<Rightarrow> t' = t | Some r \<Rightarrow> mset t' = add_mset (id r) (mset t))"
    using update_first_mset [of t f h] by (auto simp: list_collection_def list_ex_iff split: option.splits)
qed (auto simp: list_collection_def)

definition list_driver :: Driver where
  "list_driver =
     \<lparr>dUsers = list_collection \<lparr>uID = [], uUsername = [], uPasswordHash = [], uCreatedAt = 0\<rparr>,
      dOrgs = list_collection \<lparr>oID = [], oName = [], oCreatedAt = 0\<rparr>,
      dMembers = list_collection \<lparr>omOrgID = [], omUserID = [], omRole = []\<rparr>,
      dModules = list_collection \<lparr>mID = [], mOwnerName = [], mOwnerType = [], mName = [], mVisibility = [], mCreatedAt = 0\<rparr>,
      dCommits = list_collection \<lparr>cID = [], cModuleID = [], cStorageKey = [], cManifest = [], cCreatedByUserID = [], cCreatedAt = 0\<rparr>,
      dLabels = list_collection \<lparr>lID = [], lModuleID = [], lName = [], lCommitID = [], lCreatedAt = 0, lUpdatedAt = 0\<rparr>,
      dTokens = list_collection \<lparr>tID = [], tUserID = [], tHash = [], tNote = [], tExpiresAt = None, tCreatedAt = 0\<rparr>,
      regex_i = (\<lambda>p s. Contains s p)\<rparr>"

interpretation list_mongo: mongo_db list_driver id id id id id id id
  by (intro mongo_db.intro) (simp_all add: list_driver_def list_collection_sound)

interpretation mongo_reg: registry_reads "mongo_repos policy_enforcer list_driver" mongo_abs
  by (rule list_mongo.registry_reads_mongo [OF casbin_matches_sound [OF policy_enforcer_matches]])

end
