(* ===== verification/Mongo_Correct.thy ===== *)
theory Mongo_Correct
  imports Mongo Account_Correct Content_Service
begin

text \<open>
  The services on MongoDB. What they read is as protected as on SQL. What they write is not: without unique
  indexes an account name can be given twice and a membership can exist twice, and a lookup that fails in the
  driver makes an upload believe its commit is there.
\<close>

section \<open>Reading\<close>

text \<open>
  C40. On MongoDB, too, whatever driver or Casbin calls fail, the reading services only answer with modules,
  commits, labels and descriptor sets of modules the caller may read, and the middleware only ever
  authenticates the owner of a live token that the header carries.
\<close>

theorem mongo_reads_confidential:
  fixes d :: "'z MongoDB_scheme" and nx :: "User option \<Rightarrow> 'z MongoDB_scheme \<Rightarrow> 'r"
  assumes "mongo_db D ru ro rmb rm rc rl rt" "casbin_sound enf"
  shows "(\<forall>ms. GetModules (mongo_repos enf D) caller mrefs d = Inr ms \<longrightarrow>
       (\<forall>p\<in>set ms. readable (mongo_abs d) (userID caller) (pm_id p))) \<and>
    (\<forall>ms. ListModules (mongo_repos enf D) caller orefs d = Inr ms \<longrightarrow>
       (\<forall>p\<in>set ms. readable (mongo_abs d) (userID caller) (pm_id p))) \<and>
    (\<forall>cs. GetCommits (mongo_repos enf D) caller rrefs d = Inr cs \<longrightarrow>
       (\<forall>p\<in>set cs. readable (mongo_abs d) (userID caller) (pc_module_id p))) \<and>
    (\<forall>cs. ListCommits (mongo_repos enf D) caller rref d = Inr cs \<longrightarrow>
       (\<forall>p\<in>set cs. readable (mongo_abs d) (userID caller) (pc_module_id p))) \<and>
    (\<forall>ls. GetLabels (mongo_repos enf D) caller lrefs d = Inr ls \<longrightarrow>
       (\<forall>p\<in>set ls. readable (mongo_abs d) (userID caller) (pl_module_id p))) \<and>
    (\<forall>ls. ListLabels (mongo_repos enf D) caller rref d = Inr ls \<longrightarrow>
       (\<forall>p\<in>set ls. readable (mongo_abs d) (userID caller) (pl_module_id p))) \<and>
    (\<forall>fds p. GetFileDescriptorSet (mongo_repos enf D) S Z compile caller rref d = Inr (fds, p) \<longrightarrow>
       readable (mongo_abs d) (userID caller) (pc_module_id p)) \<and>
    ((\<exists>u. proves (mongo_abs d) now header u \<and> Middleware (mongo_repos enf D) now header nx None d = nx (Some u) d) \<or>
      Middleware (mongo_repos enf D) now header nx None d = nx None d)"
proof -
  note R = mongo_db.registry_reads_mongo [OF assms, where 'a = 'z]
  note R' = registry_reads.axioms(1) [OF R]
  show ?thesis
    by (intro conjI allI impI;
        (erule registry_reads.reads_readable [OF R] registry_reads.GetFileDescriptorSet_readable [OF R]
         | rule repos_reads.middleware_sound [OF R']))
qed

definition demo_mongo :: MongoDB where
  "demo_mongo =
     \<lparr>mg_users = [\<lparr>uID = ''u1'', uUsername = ''alice'', uPasswordHash = ''h1'', uCreatedAt = 1\<rparr>,
                  \<lparr>uID = ''u2'', uUsername = ''bob'', uPasswordHash = ''h2'', uCreatedAt = 2\<rparr>],
      mg_orgs = [\<lparr>oID = ''o1'', oName = ''acme'', oCreatedAt = 3\<rparr>],
      mg_members = [\<lparr>omOrgID = ''o1'', omUserID = ''u1'', omRole = ''admin''\<rparr>,
                    \<lparr>omOrgID = ''o1'', omUserID = ''u2'', omRole = ''member''\<rparr>],
      mg_modules = [demo_module], mg_commits = [], mg_labels = [], mg_tokens = []\<rparr>"

lemmas demo_mongo_defs = demo_mongo_def demo_module_def mongo_abs_def model_consts

theorem mongo_reads_confidential_witness:
  "\<nexists>p. GetModules (mongo_repos policy_enforcer list_driver) None [ModuleById ''m1''] demo_mongo = Inr [p] \<and> pm_id p = ''m1''"
proof -
  have "\<not> readable (mongo_abs demo_mongo) (userID None) ''m1''" by (auto simp: readable_def demo_mongo_defs)
  then show ?thesis
    using mongo_reads_confidential [OF list_mongo.mongo_db_axioms casbin_matches_sound [OF policy_enforcer_matches],
        of None "[ModuleById ''m1'']" demo_mongo]
    by (metis list.set_intros(1))
qed

section \<open>Writing\<close>

lemma mongo_repos_ops:
  "Users_Create (Users (mongo_repos enf D)) = MUser_Create D"
  "Users_GetByUsername (Users (mongo_repos enf D)) = MUser_GetByUsername D"
  "Orgs_GetByName (Orgs (mongo_repos enf D)) = MOrg_GetByName D"
  "Orgs_AddMember (Orgs (mongo_repos enf D)) = MOrg_AddMember D"
  "Orgs_RemoveMember (Orgs (mongo_repos enf D)) = MOrg_RemoveMember D"
  "Commits_GetByID (Commits (mongo_repos enf D)) = MCommit_GetByID D"
  "Labels_Upsert (Labels (mongo_repos enf D)) = MLabel_Upsert D"
  by (simp_all add: mongo_repos_def Mongo_Repos_def Mongo_Users_def Mongo_Orgs_def)

context mongo_db
begin

lemma add_member_docs:
  "MOrg_AddMember D i k r d = (None, d') \<Longrightarrow>
     mset (mg_members d') = add_mset (rmb \<lparr>omOrgID = i, omUserID = k, omRole = r\<rparr>) (mset (mg_members d)) \<and>
     mg_users d' = mg_users d \<and> mg_orgs d' = mg_orgs d"
  using mb.insert_done by (auto simp: MOrg_AddMember_def split: prod.splits)

lemma remove_member_docs:
  assumes "MOrg_RemoveMember D i k d = (None, d')" "mb0 \<in> set (mg_members d)" "member_key mb0 = (i, k)"
  obtains x where "member_key x = (i, k)" "mset (mg_members d) = add_mset x (mset (mg_members d'))"
proof -
  obtain n t where "DeleteOne (dMembers D) (\<lambda>m. omOrgID m = i \<and> omUserID m = k) (mg_members d) = ((None, n), t)"
      "d' = d\<lparr>mg_members := t\<rparr>"
    using assms(1) by (auto simp: MOrg_RemoveMember_def split: prod.splits)
  with mb.delete_one [of "\<lambda>m. omOrgID m = i \<and> omUserID m = k" "mg_members d" n t] assms(2,3) that show thesis
    by (auto split: if_splits)
qed

lemma get_org_unique:
  "inj_on oName (set (mg_orgs d)) \<Longrightarrow> g \<in> set (mg_orgs d) \<Longrightarrow> MOrg_GetByName D (oName g) d = Ret g' \<Longrightarrow> g' = g"
  using o.find_one [of "Where (\<lambda>x. oName x = oName g) query0" "mg_orgs d" g']
  by (auto simp: MOrg_GetByName_def query_defs dest: inj_onD)

lemma get_user_unique:
  "inj_on uUsername (set (mg_users d)) \<Longrightarrow> u \<in> set (mg_users d) \<Longrightarrow> MUser_GetByUsername D (uUsername u) d = Ret u' \<Longrightarrow> u' = u"
  using u.find_one [of "Where (\<lambda>x. uUsername x = uUsername u) query0" "mg_users d" u']
  by (auto simp: MUser_GetByUsername_def query_defs dest: inj_onD)

end

text \<open>
  On MongoDB, removing a member can leave the member in place: whoever is added to an organization while already
  in it (to change the role, say) has two memberships, and a removal that reports success deletes one of them.
\<close>

theorem mongo_removal_incomplete:
  fixes d :: "'z MongoDB_scheme"
  assumes "mongo_db D ru ro id rm rc rl rt"
    and "g \<in> rOrgs (mongo_abs d)" "inj_on oName (rOrgs (mongo_abs d))" "v \<in> rUsers (mongo_abs d)" "inj_on uUsername (rUsers (mongo_abs d))"
    and "mb \<in> rMembers (mongo_abs d)" "member_key mb = (oID g, uID v)"
    and "addMember (mongo_repos enf D) (Some u) (oName g) (Some (uUsername v, role)) d =
      (writeJSON 200 (JObj [(''status'', ''added'')]), d1)"
    and "removeMember (mongo_repos enf D) (Some u') (oName g) (uUsername v) d1 =
      (writeJSON 200 (JObj [(''status'', ''removed'')]), d2)"
  shows "\<exists>mb'\<in>rMembers (mongo_abs d2). member_key mb' = (oID g, uID v)"
proof -
  have abs: "g \<in> set (mg_orgs d)" "inj_on oName (set (mg_orgs d))" "v \<in> set (mg_users d)" "inj_on uUsername (set (mg_users d))"
    "mb \<in> set (mg_members d)" using assms(2-6) by (simp_all add: mongo_abs_def)
  note gu = mongo_db.get_org_unique [OF assms(1)] mongo_db.get_user_unique [OF assms(1)]
  obtain r where a: "MOrg_AddMember D (oID g) (uID v) r d = (None, d1)"
    using assms(8) gu(1) [OF abs(2,1)] gu(2) [OF abs(4,3)]
    by (auto simp: addMember_def mongo_repos_ops writeErr_def Let_def split: fetch.splits if_splits prod.splits option.splits)
  note a' = mongo_db.add_member_docs [OF assms(1) a]
  then have abs1: "g \<in> set (mg_orgs d1)" "inj_on oName (set (mg_orgs d1))" "v \<in> set (mg_users d1)"
      "inj_on uUsername (set (mg_users d1))" "mb \<in> set (mg_members d1)"
    using abs by (simp_all add: set_mset_mset [symmetric] del: set_mset_mset)
  have "MOrg_RemoveMember D (oID g) (uID v) d1 = (None, d2)"
    using assms(9) gu(1) [OF abs1(2,1)] gu(2) [OF abs1(4,3)]
    by (auto simp: removeMember_def mongo_repos_ops writeErr_def split: fetch.splits if_splits prod.splits option.splits)
  from mongo_db.remove_member_docs [OF assms(1) this abs1(5) assms(7)] obtain x where
    "mset (mg_members d1) = add_mset x (mset (mg_members d2))" by blast
  with a' have "add_mset \<lparr>omOrgID = oID g, omUserID = uID v, omRole = r\<rparr> (mset (mg_members d)) = add_mset x (mset (mg_members d2))"
    by simp
  then have "\<lparr>omOrgID = oID g, omUserID = uID v, omRole = r\<rparr> \<in># mset (mg_members d2) \<or> mb \<in># mset (mg_members d2)"
    using abs(5) by (metis add_eq_conv_ex insert_noteq_member set_mset_mset union_single_eq_member)
  moreover have "rMembers (mongo_abs d2) = set (mg_members d2)" by (simp add: mongo_abs_def)
  moreover have "member_key \<lparr>omOrgID = oID g, omUserID = uID v, omRole = r\<rparr> = (oID g, uID v)" by simp
  ultimately show ?thesis using assms(7) by (metis set_mset_mset)
qed

abbreviation demo_repos :: "MongoDB Repos" where
  "demo_repos \<equiv> mongo_repos policy_enforcer list_driver"

abbreviation demo_alice :: User where
  "demo_alice \<equiv> \<lparr>uID = ''u1'', uUsername = ''alice'', uPasswordHash = ''h1'', uCreatedAt = 1\<rparr>"

lemma demo_promote:
  "fst (addMember demo_repos (Some demo_alice) ''acme'' (Some (''bob'', ''admin'')) demo_mongo) =
     writeJSON 200 (JObj [(''status'', ''added'')])"
  "fst (removeMember demo_repos (Some demo_alice) ''acme'' ''bob''
      (snd (addMember demo_repos (Some demo_alice) ''acme'' (Some (''bob'', ''admin'')) demo_mongo))) =
     writeJSON 200 (JObj [(''status'', ''removed'')])"
  by code_simp+

theorem mongo_removal_incomplete_witness:
  "\<exists>mb\<in>rMembers (mongo_abs (snd (removeMember demo_repos (Some demo_alice) ''acme'' ''bob''
      (snd (addMember demo_repos (Some demo_alice) ''acme'' (Some (''bob'', ''admin'')) demo_mongo))))).
     member_key mb = (''o1'', ''u2'')"
proof -
  let ?g = "\<lparr>oID = ''o1'', oName = ''acme'', oCreatedAt = 3\<rparr>" and ?v = "\<lparr>uID = ''u2'', uUsername = ''bob'', uPasswordHash = ''h2'', uCreatedAt = 2\<rparr>"
  let ?mb = "\<lparr>omOrgID = ''o1'', omUserID = ''u2'', omRole = ''member''\<rparr>"
  let ?d1 = "snd (addMember demo_repos (Some demo_alice) ''acme'' (Some (''bob'', ''admin'')) demo_mongo)"
  have "\<exists>mb'\<in>rMembers (mongo_abs (snd (removeMember demo_repos (Some demo_alice) ''acme'' ''bob'' ?d1))). member_key mb' = (oID ?g, uID ?v)"
  proof (rule mongo_removal_incomplete [OF list_mongo.mongo_db_axioms, where g = ?g and v = ?v and mb = ?mb and role = "''admin''"])
    show "addMember demo_repos (Some demo_alice) (oName ?g) (Some (uUsername ?v, ''admin'')) demo_mongo =
        (writeJSON 200 (JObj [(''status'', ''added'')]), ?d1)"
      using demo_promote(1) by (simp add: prod_eq_iff)
    show "removeMember demo_repos (Some demo_alice) (oName ?g) (uUsername ?v) ?d1 =
        (writeJSON 200 (JObj [(''status'', ''removed'')]), snd (removeMember demo_repos (Some demo_alice) ''acme'' ''bob'' ?d1))"
      using demo_promote(2) by (simp add: prod_eq_iff)
  qed (simp_all add: demo_mongo_defs)
  then show ?thesis by simp
qed

text \<open>
  On MongoDB, a taken account name can be given out again: \<^verbatim>\<open>CreateUsers\<close> relies on the database to refuse it, which has
  no index to do so, and so a second account with the name appears next to the first.
\<close>

theorem mongo_duplicate_user:
  fixes d :: "'z MongoDB_scheme"
  assumes "mongo_db D ru ro rmb rm rc rl rt" "\<forall>u. uID (ru u) = uID u \<and> uUsername (ru u) = uUsername u"
    and "u \<in> rUsers (mongo_abs d)" "uUsername u = name" "good_name 3 name" "uID u \<noteq> NewString E 0 0"
    and "\<forall>t r. fst (InsertOne (dUsers D) r t) = None"
  shows "\<exists>p d'. CreateUsers (mongo_repos enf D) True E [name] d = (Inr [p], d') \<and>
    \<not> inj_on uUsername (rUsers (mongo_abs d'))"
proof -
  let ?n = "\<lparr>uID = NewString E 0 0, uUsername = name, uPasswordHash = [], uCreatedAt = Now E 0 0\<rparr>"
  obtain t where i: "InsertOne (dUsers D) ?n (mg_users d) = (None, t)"
    using assms(7) by (metis prod.collapse)
  let ?d = "d\<lparr>mg_users := t\<rparr>"
  have "CreateUsers (mongo_repos enf D) True E [name] d = (Inr [userToProto ?n], ?d)"
    using assms(5) i by (simp add: CreateUsers_def createUser_def nameRe_iff mongo_repos_ops MUser_Create_def Let_def)
  moreover have "mset t = add_mset (ru ?n) (mset (mg_users d))"
    using mongo_sound.insert_done [OF mongo_db.axioms(1) [OF assms(1)] i] .
  then have "ru ?n \<in> set t" "u \<in> set t"
    using assms(3) by (metis mongo_abs_def Registry.select_convs(1) set_mset_mset union_single_eq_member insert_iff set_mset_add_mset_insert)+
  moreover have "uUsername (ru ?n) = uUsername u" "ru ?n \<noteq> u" using assms(2,4,6) by (auto dest: spec [of _ ?n])
  ultimately show ?thesis by (auto simp: mongo_abs_def inj_on_def)
qed

theorem mongo_duplicate_user_witness:
  "\<exists>p d'. CreateUsers demo_repos True demo_env [''alice''] demo_mongo = (Inr [p], d') \<and>
    \<not> inj_on uUsername (rUsers (mongo_abs d'))"
proof (rule mongo_duplicate_user [OF list_mongo.mongo_db_axioms])
  show "demo_alice \<in> rUsers (mongo_abs demo_mongo)" "uID demo_alice \<noteq> NewString demo_env 0 0"
    by (simp_all add: demo_mongo_defs demo_env_def)
  show "good_name 3 ''alice''" by code_simp
qed (simp_all add: list_driver_def list_collection_def)

text \<open>
  An upload on MongoDB trusts a failed lookup: when the driver fails while the commit is looked up, the store answers with an
  error and a non-nil pointer, of which \<^verbatim>\<open>Upload\<close> only sees the pointer. It creates no commit, and still moves the labels
  and reports the commit.
\<close>

lemma label_loop_commits:
  "for_each (upsertLabel (mongo_repos enf D) E i mid cid now) j ns acc w = (r, w') \<Longrightarrow> mg_commits w' = mg_commits w"
  by (erule for_each_preserves [where I = "\<lambda>v. mg_commits v = mg_commits w"])
     (auto simp: upsertLabel_def mongo_repos_ops MLabel_Upsert_def Let_def split: prod.splits option.splits)

theorem mongo_upload_skips_commit:
  fixes w :: "'z MongoDB_scheme"
  assumes "Store_Put S (mID m @ ''/'' @ commit_id zd) zd w = (None, w1)"
    and "FindOne (dCommits D) (Where (\<lambda>c. cModuleID c = mID m \<and> cID c = commit_id zd) query0) (mg_commits w1) = Inl (DriverError e, c0)"
    and "publish (mongo_repos enf D) S E u i m zd ns w = (Inr pc, w')"
  shows "pc_id pc = commit_id zd \<and> mg_commits w' = mg_commits w1"
proof -
  have g: "MCommit_GetByID D (mID m) (commit_id zd) w1 = RetErr (Some c0) (DBError e)"
    using assms(2) by (simp add: MCommit_GetByID_def)
  obtain r3 w3 where l: "for_each (upsertLabel (mongo_repos enf D) E i (mID m) (commit_id zd) (cCreatedAt c0)) 0 ns [] w1 = (r3, w3)"
    by fastforce
  from assms(3) have "w' = w3" "pc_id pc = commit_id zd"
    by (auto simp: publish_def Let_def assms(1) [simplified] mongo_repos_ops g l split: sum.splits)
  with label_loop_commits [OF l] show ?thesis by simp
qed

end
