(* ===== verification/Process.thy ===== *)
theory Process
  imports Prelude "HOL-Library.Multiset"
begin

text \<open>
  Requests that are served at the same time. A process is a request cut at its calls: \<open>Ask\<close> is a call that
  reads, with what the request does on the state it saw, \<open>Tell\<close> a call that writes, with what it
  does on the answer. \<open>alone\<close> runs a process without interruption; in a pool any process may take the next call.

  The second half is a small rely-guarantee theory. An invariant \<open>I\<close> and a relation \<open>G\<close> that every call
  keeps are given; \<open>good I G Q p w\<close> says that a process which last looked at \<open>w\<close> keeps both and ends
  with an answer that satisfies \<open>Q\<close>, whatever the others do in between within \<open>I\<close> and \<open>G\<close>.
\<close>

section \<open>Processes\<close>

datatype ('w, 'r) process =
    Done 'r
  | Ask "'w \<Rightarrow> ('w, 'r) process"
  | Tell "'w \<Rightarrow> bool \<times> 'w" "bool \<Rightarrow> ('w, 'r) process"

primrec alone :: "('w, 'r) process \<Rightarrow> 'w \<Rightarrow> 'r \<times> 'w" where
  "alone (Done r) = (\<lambda>w. (r, w))"
| "alone (Ask f) = (\<lambda>w. alone (f w) w)"
| "alone (Tell f k) = (\<lambda>w. alone (k (fst (f w))) (snd (f w)))"

primrec andThen :: "('w, 'r) process \<Rightarrow> ('r \<Rightarrow> ('w, 's) process) \<Rightarrow> ('w, 's) process" where
  "andThen (Done r) k = k r"
| "andThen (Ask f) k = Ask (\<lambda>w. andThen (f w) k)"
| "andThen (Tell f h) k = Tell f (\<lambda>b. andThen (h b) k)"

abbreviation map_answer :: "('r \<Rightarrow> 's) \<Rightarrow> ('w, 'r) process \<Rightarrow> ('w, 's) process" where
  "map_answer f p \<equiv> andThen p (\<lambda>r. Done (f r))"

text \<open>One reading call; one writing call, of which the process learns whether it failed.\<close>

definition ask :: "('w \<Rightarrow> 'x) \<Rightarrow> ('x \<Rightarrow> ('w, 'r) process) \<Rightarrow> ('w, 'r) process" where
  "ask g k = Ask (\<lambda>w. k (g w))"

definition tell :: "('w, 'e) action \<Rightarrow> (bool \<Rightarrow> ('w, 'r) process) \<Rightarrow> ('w, 'r) process" where
  "tell a k = Tell (\<lambda>w. (fst (a w) \<noteq> None, snd (a w))) k"

text \<open>The loop of the request handlers, as \<open>for_each\<close>.\<close>

fun loop ::
  "(nat \<Rightarrow> 'x \<Rightarrow> ('w, 'e + 'y) process) \<Rightarrow> nat \<Rightarrow> 'x list \<Rightarrow> 'y list \<Rightarrow> ('w, 'e + 'y list) process" where
  "loop body i [] ys = Done (Inr ys)"
| "loop body i (x # xs) ys =
     andThen (body i x)
       (\<lambda>r. case r of Inl e \<Rightarrow> Done (Inl e) | Inr y \<Rightarrow> loop body (Suc i) xs (ys @ [y]))"

text \<open>A process on one part of the state.\<close>

primrec on_snd :: "('w, 'r) process \<Rightarrow> ('v \<times> 'w, 'r) process" where
  "on_snd (Done r) = Done r"
| "on_snd (Ask f) = Ask (\<lambda>s. on_snd (f (snd s)))"
| "on_snd (Tell f k) = Tell (\<lambda>s. (fst (f (snd s)), fst s, snd (f (snd s)))) (\<lambda>b. on_snd (k b))"

section \<open>A process alone\<close>

lemma alone_andThen [simp]: "alone (andThen p k) w = alone (k (fst (alone p w))) (snd (alone p w))"
  by (induction p arbitrary: w) simp_all

lemma alone_ask [simp]: "alone (ask g k) w = alone (k (g w)) w"
  by (simp add: ask_def)

lemma alone_tell [simp]: "alone (tell a k) w = alone (k (fst (a w) \<noteq> None)) (snd (a w))"
  by (simp add: tell_def)

lemma alone_loop [simp]: "alone (loop body i xs ys) w = for_each (\<lambda>j x. alone (body j x)) i xs ys w"
  by (induction body i xs ys arbitrary: w rule: loop.induct) (simp_all split: sum.splits prod.splits)

lemma alone_on_snd [simp]: "alone (on_snd p) (v, w) = (fst (alone p w), v, snd (alone p w))"
  by (induction p arbitrary: w) simp_all

section \<open>Pools\<close>

inductive pool_step :: "('w, 'r) process list \<times> 'w \<Rightarrow> ('w, 'r) process list \<times> 'w \<Rightarrow> bool" where
  asks: "i < length ps \<Longrightarrow> ps ! i = Ask f \<Longrightarrow> pool_step (ps, w) (ps[i := f w], w)"
| tells: "i < length ps \<Longrightarrow> ps ! i = Tell f k \<Longrightarrow> f w = (b, w') \<Longrightarrow> pool_step (ps, w) (ps[i := k b], w')"

inductive_cases pool_stepE: "pool_step (ps, w) (ps', w')"

text \<open>A schedule names the process that makes the next call; it runs a pool step by step.\<close>

fun call :: "('w, 'r) process \<Rightarrow> 'w \<Rightarrow> ('w, 'r) process \<times> 'w" where
  "call (Done r) w = (Done r, w)"
| "call (Ask f) w = (f w, w)"
| "call (Tell f k) w = (k (fst (f w)), snd (f w))"

fun run_pool :: "nat list \<Rightarrow> ('w, 'r) process list \<times> 'w \<Rightarrow> ('w, 'r) process list \<times> 'w" where
  "run_pool [] s = s"
| "run_pool (i # is) (ps, w) =
     run_pool is (if i < length ps then (ps[i := fst (call (ps ! i) w)], snd (call (ps ! i) w)) else (ps, w))"

lemma pool_step_call:
  assumes "i < length ps"
  shows "pool_step\<^sup>*\<^sup>* (ps, w) (ps[i := fst (call (ps ! i) w)], snd (call (ps ! i) w))"
proof (cases "ps ! i")
  case (Done r)
  then show ?thesis using list_update_id [of ps i] by (simp add: Done)
next
  case (Ask f)
  with pool_step.asks [OF assms Ask, of w] show ?thesis by (simp add: r_into_rtranclp)
next
  case (Tell f k)
  with pool_step.tells [OF assms Tell, of w "fst (f w)" "snd (f w)"] show ?thesis by (simp add: r_into_rtranclp)
qed

lemma run_pool_steps: "pool_step\<^sup>*\<^sup>* s (run_pool is s)"
proof (induction "is" arbitrary: s)
  case (Cons i "is")
  obtain ps w where s: "s = (ps, w)" by fastforce
  show ?case
  proof (cases "i < length ps")
    case True
    with rtranclp_trans [OF pool_step_call [OF True] Cons.IH] show ?thesis by (simp add: s)
  qed (simp add: s Cons.IH)
qed simp

lemma pool_length: "pool_step\<^sup>*\<^sup>* s s' \<Longrightarrow> length (fst s') = length (fst s)"
  by (induction rule: rtranclp_induct) (auto elim: pool_step.cases)

text \<open>Running one process to its end without the others is a run of the pool.\<close>

lemma alone_in_pool: "pool_step\<^sup>*\<^sup>* (ps @ p # qs, w) (ps @ Done (fst (alone p w)) # qs, snd (alone p w))"
proof (induction p arbitrary: w)
  case (Ask f)
  have "pool_step (ps @ Ask f # qs, w) (ps @ f w # qs, w)"
    using pool_step.asks [of "length ps" "ps @ Ask f # qs" f w] by simp
  with Ask [OF rangeI, of w w] show ?case by simp
next
  case (Tell f k)
  have "pool_step (ps @ Tell f k # qs, w) (ps @ k (fst (f w)) # qs, snd (f w))"
    using pool_step.tells [of "length ps" "ps @ Tell f k # qs" f k w "fst (f w)" "snd (f w)"] by simp
  with Tell [OF rangeI, of "fst (f w)" "snd (f w)"] show ?case by simp
qed simp

section \<open>How many calls a process makes\<close>

primrec within :: "('w, 'r) process \<Rightarrow> nat \<Rightarrow> bool" where
  "within (Done r) = (\<lambda>n. True)"
| "within (Ask f) = (\<lambda>n. 0 < n \<and> (\<forall>w. within (f w) (n - 1)))"
| "within (Tell f k) = (\<lambda>n. 0 < n \<and> (\<forall>b. within (k b) (n - 1)))"

lemma within_mono: "within p n \<Longrightarrow> n \<le> m \<Longrightarrow> within p m"
proof (induction p arbitrary: n m)
  case (Ask f)
  from Ask.prems Ask.IH [OF rangeI, of _ "n - 1" "m - 1"] show ?case by auto
next
  case (Tell f k)
  from Tell.prems Tell.IH [OF rangeI, of _ "n - 1" "m - 1"] show ?case by auto
qed simp

lemma within_andThen: "within p n \<Longrightarrow> (\<And>r. within (k r) m) \<Longrightarrow> within (andThen p k) (n + m)"
proof (induction p arbitrary: n)
  case (Done r)
  show ?case using within_mono [OF Done.prems(2)] by simp
next
  case (Ask f)
  then obtain j where "n = Suc j" by (cases n) auto
  with Ask show ?case by auto
next
  case (Tell f h)
  then obtain j where "n = Suc j" by (cases n) auto
  with Tell show ?case by auto
qed

lemma within_map_answer: "within p n \<Longrightarrow> within (map_answer f p) n"
  using within_andThen [of p n "\<lambda>r. Done (f r)" 0] by simp

lemma within_ask: "0 < n \<Longrightarrow> (\<And>x. within (k x) (n - 1)) \<Longrightarrow> within (ask g k) n"
  by (simp add: ask_def)

lemma within_tell: "0 < n \<Longrightarrow> (\<And>b. within (k b) (n - 1)) \<Longrightarrow> within (tell a k) n"
  by (simp add: tell_def)

lemma within_loop:
  assumes "\<And>j x. within (body j x) (c x)"
  shows "within (loop body i xs ys) (sum_list (map c xs))"
proof (induction xs arbitrary: i ys)
  case (Cons x xs)
  show ?case
    using within_andThen [OF assms, of "\<lambda>r. case r of Inl e \<Rightarrow> Done (Inl e) | Inr y \<Rightarrow> loop body (Suc i) xs (ys @ [y])"
        "sum_list (map c xs)" i x] Cons.IH
    by (simp split: sum.splits)
qed simp

lemma within_on_snd: "within p n \<Longrightarrow> within (on_snd p) n"
  by (induction p arbitrary: n) auto

text \<open>Every step of a pool uses up one of the calls its processes have left.\<close>

lemma pool_step_within:
  assumes "pool_step s s'" "list_all2 within (fst s) ns"
  shows "\<exists>ns'. list_all2 within (fst s') ns' \<and> Suc (sum_list ns') \<le> sum_list ns"
proof -
  have *: "list_all2 within (ps[i := p]) (ns[i := ns ! i - 1]) \<and> Suc (sum_list (ns[i := ns ! i - 1])) \<le> sum_list ns"
    if "list_all2 within ps ns" "i < length ps" "0 < ns ! i" "within p (ns ! i - 1)" for ps p i
  proof -
    have i: "i < length ns" using that(1,2) by (simp add: list_all2_lengthD)
    have "sum_list (ns[i := ns ! i - 1]) = sum_list ns + (ns ! i - 1) - ns ! i"
      by (rule sum_list_update [OF i])
    moreover have "ns ! i \<le> sum_list ns" using i by (simp add: elem_le_sum_list)
    ultimately show ?thesis using that by (auto intro: list_all2_update_cong)
  qed
  from assms show ?thesis
  proof (cases rule: pool_step.cases)
    case (asks i ps f w)
    with assms(2) have w: "within (Ask f) (ns ! i)" using list_all2_nthD [of within ps ns i] by simp
    with asks assms(2) * [of ps i "f w"] show ?thesis by auto
  next
    case (tells i ps f k w b w')
    with assms(2) have w: "within (Tell f k) (ns ! i)" using list_all2_nthD [of within ps ns i] by simp
    with tells assms(2) * [of ps i "k b"] show ?thesis by auto
  qed
qed

lemma pool_run_within:
  assumes "(pool_step ^^ n) s s'" "list_all2 within (fst s) ns"
  shows "n \<le> sum_list ns"
  using assms
proof (induction n arbitrary: s ns)
  case (Suc n)
  from Suc.prems(1) obtain t where t: "pool_step s t" "(pool_step ^^ n) t s'" by (meson relpowp_Suc_E2)
  from pool_step_within [OF t(1) Suc.prems(2)] obtain ns' where
    "list_all2 within (fst t) ns'" "Suc (sum_list ns') \<le> sum_list ns" by blast
  with Suc.IH [OF t(2)] show ?case by fastforce
qed simp

text \<open>
  Without a bound: every call leaves a process that is a part of the one before, so no run of a pool goes on for ever.
\<close>

definition continues :: "(('w, 'r) process \<times> ('w, 'r) process) set" where
  "continues = {(f w, Ask f) | f w. True} \<union> {(k b, Tell f k) | f k b. True}"

lemma wf_continues: "wf continues"
proof (rule wfUNIVI)
  fix P :: "('w, 'r) process \<Rightarrow> bool" and p
  assume step: "\<forall>x. (\<forall>y. (y, x) \<in> continues \<longrightarrow> P y) \<longrightarrow> P x"
  show "P p"
    by (induction p) (rule step [rule_format], auto simp: continues_def)+
qed

lemma mult_list_update:
  assumes "i < length ps" "(q, ps ! i) \<in> r"
  shows "(mset (ps[i := q]), mset ps) \<in> mult r"
proof -
  have "mset ps = add_mset (ps ! i) (mset ps - {#ps ! i#})" using assms(1) by simp
  moreover have "mset (ps[i := q]) = (mset ps - {#ps ! i#}) + {#q#}" using assms(1) by (simp add: mset_update)
  ultimately have "(mset (ps[i := q]), mset ps) \<in> mult1 r" by (rule mult1I) (simp add: assms(2))
  then show ?thesis by (simp add: mult_def r_into_trancl)
qed

lemma pool_step_mult: "pool_step s t \<Longrightarrow> (mset (fst t), mset (fst s)) \<in> mult continues"
  by (induction rule: pool_step.induct) (auto simp: continues_def intro!: mult_list_update)

lemma pool_terminates: "\<nexists>run. \<forall>n. pool_step (run n) (run (Suc n))"
proof
  assume "\<exists>run :: nat \<Rightarrow> ('w, 'r) process list \<times> 'w. \<forall>n. pool_step (run n) (run (Suc n))"
  then obtain run :: "nat \<Rightarrow> ('w, 'r) process list \<times> 'w" where run: "\<And>n. pool_step (run n) (run (Suc n))" by blast
  have "\<exists>f. \<forall>i. (f (Suc i), f i) \<in> mult (continues :: (('w, 'r) process \<times> _) set)"
    by (rule exI [of _ "\<lambda>n. mset (fst (run n))"]) (simp add: pool_step_mult [OF run])
  with wf_mult [OF wf_continues] show False unfolding wf_iff_no_infinite_down_chain by blast
qed

text \<open>A pool stands still only when everybody is done.\<close>

lemma pool_stuck: "(\<nexists>t. pool_step (ps, w) t) \<longleftrightarrow> (\<forall>p\<in>set ps. \<exists>r. p = Done r)"
proof
  assume stuck: "\<nexists>t. pool_step (ps, w) t"
  show "\<forall>p\<in>set ps. \<exists>r. p = Done r"
  proof
    fix p
    assume "p \<in> set ps"
    then obtain i where i: "i < length ps" "ps ! i = p" by (auto simp: in_set_conv_nth)
    with stuck show "\<exists>r. p = Done r"
      by (cases p) (auto dest: pool_step.asks [of i ps _ w] pool_step.tells [of i ps _ _ w, OF _ _ prod.collapse [symmetric]])
  qed
next
  assume "\<forall>p\<in>set ps. \<exists>r. p = Done r"
  then have "\<forall>i < length ps. \<exists>r. ps ! i = Done r" by simp
  then show "\<nexists>t. pool_step (ps, w) t" by (fastforce elim!: pool_step.cases)
qed

section \<open>Processes that tolerate interference\<close>

primrec good ::
  "('w \<Rightarrow> bool) \<Rightarrow> ('w \<Rightarrow> 'w \<Rightarrow> bool) \<Rightarrow> ('r \<Rightarrow> 'w \<Rightarrow> bool) \<Rightarrow> ('w, 'r) process \<Rightarrow> 'w \<Rightarrow> bool" where
  "good I G Q (Done r) = (\<lambda>w. \<forall>v. I v \<longrightarrow> G w v \<longrightarrow> Q r v)"
| "good I G Q (Ask f) = (\<lambda>w. \<forall>v. I v \<longrightarrow> G w v \<longrightarrow> good I G Q (f v) v)"
| "good I G Q (Tell f k) =
     (\<lambda>w. \<forall>v. I v \<longrightarrow> G w v \<longrightarrow>
        I (snd (f v)) \<and> G v (snd (f v)) \<and> good I G Q (k (fst (f v))) (snd (f v)))"

text \<open>A condition on the answers that are not errors.\<close>

fun each :: "('y \<Rightarrow> 'w \<Rightarrow> bool) \<Rightarrow> 'e + 'y \<Rightarrow> 'w \<Rightarrow> bool" where
  "each P (Inl e) w \<longleftrightarrow> True"
| "each P (Inr y) w \<longleftrightarrow> P y w"

lemma good_on_snd:
  assumes "good I G Q p w" and "\<And>v x. J (v, x) \<longleftrightarrow> H v \<and> I x"
  shows "good J (\<lambda>s t. G (snd s) (snd t)) (\<lambda>r s. Q r (snd s)) (on_snd p) (v, w)"
  using assms(1)
proof (induction p arbitrary: v w)
  case (Done r)
  then show ?case by (auto simp: assms(2))
next
  case (Ask f)
  then show ?case by (auto simp: assms(2))
next
  case (Tell f k)
  then show ?case by (auto simp: assms(2))
qed

locale interference =
  fixes I :: "'w \<Rightarrow> bool" and G :: "'w \<Rightarrow> 'w \<Rightarrow> bool"
  assumes G_refl [simp, intro]: "G w w" and G_trans: "G u v \<Longrightarrow> G v w \<Longrightarrow> G u w"
begin

text \<open>What the others do meanwhile does not harm.\<close>

lemma good_mono: "good I G Q p w \<Longrightarrow> G w v \<Longrightarrow> good I G Q p v"
  by (cases p) (simp_all, (meson G_trans)+)

lemma good_from: "(\<And>v. I v \<Longrightarrow> G w v \<Longrightarrow> good I G Q p v) \<Longrightarrow> good I G Q p w"
  by (cases p) auto

lemma good_andThen: "good I G (\<lambda>r v. good I G Q (k r) v) p w \<Longrightarrow> good I G Q (andThen p k) w"
  by (induction p arbitrary: w) (auto intro: good_from)

lemma good_weaken:
  "good I G Q p w \<Longrightarrow> (\<And>r v. I v \<Longrightarrow> Q r v \<Longrightarrow> Q' r v) \<Longrightarrow> good I G Q' p w"
  by (induction p arbitrary: w) auto

lemma good_map_answer:
  assumes "good I G Q p w" "\<And>r v v'. Q r v \<Longrightarrow> G v v' \<Longrightarrow> Q' (f r) v'"
  shows "good I G Q' (map_answer f p) w"
  by (rule good_andThen, rule good_weaken [OF assms(1)]) (simp add: assms(2))

lemma good_ask: "(\<And>v. I v \<Longrightarrow> G w v \<Longrightarrow> good I G Q (k (g v)) v) \<Longrightarrow> good I G Q (ask g k) w"
  by (simp add: ask_def)

lemma good_tell:
  assumes "\<And>v e v'. I v \<Longrightarrow> G w v \<Longrightarrow> a v = (e, v') \<Longrightarrow> I v' \<and> G v v' \<and> good I G Q (k (e \<noteq> None)) v'"
  shows "good I G Q (tell a k) w"
proof -
  have "I (snd (a v)) \<and> G v (snd (a v)) \<and> good I G Q (k (fst (a v) \<noteq> None)) (snd (a v))" if "I v" "G w v" for v
    by (rule assms [OF that prod.collapse [symmetric]])
  then show ?thesis unfolding tell_def good.simps fst_conv snd_conv by blast
qed

lemma good_since: "good I G Q p u \<Longrightarrow> G w u \<Longrightarrow> good I G (\<lambda>r v. G w v \<and> Q r v) p u"
proof (induction p arbitrary: u)
  case (Tell f k)
  have "good I G (\<lambda>r v. G w v \<and> Q r v) (k (fst (f v))) (snd (f v))" if "I v" "G u v" for v
    using Tell that G_trans [OF Tell.prems(2) G_trans [OF that(2), of "snd (f v)"]] by auto
  with Tell.prems(1) show ?case by simp
qed (auto intro: G_trans)

lemma good_loop:
  assumes "\<And>j x v. I v \<Longrightarrow> G w v \<Longrightarrow> x \<in> set xs \<Longrightarrow>
      good I G (each P) (body j x) v"
    and "\<forall>y\<in>set ys. P y w" and stable: "\<And>y v v'. P y v \<Longrightarrow> G v v' \<Longrightarrow> P y v'"
  shows "good I G (each (\<lambda>zs v. \<forall>z\<in>set zs. P z v)) (loop body i xs ys) w"
  using assms(1,2)
proof (induction xs arbitrary: i ys w)
  case Nil
  then show ?case using stable by auto
next
  case (Cons x xs)
  let ?Q = "each (\<lambda>zs v. \<forall>z\<in>set zs. P z v)"
  let ?k = "\<lambda>r. case r of Inl e \<Rightarrow> Done (Inl e) | Inr y \<Rightarrow> loop body (Suc i) xs (ys @ [y])"
  have rest: "good I G ?Q (?k r) v"
    if "G w v" "each P r v" for r v
  proof (cases r)
    case (Inr y)
    have "good I G ?Q (loop body (Suc i) xs (ys @ [y])) v"
    proof (rule Cons.IH)
      show "good I G (each P) (body j z) v'"
        if "I v'" "G v v'" "z \<in> set xs" for j z v'
        using Cons.prems(1) [of v' z j] that G_trans [OF \<open>G w v\<close>] by simp
      show "\<forall>z\<in>set (ys @ [y]). P z v" using Cons.prems(2) stable [OF _ that(1)] that(2) Inr by auto
    qed
    then show ?thesis by (simp add: Inr)
  qed simp
  have "good I G (\<lambda>r v. good I G ?Q (?k r) v) (body i x) u" if u: "I u" "G w u" for u
    using good_since [OF Cons.prems(1) [OF u, of x i] u(2)] by (rule good_weaken) (simp, blast intro: rest)
  then have "good I G ?Q (andThen (body i x) ?k) u" if "I u" "G w u" for u
    using that by (blast intro: good_andThen)
  then show ?case by (auto intro: good_from)
qed

text \<open>A pool of tolerant processes keeps invariant and relation, and what a process promises of its answer stays true.\<close>

lemma pool_good:
  assumes "pool_step\<^sup>*\<^sup>* (ps, w) (ps', w')" "I w" "\<And>i. i < length ps \<Longrightarrow> good I G (Q i) (ps ! i) w"
  shows "I w' \<and> G w w' \<and> (\<forall>i < length ps'. good I G (Q i) (ps' ! i) w')"
  using assms
proof (induction rule: rtranclp_induct2)
  case refl
  then show ?case by simp
next
  case (step qs v qs' v')
  then have IH: "I v" "G w v" "\<forall>i < length qs. good I G (Q i) (qs ! i) v" by blast+
  consider (asks) i f where "i < length qs" "qs ! i = Ask f" "qs' = qs[i := f v]" "v' = v"
    | (tells) i f k b where "i < length qs" "qs ! i = Tell f k" "qs' = qs[i := k b]" "f v = (b, v')"
    using step.hyps(2) by (rule pool_stepE) blast+
  then show ?case
  proof cases
    case asks
    with IH(1,3) have "good I G (Q i) (f v) v" by fastforce
    with asks IH show ?thesis by (auto simp: nth_list_update)
  next
    case tells
    with IH(3) have "good I G (Q i) (Tell f k) v" by force
    with IH(1) tells(4) have t: "I v'" "G v v'" "good I G (Q i) (k b) v'" by auto
    with tells IH show ?thesis by (auto simp: nth_list_update intro: good_mono G_trans)
  qed
qed

end

end
