(* ===== verification/Checks.thy ===== *)
theory Checks
  imports Authz Process
begin

text \<open>
  The checks of the authorizer, \<^verbatim>\<open>internal/authz/authz.go\<close>, one query of the database at a time: the resolution of
  a role asks for a user, an organization and a membership in separate calls, and other requests may write in between. Run
  alone, each is the check of theory Authz.
\<close>

abbreviation authorizer :: "enforcer \<Rightarrow> 'w Repos \<Rightarrow> 'w AuthorizerState" where
  "authorizer enf R \<equiv> \<lparr>enforcer = enf, az_Users = Users R, az_Orgs = Orgs R\<rparr>"

section \<open>Roles\<close>

definition resolveOrgRole_process :: "'w AuthorizerState \<Rightarrow> string \<Rightarrow> string \<Rightarrow> ('w, string) process" where
  "resolveOrgRole_process a userID orgID =
     (if userID = '''' then Done ''public''
      else
        ask (Orgs_GetMember (az_Orgs a) orgID userID) (\<lambda>x.
          case x of
            RetErr _ _ \<Rightarrow> Done ''public''
          | Ret member \<Rightarrow> Done (if omRole member = OrgRoleAdmin then ''org_admin'' else ''org_member'')))"

definition resolveModuleRole_process :: "'w AuthorizerState \<Rightarrow> string \<Rightarrow> Module \<Rightarrow> ('w, string) process" where
  "resolveModuleRole_process a userID m =
     (if userID = '''' then Done ''public''
      else if mOwnerType m = OwnerTypeUser then
        ask (Users_GetByID (az_Users a) userID) (\<lambda>x.
          case x of
            Ret u \<Rightarrow> Done (if uUsername u = mOwnerName m then ''owner'' else ''public'')
          | RetErr _ _ \<Rightarrow> Done ''public'')
      else
        ask (Orgs_GetByName (az_Orgs a) (mOwnerName m)) (\<lambda>x.
          case x of
            RetErr _ _ \<Rightarrow> Done ''public''
          | Ret g \<Rightarrow>
              ask (Orgs_GetMember (az_Orgs a) (oID g) userID) (\<lambda>y.
                case y of
                  RetErr _ _ \<Rightarrow> Done ''public''
                | Ret member \<Rightarrow> Done (if omRole member = OrgRoleAdmin then ''org_admin'' else ''org_member''))))"

definition resolveOwnerRole_process :: "'w AuthorizerState \<Rightarrow> string \<Rightarrow> string \<Rightarrow> ('w, db_error + string) process" where
  "resolveOwnerRole_process a userID ownerName =
     (if userID = '''' then Done (Inr ''public'')
      else
        (let via_org =
           ask (Orgs_GetByName (az_Orgs a) ownerName) (\<lambda>y.
             case y of
               RetErr _ e \<Rightarrow> Done (if e = ErrNotFound then Inr ''public'' else Inl e)
             | Ret g \<Rightarrow>
                 ask (Orgs_GetMember (az_Orgs a) (oID g) userID) (\<lambda>z.
                   case z of
                     RetErr _ _ \<Rightarrow> Done (Inr ''public'')
                   | Ret member \<Rightarrow>
                       Done (Inr (if omRole member = OrgRoleAdmin then ''org_admin'' else ''org_member''))))
         in ask (Users_GetByID (az_Users a) userID) (\<lambda>x.
              case x of
                Ret u \<Rightarrow> if uUsername u = ownerName then Done (Inr ''owner'') else via_org
              | RetErr _ _ \<Rightarrow> via_org)))"

section \<open>Checks\<close>

definition CanReadModule_process :: "'w AuthorizerState \<Rightarrow> string \<Rightarrow> Module \<Rightarrow> ('w, bool) process" where
  "CanReadModule_process a userID m =
     (if mVisibility m = VisibilityPublic then Done True
      else map_answer (\<lambda>role. enforce a role ''module'' ''read'') (resolveModuleRole_process a userID m))"

definition CanWriteModule_process :: "'w AuthorizerState \<Rightarrow> string \<Rightarrow> Module \<Rightarrow> ('w, bool) process" where
  "CanWriteModule_process a userID m =
     map_answer (\<lambda>role. enforce a role ''module'' ''write'') (resolveModuleRole_process a userID m)"

definition CanAdminModule_process :: "'w AuthorizerState \<Rightarrow> string \<Rightarrow> Module \<Rightarrow> ('w, bool) process" where
  "CanAdminModule_process a userID m =
     map_answer (\<lambda>role. enforce a role ''module'' ''admin'') (resolveModuleRole_process a userID m)"

definition CanCreateModule_process :: "'w AuthorizerState \<Rightarrow> string \<Rightarrow> string \<Rightarrow> ('w, bool) process" where
  "CanCreateModule_process a userID ownerName =
     map_answer (\<lambda>r. case r of Inl _ \<Rightarrow> False | Inr role \<Rightarrow> enforce a role ''module'' ''create'')
       (resolveOwnerRole_process a userID ownerName)"

definition CanManageOrgMembers_process :: "'w AuthorizerState \<Rightarrow> string \<Rightarrow> string \<Rightarrow> ('w, bool) process" where
  "CanManageOrgMembers_process a userID orgID =
     map_answer (\<lambda>role. enforce a role ''org'' ''manage_members'') (resolveOrgRole_process a userID orgID)"

lemmas role_process_defs = resolveModuleRole_process_def resolveOrgRole_process_def resolveOwnerRole_process_def
lemmas can_process_defs = CanReadModule_process_def CanWriteModule_process_def CanAdminModule_process_def CanCreateModule_process_def
  CanManageOrgMembers_process_def

lemma roles_alone [simp]:
  "alone (resolveModuleRole_process a uid m) w = (resolveModuleRole a uid m w, w)"
  "alone (resolveOrgRole_process a uid org) w = (resolveOrgRole a uid org w, w)"
  "alone (resolveOwnerRole_process a uid own) w = (resolveOwnerRole a uid own w, w)"
  by (simp_all add: role_process_defs role_defs Let_def split: fetch.splits)

lemma checks_alone [simp]:
  "alone (CanReadModule_process a uid m) w = (Authz_CanReadModule a uid m w, w)"
  "alone (CanWriteModule_process a uid m) w = (Authz_CanWriteModule a uid m w, w)"
  "alone (CanAdminModule_process a uid m) w = (Authz_CanAdminModule a uid m w, w)"
  "alone (CanCreateModule_process a uid own) w = (Authz_CanCreateModule a uid own w, w)"
  "alone (CanManageOrgMembers_process a uid org) w = (Authz_CanManageOrgMembers a uid org w, w)"
  by (simp_all add: can_process_defs can_defs)

section \<open>How long a check takes\<close>

lemma roles_within:
  "within (resolveModuleRole_process a uid m) 2" "within (resolveOrgRole_process a uid org) 1"
  "within (resolveOwnerRole_process a uid own) 3"
  by (auto simp: role_process_defs Let_def intro!: within_ask split: fetch.splits)

lemma checks_within:
  "within (CanReadModule_process a uid m) 2" "within (CanWriteModule_process a uid m) 2" "within (CanAdminModule_process a uid m) 2"
  "within (CanCreateModule_process a uid own) 3" "within (CanManageOrgMembers_process a uid org) 1"
  unfolding can_process_defs by (auto intro: within_map_answer roles_within roles_within [unfolded One_nat_def])

lemma within_check:
  fixes k :: "bool \<Rightarrow> ('w, 'r) process"
  shows "2 \<le> n \<Longrightarrow> (\<And>b. within (k b) (n - 2)) \<Longrightarrow> within (andThen (CanReadModule_process a uid m) k) n"
    and "2 \<le> n \<Longrightarrow> (\<And>b. within (k b) (n - 2)) \<Longrightarrow> within (andThen (CanWriteModule_process a uid m) k) n"
    and "2 \<le> n \<Longrightarrow> (\<And>b. within (k b) (n - 2)) \<Longrightarrow> within (andThen (CanAdminModule_process a uid m) k) n"
    and "3 \<le> n \<Longrightarrow> (\<And>b. within (k b) (n - 3)) \<Longrightarrow> within (andThen (CanCreateModule_process a uid own) k) n"
    and "1 \<le> n \<Longrightarrow> (\<And>b. within (k b) (n - 1)) \<Longrightarrow> within (andThen (CanManageOrgMembers_process a uid org) k) n"
proof -
  have *: "within (andThen p k) n" if "within p j" "j \<le> n" "\<And>b. within (k b) (n - j)" for p :: "('w, bool) process" and j
    using within_andThen [OF that(1,3)] that(2) by simp
  show "2 \<le> n \<Longrightarrow> (\<And>b. within (k b) (n - 2)) \<Longrightarrow> within (andThen (CanReadModule_process a uid m) k) n"
    "2 \<le> n \<Longrightarrow> (\<And>b. within (k b) (n - 2)) \<Longrightarrow> within (andThen (CanWriteModule_process a uid m) k) n"
    "2 \<le> n \<Longrightarrow> (\<And>b. within (k b) (n - 2)) \<Longrightarrow> within (andThen (CanAdminModule_process a uid m) k) n"
    "3 \<le> n \<Longrightarrow> (\<And>b. within (k b) (n - 3)) \<Longrightarrow> within (andThen (CanCreateModule_process a uid own) k) n"
    "1 \<le> n \<Longrightarrow> (\<And>b. within (k b) (n - 1)) \<Longrightarrow> within (andThen (CanManageOrgMembers_process a uid org) k) n"
    by (rule *, rule checks_within, assumption, assumption)+
qed

section \<open>A check under interference\<close>

text \<open>Checks only read, so a pool does not notice them; what follows a check starts from a later state.\<close>

primrec asks_only :: "('w, 'r) process \<Rightarrow> bool" where
  "asks_only (Done r) \<longleftrightarrow> True"
| "asks_only (Ask f) \<longleftrightarrow> (\<forall>w. asks_only (f w))"
| "asks_only (Tell f k) \<longleftrightarrow> False"

lemma asks_only_andThen: "asks_only p \<Longrightarrow> (\<And>r. asks_only (k r)) \<Longrightarrow> asks_only (andThen p k)"
  by (induction p) auto

lemma asks_only_ask: "(\<And>x. asks_only (k x)) \<Longrightarrow> asks_only (ask g k)"
  by (simp add: ask_def)

lemma asks_only_loop: "(\<And>j x. asks_only (body j x)) \<Longrightarrow> asks_only (loop body i xs ys)"
  by (induction body i xs ys rule: loop.induct) (auto intro!: asks_only_andThen split: sum.splits)

lemma checks_ask_only:
  "asks_only (CanReadModule_process a uid m)" "asks_only (CanWriteModule_process a uid m)" "asks_only (CanAdminModule_process a uid m)"
  "asks_only (CanCreateModule_process a uid own)" "asks_only (CanManageOrgMembers_process a uid org)"
  by (auto simp: can_process_defs role_process_defs Let_def intro!: asks_only_andThen asks_only_ask split: fetch.splits)

context interference
begin

lemma good_asks_only: "asks_only p \<Longrightarrow> good I G (\<lambda>_ _. True) p w"
  by (induction p arbitrary: w) auto

lemma good_first:
  assumes "good I G P p w" "\<And>r v. I v \<Longrightarrow> G w v \<Longrightarrow> P r v \<Longrightarrow> good I G Q (k r) v"
  shows "good I G Q (andThen p k) w"
proof -
  have "good I G (\<lambda>r v. good I G Q (k r) v) p w"
    by (rule good_weaken [OF good_since [OF assms(1) G_refl]]) (simp add: assms(2))
  then show ?thesis by (rule good_andThen)
qed

lemma good_checks:
  fixes k :: "bool \<Rightarrow> ('w, 'r) process"
  assumes "\<And>b v. I v \<Longrightarrow> G w v \<Longrightarrow> good I G Q (k b) v"
  shows "good I G Q (andThen (CanWriteModule_process a uid m) k) w"
    and "good I G Q (andThen (CanAdminModule_process a uid m) k) w"
    and "good I G Q (andThen (CanManageOrgMembers_process a uid org) k) w"
  by (rule good_first [OF good_asks_only [OF checks_ask_only(2)]] good_first [OF good_asks_only [OF checks_ask_only(3)]]
      good_first [OF good_asks_only [OF checks_ask_only(5)]], rule assms, assumption+)+

end

end
