(* ===== verification/Reads.thy ===== *)
theory Reads
  imports Server Checks
begin

text \<open>
  The reading handlers, Connect and REST, as processes that make one call of the repositories or the store at a time: what
  they answer with is pieced together from states between which other requests have written. Run alone, each is
  the handler of the same name in the sequential theories.
\<close>

abbreviation fail :: "connect_code \<Rightarrow> string \<Rightarrow> ('w, connect_error + 'y) process" where
  "fail c msg \<equiv> Done (Inl (ConnectError c msg))"

text \<open>\<^verbatim>\<open>repos.Auth\<close> is what \<^verbatim>\<open>authz.New(repos)\<close> returned: its checks ask these repositories.\<close>

definition authorizer_built :: "enforcer \<Rightarrow> 'w Repos \<Rightarrow> bool" where
  "authorizer_built enf R \<longleftrightarrow> Auth R = authz_New enf (Users R) (Orgs R)"

lemma built_checks:
  assumes "authorizer_built enf R"
  shows "CanReadModule (Auth R) = Authz_CanReadModule (authorizer enf R)"
    "CanWriteModule (Auth R) = Authz_CanWriteModule (authorizer enf R)"
    "CanAdminModule (Auth R) = Authz_CanAdminModule (authorizer enf R)"
    "CanCreateModule (Auth R) = Authz_CanCreateModule (authorizer enf R)"
    "CanManageOrgMembers (Auth R) = Authz_CanManageOrgMembers (authorizer enf R)"
  using assms by (simp_all add: authorizer_built_def)

lemma sql_authorizer_built [simp]: "authorizer_built enf (sql_repos enf G)"
  by (simp add: authorizer_built_def sql_repos_def DB_Repos_def)

section \<open>Loops\<close>

text \<open>The loop over the references of a request, whose body only reads.\<close>

abbreviation each_ref :: "('x \<Rightarrow> ('w, 'e + 'y) process) \<Rightarrow> 'x list \<Rightarrow> ('w, 'e + 'y list) process" where
  "each_ref body xs \<equiv> loop (\<lambda>_. body) 0 xs []"

lemma for_each_reads: "for_each (\<lambda>_ x w. (f w x, w)) i xs ys w = (collect (f w) xs ys, w)"
  by (induction xs arbitrary: i ys) (simp_all split: sum.splits)

text \<open>The loop that drops what the caller may not read.\<close>

fun readable_modules ::
  "enforcer \<Rightarrow> 'w Repos \<Rightarrow> string \<Rightarrow> (Module \<Rightarrow> ('w, 'y) process) \<Rightarrow> Module list \<Rightarrow> 'y list \<Rightarrow> ('w, 'y list) process" where
  "readable_modules enf R uid show [] ys = Done ys"
| "readable_modules enf R uid show (m # ms) ys =
     andThen (CanReadModule_process (authorizer enf R) uid m) (\<lambda>allowed.
       if \<not> allowed then readable_modules enf R uid show ms ys
       else andThen (show m) (\<lambda>y. readable_modules enf R uid show ms (ys @ [y])))"

lemma readable_modules_alone:
  assumes "authorizer_built enf R" "\<And>m. alone (show m) w = (g m, w)"
  shows "alone (readable_modules enf R uid show ms ys) w =
    (ys @ map g (filter (\<lambda>m. CanReadModule (Auth R) uid m w) ms), w)"
  by (induction ms arbitrary: ys) (simp_all add: assms(2) built_checks [OF assms(1)])

section \<open>Owners and users\<close>

definition getOwner_process :: "'w Repos \<Rightarrow> name_ref \<Rightarrow> ('w, connect_error + proto_owner) process" where
  "getOwner_process R ref =
     (let name = ref_GetName ref; i = ref_GetId ref in
      if name \<noteq> [] then
        ask (Users_GetByUsername (Users R) name) (\<lambda>x.
          case x of
            Ret u \<Rightarrow> Done (Inr (OwnerUser (userToProto u)))
          | RetErr _ uErr \<Rightarrow>
              if uErr \<noteq> ErrNotFound then fail CodeInternal ''internal error''
              else
                ask (Orgs_GetByName (Orgs R) name) (\<lambda>y.
                  case y of
                    Ret g \<Rightarrow> Done (Inr (OwnerOrganization (orgToProto g)))
                  | RetErr _ oErr \<Rightarrow>
                      if oErr \<noteq> ErrNotFound then fail CodeInternal ''internal error''
                      else fail CodeNotFound (''owner not found: '' @ name)))
      else if i \<noteq> [] then
        ask (Users_GetByID (Users R) i) (\<lambda>x.
          case x of
            Ret u \<Rightarrow> Done (Inr (OwnerUser (userToProto u)))
          | RetErr _ uErr \<Rightarrow>
              if uErr \<noteq> ErrNotFound then fail CodeInternal ''internal error''
              else
                ask (Orgs_GetByID (Orgs R) i) (\<lambda>y.
                  case y of
                    Ret g \<Rightarrow> Done (Inr (OwnerOrganization (orgToProto g)))
                  | RetErr _ oErr \<Rightarrow>
                      if oErr \<noteq> ErrNotFound then fail CodeInternal ''internal error''
                      else fail CodeNotFound (''owner not found: '' @ i)))
      else fail CodeInvalidArgument ''owner ref must have name or id'')"

text \<open>One lookup by name or by identifier, and its answer.\<close>

definition looked_up :: "string \<Rightarrow> ('x \<Rightarrow> 'y) \<Rightarrow> (db_error, 'x) fetch \<Rightarrow> ('w, connect_error + 'y) process" where
  "looked_up missing toProto x =
     (case x of
        RetErr _ e \<Rightarrow> if e = ErrNotFound then fail CodeNotFound missing else fail CodeInternal ''internal error''
      | Ret v \<Rightarrow> Done (Inr (toProto v)))"

definition getOrganization_process :: "'w Repos \<Rightarrow> name_ref \<Rightarrow> ('w, connect_error + proto_org) process" where
  "getOrganization_process R ref =
     (if ref_GetName ref \<noteq> []
      then ask (Orgs_GetByName (Orgs R) (ref_GetName ref)) (looked_up ''organization not found'' orgToProto)
      else if ref_GetId ref \<noteq> []
      then ask (Orgs_GetByID (Orgs R) (ref_GetId ref)) (looked_up ''organization not found'' orgToProto)
      else fail CodeInvalidArgument ''organization ref must have name or id'')"

definition getUserRef_process :: "'w Repos \<Rightarrow> name_ref \<Rightarrow> ('w, connect_error + proto_user) process" where
  "getUserRef_process R ref =
     (if ref_GetName ref \<noteq> []
      then ask (Users_GetByUsername (Users R) (ref_GetName ref)) (looked_up ''user not found'' userToProto)
      else if ref_GetId ref \<noteq> []
      then ask (Users_GetByID (Users R) (ref_GetId ref)) (looked_up ''user not found'' userToProto)
      else fail CodeInvalidArgument ''user ref must have name or id'')"

definition GetOwners_process :: "'w Repos \<Rightarrow> name_ref list \<Rightarrow> ('w, connect_error + proto_owner list) process" where
  "GetOwners_process R refs = each_ref (getOwner_process R) refs"

definition GetOrganizations_process :: "'w Repos \<Rightarrow> name_ref list \<Rightarrow> ('w, connect_error + proto_org list) process" where
  "GetOrganizations_process R refs = each_ref (getOrganization_process R) refs"

definition GetUsers_process :: "'w Repos \<Rightarrow> name_ref list \<Rightarrow> ('w, connect_error + proto_user list) process" where
  "GetUsers_process R refs = each_ref (getUserRef_process R) refs"

lemma owners_alone:
  "alone (GetOwners_process R refs) w = (GetOwners R refs w, w)"
  "alone (GetOrganizations_process R refs) w = (GetOrganizations R refs w, w)"
  "alone (GetUsers_process R refs) w = (GetUsers R refs w, w)"
proof -
  have "alone (getOwner_process R ref) = (\<lambda>w. (getOwner R w ref, w))"
    "alone (getOrganization_process R ref) = (\<lambda>w. (getOrganization R w ref, w))"
    "alone (getUserRef_process R ref) = (\<lambda>w. (getUserRef R w ref, w))" for ref
    by (rule ext, simp add: getOwner_process_def getOwner_def getOrganization_process_def getOrganization_def
        getUserRef_process_def getUserRef_def looked_up_def Let_def split: fetch.splits)+
  then show "alone (GetOwners_process R refs) w = (GetOwners R refs w, w)"
    "alone (GetOrganizations_process R refs) w = (GetOrganizations R refs w, w)"
    "alone (GetUsers_process R refs) w = (GetUsers R refs w, w)"
    by (simp_all add: GetOwners_process_def GetOwners_def GetOrganizations_process_def GetOrganizations_def
        GetUsers_process_def GetUsers_def for_each_reads)
qed

section \<open>Modules\<close>

definition showModule_process :: "enforcer \<Rightarrow> 'w Repos \<Rightarrow> User option \<Rightarrow> (db_error, Module) fetch \<Rightarrow> ('w, connect_error + proto_module) process" where
  "showModule_process enf R caller x =
     (case x of
        RetErr _ e \<Rightarrow> if e = ErrNotFound then fail CodeNotFound ''module not found'' else fail CodeInternal ''internal error''
      | Ret m \<Rightarrow>
          andThen (CanReadModule_process (authorizer enf R) (userID caller) m) (\<lambda>allowed.
            if \<not> allowed then fail CodeNotFound ''module not found''
            else ask (resolveOwnerIDHelper R m) (\<lambda>ownerID. Done (Inr (moduleToProto m ownerID)))))"

definition getModuleRef_process ::
  "enforcer \<Rightarrow> 'w Repos \<Rightarrow> User option \<Rightarrow> module_ref \<Rightarrow> ('w, connect_error + proto_module) process" where
  "getModuleRef_process enf R caller ref =
     (case ref of
        ModuleByName own n \<Rightarrow> ask (Modules_Get (Modules R) own n) (showModule_process enf R caller)
      | ModuleById i \<Rightarrow>
          if i \<noteq> [] then ask (Modules_GetByID (Modules R) i) (showModule_process enf R caller)
          else fail CodeInvalidArgument ''module ref must have name or id''
      | NoModuleRef \<Rightarrow> fail CodeInvalidArgument ''module ref must have name or id'')"

definition GetModules_process ::
  "enforcer \<Rightarrow> 'w Repos \<Rightarrow> User option \<Rightarrow> module_ref list \<Rightarrow> ('w, connect_error + proto_module list) process" where
  "GetModules_process enf R caller refs = each_ref (getModuleRef_process enf R caller) refs"

definition listOwner_process ::
  "enforcer \<Rightarrow> 'w Repos \<Rightarrow> User option \<Rightarrow> name_ref \<Rightarrow> ('w, connect_error + proto_module list) process" where
  "listOwner_process enf R caller ownerRef =
     (let ownerName = resolveOwnerRefName (Some ownerRef) in
      if ownerName = [] then fail CodeInvalidArgument ''owner ref must have name''
      else
        ask (Modules_List (Modules R) ownerName) (\<lambda>x.
          case x of
            Inl _ \<Rightarrow> fail CodeInternal ''internal error''
          | Inr mods \<Rightarrow>
              map_answer Inr
                (readable_modules enf R (userID caller)
                  (\<lambda>m. ask (resolveOwnerIDHelper R m) (\<lambda>ownerID. Done (moduleToProto m ownerID))) mods [])))"

definition ListModules_process ::
  "enforcer \<Rightarrow> 'w Repos \<Rightarrow> User option \<Rightarrow> name_ref list \<Rightarrow> ('w, connect_error + proto_module list) process" where
  "ListModules_process enf R caller ownerRefs =
     map_answer (map_sum id concat) (each_ref (listOwner_process enf R caller) ownerRefs)"

lemma modules_alone:
  assumes "authorizer_built enf R"
  shows "alone (GetModules_process enf R caller refs) w = (GetModules R caller refs w, w)"
    and "alone (ListModules_process enf R caller orefs) w = (ListModules R caller orefs w, w)"
proof -
  have "alone (getModuleRef_process enf R caller ref) = (\<lambda>w. (getModuleRef R caller w ref, w))" for ref
    by (rule ext)
       (simp add: getModuleRef_process_def getModuleRef_def showModule_process_def built_checks [OF assms]
         split: module_ref.splits fetch.splits)
  then show "alone (GetModules_process enf R caller refs) w = (GetModules R caller refs w, w)"
    by (simp add: GetModules_process_def GetModules_def for_each_reads)
  have "alone (listOwner_process enf R caller ref) = (\<lambda>w. (listOwner R caller w ref, w))" for ref
    by (rule ext)
       (simp add: listOwner_process_def listOwner_def readable_modules_alone [OF assms] Let_def split: sum.splits)
  then show "alone (ListModules_process enf R caller orefs) w = (ListModules R caller orefs w, w)"
    by (simp add: ListModules_process_def ListModules_def for_each_reads)
qed

section \<open>Commits, labels and content\<close>

definition pointed_commit :: "'w Repos \<Rightarrow> Module \<Rightarrow> Label \<Rightarrow> ('w, string + Module \<times> Commit option) process" where
  "pointed_commit R m label =
     ask (Commits_GetByID (Commits R) (mID m) (lCommitID label)) (\<lambda>x.
       case x of RetErr _ e \<Rightarrow> Done (Inl (Error e)) | Ret commit \<Rightarrow> Done (Inr (m, Some commit)))"

definition resolveResourceRef_process ::
  "'w Repos \<Rightarrow> resource_ref option \<Rightarrow> ('w, string + Module \<times> Commit option) process" where
  "resolveResourceRef_process R ref =
     (case ref of
        None \<Rightarrow> Done (Inl ''resource ref required'')
      | Some rf \<Rightarrow>
          if resource_GetId rf \<noteq> [] then Done (Inl ''ID-based resource ref not yet supported'')
          else
            (case resource_GetName rf of
               None \<Rightarrow> Done (Inl ''resource ref must have name or id'')
             | Some name \<Rightarrow>
                 ask (Modules_Get (Modules R) (GetOwner name) (GetModule name)) (\<lambda>x.
                   case x of
                     RetErr _ e \<Rightarrow>
                       Done (Inl (if e = ErrNotFound
                         then ''module not found: '' @ GetOwner name @ ''/'' @ GetModule name else Error e))
                   | Ret m \<Rightarrow>
                       if GetLabelName name \<noteq> [] then
                         ask (Labels_Get (Labels R) (mID m) (GetLabelName name)) (\<lambda>y.
                           case y of
                             RetErr _ e \<Rightarrow>
                               Done (Inl (if e = ErrNotFound then ''label not found: '' @ GetLabelName name else Error e))
                           | Ret label \<Rightarrow> pointed_commit R m label)
                       else if GetRef name \<noteq> [] then
                         ask (Commits_GetByID (Commits R) (mID m) (GetRef name)) (\<lambda>y.
                           case y of
                             Ret commit \<Rightarrow> Done (Inr (m, Some commit))
                           | RetErr _ _ \<Rightarrow>
                               ask (Labels_Get (Labels R) (mID m) (GetRef name)) (\<lambda>z.
                                 case z of
                                   Ret label \<Rightarrow> pointed_commit R m label
                                 | RetErr _ _ \<Rightarrow> Done (Inl (''ref not found: '' @ GetRef name))))
                       else
                         ask (Labels_Get (Labels R) (mID m) ''main'') (\<lambda>y.
                           case y of
                             RetErr _ e \<Rightarrow> if e = ErrNotFound then Done (Inr (m, None)) else Done (Inl (Error e))
                           | Ret label \<Rightarrow> pointed_commit R m label))))"

lemma resolve_alone [simp]: "alone (resolveResourceRef_process R ref) w = (resolveResourceRef R ref w, w)"
  by (simp add: resolveResourceRef_process_def resolveResourceRef_def pointed_commit_def
      split: option.splits fetch.splits)

text \<open>What the handlers start with: the reference is resolved, then the check.\<close>

definition resolved_process ::
  "enforcer \<Rightarrow> 'w Repos \<Rightarrow> User option \<Rightarrow> resource_ref option \<Rightarrow>
     (Module \<Rightarrow> Commit option \<Rightarrow> ('w, connect_error + 'y) process) \<Rightarrow> ('w, connect_error + 'y) process" where
  "resolved_process enf R caller ref k =
     andThen (resolveResourceRef_process R ref) (\<lambda>x.
       case x of
         Inl err \<Rightarrow> fail CodeNotFound err
       | Inr (m, co) \<Rightarrow>
           andThen (CanReadModule_process (authorizer enf R) (userID caller) m) (\<lambda>allowed.
             if \<not> allowed then fail CodeNotFound ''module not found'' else k m co))"

definition getCommit_process :: "enforcer \<Rightarrow> 'w Repos \<Rightarrow> User option \<Rightarrow> resource_ref \<Rightarrow> ('w, connect_error + proto_commit) process" where
  "getCommit_process enf R caller ref =
     resolved_process enf R caller (Some ref) (\<lambda>m commit.
       case commit of
         None \<Rightarrow> fail CodeNotFound ''no commits found''
       | Some c \<Rightarrow> ask (resolveOwnerIDHelper R m) (\<lambda>ownerID. Done (Inr (commitToProto c ownerID))))"

definition GetCommits_process ::
  "enforcer \<Rightarrow> 'w Repos \<Rightarrow> User option \<Rightarrow> resource_ref list \<Rightarrow> ('w, connect_error + proto_commit list) process" where
  "GetCommits_process enf R caller refs = each_ref (getCommit_process enf R caller) refs"

definition ListCommits_process ::
  "enforcer \<Rightarrow> 'w Repos \<Rightarrow> User option \<Rightarrow> resource_ref option \<Rightarrow> ('w, connect_error + proto_commit list) process" where
  "ListCommits_process enf R caller ref =
     resolved_process enf R caller ref (\<lambda>m _.
       ask (Commits_ListByModule (Commits R) (mID m)) (\<lambda>x.
         case x of
           Inl _ \<Rightarrow> fail CodeInternal ''internal error''
         | Inr dbCommits \<Rightarrow>
             ask (resolveOwnerIDHelper R m) (\<lambda>ownerID. Done (Inr (map (\<lambda>c. commitToProto c ownerID) dbCommits)))))"

definition getLabel_process :: "enforcer \<Rightarrow> 'w Repos \<Rightarrow> User option \<Rightarrow> label_ref \<Rightarrow> ('w, connect_error + proto_label) process" where
  "getLabel_process enf R caller ref =
     (case ref of
        LabelByName own md n \<Rightarrow>
          ask (Modules_Get (Modules R) own md) (\<lambda>x.
            case x of
              RetErr _ _ \<Rightarrow> fail CodeNotFound ''module not found''
            | Ret m \<Rightarrow>
                andThen (CanReadModule_process (authorizer enf R) (userID caller) m) (\<lambda>allowed.
                  if \<not> allowed then fail CodeNotFound ''module not found''
                  else
                    ask (Labels_Get (Labels R) (mID m) n) (\<lambda>y.
                      case y of
                        RetErr _ e \<Rightarrow>
                          if e = ErrNotFound then fail CodeNotFound (''label not found: '' @ n)
                          else fail CodeInternal ''internal error''
                      | Ret l \<Rightarrow> ask (resolveOwnerIDHelper R m) (\<lambda>ownerID. Done (Inr (labelToProto l ownerID))))))
      | _ \<Rightarrow> fail CodeInvalidArgument ''label ref must have name'')"

definition GetLabels_process ::
  "enforcer \<Rightarrow> 'w Repos \<Rightarrow> User option \<Rightarrow> label_ref list \<Rightarrow> ('w, connect_error + proto_label list) process" where
  "GetLabels_process enf R caller refs = each_ref (getLabel_process enf R caller) refs"

definition ListLabels_process ::
  "enforcer \<Rightarrow> 'w Repos \<Rightarrow> User option \<Rightarrow> resource_ref option \<Rightarrow> ('w, connect_error + proto_label list) process" where
  "ListLabels_process enf R caller ref =
     resolved_process enf R caller ref (\<lambda>m _.
       ask (Labels_List (Labels R) (mID m)) (\<lambda>x.
         case x of
           Inl _ \<Rightarrow> fail CodeInternal ''internal error''
         | Inr dbLabels \<Rightarrow>
             ask (resolveOwnerIDHelper R m) (\<lambda>ownerID. Done (Inr (map (\<lambda>l. labelToProto l ownerID) dbLabels)))))"

lemma commits_labels_alone:
  assumes "authorizer_built enf R"
  shows "alone (GetCommits_process enf R caller refs) w = (GetCommits R caller refs w, w)"
    and "alone (ListCommits_process enf R caller ref) w = (ListCommits R caller ref w, w)"
    and "alone (GetLabels_process enf R caller lrefs) w = (GetLabels R caller lrefs w, w)"
    and "alone (ListLabels_process enf R caller ref) w = (ListLabels R caller ref w, w)"
proof -
  note built = resolved_process_def built_checks [OF assms]
  have "alone (getCommit_process enf R caller rf) = (\<lambda>w. (getCommit R caller w rf, w))" for rf
    by (rule ext) (simp add: getCommit_process_def getCommit_def built split: sum.splits prod.splits option.splits)
  then show "alone (GetCommits_process enf R caller refs) w = (GetCommits R caller refs w, w)"
    by (simp add: GetCommits_process_def GetCommits_def for_each_reads)
  have "alone (getLabel_process enf R caller rf) = (\<lambda>w. (getLabel R caller w rf, w))" for rf
    by (rule ext) (simp add: getLabel_process_def getLabel_def built split: label_ref.splits fetch.splits)
  then show "alone (GetLabels_process enf R caller lrefs) w = (GetLabels R caller lrefs w, w)"
    by (simp add: GetLabels_process_def GetLabels_def for_each_reads)
  show "alone (ListCommits_process enf R caller ref) w = (ListCommits R caller ref w, w)"
    "alone (ListLabels_process enf R caller ref) w = (ListLabels R caller ref w, w)"
    by (simp_all add: ListCommits_process_def ListCommits_def ListLabels_process_def ListLabels_def built Let_def
        split: sum.splits prod.splits)
qed

text \<open>The handlers of content read the store, then the owner.\<close>

definition fetched_process ::
  "'w Store \<Rightarrow> zip_lib \<Rightarrow> Commit \<Rightarrow> (proto_file list \<Rightarrow> ('w, connect_error + 'y) process) \<Rightarrow> ('w, connect_error + 'y) process" where
  "fetched_process S Z commit k =
     ask (Store_Get S (cStorageKey commit)) (\<lambda>x.
       case x of
         Inl _ \<Rightarrow> fail CodeInternal ''failed to retrieve content''
       | Inr d \<Rightarrow>
           (case unzipFiles Z d of
              Inl _ \<Rightarrow> fail CodeInternal ''failed to read content''
            | Inr files \<Rightarrow> k files))"

definition owned_commit :: "Module \<Rightarrow> Commit \<Rightarrow> string \<Rightarrow> proto_commit" where
  "owned_commit m commit ownerID =
     \<lparr>pc_id = cID commit, pc_create_time = cCreatedAt commit, pc_owner_id = ownerID, pc_module_id = mID m,
      pc_created_by = cCreatedByUserID commit, pc_digest = None\<rparr>"

definition downloadValue_process ::
  "enforcer \<Rightarrow> 'w Repos \<Rightarrow> 'w Store \<Rightarrow> zip_lib \<Rightarrow> User option \<Rightarrow> resource_ref option \<Rightarrow>
     ('w, connect_error + proto_commit \<times> proto_file list) process" where
  "downloadValue_process enf R S Z caller ref =
     andThen (resolveResourceRef_process R ref) (\<lambda>x.
       case x of
         Inl err \<Rightarrow> fail CodeNotFound err
       | Inr (m, None) \<Rightarrow> fail CodeNotFound ''no commits found for module''
       | Inr (m, Some commit) \<Rightarrow>
           andThen (CanReadModule_process (authorizer enf R) (userID caller) m) (\<lambda>allowed.
             if \<not> allowed then fail CodeNotFound ''module not found''
             else
               fetched_process S Z commit (\<lambda>files.
                 ask (resolveOwnerIDHelper R m) (\<lambda>ownerID. Done (Inr (owned_commit m commit ownerID, files))))))"

definition Download_process ::
  "enforcer \<Rightarrow> 'w Repos \<Rightarrow> 'w Store \<Rightarrow> zip_lib \<Rightarrow> User option \<Rightarrow> resource_ref option list \<Rightarrow>
     ('w, connect_error + (proto_commit \<times> proto_file list) list) process" where
  "Download_process enf R S Z caller vals = each_ref (downloadValue_process enf R S Z caller) vals"

definition GetFileDescriptorSet_process ::
  "enforcer \<Rightarrow> 'w Repos \<Rightarrow> 'w Store \<Rightarrow> zip_lib \<Rightarrow> 'fd compiler \<Rightarrow> User option \<Rightarrow> resource_ref option \<Rightarrow>
     ('w, connect_error + 'fd list \<times> proto_commit) process" where
  "GetFileDescriptorSet_process enf R S Z compile caller ref =
     resolved_process enf R caller ref (\<lambda>m co.
       case co of
         None \<Rightarrow> fail CodeNotFound ''no commits found''
       | Some commit \<Rightarrow>
           fetched_process S Z commit (\<lambda>files.
             let protoFiles = proto_paths files in
             if length protoFiles = 0 then fail CodeNotFound ''no .proto files found''
             else if length protoFiles > 500 then fail CodeInvalidArgument ''too many proto files''
             else
               (case compile (proto_sources files) protoFiles of
                  Inl _ \<Rightarrow> fail CodeInternal ''proto compilation failed''
                | Inr fds \<Rightarrow>
                    ask (resolveOwnerIDHelper R m) (\<lambda>ownerID. Done (Inr (fds, owned_commit m commit ownerID))))))"

lemma content_alone:
  assumes "authorizer_built enf R"
  shows "alone (Download_process enf R S Z caller vals) w = (Download R S Z caller vals w, w)"
    and "alone (GetFileDescriptorSet_process enf R S Z compile caller ref) w =
      (GetFileDescriptorSet R S Z compile caller ref w, w)"
proof -
  note built = resolved_process_def fetched_process_def owned_commit_def built_checks [OF assms]
  have "alone (downloadValue_process enf R S Z caller rf) = (\<lambda>w. (downloadValue R S Z caller w rf, w))" for rf
    by (rule ext)
       (simp add: downloadValue_process_def downloadValue_def built split: sum.splits prod.splits option.splits)
  then show "alone (Download_process enf R S Z caller vals) w = (Download R S Z caller vals w, w)"
    by (simp add: Download_process_def Download_def for_each_reads)
  show "alone (GetFileDescriptorSet_process enf R S Z compile caller ref) w =
      (GetFileDescriptorSet R S Z compile caller ref w, w)"
    by (simp add: GetFileDescriptorSet_process_def GetFileDescriptorSet_def built Let_def
        split: sum.splits prod.splits option.splits)
qed

section \<open>REST\<close>

definition listTokens_process :: "'w Repos \<Rightarrow> gotime \<Rightarrow> User option \<Rightarrow> ('w, http_response) process" where
  "listTokens_process R now caller =
     (case caller of
        None \<Rightarrow> Done (writeErr StatusUnauthorized ''unauthenticated'')
      | Some u \<Rightarrow>
          ask (Tokens_ListByUser (Tokens R) (uID u)) (\<lambda>x.
            case x of
              Inl _ \<Rightarrow> Done (writeErr StatusInternalServerError ''internal error'')
            | Inr ts \<Rightarrow>
                Done (writeJSON StatusOK (JList
                  (map (\<lambda>t. [(''id'', tID t), (''note'', tNote t)])
                    (filter (\<lambda>t. \<not> (case tExpiresAt t of None \<Rightarrow> False | Some e \<Rightarrow> e < now) \<and> tNote t \<noteq> ''login'') ts))))))"

definition getUser_process :: "'w Repos \<Rightarrow> string \<Rightarrow> ('w, http_response) process" where
  "getUser_process R username =
     ask (Users_GetByUsername (Users R) username) (\<lambda>x.
       case x of
         RetErr _ e \<Rightarrow>
           Done (if e = ErrNotFound then writeErr StatusNotFound ''user not found''
             else writeErr StatusInternalServerError ''internal error'')
       | Ret u \<Rightarrow> Done (writeJSON StatusOK (JObj [(''id'', uID u), (''username'', uUsername u)])))"

definition getOrg_process :: "'w Repos \<Rightarrow> string \<Rightarrow> ('w, http_response) process" where
  "getOrg_process R name =
     ask (Orgs_GetByName (Orgs R) name) (\<lambda>x.
       case x of
         RetErr _ e \<Rightarrow>
           Done (if e = ErrNotFound then writeErr StatusNotFound ''organization not found''
             else writeErr StatusInternalServerError ''internal error'')
       | Ret g \<Rightarrow> Done (writeJSON StatusOK (JObj [(''id'', oID g), (''name'', oName g)])))"

definition checkModuleAccess_process ::
  "enforcer \<Rightarrow> 'w Repos \<Rightarrow> User option \<Rightarrow> string \<Rightarrow> string \<Rightarrow> ('w, http_response + Module) process" where
  "checkModuleAccess_process enf R caller own repo =
     ask (Modules_Get (Modules R) own repo) (\<lambda>x.
       case x of
         RetErr _ e \<Rightarrow>
           Done (Inl (if e = ErrNotFound then writeErr StatusNotFound ''module not found''
             else writeErr StatusInternalServerError ''internal error''))
       | Ret m \<Rightarrow>
           andThen (CanReadModule_process (authorizer enf R) (userID caller) m) (\<lambda>allowed.
             if \<not> allowed then Done (Inl (writeErr StatusNotFound ''module not found'')) else Done (Inr m)))"

text \<open>\<^verbatim>\<open>getModule\<close> and \<^verbatim>\<open>resolveCommitZip\<close> spell out the same lookup and check.\<close>

definition getModule_process ::
  "enforcer \<Rightarrow> 'w Repos \<Rightarrow> User option \<Rightarrow> string \<Rightarrow> string \<Rightarrow> ('w, http_response) process" where
  "getModule_process enf R caller own repo =
     map_answer (\<lambda>x. case x of Inl resp \<Rightarrow> resp | Inr m \<Rightarrow> writeJSON StatusOK (JObj (moduleToJSON m)))
       (checkModuleAccess_process enf R caller own repo)"

definition listModules_process ::
  "enforcer \<Rightarrow> 'w Repos \<Rightarrow> User option \<Rightarrow> string \<Rightarrow> string \<Rightarrow> ('w, http_response) process" where
  "listModules_process enf R caller own query =
     ask (if own \<noteq> [] then Modules_List (Modules R) own else Modules_ListPublic (Modules R) query 50) (\<lambda>x.
       case x of
         Inl _ \<Rightarrow> Done (writeErr StatusInternalServerError ''internal error'')
       | Inr mods \<Rightarrow>
           map_answer (\<lambda>shown. writeJSON StatusOK (JList shown))
             (readable_modules enf R (userID caller) (\<lambda>m. Done (moduleToJSON m)) mods []))"

definition accessed_process ::
  "enforcer \<Rightarrow> 'w Repos \<Rightarrow> User option \<Rightarrow> string \<Rightarrow> string \<Rightarrow> (Module \<Rightarrow> ('w, http_response) process) \<Rightarrow>
     ('w, http_response) process" where
  "accessed_process enf R caller own repo k =
     andThen (checkModuleAccess_process enf R caller own repo) (\<lambda>x. case x of Inl resp \<Rightarrow> Done resp | Inr m \<Rightarrow> k m)"

definition listCommits_process ::
  "enforcer \<Rightarrow> 'w Repos \<Rightarrow> User option \<Rightarrow> string \<Rightarrow> string \<Rightarrow> ('w, http_response) process" where
  "listCommits_process enf R caller own repo =
     accessed_process enf R caller own repo (\<lambda>m.
       ask (Commits_ListByModule (Commits R) (mID m)) (\<lambda>x.
         case x of
           Inl _ \<Rightarrow> Done (writeErr StatusInternalServerError ''internal error'')
         | Inr commits \<Rightarrow> Done (writeJSON StatusOK (JList (map commit_json commits)))))"

definition rest_getCommit_process ::
  "enforcer \<Rightarrow> 'w Repos \<Rightarrow> User option \<Rightarrow> string \<Rightarrow> string \<Rightarrow> string \<Rightarrow> ('w, http_response) process" where
  "rest_getCommit_process enf R caller own repo commitID =
     accessed_process enf R caller own repo (\<lambda>m.
       ask (Commits_GetByID (Commits R) (mID m) commitID) (\<lambda>x.
         case x of
           RetErr _ e \<Rightarrow>
             Done (if e = ErrNotFound then writeErr StatusNotFound ''commit not found''
               else writeErr StatusInternalServerError ''internal error'')
         | Ret c \<Rightarrow> Done (writeJSON StatusOK (JObj (commit_json c)))))"

definition listLabels_process ::
  "enforcer \<Rightarrow> 'w Repos \<Rightarrow> User option \<Rightarrow> string \<Rightarrow> string \<Rightarrow> ('w, http_response) process" where
  "listLabels_process enf R caller own repo =
     accessed_process enf R caller own repo (\<lambda>m.
       ask (Labels_List (Labels R) (mID m)) (\<lambda>x.
         case x of
           Inl _ \<Rightarrow> Done (writeErr StatusInternalServerError ''internal error'')
         | Inr labels \<Rightarrow>
             Done (writeJSON StatusOK (JList (map (\<lambda>l. [(''name'', lName l), (''commit_id'', lCommitID l)]) labels)))))"

definition resolveCommitZip_process ::
  "enforcer \<Rightarrow> 'w Repos \<Rightarrow> 'w Store \<Rightarrow> User option \<Rightarrow> string \<Rightarrow> string \<Rightarrow> string \<Rightarrow> (bytes \<Rightarrow> http_response) \<Rightarrow>
     ('w, http_response) process" where
  "resolveCommitZip_process enf R S caller own repo commitID k =
     accessed_process enf R caller own repo (\<lambda>m.
       ask (Commits_GetByID (Commits R) (mID m) commitID) (\<lambda>x.
         case x of
           RetErr _ e \<Rightarrow>
             Done (if e = ErrNotFound then writeErr StatusNotFound ''commit not found''
               else writeErr StatusInternalServerError ''internal error'')
         | Ret c \<Rightarrow>
             ask (Store_Get S (cStorageKey c)) (\<lambda>y.
               case y of
                 Inl _ \<Rightarrow> Done (writeErr StatusInternalServerError ''failed to read content'')
               | Inr d \<Rightarrow> Done (k d))))"

definition listFiles_process ::
  "enforcer \<Rightarrow> 'w Repos \<Rightarrow> 'w Store \<Rightarrow> zip_lib \<Rightarrow> User option \<Rightarrow> string \<Rightarrow> string \<Rightarrow> string \<Rightarrow> ('w, http_response) process" where
  "listFiles_process enf R S Z caller own repo commitID =
     resolveCommitZip_process enf R S caller own repo commitID (\<lambda>d.
       case zip_NewReader Z d of
         Inl _ \<Rightarrow> writeErr StatusInternalServerError ''failed to read archive''
       | Inr zr \<Rightarrow>
           writeJSON StatusOK (JList
             (map (\<lambda>f. [(''path'', zf_Name f), (''size'', decimal (unat (zf_UncompressedSize64 f)))]) zr)))"

definition getFileContent_process ::
  "enforcer \<Rightarrow> 'w Repos \<Rightarrow> 'w Store \<Rightarrow> zip_lib \<Rightarrow> User option \<Rightarrow> string \<Rightarrow> string \<Rightarrow> string \<Rightarrow> string \<Rightarrow>
     ('w, http_response) process" where
  "getFileContent_process enf R S Z caller own repo commitID path =
     (if path = [] then Done (writeErr StatusBadRequest ''path query parameter required'')
      else
        resolveCommitZip_process enf R S caller own repo commitID (\<lambda>d.
          case zip_NewReader Z d of
            Inl _ \<Rightarrow> writeErr StatusInternalServerError ''failed to read archive''
          | Inr zr \<Rightarrow> find_file path zr))"

lemma rest_reads_alone:
  "alone (listTokens_process R now caller) w = (listTokens R now caller w, w)"
  "alone (getUser_process R un) w = (getUser R un w, w)"
  "alone (getOrg_process R n) w = (getOrg R n w, w)"
  by (simp_all add: listTokens_process_def listTokens_def getUser_process_def getUser_def getOrg_process_def getOrg_def
      split: option.splits fetch.splits sum.splits)

lemma rest_checked_reads_alone:
  assumes "authorizer_built enf R"
  shows "alone (getModule_process enf R caller own repo) w = (getModule R caller own repo w, w)"
    and "alone (listModules_process enf R caller own query) w = (listModules R caller own query w, w)"
    and "alone (listCommits_process enf R caller own repo) w = (listCommits R caller own repo w, w)"
    and "alone (rest_getCommit_process enf R caller own repo i) w = (rest_getCommit R caller own repo i w, w)"
    and "alone (listLabels_process enf R caller own repo) w = (listLabels R caller own repo w, w)"
    and "alone (listFiles_process enf R S Z caller own repo i) w = (listFiles R S Z caller own repo i w, w)"
    and "alone (getFileContent_process enf R S Z caller own repo i path) w = (getFileContent R S Z caller own repo i path w, w)"
proof -
  have access: "alone (checkModuleAccess_process enf R caller own repo) w = (checkModuleAccess R caller own repo w, w)" for w
    by (simp add: checkModuleAccess_process_def checkModuleAccess_def built_checks [OF assms] split: fetch.splits)
  have zip: "alone (resolveCommitZip_process enf R S caller own repo i k) w =
      (case resolveCommitZip R S caller own repo i w of Inl resp \<Rightarrow> resp | Inr d \<Rightarrow> k d, w)" for k
    by (simp add: resolveCommitZip_process_def accessed_process_def access checkModuleAccess_def resolveCommitZip_def
        split: fetch.splits sum.splits)
  show "alone (getModule_process enf R caller own repo) w = (getModule R caller own repo w, w)"
    by (simp add: getModule_process_def getModule_def access checkModuleAccess_def split: fetch.splits)
  show "alone (listModules_process enf R caller own query) w = (listModules R caller own query w, w)"
    by (simp add: listModules_process_def listModules_def readable_modules_alone [OF assms] split: sum.splits)
  show "alone (listCommits_process enf R caller own repo) w = (listCommits R caller own repo w, w)"
    "alone (rest_getCommit_process enf R caller own repo i) w = (rest_getCommit R caller own repo i w, w)"
    "alone (listLabels_process enf R caller own repo) w = (listLabels R caller own repo w, w)"
    by (simp_all add: listCommits_process_def listCommits_def rest_getCommit_process_def rest_getCommit_def
        listLabels_process_def listLabels_def accessed_process_def access split: fetch.splits sum.splits)
  show "alone (listFiles_process enf R S Z caller own repo i) w = (listFiles R S Z caller own repo i w, w)"
    "alone (getFileContent_process enf R S Z caller own repo i path) w = (getFileContent R S Z caller own repo i path w, w)"
    by (simp_all add: listFiles_process_def listFiles_def getFileContent_process_def getFileContent_def zip split: sum.splits)
qed

section \<open>Readers only ask\<close>

lemma asks_only_parts:
  "asks_only (resolveResourceRef_process R ref)" "asks_only (checkModuleAccess_process enf R caller own repo)"
  "(\<And>m. asks_only (show m)) \<Longrightarrow> asks_only (readable_modules enf R uid show ms ys)"
  "(\<And>m co. asks_only (k m co)) \<Longrightarrow> asks_only (resolved_process enf R caller ref k)"
  "(\<And>files. asks_only (h files)) \<Longrightarrow> asks_only (fetched_process S Z commit h)"
  "(\<And>m. asks_only (g m)) \<Longrightarrow> asks_only (accessed_process enf R caller own repo g)"
  "asks_only (looked_up missing f x)" "asks_only (showModule_process enf R caller y)"
proof -
  show res: "asks_only (resolveResourceRef_process R ref)"
    by (auto simp: resolveResourceRef_process_def pointed_commit_def intro!: asks_only_ask split: option.splits fetch.splits)
  show acc: "asks_only (checkModuleAccess_process enf R caller own repo)"
    by (auto simp: checkModuleAccess_process_def intro!: asks_only_ask asks_only_andThen checks_ask_only split: fetch.splits)
  show "asks_only (readable_modules enf R uid show ms ys)" if "\<And>m. asks_only (show m)"
    by (induction ms arbitrary: ys) (auto intro!: asks_only_andThen checks_ask_only that)
  show "asks_only (resolved_process enf R caller ref k)" if "\<And>m co. asks_only (k m co)"
    by (auto simp: resolved_process_def intro!: asks_only_andThen res checks_ask_only that split: sum.splits)
  show "asks_only (fetched_process S Z commit h)" if "\<And>files. asks_only (h files)"
    by (auto simp: fetched_process_def intro!: asks_only_ask that split: sum.splits)
  show "asks_only (accessed_process enf R caller own repo g)" if "\<And>m. asks_only (g m)"
    by (auto simp: accessed_process_def intro!: asks_only_andThen acc that split: sum.splits)
  show "asks_only (looked_up missing f x)" by (simp add: looked_up_def split: fetch.splits)
  show "asks_only (showModule_process enf R caller y)"
    by (auto simp: showModule_process_def intro!: asks_only_ask asks_only_andThen checks_ask_only split: fetch.splits)
qed

lemmas asks_only_intros = asks_only_ask asks_only_andThen asks_only_loop checks_ask_only asks_only_parts

lemma connect_reads_ask_only:
  "asks_only (GetOwners_process R refs)" "asks_only (GetOrganizations_process R refs)" "asks_only (GetUsers_process R refs)"
  "asks_only (GetModules_process enf R caller mrefs)" "asks_only (ListModules_process enf R caller refs)"
  "asks_only (GetCommits_process enf R caller rrefs)" "asks_only (ListCommits_process enf R caller ref)"
  "asks_only (GetLabels_process enf R caller lrefs)" "asks_only (ListLabels_process enf R caller ref)"
  "asks_only (Download_process enf R S Z caller vals)"
  "asks_only (GetFileDescriptorSet_process enf R S Z compile caller ref)"
  by (auto simp: GetOwners_process_def getOwner_process_def GetOrganizations_process_def getOrganization_process_def
      GetUsers_process_def getUserRef_process_def GetModules_process_def getModuleRef_process_def ListModules_process_def
      listOwner_process_def GetCommits_process_def getCommit_process_def ListCommits_process_def GetLabels_process_def
      getLabel_process_def ListLabels_process_def Download_process_def downloadValue_process_def
      GetFileDescriptorSet_process_def Let_def
      intro!: asks_only_intros split: fetch.splits sum.splits option.splits module_ref.splits label_ref.splits)

lemma rest_reads_ask_only:
  "asks_only (listTokens_process R now caller)" "asks_only (getUser_process R un)" "asks_only (getOrg_process R n)"
  "asks_only (getModule_process enf R caller own repo)" "asks_only (listModules_process enf R caller own query)"
  "asks_only (listCommits_process enf R caller own repo)" "asks_only (rest_getCommit_process enf R caller own repo i)"
  "asks_only (listLabels_process enf R caller own repo)" "asks_only (listFiles_process enf R S Z caller own repo i)"
  "asks_only (getFileContent_process enf R S Z caller own repo i path)"
  by (auto simp: listTokens_process_def getUser_process_def getOrg_process_def getModule_process_def listModules_process_def
      listCommits_process_def rest_getCommit_process_def listLabels_process_def listFiles_process_def
      getFileContent_process_def resolveCommitZip_process_def
      intro!: asks_only_intros split: fetch.splits sum.splits option.splits)

end
