(* ===== verification/Concurrent.thy ===== *)
theory Concurrent
  imports Reads
begin

text \<open>
  The server with requests in flight at the same time: every handler that writes, and the two authentication
  layers, as processes that make one call of the repositories, the store or the limiter at a time, and the server as a
  pool of these and of the readers (theory Reads). Each process, run alone, is the handler of the same name in the sequential
  theories (\<open>request_alone\<close>), so what is said about the handlers there is said about these.
\<close>

section \<open>Authentication\<close>

definition Middleware_process :: "'w Repos \<Rightarrow> gotime \<Rightarrow> string \<Rightarrow> User option \<Rightarrow> ('w, User option) process" where
  "Middleware_process R now header caller =
     (let bearer = ExtractBearer header in
      if bearer = '''' \<or> bearer = header then Done caller
      else
        ask (Tokens_GetByHash (Tokens R) (HashToken bearer)) (\<lambda>x.
          case x of
            RetErr _ _ \<Rightarrow> Done caller
          | Ret t \<Rightarrow>
              if (case tExpiresAt t of None \<Rightarrow> False | Some e \<Rightarrow> now > e) then Done caller
              else
                ask (Users_GetByID (Users R) (tUserID t)) (\<lambda>y.
                  case y of RetErr _ _ \<Rightarrow> Done caller | Ret u \<Rightarrow> Done (Some u))))"

definition Interceptor_process ::
  "'w Repos \<Rightarrow> gotime \<Rightarrow> string \<Rightarrow> User option \<Rightarrow> ('w, connect_error + User option) process" where
  "Interceptor_process R now header caller =
     (let raw = TrimPrefix header ''Bearer '' in
      if raw = '''' \<or> raw = header then Done (Inr caller)
      else
        ask (Tokens_GetByHash (Tokens R) (HashToken raw)) (\<lambda>x.
          case x of
            RetErr _ e \<Rightarrow>
              if e = ErrNotFound then Done (Inl (ConnectError CodeUnauthenticated ''invalid token''))
              else Done (Inl (ConnectError CodeInternal ''internal error''))
          | Ret t \<Rightarrow>
              if (case tExpiresAt t of None \<Rightarrow> False | Some e \<Rightarrow> now > e)
              then Done (Inl (ConnectError CodeUnauthenticated ''token expired''))
              else
                ask (Users_GetByID (Users R) (tUserID t)) (\<lambda>y.
                  case y of
                    RetErr _ _ \<Rightarrow> Done (Inl (ConnectError CodeInternal ''internal error''))
                  | Ret u \<Rightarrow> Done (Inr (Some u)))))"

lemma Middleware_alone:
  "Middleware R now header h caller w = h (fst (alone (Middleware_process R now header caller) w)) w"
  "snd (alone (Middleware_process R now header caller) w) = w"
  by (simp_all add: Middleware_def Middleware_process_def Let_def split: fetch.splits)

lemma Interceptor_alone:
  "NewConnectInterceptor R now header h caller w =
     (case fst (alone (Interceptor_process R now header caller) w) of Inl e \<Rightarrow> (Inl e, w) | Inr c \<Rightarrow> h c w)"
  "snd (alone (Interceptor_process R now header caller) w) = w"
  by (simp_all add: NewConnectInterceptor_def Interceptor_process_def Let_def split: fetch.splits)

section \<open>Upload\<close>

definition upsertLabel_process ::
  "'w Repos \<Rightarrow> env \<Rightarrow> nat \<Rightarrow> string \<Rightarrow> string \<Rightarrow> gotime \<Rightarrow> nat \<Rightarrow> string \<Rightarrow> ('w, connect_error + unit) process" where
  "upsertLabel_process R E i moduleID commitID now j labelName =
     (let l = \<lparr>lID = NewString E i j, lModuleID = moduleID, lName = labelName, lCommitID = commitID,
               lCreatedAt = now, lUpdatedAt = now\<rparr> in
      tell (Labels_Upsert (Labels R) l) (\<lambda>failed.
        if failed then fail CodeInternal ''failed to upsert label'' else Done (Inr ())))"

text \<open>From the commit on: labels, answer.\<close>

definition labels_process ::
  "'w Repos \<Rightarrow> env \<Rightarrow> User \<Rightarrow> nat \<Rightarrow> Module \<Rightarrow> bytes \<Rightarrow> string list \<Rightarrow> gotime \<Rightarrow> ('w, connect_error + proto_commit) process" where
  "labels_process R E caller i m zipData labelNames now =
     andThen (loop (upsertLabel_process R E i (mID m) (commit_id zipData) now) 0 labelNames []) (\<lambda>r.
       case r of
         Inl e \<Rightarrow> Done (Inl e)
       | Inr _ \<Rightarrow>
           ask (resolveOwnerIDHelper R m) (\<lambda>ownerID.
             Done (Inr \<lparr>pc_id = commit_id zipData, pc_create_time = now, pc_owner_id = ownerID, pc_module_id = mID m,
                        pc_created_by = uID caller, pc_digest = Some (Sum256 zipData)\<rparr>)))"

definition publish_process ::
  "'w Repos \<Rightarrow> 'w Store \<Rightarrow> env \<Rightarrow> User \<Rightarrow> nat \<Rightarrow> Module \<Rightarrow> bytes \<Rightarrow> string list \<Rightarrow> ('w, connect_error + proto_commit) process" where
  "publish_process R S E caller i m zipData labelNames =
     (let commitID = commit_id zipData;
          storageKey = mID m @ ''/'' @ commitID in
      tell (Store_Put S storageKey zipData) (\<lambda>failed.
        if failed then fail CodeInternal ''failed to store content''
        else
          ask (Commits_GetByID (Commits R) (mID m) commitID) (\<lambda>x.
            case fetch_ptr x of
              Some c \<Rightarrow> labels_process R E caller i m zipData labelNames (cCreatedAt c)
            | None \<Rightarrow>
                tell (Commits_Create (Commits R)
                  \<lparr>cID = commitID, cModuleID = mID m, cStorageKey = storageKey, cManifest = [],
                   cCreatedByUserID = uID caller, cCreatedAt = Now E i 0\<rparr>) (\<lambda>failed.
                  if failed then fail CodeInternal ''failed to create commit''
                  else labels_process R E caller i m zipData labelNames (Now E i 0)))))"

definition uploadContent_process ::
  "enforcer \<Rightarrow> 'w Repos \<Rightarrow> 'w Store \<Rightarrow> zip_lib \<Rightarrow> env \<Rightarrow> User \<Rightarrow> nat \<Rightarrow> upload_content \<Rightarrow> ('w, connect_error + proto_commit) process" where
  "uploadContent_process enf R S Z E caller i content =
     (case uc_module_ref content of
        Some (ModuleByName ownerName moduleName) \<Rightarrow>
          ask (Modules_Get (Modules R) ownerName moduleName) (\<lambda>x.
            case x of
              RetErr _ _ \<Rightarrow> fail CodeNotFound (''module not found: '' @ ownerName @ ''/'' @ moduleName)
            | Ret m \<Rightarrow>
                andThen (CanWriteModule_process (authorizer enf R) (uID caller) m) (\<lambda>allowed.
                  if \<not> allowed then fail CodePermissionDenied ''no write access''
                  else
                    (case validateFiles (uc_files content) of
                       Some err \<Rightarrow> fail CodeInvalidArgument err
                     | None \<Rightarrow>
                         (case zipFiles Z (uc_files content) of
                            Inl _ \<Rightarrow> fail CodeInternal ''failed to create archive''
                          | Inr zipData \<Rightarrow>
                              if int (length zipData) > maxUploadSize
                              then fail CodeInvalidArgument ''upload too large''
                              else publish_process R S E caller i m zipData (label_names content)))))
      | _ \<Rightarrow> fail CodeInvalidArgument ''module ref with name required'')"

definition Upload_process ::
  "enforcer \<Rightarrow> 'w Repos \<Rightarrow> 'w Store \<Rightarrow> zip_lib \<Rightarrow> env \<Rightarrow> User option \<Rightarrow> upload_content list \<Rightarrow>
     ('w, connect_error + proto_commit list) process" where
  "Upload_process enf R S Z E caller contents =
     (case caller of
        None \<Rightarrow> fail CodeUnauthenticated ''not authenticated''
      | Some u \<Rightarrow> loop (uploadContent_process enf R S Z E u) 0 contents [])"

lemma upsertLabel_alone: "alone (upsertLabel_process R E i mid cid now j n) = upsertLabel R E i mid cid now j n"
  by (rule ext) (simp add: upsertLabel_process_def upsertLabel_def Let_def split: prod.splits option.splits)

lemma publish_alone:
  "alone (publish_process R S E caller i m zipData ns) = publish R S E caller i m zipData ns"
proof (rule ext)
  fix w
  obtain e w1 where put: "Store_Put S (mID m @ ''/'' @ commit_id zipData) zipData w = (e, w1)" by fastforce
  show "alone (publish_process R S E caller i m zipData ns) w = publish R S E caller i m zipData ns w"
    by (simp add: publish_process_def publish_def labels_process_def upsertLabel_alone put Let_def
        split: prod.splits option.splits sum.splits)
qed

lemma uploadContent_alone:
  "authorizer_built enf R \<Longrightarrow> alone (uploadContent_process enf R S Z E u i c) = uploadContent R S Z E u i c"
  by (rule ext)
     (simp add: uploadContent_process_def uploadContent_def publish_alone built_checks
       split: option.splits module_ref.splits fetch.splits sum.splits)

lemma Upload_alone:
  "authorizer_built enf R \<Longrightarrow> alone (Upload_process enf R S Z E caller cs) = Upload R S Z E caller cs"
  by (rule ext) (simp add: Upload_process_def Upload_def uploadContent_alone split: option.splits)

section \<open>Labels, modules, organizations and users\<close>

definition createOrUpdateLabel_process ::
  "enforcer \<Rightarrow> 'w Repos \<Rightarrow> env \<Rightarrow> User \<Rightarrow> nat \<Rightarrow> label_value \<Rightarrow> ('w, connect_error + proto_label) process" where
  "createOrUpdateLabel_process enf R E caller i v =
     (case lv_label_ref v of
        Some (LabelByName own md n) \<Rightarrow>
          ask (Modules_Get (Modules R) own md) (\<lambda>x.
            case x of
              RetErr _ _ \<Rightarrow> fail CodeNotFound ''module not found''
            | Ret m \<Rightarrow>
                andThen (CanAdminModule_process (authorizer enf R) (uID caller) m) (\<lambda>allowed.
                  if \<not> allowed then fail CodePermissionDenied ''no admin access''
                  else
                    ask (Commits_GetByID (Commits R) (mID m) (lv_commit_id v)) (\<lambda>y.
                      case y of
                        RetErr _ _ \<Rightarrow> fail CodeInvalidArgument ''commit not found in module''
                      | Ret _ \<Rightarrow>
                          (let now = Now E i 0;
                               l = \<lparr>lID = NewString E i 0, lModuleID = mID m, lName = n,
                                    lCommitID = lv_commit_id v, lCreatedAt = now, lUpdatedAt = now\<rparr> in
                           tell (Labels_Upsert (Labels R) l) (\<lambda>failed.
                             if failed then fail CodeInternal ''failed to upsert label''
                             else
                               ask (resolveOwnerIDHelper R m) (\<lambda>ownerID. Done (Inr (labelToProto l ownerID))))))))
      | _ \<Rightarrow> fail CodeInvalidArgument ''label ref with name required'')"

definition CreateOrUpdateLabels_process ::
  "enforcer \<Rightarrow> 'w Repos \<Rightarrow> env \<Rightarrow> User option \<Rightarrow> label_value list \<Rightarrow> ('w, connect_error + proto_label list) process" where
  "CreateOrUpdateLabels_process enf R E caller vs =
     (case caller of
        None \<Rightarrow> fail CodeUnauthenticated ''not authenticated''
      | Some u \<Rightarrow> loop (createOrUpdateLabel_process enf R E u) 0 vs [])"

definition createModule_process ::
  "enforcer \<Rightarrow> 'w Repos \<Rightarrow> env \<Rightarrow> User \<Rightarrow> nat \<Rightarrow> create_module_value \<Rightarrow> ('w, connect_error + proto_module) process" where
  "createModule_process enf R E caller i v =
     (let ownerName = resolveOwnerRefName (cm_owner_ref v) in
      andThen (CanCreateModule_process (authorizer enf R) (uID caller) ownerName) (\<lambda>allowed.
        if \<not> allowed then fail CodePermissionDenied (''cannot create modules under: '' @ ownerName)
        else if \<not> moduleNameRe (cm_name v)
        then fail CodeInvalidArgument ''module name must be 2-39 chars, lowercase alphanumeric and hyphens''
        else
          ask (Modules_Get (Modules R) ownerName (cm_name v)) (\<lambda>x.
            case x of
              Ret _ \<Rightarrow> fail CodeAlreadyExists (''module already exists: '' @ ownerName @ ''/'' @ cm_name v)
            | RetErr _ _ \<Rightarrow>
                (let m = requested_module E caller i v in
                 tell (Modules_Create (Modules R) m) (\<lambda>failed.
                   if failed then fail CodeInternal ''internal error''
                   else ask (resolveOwnerIDHelper R m) (\<lambda>ownerID. Done (Inr (moduleToProto m ownerID))))))))"

definition CreateModules_process ::
  "enforcer \<Rightarrow> 'w Repos \<Rightarrow> env \<Rightarrow> User option \<Rightarrow> create_module_value list \<Rightarrow> ('w, connect_error + proto_module list) process" where
  "CreateModules_process enf R E caller vs =
     (case caller of
        None \<Rightarrow> fail CodeUnauthenticated ''not authenticated''
      | Some u \<Rightarrow> loop (createModule_process enf R E u) 0 vs [])"

definition createOrganization_process ::
  "'w Repos \<Rightarrow> env \<Rightarrow> User \<Rightarrow> nat \<Rightarrow> string \<Rightarrow> ('w, connect_error + proto_org) process" where
  "createOrganization_process R E u i name =
     (if \<not> nameRe name
      then fail CodeInvalidArgument ''org name must be 3-39 chars, lowercase alphanumeric and hyphens''
      else
        ask (Orgs_GetByName (Orgs R) name) (\<lambda>x.
          case x of
            Ret _ \<Rightarrow> fail CodeAlreadyExists (''organization already exists: '' @ name)
          | RetErr _ _ \<Rightarrow>
              (let g = \<lparr>oID = NewString E i 0, oName = name, oCreatedAt = Now E i 0\<rparr> in
               tell (Orgs_Create (Orgs R) g) (\<lambda>failed.
                 if failed then fail CodeInternal ''internal error''
                 else
                   tell (Orgs_AddMember (Orgs R) (oID g) (uID u) OrgRoleAdmin) (\<lambda>failed.
                     if failed then fail CodeInternal ''failed to add admin member''
                     else Done (Inr (orgToProto g)))))))"

definition CreateOrganizations_process ::
  "'w Repos \<Rightarrow> env \<Rightarrow> User option \<Rightarrow> string list \<Rightarrow> ('w, connect_error + proto_org list) process" where
  "CreateOrganizations_process R E caller names =
     (case caller of
        None \<Rightarrow> fail CodeUnauthenticated ''not authenticated''
      | Some u \<Rightarrow> loop (createOrganization_process R E u) 0 names [])"

definition createUser_process :: "'w Repos \<Rightarrow> env \<Rightarrow> nat \<Rightarrow> string \<Rightarrow> ('w, connect_error + proto_user) process" where
  "createUser_process R E i name =
     (if \<not> nameRe name
      then fail CodeInvalidArgument ''username must be 3-39 chars, lowercase alphanumeric and hyphens''
      else
        (let u = \<lparr>uID = NewString E i 0, uUsername = name, uPasswordHash = [], uCreatedAt = Now E i 0\<rparr> in
         tell (Users_Create (Users R) u) (\<lambda>failed.
           if failed then
             ask (Users_GetByUsername (Users R) name) (\<lambda>x.
               case x of
                 Ret _ \<Rightarrow> fail CodeAlreadyExists (''user already exists: '' @ name)
               | RetErr _ _ \<Rightarrow> fail CodeInternal ''internal error'')
           else Done (Inr (userToProto u)))))"

definition CreateUsers_process ::
  "'w Repos \<Rightarrow> bool \<Rightarrow> env \<Rightarrow> string list \<Rightarrow> ('w, connect_error + proto_user list) process" where
  "CreateUsers_process R openReg E names =
     (if \<not> openReg then fail CodePermissionDenied ''registration is closed''
      else loop (createUser_process R E) 0 names [])"

lemma CreateOrUpdateLabels_alone:
  assumes "authorizer_built enf R"
  shows "alone (CreateOrUpdateLabels_process enf R E caller vs) = CreateOrUpdateLabels R E caller vs"
proof -
  have "alone (createOrUpdateLabel_process enf R E u i v) = createOrUpdateLabel R E u i v" for u i v
    by (rule ext)
       (simp add: createOrUpdateLabel_process_def createOrUpdateLabel_def built_checks [OF assms] Let_def
         split: option.splits label_ref.splits fetch.splits prod.splits)
  then show ?thesis
    by (intro ext) (simp add: CreateOrUpdateLabels_process_def CreateOrUpdateLabels_def split: option.splits)
qed

lemma CreateModules_alone:
  assumes "authorizer_built enf R"
  shows "alone (CreateModules_process enf R E caller vs) = CreateModules R E caller vs"
proof -
  have "alone (createModule_process enf R E u i v) = createModule R E u i v" for u i v
    by (rule ext)
       (simp add: createModule_process_def createModule_alt built_checks [OF assms] Let_def split: option.splits fetch.splits prod.splits)
  then show ?thesis
    by (intro ext) (simp add: CreateModules_process_def CreateModules_def split: option.splits)
qed

lemma CreateOrganizations_alone:
  "alone (CreateOrganizations_process R E caller ns) = CreateOrganizations R E caller ns"
proof -
  have "alone (createOrganization_process R E u i n) = createOrganization R E u i n" for u i n
    by (rule ext)
       (simp add: createOrganization_process_def createOrganization_def Let_def split: option.splits fetch.splits prod.splits)
  then show ?thesis
    by (intro ext) (simp add: CreateOrganizations_process_def CreateOrganizations_def split: option.splits)
qed

lemma CreateUsers_alone: "alone (CreateUsers_process R openReg E ns) = CreateUsers R openReg E ns"
proof -
  have "alone (createUser_process R E i n) = createUser R E i n" for i n
    by (rule ext)
       (simp add: createUser_process_def createUser_def Let_def split: option.splits fetch.splits prod.splits)
  then show ?thesis by (intro ext) (simp add: CreateUsers_process_def CreateUsers_def)
qed

section \<open>REST\<close>

definition register_process ::
  "'w Repos \<Rightarrow> bool \<Rightarrow> bcrypt \<Rightarrow> nat \<Rightarrow> env \<Rightarrow> (string \<times> string) option \<Rightarrow> ('w, http_response) process" where
  "register_process R openReg B salt E body =
     (if \<not> openReg then Done (writeErr StatusForbidden ''registration is closed'')
      else
        (case body of
           None \<Rightarrow> Done (writeErr StatusBadRequest ''invalid json'')
         | Some (username, password) \<Rightarrow>
             if \<not> usernameRe username
             then Done (writeErr StatusBadRequest ''username must be 3-39 chars, lowercase alphanumeric and hyphens'')
             else if length password < 8
             then Done (writeErr StatusBadRequest ''password must be at least 8 characters'')
             else
               (case HashPassword B salt password of
                  Inl _ \<Rightarrow> Done (writeErr StatusInternalServerError ''internal error'')
                | Inr hash \<Rightarrow>
                    ask (Users_GetByUsername (Users R) username) (\<lambda>x.
                      case x of
                        Ret _ \<Rightarrow> Done (writeErr StatusConflict ''username already exists'')
                      | RetErr _ _ \<Rightarrow>
                          (let u = \<lparr>uID = NewString E 0 0, uUsername = username, uPasswordHash = hash,
                                    uCreatedAt = Now E 0 0\<rparr> in
                           tell (Users_Create (Users R) u) (\<lambda>failed.
                             if failed then Done (writeErr StatusInternalServerError ''internal error'')
                             else Done (writeJSON StatusCreated
                                          (JObj [(''id'', uID u), (''username'', uUsername u)]))))))))"

definition login_process ::
  "'w Repos \<Rightarrow> bcrypt \<Rightarrow> env \<Rightarrow> (string \<times> string) option \<Rightarrow> ('w, http_response) process" where
  "login_process R B E body =
     (case body of
        None \<Rightarrow> Done (writeErr StatusBadRequest ''invalid json'')
      | Some (username, password) \<Rightarrow>
          ask (Users_GetByUsername (Users R) username) (\<lambda>x.
            case x of
              RetErr _ _ \<Rightarrow> Done (writeErr StatusUnauthorized ''invalid credentials'')
            | Ret u \<Rightarrow>
                if \<not> CheckPassword B (uPasswordHash u) password
                then Done (writeErr StatusUnauthorized ''invalid credentials'')
                else
                  tell (Tokens_DeleteByUserAndNote (Tokens R) (uID u) ''login'') (\<lambda>_.
                    (let rawToken = NewString E 0 0;
                         expires = Now E 0 0 + day_ns;
                         t = \<lparr>tID = NewString E 0 1, tUserID = uID u, tHash = HashToken rawToken, tNote = ''login'',
                              tExpiresAt = Some expires, tCreatedAt = Now E 0 1\<rparr> in
                     tell (Tokens_Create (Tokens R) t) (\<lambda>failed.
                       if failed then Done (writeErr StatusInternalServerError ''internal error'')
                       else
                         Done (writeJSON StatusOK
                           (JObj [(''token'', rawToken), (''user_id'', uID u), (''username'', uUsername u)])))))))"

definition createToken_process ::
  "'w Repos \<Rightarrow> env \<Rightarrow> User option \<Rightarrow> string option \<Rightarrow> ('w, http_response) process" where
  "createToken_process R E caller body =
     (case caller of
        None \<Rightarrow> Done (writeErr StatusUnauthorized ''unauthenticated'')
      | Some u \<Rightarrow>
          (case body of
             None \<Rightarrow> Done (writeErr StatusBadRequest ''invalid json'')
           | Some note \<Rightarrow>
               (let rawToken = NewString E 0 0;
                    t = \<lparr>tID = NewString E 0 1, tUserID = uID u, tHash = HashToken rawToken, tNote = note,
                         tExpiresAt = None, tCreatedAt = Now E 0 0\<rparr> in
                tell (Tokens_Create (Tokens R) t) (\<lambda>failed.
                  if failed then Done (writeErr StatusInternalServerError ''internal error'')
                  else Done (writeJSON StatusOK (JObj [(''token'', rawToken), (''id'', tID t)]))))))"

definition revokeToken_process :: "'w Repos \<Rightarrow> User option \<Rightarrow> string \<Rightarrow> ('w, http_response) process" where
  "revokeToken_process R caller i =
     (case caller of
        None \<Rightarrow> Done (writeErr StatusUnauthorized ''unauthenticated'')
      | Some u \<Rightarrow>
          tell (Tokens_Revoke (Tokens R) i (uID u)) (\<lambda>failed.
            if failed then Done (writeErr StatusNotFound ''token not found'')
            else Done (writeJSON StatusOK (JObj [(''status'', ''revoked'')]))))"

definition createOrg_process ::
  "'w Repos \<Rightarrow> env \<Rightarrow> User option \<Rightarrow> string option \<Rightarrow> ('w, http_response) process" where
  "createOrg_process R E caller body =
     (case caller of
        None \<Rightarrow> Done (writeErr StatusUnauthorized ''unauthenticated'')
      | Some u \<Rightarrow>
          (case body of
             None \<Rightarrow> Done (writeErr StatusBadRequest ''invalid json'')
           | Some name \<Rightarrow>
               if \<not> usernameRe name
               then Done (writeErr StatusBadRequest ''org name must be 3-39 chars, lowercase alphanumeric and hyphens'')
               else
                 (let g = \<lparr>oID = NewString E 0 0, oName = name, oCreatedAt = Now E 0 0\<rparr> in
                  tell (Orgs_Create (Orgs R) g) (\<lambda>failed.
                    if failed then
                      ask (Orgs_GetByName (Orgs R) name) (\<lambda>x.
                        case x of
                          Ret _ \<Rightarrow> Done (writeErr StatusConflict ''organization already exists'')
                        | RetErr _ _ \<Rightarrow> Done (writeErr StatusInternalServerError ''internal error''))
                    else
                      tell (Orgs_AddMember (Orgs R) (oID g) (uID u) OrgRoleAdmin) (\<lambda>failed.
                        if failed then Done (writeErr StatusInternalServerError ''failed to add admin member'')
                        else Done (writeJSON StatusCreated (JObj [(''id'', oID g), (''name'', oName g)])))))))"

definition addMember_process ::
  "enforcer \<Rightarrow> 'w Repos \<Rightarrow> User option \<Rightarrow> string \<Rightarrow> (string \<times> string) option \<Rightarrow> ('w, http_response) process" where
  "addMember_process enf R caller orgName body =
     (case caller of
        None \<Rightarrow> Done (writeErr StatusUnauthorized ''unauthenticated'')
      | Some u \<Rightarrow>
          ask (Orgs_GetByName (Orgs R) orgName) (\<lambda>x.
            case x of
              RetErr _ _ \<Rightarrow> Done (writeErr StatusNotFound ''organization not found'')
            | Ret g \<Rightarrow>
                andThen (CanManageOrgMembers_process (authorizer enf R) (uID u) (oID g)) (\<lambda>allowed.
                  if \<not> allowed then Done (writeErr StatusForbidden ''must be org admin'')
                  else
                    (case body of
                       None \<Rightarrow> Done (writeErr StatusBadRequest ''invalid json'')
                     | Some (username, rl) \<Rightarrow>
                         ask (Users_GetByUsername (Users R) username) (\<lambda>y.
                           case y of
                             RetErr _ _ \<Rightarrow> Done (writeErr StatusNotFound ''user not found'')
                           | Ret member \<Rightarrow>
                               (let role = (if rl = OrgRoleAdmin then OrgRoleAdmin else OrgRoleMember) in
                                tell (Orgs_AddMember (Orgs R) (oID g) (uID member) role) (\<lambda>failed.
                                  if failed then Done (writeErr StatusInternalServerError ''internal error'')
                                  else Done (writeJSON StatusOK (JObj [(''status'', ''added'')])))))))))"

definition removeMember_process ::
  "enforcer \<Rightarrow> 'w Repos \<Rightarrow> User option \<Rightarrow> string \<Rightarrow> string \<Rightarrow> ('w, http_response) process" where
  "removeMember_process enf R caller orgName username =
     (case caller of
        None \<Rightarrow> Done (writeErr StatusUnauthorized ''unauthenticated'')
      | Some u \<Rightarrow>
          ask (Orgs_GetByName (Orgs R) orgName) (\<lambda>x.
            case x of
              RetErr _ _ \<Rightarrow> Done (writeErr StatusNotFound ''organization not found'')
            | Ret g \<Rightarrow>
                andThen (CanManageOrgMembers_process (authorizer enf R) (uID u) (oID g)) (\<lambda>allowed.
                  if \<not> allowed then Done (writeErr StatusForbidden ''must be org admin'')
                  else
                    ask (Users_GetByUsername (Users R) username) (\<lambda>y.
                      case y of
                        RetErr _ _ \<Rightarrow> Done (writeErr StatusNotFound ''user not found'')
                      | Ret member \<Rightarrow>
                          tell (Orgs_RemoveMember (Orgs R) (oID g) (uID member)) (\<lambda>failed.
                            if failed then Done (writeErr StatusInternalServerError ''internal error'')
                            else Done (writeJSON StatusOK (JObj [(''status'', ''removed'')])))))))"

definition rest_createModule_process ::
  "enforcer \<Rightarrow> 'w Repos \<Rightarrow> env \<Rightarrow> User option \<Rightarrow> create_module_body option \<Rightarrow> ('w, http_response) process" where
  "rest_createModule_process enf R E caller body =
     (case caller of
        None \<Rightarrow> Done (writeErr StatusUnauthorized ''unauthenticated'')
      | Some u \<Rightarrow>
          (case body of
             None \<Rightarrow> Done (writeErr StatusBadRequest ''invalid json'')
           | Some req \<Rightarrow>
               if \<not> usernameRe (cb_name req)
               then Done (writeErr StatusBadRequest
                            ''module name must be 2-39 chars, lowercase alphanumeric and hyphens'')
               else
                 andThen (CanCreateModule_process (authorizer enf R) (uID u) (cb_owner req)) (\<lambda>allowed.
                   if \<not> allowed then Done (writeErr StatusForbidden ''no permission to create modules under this owner'')
                   else
                     (let ownerType = (if cb_owner req = uUsername u then OwnerTypeUser else OwnerTypeOrg);
                          vis = (if cb_visibility req = ''public'' then VisibilityPublic else VisibilityPrivate) in
                      ask (Modules_Get (Modules R) (cb_owner req) (cb_name req)) (\<lambda>x.
                        case x of
                          Ret _ \<Rightarrow> Done (writeErr StatusConflict ''module already exists'')
                        | RetErr _ _ \<Rightarrow>
                            (let m = \<lparr>mID = NewString E 0 0, mOwnerName = cb_owner req, mOwnerType = ownerType,
                                      mName = cb_name req, mVisibility = vis, mCreatedAt = Now E 0 0\<rparr> in
                             tell (Modules_Create (Modules R) m) (\<lambda>failed.
                               if failed then Done (writeErr StatusInternalServerError ''internal error'')
                               else Done (writeJSON StatusCreated (JObj (moduleToJSON m))))))))))"

lemma rest_alone:
  "alone (register_process R openReg B salt E body) = register R openReg B salt E body"
  "alone (login_process R B E body) = login R B E body"
  "alone (createToken_process R E caller note) = createToken R E caller note"
  "alone (revokeToken_process R caller i) = revokeToken R caller i"
  "alone (createOrg_process R E caller note) = createOrg R E caller note"
  by (rule ext,
      simp add: register_process_def register_def login_process_def login_def createToken_process_def createToken_def
        revokeToken_process_def revokeToken_def createOrg_process_def createOrg_def Let_def
        split: option.splits fetch.splits prod.splits sum.splits)+

lemma rest_checked_alone:
  assumes "authorizer_built enf R"
  shows "alone (addMember_process enf R caller i body) = addMember R caller i body"
    and "alone (removeMember_process enf R caller i n) = removeMember R caller i n"
    and "alone (rest_createModule_process enf R E caller mbody) = rest_createModule R E caller mbody"
  by (rule ext,
      simp add: addMember_process_def addMember_def removeMember_process_def removeMember_def
        rest_createModule_process_def rest_createModule_def built_checks [OF assms] Let_def
        split: option.splits fetch.splits prod.splits sum.splits)+

section \<open>Requests\<close>

text \<open>What a request ends with: the answer of a procedure, a response, or, for a tick of the limiter's clock, nothing.\<close>

datatype 'fd outcome = Answered "connect_error + 'fd rpc_answer" | Responded http_response | Ticked

fun rpc_process :: "('w, 'fd) server \<Rightarrow> env \<Rightarrow> rpc \<Rightarrow> User option \<Rightarrow> ('w, connect_error + 'fd rpc_answer) process" where
  "rpc_process V E RpcAuthnGetCurrentUser c = Done (map_sum id AnsAuthnUser (Authn_GetCurrentUser c))"
| "rpc_process V E (RpcGetOwners refs) c = map_answer (map_sum id AnsOwners) (GetOwners_process (sv_repos V) refs)"
| "rpc_process V E (RpcGetOrganizations refs) c =
     map_answer (map_sum id AnsOrganizations) (GetOrganizations_process (sv_repos V) refs)"
| "rpc_process V E (RpcCreateOrganizations ns) c =
     map_answer (map_sum id AnsOrganizations) (CreateOrganizations_process (sv_repos V) E c ns)"
| "rpc_process V E (RpcGetUsers refs) c = map_answer (map_sum id AnsUsers) (GetUsers_process (sv_repos V) refs)"
| "rpc_process V E RpcGetCurrentUser c = Done (map_sum id AnsCurrentUser (GetCurrentUser c))"
| "rpc_process V E (RpcCreateUsers ns) c =
     map_answer (map_sum id AnsUsers) (CreateUsers_process (sv_repos V) (sv_openReg V) E ns)"
| "rpc_process V E (RpcGetModules refs) c =
     map_answer (map_sum id AnsModules) (GetModules_process (sv_casbin V) (sv_repos V) c refs)"
| "rpc_process V E (RpcListModules refs) c =
     map_answer (map_sum id AnsModules) (ListModules_process (sv_casbin V) (sv_repos V) c refs)"
| "rpc_process V E (RpcCreateModules vs) c =
     map_answer (map_sum id AnsModules) (CreateModules_process (sv_casbin V) (sv_repos V) E c vs)"
| "rpc_process V E (RpcUpload cs) c =
     map_answer (map_sum id AnsCommits) (Upload_process (sv_casbin V) (sv_repos V) (sv_store V) (sv_zip V) E c cs)"
| "rpc_process V E (RpcDownload refs) c =
     map_answer (map_sum id AnsContents) (Download_process (sv_casbin V) (sv_repos V) (sv_store V) (sv_zip V) c refs)"
| "rpc_process V E (RpcGetCommits refs) c =
     map_answer (map_sum id AnsCommits) (GetCommits_process (sv_casbin V) (sv_repos V) c refs)"
| "rpc_process V E (RpcListCommits ref) c =
     map_answer (map_sum id AnsCommits) (ListCommits_process (sv_casbin V) (sv_repos V) c ref)"
| "rpc_process V E (RpcGetLabels refs) c =
     map_answer (map_sum id AnsLabels) (GetLabels_process (sv_casbin V) (sv_repos V) c refs)"
| "rpc_process V E (RpcListLabels ref) c =
     map_answer (map_sum id AnsLabels) (ListLabels_process (sv_casbin V) (sv_repos V) c ref)"
| "rpc_process V E (RpcCreateOrUpdateLabels vs) c =
     map_answer (map_sum id AnsLabels) (CreateOrUpdateLabels_process (sv_casbin V) (sv_repos V) E c vs)"
| "rpc_process V E (RpcGetFileDescriptorSet ref) c =
     map_answer (map_sum id AnsFileDescriptorSet)
       (GetFileDescriptorSet_process (sv_casbin V) (sv_repos V) (sv_store V) (sv_zip V) (sv_compile V) c ref)"

fun endpoint_process ::
  "('w, 'fd) server \<Rightarrow> nat \<Rightarrow> env \<Rightarrow> rest_call \<Rightarrow> endpoint \<Rightarrow> (string \<Rightarrow> string) \<Rightarrow> User option \<Rightarrow> ('w, http_response) process" where
  "endpoint_process V salt E q EpRegister pv c =
     register_process (sv_repos V) (sv_openReg V) (sv_bcrypt V) salt E (field2 q ''username'' ''password'')"
| "endpoint_process V salt E q EpLogin pv c =
     login_process (sv_repos V) (sv_bcrypt V) E (field2 q ''username'' ''password'')"
| "endpoint_process V salt E q EpCreateToken pv c = createToken_process (sv_repos V) E c (field1 q ''note'')"
| "endpoint_process V salt E q EpRevokeToken pv c = revokeToken_process (sv_repos V) c (pv ''id'')"
| "endpoint_process V salt E q EpCreateOrg pv c = createOrg_process (sv_repos V) E c (field1 q ''name'')"
| "endpoint_process V salt E q EpAddMember pv c =
     addMember_process (sv_casbin V) (sv_repos V) c (pv ''name'') (field2 q ''username'' ''role'')"
| "endpoint_process V salt E q EpRemoveMember pv c = removeMember_process (sv_casbin V) (sv_repos V) c (pv ''name'') (pv ''username'')"
| "endpoint_process V salt E q EpCreateModule pv c = rest_createModule_process (sv_casbin V) (sv_repos V) E c (module_fields q)"
| "endpoint_process V salt E q EpMe pv c = Done (me c)"
| "endpoint_process V salt E q EpListTokens pv c = listTokens_process (sv_repos V) (Now E 0 0) c"
| "endpoint_process V salt E q EpGetOrg pv c = getOrg_process (sv_repos V) (pv ''name'')"
| "endpoint_process V salt E q EpGetUser pv c = getUser_process (sv_repos V) (pv ''username'')"
| "endpoint_process V salt E q EpGetModule pv c =
     getModule_process (sv_casbin V) (sv_repos V) c (pv ''owner'') (pv ''repo'')"
| "endpoint_process V salt E q EpListModules pv c =
     listModules_process (sv_casbin V) (sv_repos V) c (Query q ''owner'') (Query q ''q'')"
| "endpoint_process V salt E q EpListCommits pv c =
     listCommits_process (sv_casbin V) (sv_repos V) c (pv ''owner'') (pv ''repo'')"
| "endpoint_process V salt E q EpGetCommit pv c =
     rest_getCommit_process (sv_casbin V) (sv_repos V) c (pv ''owner'') (pv ''repo'') (pv ''id'')"
| "endpoint_process V salt E q EpListLabels pv c =
     listLabels_process (sv_casbin V) (sv_repos V) c (pv ''owner'') (pv ''repo'')"
| "endpoint_process V salt E q EpListFiles pv c =
     listFiles_process (sv_casbin V) (sv_repos V) (sv_store V) (sv_zip V) c (pv ''owner'') (pv ''repo'') (pv ''id'')"
| "endpoint_process V salt E q EpGetFileContent pv c =
     getFileContent_process (sv_casbin V) (sv_repos V) (sv_store V) (sv_zip V) c (pv ''owner'') (pv ''repo'') (pv ''id'')
       (Query q ''path'')"
| "endpoint_process V salt E q EpHealthz pv c = Done \<lparr>status = StatusOK, headers = [], payload = TextBody ''ok''\<rparr>"

definition mux_process :: "('w, 'fd) server \<Rightarrow> request \<Rightarrow> User option \<Rightarrow> ('w, 'fd outcome) process" where
  "mux_process V rq c =
     (case target rq of
        Rpc p \<Rightarrow>
          andThen (Interceptor_process (sv_repos V) (clock rq 1) (Authorization rq) c) (\<lambda>x.
            case x of
              Inl e \<Rightarrow> Done (Answered (Inl e))
            | Inr c' \<Rightarrow> map_answer Answered (rpc_process V (handler_env rq) p c'))
      | Rest q \<Rightarrow>
          (case find_route routes (Method q) (Path q) of
             None \<Rightarrow> Done (Responded (sv_web V q))
           | Some (ep, vals) \<Rightarrow>
               map_answer Responded (endpoint_process V (salt_of rq) (handler_env rq) q ep (PathValue vals) c)))"

definition too_many_requests :: http_response where
  "too_many_requests =
     \<lparr>status = StatusTooManyRequests, headers = [(''Content-Type'', ''application/json''), (''Retry-After'', ''60'')],
      payload = TextBody ''{\"error\":\"rate limit exceeded\"}''\<rparr>"

definition request_process :: "('w, 'fd) server \<Rightarrow> request \<Rightarrow> (rateLimiter \<times> 'w, 'fd outcome) process" where
  "request_process V rq =
     Tell (\<lambda>s. (fst (allow (RemoteAddr rq) (fst s)), snd (allow (RemoteAddr rq) (fst s)), snd s)) (\<lambda>admitted.
       if admitted
       then on_snd (andThen (Middleware_process (sv_repos V) (clock rq 0) (Authorization rq) None) (mux_process V rq))
       else Done (Responded too_many_requests))"

definition tick_process :: "(rateLimiter \<times> 'w, 'fd outcome) process" where
  "tick_process = Tell (\<lambda>s. (True, cleanup (fst s), snd s)) (\<lambda>_. Done Ticked)"

fun event_process :: "('w, 'fd) server \<Rightarrow> event \<Rightarrow> (rateLimiter \<times> 'w, 'fd outcome) process" where
  "event_process V (Arrive rq) = request_process V rq"
| "event_process V MinuteTick = tick_process"

text \<open>The server with these requests and ticks in flight.\<close>

definition in_flight :: "('w, 'fd) server \<Rightarrow> event list \<Rightarrow> (rateLimiter \<times> 'w, 'fd outcome) process list" where
  "in_flight V es = map (event_process V) es"

section \<open>A request alone is the sequential handler\<close>

fun outcome_http :: "('w, 'fd) server \<Rightarrow> 'fd outcome \<Rightarrow> http_response" where
  "outcome_http V (Answered r) = sv_encode V r"
| "outcome_http V (Responded r) = r"
| "outcome_http V Ticked = too_many_requests"

definition server_built :: "('w, 'fd) server \<Rightarrow> bool" where
  "server_built V \<longleftrightarrow> authorizer_built (sv_casbin V) (sv_repos V)"

lemma rpc_alone: "server_built V \<Longrightarrow> alone (rpc_process V E p c) w = serve_rpc V E p c w"
  by (cases p)
     (simp_all add: server_built_def answer_def Upload_alone CreateModules_alone CreateOrganizations_alone CreateUsers_alone
       CreateOrUpdateLabels_alone owners_alone modules_alone commits_labels_alone content_alone)

lemma endpoint_alone:
  "server_built V \<Longrightarrow> alone (endpoint_process V salt E q ep pv c) w = serve_endpoint V salt E q ep pv c w"
  by (cases ep) (simp_all add: server_built_def rest_alone rest_checked_alone rest_reads_alone rest_checked_reads_alone)

lemma mux_alone: "server_built V \<Longrightarrow> map_prod (outcome_http V) id (alone (mux_process V rq c) w) = serve_mux V rq c w"
  by (auto simp: mux_process_def serve_mux_def serve_rest_def Interceptor_alone rpc_alone endpoint_alone
      split: call.splits sum.splits option.splits prod.splits)

lemma request_alone:
  assumes "server_built V"
  shows "map_prod (outcome_http V) id (alone (request_process V rq) s) = httpHandler V rq s"
proof -
  obtain rl w where s: "s = (rl, w)" by fastforce
  let ?mw = "alone (Middleware_process (sv_repos V) (clock rq 0) (Authorization rq) None) w"
  obtain oc w1 where oc: "alone (mux_process V rq (fst ?mw)) w = (oc, w1)" by fastforce
  then have "serve_mux V rq (fst ?mw) w = (outcome_http V oc, w1)" using mux_alone [OF assms, of rq "fst ?mw" w] by simp
  with oc show ?thesis
    by (simp add: s request_process_def httpHandler_def RateLimitMiddleware_def too_many_requests_def Middleware_alone
        split: prod.splits bool.splits)
qed

end
