(* ===== verification/Concurrent_Correct.thy ===== *)
theory Concurrent_Correct
  imports Concurrent Server_Correct
begin

text \<open>
  Requests in flight at the same time do no harm: whatever the order in which their calls reach the database
  and the store, the invariant of registry and store holds after every single call, nothing that a request reported
  as created is lost or given away twice, and the sequential runs of the server are among the interleavings.
\<close>

section \<open>What every call keeps\<close>

text \<open>The archive of a commit is in the store.\<close>

definition archived ::
  "('w \<Rightarrow> string \<Rightarrow> bytes \<Rightarrow> bool) \<Rightarrow> (string \<Rightarrow> bool) \<Rightarrow> string \<Rightarrow> string \<Rightarrow> 'w \<Rightarrow> bool" where
  "archived blobs valid mid cid w \<longleftrightarrow>
     valid (storage_key mid cid) \<and> (\<exists>d. blobs w (storage_key mid cid) d \<and> commit_id d = cid)"

text \<open>
  The shape of what is stored: names that a rule of the registry allows, roles, visibilities and owner types that are among the
  constants of the program, and no token in the clear.
\<close>

definition values_ok :: "Registry \<Rightarrow> bool" where
  "values_ok r \<longleftrightarrow>
     (\<forall>u\<in>rUsers r. good_name 3 (uUsername u)) \<and> (\<forall>g\<in>rOrgs r. good_name 3 (oName g)) \<and>
     (\<forall>mb\<in>rMembers r. omRole mb \<in> {OrgRoleAdmin, OrgRoleMember}) \<and>
     (\<forall>m\<in>rModules r. good_name 2 (mName m) \<and> mVisibility m \<in> {VisibilityPublic, VisibilityPrivate} \<and>
        mOwnerType m \<in> {OwnerTypeUser, OwnerTypeOrg}) \<and>
     (\<forall>t\<in>rTokens r. \<exists>raw. tHash t = HashToken raw)"

text \<open>
  What one record names of another is there. The tables have no foreign keys: it is the handlers that look before they
  write, and nothing that is looked for is ever deleted.
\<close>

definition has_user :: "Registry \<Rightarrow> string \<Rightarrow> bool" where
  "has_user r i \<longleftrightarrow> (\<exists>u\<in>rUsers r. uID u = i)"

definition has_org :: "Registry \<Rightarrow> string \<Rightarrow> bool" where
  "has_org r i \<longleftrightarrow> (\<exists>g\<in>rOrgs r. oID g = i)"

definition has_owner :: "Registry \<Rightarrow> string \<Rightarrow> bool" where
  "has_owner r n \<longleftrightarrow> (\<exists>u\<in>rUsers r. uUsername u = n) \<or> (\<exists>g\<in>rOrgs r. oName g = n)"

definition has_module :: "Registry \<Rightarrow> string \<Rightarrow> bool" where
  "has_module r i \<longleftrightarrow> (\<exists>m\<in>rModules r. mID m = i)"

lemmas has_defs = has_user_def has_org_def has_owner_def has_module_def

definition references_ok :: "Registry \<Rightarrow> bool" where
  "references_ok r \<longleftrightarrow>
     (\<forall>mb\<in>rMembers r. has_org r (omOrgID mb) \<and> has_user r (omUserID mb)) \<and>
     (\<forall>m\<in>rModules r. has_owner r (mOwnerName m)) \<and>
     (\<forall>c\<in>rCommits r. has_module r (cModuleID c) \<and> has_user r (cCreatedByUserID c)) \<and>
     (\<forall>t\<in>rTokens r. has_user r (tUserID t))"

definition registry_well_formed :: "Registry \<Rightarrow> bool" where
  "registry_well_formed r \<longleftrightarrow> values_ok r \<and> references_ok r"

lemma ball_extend: "\<forall>x\<in>A. P x \<Longrightarrow> (\<And>x. x \<in> B - A \<Longrightarrow> P x) \<Longrightarrow> \<forall>x\<in>B. P x"
  by blast

lemma well_formed_extend:
  assumes "values_ok r" "references_ok r"
    and "rUsers r \<subseteq> rUsers r'" "rOrgs r \<subseteq> rOrgs r'" "rModules r \<subseteq> rModules r'"
    and "\<And>u. u \<in> rUsers r' - rUsers r \<Longrightarrow> good_name 3 (uUsername u)"
    and "\<And>g. g \<in> rOrgs r' - rOrgs r \<Longrightarrow> good_name 3 (oName g)"
    and "\<And>mb. mb \<in> rMembers r' - rMembers r \<Longrightarrow>
      omRole mb \<in> {OrgRoleAdmin, OrgRoleMember} \<and> has_org r (omOrgID mb) \<and> has_user r (omUserID mb)"
    and "\<And>m. m \<in> rModules r' - rModules r \<Longrightarrow>
      good_name 2 (mName m) \<and> mVisibility m \<in> {VisibilityPublic, VisibilityPrivate} \<and>
      mOwnerType m \<in> {OwnerTypeUser, OwnerTypeOrg} \<and> has_owner r (mOwnerName m)"
    and "\<And>c. c \<in> rCommits r' - rCommits r \<Longrightarrow> has_module r (cModuleID c) \<and> has_user r (cCreatedByUserID c)"
    and "\<And>t. t \<in> rTokens r' - rTokens r \<Longrightarrow> (\<exists>raw. tHash t = HashToken raw) \<and> has_user r (tUserID t)"
  shows "registry_well_formed r'"
proof -
  have has: "has_user r i \<Longrightarrow> has_user r' i" "has_org r i \<Longrightarrow> has_org r' i" "has_owner r n \<Longrightarrow> has_owner r' n"
    "has_module r i \<Longrightarrow> has_module r' i" for i n
    using assms(3-5) by (auto simp: has_defs)
  have "values_ok r'"
    using assms(1) unfolding values_ok_def
    by (elim conjE, intro conjI) (erule ball_extend, drule assms(6) assms(7) assms(8) assms(9) assms(11), blast)+
  moreover have "(\<forall>mb\<in>rMembers r. has_org r' (omOrgID mb) \<and> has_user r' (omUserID mb)) \<and>
      (\<forall>m\<in>rModules r. has_owner r' (mOwnerName m)) \<and>
      (\<forall>c\<in>rCommits r. has_module r' (cModuleID c) \<and> has_user r' (cCreatedByUserID c)) \<and>
      (\<forall>t\<in>rTokens r. has_user r' (tUserID t))"
    using assms(2) has unfolding references_ok_def by blast
  then have "references_ok r'"
    unfolding references_ok_def
    by (elim conjE, intro conjI)
       (erule ball_extend, drule assms(8) assms(9) assms(10) assms(11), blast intro: has)+
  ultimately show ?thesis by (simp add: registry_well_formed_def)
qed

text \<open>The writes that keep a registry well-formed.\<close>

fun typed_op :: "Registry \<Rightarrow> write_op \<Rightarrow> bool" where
  "typed_op r (UserCreate u) \<longleftrightarrow> good_name 3 (uUsername u)"
| "typed_op r (OrgCreate g) \<longleftrightarrow> good_name 3 (oName g)"
| "typed_op r (AddMember i u ro) \<longleftrightarrow> ro \<in> {OrgRoleAdmin, OrgRoleMember} \<and> has_org r i \<and> has_user r u"
| "typed_op r (ModuleCreate m) \<longleftrightarrow>
     good_name 2 (mName m) \<and> mVisibility m \<in> {VisibilityPublic, VisibilityPrivate} \<and>
     mOwnerType m \<in> {OwnerTypeUser, OwnerTypeOrg} \<and> has_owner r (mOwnerName m)"
| "typed_op r (SetVisibility i v) \<longleftrightarrow> v \<in> {VisibilityPublic, VisibilityPrivate}"
| "typed_op r (ModuleDelete i) \<longleftrightarrow> False"
| "typed_op r (CommitCreate c) \<longleftrightarrow> has_module r (cModuleID c) \<and> has_user r (cCreatedByUserID c)"
| "typed_op r (TokenCreate t) \<longleftrightarrow> (\<exists>raw. tHash t = HashToken raw) \<and> has_user r (tUserID t)"
| "typed_op r _ \<longleftrightarrow> True"

definition grows ::
  "('w \<Rightarrow> Registry) \<Rightarrow> ('w \<Rightarrow> string \<Rightarrow> bytes \<Rightarrow> bool) \<Rightarrow> (string \<Rightarrow> bool) \<Rightarrow> 'w \<Rightarrow> 'w \<Rightarrow> bool" where
  "grows reg blobs valid w w' \<longleftrightarrow>
     reg_step\<^sup>*\<^sup>* (reg w) (reg w') \<and> rModules (reg w) \<subseteq> rModules (reg w') \<and>
     (registry_well_formed (reg w) \<longrightarrow> registry_well_formed (reg w')) \<and>
     (\<forall>mid cid. archived blobs valid mid cid w \<longrightarrow> archived blobs valid mid cid w')"

lemma hashed [simp]: "\<exists>raw. HashToken x = HashToken raw"
  by blast

lemma requested_module_typed [simp]:
  "moduleNameRe (cm_name v) \<Longrightarrow>
     typed_op r (ModuleCreate (requested_module E u i v)) \<longleftrightarrow> has_owner r (resolveOwnerRefName (cm_owner_ref v))"
  by (simp add: moduleNameRe_iff requested_module_def resolveOwnerTypeFromName_def Let_def)

lemma has_keyI [intro!]:
  "u \<in> rUsers r \<Longrightarrow> has_user r (uID u)" "g \<in> rOrgs r \<Longrightarrow> has_org r (oID g)" "m \<in> rModules r \<Longrightarrow> has_module r (mID m)"
  by (auto simp: has_defs)

lemma has_ownerI: "u \<in> rUsers r \<Longrightarrow> has_owner r (uUsername u)" "g \<in> rOrgs r \<Longrightarrow> has_owner r (oName g)"
  by (auto simp: has_owner_def)

lemma grows_registry:
  "grows reg blobs valid w w' \<Longrightarrow>
     rUsers (reg w) \<subseteq> rUsers (reg w') \<and> rOrgs (reg w) \<subseteq> rOrgs (reg w') \<and>
     rModules (reg w) \<subseteq> rModules (reg w') \<and> rCommits (reg w) \<subseteq> rCommits (reg w')"
  by (auto simp: grows_def dest: reg_steps_grow)

lemma still_there:
  "grows reg blobs valid w v \<Longrightarrow> u \<in> rUsers (reg w) \<Longrightarrow> u \<in> rUsers (reg v)"
  "grows reg blobs valid w v \<Longrightarrow> m \<in> rModules (reg w) \<Longrightarrow> m \<in> rModules (reg v)"
  by (auto dest!: grows_registry)

lemma has_stable:
  assumes "grows reg blobs valid w w'"
  shows "has_user (reg w) i \<Longrightarrow> has_user (reg w') i" "has_org (reg w) i \<Longrightarrow> has_org (reg w') i"
    "has_owner (reg w) n \<Longrightarrow> has_owner (reg w') n" "has_module (reg w) i \<Longrightarrow> has_module (reg w') i"
  using grows_registry [OF assms] by (auto simp: has_defs)

lemma grows_commit: "grows reg blobs valid w w' \<Longrightarrow> has_commit (reg w) mid cid \<Longrightarrow> has_commit (reg w') mid cid"
  using grows_registry by (fastforce simp: has_commit_def)

interpretation growth: interference I "grows reg blobs valid" for I reg blobs valid
  by unfold_locales (auto simp: grows_def intro: rtranclp_trans)

text \<open>What an answer reports as created is there.\<close>

fun reported ::
  "('w \<Rightarrow> Registry) \<Rightarrow> ('w \<Rightarrow> string \<Rightarrow> bytes \<Rightarrow> bool) \<Rightarrow> (string \<Rightarrow> bool) \<Rightarrow> 'fd rpc_answer \<Rightarrow> 'w \<Rightarrow> bool" where
  "reported reg blobs valid (AnsUsers ps) w \<longleftrightarrow> (\<forall>p\<in>set ps. \<exists>u\<in>rUsers (reg w). p = userToProto u)"
| "reported reg blobs valid (AnsOrganizations ps) w \<longleftrightarrow> (\<forall>p\<in>set ps. \<exists>g\<in>rOrgs (reg w). p = orgToProto g)"
| "reported reg blobs valid (AnsModules ps) w \<longleftrightarrow> (\<forall>p\<in>set ps. \<exists>m\<in>rModules (reg w). \<exists>oid. p = moduleToProto m oid)"
| "reported reg blobs valid (AnsCommits ps) w \<longleftrightarrow>
     (\<forall>p\<in>set ps. has_commit (reg w) (pc_module_id p) (pc_id p) \<and> archived blobs valid (pc_module_id p) (pc_id p) w)"
| "reported reg blobs valid _ w \<longleftrightarrow> True"

definition responded :: "('w \<Rightarrow> Registry) \<Rightarrow> http_response \<Rightarrow> 'w \<Rightarrow> bool" where
  "responded reg r w \<longleftrightarrow>
     (status r = StatusCreated \<longrightarrow>
        (\<exists>u\<in>rUsers (reg w). r = writeJSON StatusCreated (JObj [(''id'', uID u), (''username'', uUsername u)])) \<or>
        (\<exists>g\<in>rOrgs (reg w). r = writeJSON StatusCreated (JObj [(''id'', oID g), (''name'', oName g)])) \<or>
        (\<exists>m\<in>rModules (reg w). r = writeJSON StatusCreated (JObj (moduleToJSON m))))"

lemma responded_err [simp]: "s \<noteq> StatusCreated \<Longrightarrow> responded reg (writeErr s msg) w"
  by (simp add: responded_def writeErr_def writeJSON_def)

lemma responded_created:
  "\<exists>u\<in>rUsers (reg w). uID u = i \<and> uUsername u = n \<Longrightarrow>
     responded reg (writeJSON StatusCreated (JObj [(''id'', i), (''username'', n)])) w"
  "\<exists>g\<in>rOrgs (reg w). oID g = i \<and> oName g = n \<Longrightarrow>
     responded reg (writeJSON StatusCreated (JObj [(''id'', i), (''name'', n)])) w"
  "m \<in> rModules (reg w) \<Longrightarrow> responded reg (writeJSON StatusCreated (JObj (moduleToJSON m))) w"
  by (auto simp: responded_def)

lemma bex_mono: "\<exists>x\<in>A. P x \<Longrightarrow> A \<subseteq> B \<Longrightarrow> \<exists>x\<in>B. P x"
  by blast

lemma responded_stable:
  assumes "responded reg r w" "grows reg blobs valid w w'"
  shows "responded reg r w'"
proof -
  have sub: "rUsers (reg w) \<subseteq> rUsers (reg w')" "rOrgs (reg w) \<subseteq> rOrgs (reg w')" "rModules (reg w) \<subseteq> rModules (reg w')"
    using grows_registry [OF assms(2)] by blast+
  show ?thesis
    using assms(1) unfolding responded_def
    by (elim imp_forward disj_forward) (assumption | erule bex_mono, rule sub)+
qed

lemma reported_stable:
  assumes "reported reg blobs valid a w" "grows reg blobs valid w w'"
  shows "reported reg blobs valid a w'"
proof -
  have sub: "rUsers (reg w) \<subseteq> rUsers (reg w')" "rOrgs (reg w) \<subseteq> rOrgs (reg w')" "rModules (reg w) \<subseteq> rModules (reg w')"
    using grows_registry [OF assms(2)] by blast+
  have arch: "archived blobs valid mid cid w \<Longrightarrow> archived blobs valid mid cid w'" for mid cid
    using assms(2) by (simp add: grows_def)
  show ?thesis
    using assms(1) grows_commit [OF assms(2)] arch
    by (cases a) (simp_all, (blast intro: bex_mono [OF _ sub(1)] bex_mono [OF _ sub(2)] bex_mono [OF _ sub(3)])+)
qed

context backend
begin

lemma typed_write:
  assumes "do_write R a v = (e, v')" "typed_op (abs v) a" "registry_keys (abs v)" "registry_well_formed (abs v)"
  shows "registry_well_formed (abs v')"
proof (cases e)
  case (Some x)
  with assms(1) write_failed have "abs v' = abs v" by blast
  with assms(4) show ?thesis by simp
next
  case None
  have val: "values_ok (abs v)" and ref: "references_ok (abs v)" using assms(4) by (simp_all add: registry_well_formed_def)
  note extend = well_formed_extend [OF val ref]
  show ?thesis
  proof (cases a)
    case (LabelUpsert l)
    with None assms(1,3) have "abs v' = (abs v)\<lparr>rLabels := rLabels (abs v')\<rparr>"
      using labels_upsert [of l v v'] by (auto simp: registry_keys_def)
    note same = only_labels_simps [OF this [folded only_labels_def]]
    show ?thesis using assms(4) unfolding registry_well_formed_def values_ok_def references_ok_def has_defs same .
  next
    case (SetVisibility i x)
    with None assms(1) have "abs v' = (abs v)\<lparr>rModules := set_visibility i x ` rModules (abs v)\<rparr>"
      using modules_set_visibility [of i x v v'] by simp
    moreover have "mVisibility (set_visibility i x m) = (if mID m = i then x else mVisibility m)" for m
      by (simp add: set_visibility_def)
    ultimately show ?thesis using assms(2) val ref SetVisibility
      by (simp add: registry_well_formed_def values_ok_def references_ok_def has_defs)
  next
    case (ModuleDelete i)
    with assms(2) show ?thesis by simp
  next
    case (UserCreate u)
    with assms(1,2) None users_create [of u v v'] show ?thesis by (intro extend) auto
  next
    case (OrgCreate g)
    with assms(1,2) None orgs_create [of g v v'] show ?thesis by (intro extend) auto
  next
    case (AddMember i u ro)
    with assms(1,2) None orgs_add [of i u ro v v'] show ?thesis by (intro extend) auto
  next
    case (RemoveMember i u)
    with assms(1,2) None orgs_remove [of i u v v'] show ?thesis by (intro extend) auto
  next
    case (ModuleCreate m)
    with assms(1,2) None modules_create [of m v v'] show ?thesis by (intro extend) auto
  next
    case (CommitCreate c)
    with assms(1,2) None commits_create [of c v v'] show ?thesis by (intro extend) auto
  next
    case (TokenCreate t)
    with assms(1,2) None tokens_create [of t v v'] show ?thesis by (intro extend) auto
  next
    case (TokenRevoke i u)
    with assms(1,2) None tokens_revoke [of i u v v'] show ?thesis by (intro extend) auto
  next
    case (DeleteExpired now)
    with assms(1,2) None tokens_delete_expired [of now v v'] show ?thesis by (intro extend) auto
  next
    case (DeleteByUserAndNote u n)
    with assms(1,2) None tokens_delete_note [of u n v v'] show ?thesis by (intro extend) auto
  qed
qed

lemma write_grows:
  assumes "inv v" "do_write R a v = (e, v')" "rModules (abs v) \<subseteq> rModules (abs v')" "typed_op (abs v) a"
  shows "grows abs blobs valid v v'"
  using steps_from_write [OF steps_from_refl assms(2)] assms write_blobs [OF assms(2)] typed_write [OF assms(2,4)]
  by (simp add: grows_def archived_def content_inv_def)

lemma account_write:
  assumes "inv v" "do_write R a v = (e, v')" "account_op a" "typed_op (abs v) a"
  shows "inv v' \<and> grows abs blobs valid v v'"
  using account_inv [OF runs_to_write [where P = account_op, OF assms(2,3)] assms(1)] write_grows [OF assms(1,2) _ assms(4)] account_op_keeps(1) [OF assms(2,3)]
  by simp

lemma module_write:
  assumes "inv v" "Modules_Create (Modules R) m v = (e, v')" "\<And>d. valid (storage_key (mID m) (commit_id d))"
    and "typed_op (abs v) (ModuleCreate m)"
  shows "inv v' \<and> grows abs blobs valid v v'"
proof -
  have w: "do_write R (ModuleCreate m) v = (e, v')" using assms(2) by simp
  have "mVisibility m \<noteq> []" using assms(4) by auto
  then have eff: "abs v' = abs v \<or> abs v' = (abs v)\<lparr>rModules := insert m (rModules (abs v))\<rparr>"
    using write_failed [of "ModuleCreate m" v _ v'] modules_create [of m v v'] w by (cases e) auto
  then have same: "rCommits (abs v') = rCommits (abs v)" "rLabels (abs v') = rLabels (abs v)"
      "rModules (abs v) \<subseteq> rModules (abs v')" "keys_valid valid (abs v')"
    using assms(1,3) by (auto simp: content_inv_def keys_valid_def)
  have "inv v'"
  proof (rule content_inv_keep [OF assms(1)])
    show "registry_keys (abs v')"
      using steps_from_write [OF steps_from_refl w] assms(1) by (simp add: content_inv_def)
    show "ok v'" using assms(1) write_ok [OF w] by (simp add: content_inv_def)
  qed (simp_all add: same write_blobs [OF w])
  with write_grows [OF assms(1) w same(3) assms(4)] show ?thesis by blast
qed

lemma commit_write:
  assumes "inv v" "Commits_Create (Commits R) c v = (e, v')"
    and "cStorageKey c = storage_key (cModuleID c) (cID c)" "archived blobs valid (cModuleID c) (cID c) v"
    and "typed_op (abs v) (CommitCreate c)"
  shows "inv v' \<and> grows abs blobs valid v v' \<and> (e = None \<longrightarrow> has_commit (abs v') (cModuleID c) (cID c))"
proof -
  have w: "do_write R (CommitCreate c) v = (e, v')" using assms(2) by simp
  have keys: "registry_keys (abs v')" "ok v'"
    using steps_from_write [OF steps_from_refl w] write_ok [OF w] assms(1) by (simp_all add: content_inv_def)
  show ?thesis
  proof (cases e)
    case (Some x)
    then have eq: "abs v' = abs v" using write_failed w by blast
    have "inv v'" by (rule content_inv_keep [OF assms(1) keys write_blobs [OF w]]) (use assms(1) in \<open>simp_all add: eq content_inv_def\<close>)
    with write_grows [OF assms(1) w _ assms(5)] Some show ?thesis by (simp add: eq)
  next
    case None
    then have eq: "abs v' = (abs v)\<lparr>rCommits := insert c (rCommits (abs v))\<rparr>" using commits_create [of c v v'] assms(2) by simp
    have "labels_ok (abs v')" using assms(1) by (auto simp: content_inv_def labels_ok_def eq)
    moreover have "stored (blobs v) (abs v)" using assms(1) by (simp add: content_inv_def)
    then have "stored (blobs v') (abs v')"
      using assms(3,4) unfolding stored_def archived_def eq write_blobs [OF w] by (simp, metis)
    moreover have "keys_valid valid (abs v')" using assms by (auto simp: content_inv_def keys_valid_def archived_def eq)
    ultimately have "inv v'" using keys by (simp add: content_inv_def)
    with write_grows [OF assms(1) w _ assms(5)] show ?thesis by (auto simp: eq has_commit_def)
  qed
qed

lemma label_write:
  assumes "inv v" "Labels_Upsert (Labels R) l v = (e, v')" "has_commit (abs v) (lModuleID l) (lCommitID l)"
  shows "inv v' \<and> grows abs blobs valid v v'"
proof -
  have w: "do_write R (LabelUpsert l) v = (e, v')" using assms(2) by simp
  have keys: "registry_keys (abs v')" "ok v'"
    using steps_from_write [OF steps_from_refl w] write_ok [OF w] assms(1) by (simp_all add: content_inv_def)
  have "only_labels (abs v) (abs v') \<and> labels_ok (abs v')"
  proof (cases e)
    case (Some x)
    then have "abs v' = abs v" using write_failed w by blast
    then show ?thesis using assms(1) by (simp add: content_inv_def)
  next
    case None
    have "upsert_label l (rLabels (abs v)) (rLabels (abs v'))" "only_labels (abs v) (abs v')"
      using labels_upsert [of l v v'] assms(1,2) None by (auto simp: content_inv_def registry_keys_def only_labels_def)
    with upsert_labels_ok [OF _ this assms(3)] assms(1) show ?thesis by (simp add: content_inv_def)
  qed
  then have lab: "labels_ok (abs v')" and same: "only_labels (abs v) (abs v')" by blast+
  note same = only_labels_simps [OF same]
  have "stored (blobs v') (abs v') = stored (blobs v) (abs v)" "keys_valid valid (abs v') = keys_valid valid (abs v)"
    by (simp_all add: stored_def keys_valid_def same write_blobs [OF w])
  then have "inv v'" using keys lab assms(1) by (simp add: content_inv_def)
  with write_grows [OF assms(1) w] show ?thesis by (simp add: same)
qed

lemma blob_write:
  assumes "inv v" "m \<in> rModules (abs v)" "Store_Put S (storage_key (mID m) (commit_id d)) d v = (e, v')"
  shows "inv v' \<and> grows abs blobs valid v v' \<and> (e = None \<longrightarrow> archived blobs valid (mID m) (commit_id d) v')"
proof -
  note p = put_stored [OF assms]
  have v: "ok v" "valid (storage_key (mID m) (commit_id d))" using assms(1,2) by (auto simp: content_inv_def keys_valid_def)
  have "archived blobs valid mid cid v'" if a: "archived blobs valid mid cid v" for mid cid
  proof (cases "storage_key mid cid = storage_key (mID m) (commit_id d)")
    case True
    from a obtain d0 where d0: "blobs v (storage_key mid cid) d0" "commit_id d0 = cid" by (auto simp: archived_def)
    with True storage_key_inj [of mid d0 "mID m" d] have "cid = commit_id d" by simp
    with put_any [OF v assms(3)] d0 True v(2) show ?thesis by (auto simp: archived_def)
  next
    case False
    with a put_others [OF v _ False assms(3)] show ?thesis by (simp add: archived_def)
  qed
  then have "grows abs blobs valid v v'" by (simp add: grows_def p(2))
  with p v(2) show ?thesis by (auto simp: archived_def)
qed

abbreviation holds :: "('r \<Rightarrow> 'w \<Rightarrow> bool) \<Rightarrow> ('w, 'r) process \<Rightarrow> 'w \<Rightarrow> bool" where
  "holds \<equiv> good inv (grows abs blobs valid)"

lemma typed_stable:
  assumes "typed_op (abs w) a" "grows abs blobs valid w v"
  shows "typed_op (abs v) a"
  using assms(1) has_stable [OF assms(2)] by (cases a) auto

lemma account_tell:
  assumes "account_op a" "typed_op (abs w) a"
    and "\<And>v. inv v \<Longrightarrow> grows abs blobs valid w v \<Longrightarrow> holds Q (k True) v"
    and "\<And>v v'. inv v \<Longrightarrow> do_write R a v = (None, v') \<Longrightarrow> inv v' \<Longrightarrow> grows abs blobs valid w v' \<Longrightarrow> holds Q (k False) v'"
  shows "holds Q (tell (do_write R a) k) w"
proof (rule growth.good_tell)
  fix v e v'
  assume v: "inv v" "grows abs blobs valid w v" "do_write R a v = (e, v')"
  note w = account_write [OF v(1,3) assms(1) typed_stable [OF assms(2) v(2)] ]
  then have g: "grows abs blobs valid w v'" using growth.G_trans [OF v(2)] by blast
  show "inv v' \<and> grows abs blobs valid v v' \<and> holds Q (k (e \<noteq> None)) v'"
    using w g v assms(3) [of v'] assms(4) [of v v'] by (cases e) auto
qed

lemma account_ops:
  "account_op (UserCreate u)" "account_op (OrgCreate g)" "account_op (AddMember i j ro)" "account_op (RemoveMember i j)"
  "account_op (TokenCreate t)" "account_op (TokenRevoke i j)" "account_op (DeleteByUserAndNote i n)"
  by (simp_all add: account_op_def)

lemmas account_tells = account_ops [THEN account_tell, unfolded do_write.simps]

text \<open>Whoever may create modules under a name has made sure that the name belongs to somebody.\<close>

lemma create_check:
  assumes "casbin_sound enf"
    and "\<And>b v. inv v \<Longrightarrow> grows abs blobs valid w v \<Longrightarrow> (b \<Longrightarrow> has_owner (abs v) own) \<Longrightarrow> holds Q (k b) v"
  shows "holds Q (andThen (CanCreateModule_process (authorizer enf R) uid own) k) w"
proof -
  let ?P = "\<lambda>r v. r \<in> {Inr ''owner'', Inr ''org_admin''} \<longrightarrow> has_owner (abs v) own"
  have "holds ?P (resolveOwnerRole_process (authorizer enf R) uid own) w"
    by (auto simp: resolveOwnerRole_process_def Let_def intro!: growth.good_ask
        dest!: user_by_id.get_Ret org_by_name.get_Ret grows_registry split: fetch.splits)
       (blast intro: has_ownerI)+
  then have "holds (\<lambda>b v. b \<longrightarrow> has_owner (abs v) own) (CanCreateModule_process (authorizer enf R) uid own) w"
    unfolding CanCreateModule_process_def
  proof (rule growth.good_map_answer)
    fix r v v'
    assume "?P r v" "grows abs blobs valid v v'"
    then show "(case r of Inl _ \<Rightarrow> False | Inr role \<Rightarrow> enforce (authorizer enf R) role ''module'' ''create'') \<longrightarrow> has_owner (abs v') own"
      using enforce_sound [OF assms(1)] has_stable(3) by (fastforce simp: policy_rules_eq split: sum.splits)
  qed
  then show ?thesis by (rule growth.good_first) (rule assms(2), assumption+, blast)
qed

abbreviation known :: "User option \<Rightarrow> 'w \<Rightarrow> bool" where
  "known c w \<equiv> \<forall>u. c = Some u \<longrightarrow> u \<in> rUsers (abs w)"

lemma account_requests_hold:
  "holds (\<lambda>_ _. True) (login_process R B E body) w"
  "known c w \<Longrightarrow> holds (\<lambda>_ _. True) (createToken_process R E c note) w"
  "holds (\<lambda>_ _. True) (revokeToken_process R c i) w"
  "holds (\<lambda>_ _. True) (addMember_process enf R c org mb) w"
  "holds (\<lambda>_ _. True) (removeMember_process enf R c org un) w"
  by (auto simp: login_process_def createToken_process_def revokeToken_process_def addMember_process_def
      removeMember_process_def Let_def intro!: growth.good_ask growth.good_checks account_tells
      dest!: user_by_name.get_Ret org_by_name.get_Ret grows_registry split: option.splits fetch.splits)
     blast+

lemma module_tell:
  assumes "\<And>d. valid (storage_key (mID m) (commit_id d))" "typed_op (abs w) (ModuleCreate m)"
    and "\<And>v. inv v \<Longrightarrow> grows abs blobs valid w v \<Longrightarrow> holds Q (k True) v"
    and "\<And>v'. m \<in> rModules (abs v') \<Longrightarrow> inv v' \<Longrightarrow> grows abs blobs valid w v' \<Longrightarrow> holds Q (k False) v'"
  shows "holds Q (tell (Modules_Create (Modules R) m) k) w"
proof (rule growth.good_tell)
  fix v e v'
  assume v: "inv v" "grows abs blobs valid w v" "Modules_Create (Modules R) m v = (e, v')"
  note w = module_write [OF v(1,3) assms(1) typed_stable [OF assms(2) v(2)] ]
  then have g: "grows abs blobs valid w v'" using growth.G_trans [OF v(2)] by blast
  have "mVisibility m \<noteq> []" using assms(2) by auto
  then have "e = None \<Longrightarrow> m \<in> rModules (abs v')" using modules_create [of m v v'] v(3) by simp
  with w g assms(3) [of v'] assms(4) [of v'] show "inv v' \<and> grows abs blobs valid v v' \<and> holds Q (k (e \<noteq> None)) v'"
    by (cases e) auto
qed

lemma label_tell:
  assumes "has_commit (abs w) (lModuleID l) (lCommitID l)"
    and "\<And>v b. inv v \<Longrightarrow> grows abs blobs valid w v \<Longrightarrow> holds Q (k b) v"
  shows "holds Q (tell (Labels_Upsert (Labels R) l) k) w"
proof (rule growth.good_tell)
  fix v e v'
  assume v: "inv v" "grows abs blobs valid w v" "Labels_Upsert (Labels R) l v = (e, v')"
  note w = label_write [OF v(1,3) grows_commit [OF v(2) assms(1)]]
  then have "grows abs blobs valid w v'" using growth.G_trans [OF v(2)] by blast
  with w assms(2) show "inv v' \<and> grows abs blobs valid v v' \<and> holds Q (k (e \<noteq> None)) v'" by blast
qed

lemma responded_holds: "responded abs r w \<Longrightarrow> holds (responded abs) (Done r) w"
  using responded_stable by auto

lemma register_holds: "holds (responded abs) (register_process R openReg B salt E body) w"
  by (auto simp: register_process_def Let_def usernameRe_iff simp del: good.simps(1)
      intro!: growth.good_ask account_tells(1) responded_holds responded_created(1)
      split: option.splits fetch.splits sum.splits dest!: users_create)

lemma createOrg_holds: "known c w \<Longrightarrow> holds (responded abs) (createOrg_process R E c body) w"
  by (auto simp: createOrg_process_def Let_def usernameRe_iff simp del: good.simps(1)
      intro!: growth.good_ask account_tells(2,3) responded_holds responded_created(2)
      split: option.splits fetch.splits sum.splits dest!: orgs_create grows_registry)
     ((auto simp: has_defs)[2], rule bexI [rotated], assumption, simp)

lemma rest_createModule_holds:
  assumes "casbin_sound enf" "\<And>d. valid (storage_key (NewString E 0 0) (commit_id d))" "known c w"
  shows "holds (responded abs) (rest_createModule_process enf R E c body) w"
  by (auto simp: rest_createModule_process_def Let_def assms usernameRe_iff good_name_mono [of 3 _ 2] simp del: good.simps(1)
      intro!: growth.good_ask create_check module_tell responded_holds responded_created(3) dest!: grows_registry
      split: option.splits fetch.splits sum.splits)
     (auto simp: has_owner_def)

text \<open>The loops: every element that succeeded is reported as created.\<close>

abbreviation every :: "('y \<Rightarrow> 'w \<Rightarrow> bool) \<Rightarrow> connect_error + 'y list \<Rightarrow> 'w \<Rightarrow> bool" where
  "every P \<equiv> each (\<lambda>ys v. \<forall>y\<in>set ys. P y v)"

lemma each_done:
  assumes "each P r w" "\<And>y v v'. P y v \<Longrightarrow> grows abs blobs valid v v' \<Longrightarrow> P y v'"
  shows "holds (each P) (Done r) w"
  using assms by (cases r) auto

lemma loop_holds:
  assumes "\<And>j x v. grows abs blobs valid w v \<Longrightarrow> holds (each P) (body j x) v" "\<And>y v v'. P y v \<Longrightarrow> grows abs blobs valid v v' \<Longrightarrow> P y v'"
  shows "holds (every P) (loop body i xs []) w"
  by (rule growth.good_loop) (simp_all add: assms(1), rule assms(2))

abbreviation user_there :: "proto_user \<Rightarrow> 'w \<Rightarrow> bool" where
  "user_there p w \<equiv> \<exists>u\<in>rUsers (abs w). p = userToProto u"
abbreviation org_there :: "proto_org \<Rightarrow> 'w \<Rightarrow> bool" where
  "org_there p w \<equiv> \<exists>g\<in>rOrgs (abs w). p = orgToProto g"
abbreviation module_there :: "proto_module \<Rightarrow> 'w \<Rightarrow> bool" where
  "module_there p w \<equiv> \<exists>m\<in>rModules (abs w). \<exists>oid. p = moduleToProto m oid"
abbreviation commit_there :: "proto_commit \<Rightarrow> 'w \<Rightarrow> bool" where
  "commit_there p w \<equiv> has_commit (abs w) (pc_module_id p) (pc_id p) \<and> archived blobs valid (pc_module_id p) (pc_id p) w"

lemma there_stable:
  "user_there pu v \<Longrightarrow> grows abs blobs valid v v' \<Longrightarrow> user_there pu v'"
  "org_there po v \<Longrightarrow> grows abs blobs valid v v' \<Longrightarrow> org_there po v'"
  "module_there pm v \<Longrightarrow> grows abs blobs valid v v' \<Longrightarrow> module_there pm v'"
  "commit_there pc v \<Longrightarrow> grows abs blobs valid v v' \<Longrightarrow> commit_there pc v'"
  using reported_stable [of abs blobs valid "AnsUsers [pu]" v v'] reported_stable [of abs blobs valid "AnsOrganizations [po]" v v']
    reported_stable [of abs blobs valid "AnsModules [pm]" v v'] reported_stable [of abs blobs valid "AnsCommits [pc]" v v']
  by simp_all

lemma each_there_done:
  "each user_there ru w \<Longrightarrow> holds (each user_there) (Done ru) w"
  "each org_there ro w \<Longrightarrow> holds (each org_there) (Done ro) w"
  "each module_there rm w \<Longrightarrow> holds (each module_there) (Done rm) w"
  "each commit_there rc w \<Longrightarrow> holds (each commit_there) (Done rc) w"
  by (erule each_done, rule there_stable, assumption+)+

lemma CreateUsers_holds: "holds (every user_there) (CreateUsers_process R openReg E ns) w"
proof -
  have "holds (each user_there) (createUser_process R E j n) v" for j n v
    by (auto simp: createUser_process_def Let_def nameRe_iff simp del: good.simps(1)
        intro!: growth.good_ask account_tells(1) each_there_done(1)
        split: fetch.splits dest!: users_create)
  then have "holds (every user_there) (loop (createUser_process R E) 0 ns []) w"
    by (rule loop_holds) (rule there_stable(1))
  then show ?thesis by (simp add: CreateUsers_process_def)
qed

lemma CreateOrganizations_holds:
  assumes "known c w"
  shows "holds (every org_there) (CreateOrganizations_process R E c ns) w"
proof -
  have "holds (each org_there) (createOrganization_process R E u j n) v" if "u \<in> rUsers (abs v)" for u j n v
    using that
    by (auto simp: createOrganization_process_def Let_def nameRe_iff simp del: good.simps(1)
        intro!: growth.good_ask account_tells(2,3) each_there_done(2)
        split: fetch.splits dest!: orgs_create grows_registry)
       ((auto simp: has_defs)[2], rule bexI [rotated], assumption, simp)
  note one = this
  have "holds (every org_there) (loop (createOrganization_process R E u) 0 ns []) w" if "u \<in> rUsers (abs w)" for u
    by (rule loop_holds, rule one, erule still_there(1), rule that, rule there_stable(2))
  with assms show ?thesis by (simp add: CreateOrganizations_process_def split: option.splits)
qed

lemma CreateModules_holds:
  assumes "casbin_sound enf" "\<And>i d. valid (storage_key (NewString E i 0) (commit_id d))"
  shows "holds (every module_there) (CreateModules_process enf R E c vs) w"
proof -
  have "holds (each module_there) (createModule_process enf R E u j x) v" for u j x v
    by (auto simp: createModule_process_def Let_def assms simp del: good.simps(1) typed_op.simps(4)
        intro!: growth.good_ask create_check module_tell each_there_done(3) split: fetch.splits dest!: grows_registry)
       (auto simp: has_owner_def)
  then have "holds (every module_there) (loop (createModule_process enf R E u) 0 vs []) w" for u
    by (rule loop_holds) (rule there_stable(3))
  then show ?thesis by (simp add: CreateModules_process_def split: option.splits)
qed

lemma CreateOrUpdateLabels_holds: "holds (\<lambda>_ _. True) (CreateOrUpdateLabels_process enf R E c vs) w"
proof -
  have "holds (each (\<lambda>_ _. True)) (createOrUpdateLabel_process enf R E u j x) v" for u j x v
    by (auto simp: createOrUpdateLabel_process_def Let_def has_commit_def
        intro!: growth.good_ask growth.good_checks label_tell split: option.splits label_ref.splits fetch.splits sum.splits
        dest!: commit_by_id.get_Ret [of "(mi, ci)" for mi ci, simplified] intro!: bexI)
  then have "holds (every (\<lambda>_ _. True)) (loop (createOrUpdateLabel_process enf R E u) 0 vs []) w" for u
    by (rule loop_holds) simp
  then have "holds (\<lambda>_ _. True) (loop (createOrUpdateLabel_process enf R E u) 0 vs []) w" for u
    by (rule growth.good_weaken) simp
  then show ?thesis by (simp add: CreateOrUpdateLabels_process_def split: option.splits)
qed

text \<open>Publishing: archive, then commit, then labels, each resting on what the one before has left for good.\<close>

lemma blob_tell:
  assumes "m \<in> rModules (abs w)"
    and "\<And>v. inv v \<Longrightarrow> grows abs blobs valid w v \<Longrightarrow> holds Q (k True) v"
    and "\<And>v. archived blobs valid (mID m) (commit_id d) v \<Longrightarrow> grows abs blobs valid w v \<Longrightarrow> holds Q (k False) v"
  shows "holds Q (tell (Store_Put S (storage_key (mID m) (commit_id d)) d) k) w"
proof (rule growth.good_tell)
  fix v e v'
  assume v: "inv v" "grows abs blobs valid w v" "Store_Put S (storage_key (mID m) (commit_id d)) d v = (e, v')"
  have "m \<in> rModules (abs v)" using grows_registry [OF v(2)] assms(1) by blast
  note w = blob_write [OF v(1) this v(3)]
  then have g: "grows abs blobs valid w v'" using growth.G_trans [OF v(2)] by blast
  from w g assms(2) [of v'] assms(3) [of v'] show "inv v' \<and> grows abs blobs valid v v' \<and> holds Q (k (e \<noteq> None)) v'"
    by (cases e) auto
qed

lemma commit_tell:
  assumes "cStorageKey c = storage_key (cModuleID c) (cID c)" "archived blobs valid (cModuleID c) (cID c) w"
    and "typed_op (abs w) (CommitCreate c)" "\<And>v. holds Q (k True) v"
    and "\<And>v. has_commit (abs v) (cModuleID c) (cID c) \<Longrightarrow> grows abs blobs valid w v \<Longrightarrow> holds Q (k False) v"
  shows "holds Q (tell (Commits_Create (Commits R) c) k) w"
proof (rule growth.good_tell)
  fix v e v'
  assume v: "inv v" "grows abs blobs valid w v" "Commits_Create (Commits R) c v = (e, v')"
  have "archived blobs valid (cModuleID c) (cID c) v" using assms(2) v(2) by (simp add: grows_def)
  note w = commit_write [OF v(1,3) assms(1) this typed_stable [OF assms(3) v(2)] ]
  then have g: "grows abs blobs valid w v'" using growth.G_trans [OF v(2)] by blast
  from w g assms(4) [of v'] assms(5) [of v'] show "inv v' \<and> grows abs blobs valid v v' \<and> holds Q (k (e \<noteq> None)) v'"
    by (cases e) auto
qed

lemma labels_holds:
  assumes "has_commit (abs w) (mID m) (commit_id d)" "archived blobs valid (mID m) (commit_id d) w"
  shows "holds (each commit_there) (labels_process R E caller i m d ns now) w"
proof -
  let ?body = "upsertLabel_process R E i (mID m) (commit_id d) now"
  have there: "has_commit (abs v) (mID m) (commit_id d) \<and> archived blobs valid (mID m) (commit_id d) v"
    if "grows abs blobs valid w v" for v
    using assms grows_commit [OF that] that by (simp add: grows_def)
  have "holds (each (\<lambda>_ _. True)) (?body j n) v" if "grows abs blobs valid w v" for j n v
    unfolding upsertLabel_process_def Let_def by (rule label_tell) (simp_all add: there [OF that] split: sum.splits)
  then have "holds (every (\<lambda>_ _. True)) (loop ?body 0 ns []) w" by (intro growth.good_loop) simp_all
  from growth.good_since [OF this growth.G_refl] show ?thesis
    unfolding labels_process_def
    by (intro growth.good_andThen, elim growth.good_weaken,
        auto simp: there simp del: good.simps(1) intro!: growth.good_ask each_there_done(4) split: sum.splits,
        (blast dest: there [OF growth.G_trans])+)
qed

lemma publish_holds:
  assumes "m \<in> rModules (abs w)" "caller \<in> rUsers (abs w)"
  shows "holds (each commit_there) (publish_process R S E caller i m d ns) w"
proof -
  have read: "has_commit (abs v) (mID m) (commit_id d)"
    if "fetch_ptr (Commits_GetByID (Commits R) (mID m) (commit_id d) v) = Some c" for v c
    using that commit_nil commit_by_id.get_Ret [of "(mID m, commit_id d)" v c]
    by (cases "Commits_GetByID (Commits R) (mID m) (commit_id d) v") (fastforce simp: has_commit_def)+
  have arch: "archived blobs valid mid cid v' " if "archived blobs valid mid cid v" "grows abs blobs valid v v'" for mid cid v v'
    using that by (simp add: grows_def)
  show ?thesis
    unfolding publish_process_def Let_def storage_key_def [symmetric]
    by (rule blob_tell [OF assms(1)],
        auto simp: storage_key_def [symmetric] simp del: good.simps(1)
         intro!: growth.good_ask commit_tell each_there_done(4) labels_holds split: option.splits,
        (blast intro: still_there assms | blast intro: arch growth.G_trans dest: read)+)
qed

lemma Upload_holds:
  assumes "known c w"
  shows "holds (every commit_there) (Upload_process enf R S Z E c cs) w"
proof -
  have "holds (each commit_there) (uploadContent_process enf R S Z E u j x) v" if "u \<in> rUsers (abs v)" for u j x v
    using that
    by (auto simp: uploadContent_process_def simp del: good.simps(1)
        intro!: growth.good_ask growth.good_checks each_there_done(4) publish_holds
        split: option.splits module_ref.splits fetch.splits sum.splits
        dest!: mod_by_name.get_Ret [of "(own, nm)" for own nm, simplified])
       (blast intro: still_there)+
  note one = this
  have "holds (every commit_there) (loop (uploadContent_process enf R S Z E u) 0 cs []) w" if "u \<in> rUsers (abs w)" for u
    by (rule loop_holds, rule one, erule still_there(1), rule that, rule there_stable(4))
  with assms show ?thesis by (simp add: Upload_process_def split: option.splits)
qed

end

section \<open>Whole requests\<close>

fun creating :: "rpc \<Rightarrow> bool" where
  "creating (RpcCreateUsers _) \<longleftrightarrow> True"
| "creating (RpcCreateOrganizations _) \<longleftrightarrow> True"
| "creating (RpcCreateModules _) \<longleftrightarrow> True"
| "creating (RpcUpload _) \<longleftrightarrow> True"
| "creating _ \<longleftrightarrow> False"

definition creates_something :: "request \<Rightarrow> bool" where
  "creates_something rq \<longleftrightarrow>
     (case target rq of
        Rpc p \<Rightarrow> creating p
      | Rest q \<Rightarrow>
          (case find_route routes (Method q) (Path q) of
             None \<Rightarrow> False
           | Some (ep, _) \<Rightarrow> ep \<in> {EpRegister, EpCreateOrg, EpCreateModule}))"

text \<open>What the outcome of such a request lets its client rely on from then on.\<close>

definition kept ::
  "('w \<Rightarrow> Registry) \<Rightarrow> ('w \<Rightarrow> string \<Rightarrow> bytes \<Rightarrow> bool) \<Rightarrow> (string \<Rightarrow> bool) \<Rightarrow> request \<Rightarrow> 'fd outcome \<Rightarrow> 'w \<Rightarrow> bool" where
  "kept reg blobs valid rq oc w \<longleftrightarrow>
     creates_something rq \<longrightarrow>
     (case oc of
        Answered (Inr a) \<Rightarrow> reported reg blobs valid a w
      | Responded r \<Rightarrow> responded reg r w
      | _ \<Rightarrow> True)"

lemma kept_stable:
  "kept reg blobs valid rq oc w \<Longrightarrow> grows reg blobs valid w w' \<Longrightarrow> kept reg blobs valid rq oc w'"
  by (auto simp: kept_def intro: reported_stable responded_stable split: outcome.splits sum.splits)

definition event_kept ::
  "('w \<Rightarrow> Registry) \<Rightarrow> ('w \<Rightarrow> string \<Rightarrow> bytes \<Rightarrow> bool) \<Rightarrow> (string \<Rightarrow> bool) \<Rightarrow> event \<Rightarrow> 'fd outcome \<Rightarrow> 'w \<Rightarrow> bool" where
  "event_kept reg blobs valid e oc w \<longleftrightarrow> (case e of Arrive rq \<Rightarrow> kept reg blobs valid rq oc w | MinuteTick \<Rightarrow> True)"

locale server_in_flight = server_on R abs S blobs valid ok V
  for R :: "'w Repos" and abs :: "'w \<Rightarrow> Registry" and S :: "'w Store"
    and blobs :: "'w \<Rightarrow> string \<Rightarrow> bytes \<Rightarrow> bool" and valid :: "string \<Rightarrow> bool" and ok :: "'w \<Rightarrow> bool" and V :: "('w, 'fd) server" +
  assumes casbin: "casbin_sound (sv_casbin V)"
begin

lemma read_holds: "asks_only p \<Longrightarrow> (\<And>r v. Q r v) \<Longrightarrow> holds Q p w"
  by (rule growth.good_weaken [OF growth.good_asks_only]) simp_all

lemma rpc_holds:
  assumes "\<And>i d. valid (storage_key (NewString E i 0) (commit_id d))" "known c w"
  shows "holds (each (\<lambda>a v. creating p \<longrightarrow> reported abs blobs valid a v)) (rpc_process V E p c) w"
proof -
  have m: "holds (each Q) (map_answer (map_sum id f) p) w"
    if "holds (each P) p w" "\<And>y v v'. P y v \<Longrightarrow> grows abs blobs valid v v' \<Longrightarrow> Q (f y) v'" for P Q f p
  proof (rule growth.good_map_answer [OF that(1)])
    show "each Q (map_sum id f r) v'" if "each P r v" "grows abs blobs valid v v'" for r v v'
      using that \<open>\<And>y v v'. P y v \<Longrightarrow> grows abs blobs valid v v' \<Longrightarrow> Q (f y) v'\<close> by (cases r) auto
  qed
  have t: "each (\<lambda>_ _. True) r v" for r v by (cases r) simp_all
  then have r: "asks_only p \<Longrightarrow> holds (each (\<lambda>_ _. True)) (map_answer f p) w" for f p
    by (intro read_holds asks_only_andThen) simp_all
  have l: "holds (each (\<lambda>_ _. True)) (CreateOrUpdateLabels_process enf R E c vs) w" for enf vs
    using t by (intro growth.good_weaken [OF CreateOrUpdateLabels_holds])
  show ?thesis
  proof (cases p)
    case (RpcCreateOrganizations ns)
    then show ?thesis
      by (simp add: uses_repos, intro m [OF CreateOrganizations_holds [OF assms(2)]]) (simp, blast intro: there_stable(2))
  next
    case (RpcCreateUsers ns)
    then show ?thesis
      by (simp add: uses_repos, intro m [OF CreateUsers_holds]) (simp, blast intro: there_stable(1))
  next
    case (RpcCreateModules vs)
    then show ?thesis
      by (simp add: uses_repos, intro m [OF CreateModules_holds [OF casbin assms(1)]]) (simp, blast intro: there_stable(3))
  next
    case (RpcUpload cs)
    then show ?thesis
      by (simp add: uses_repos uses_store, intro m [OF Upload_holds [OF assms(2)]]) (erule reported_stable [rotated], simp)
  qed (simp_all add: uses_repos uses_store t r connect_reads_ask_only m [OF l])
qed

lemma endpoint_holds:
  assumes "\<And>i d. valid (storage_key (NewString E i 0) (commit_id d))" "known c w"
  shows "holds (\<lambda>r v. ep \<in> {EpRegister, EpCreateOrg, EpCreateModule} \<longrightarrow> responded abs r v)
     (endpoint_process V salt E q ep pv c) w"
proof -
  have r: "asks_only p \<Longrightarrow> holds (\<lambda>_ _. True) p w" for p by (rule read_holds) simp_all
  show ?thesis
    by (cases ep)
       (simp_all add: uses_repos uses_store r rest_reads_ask_only account_requests_hold register_holds createOrg_holds rest_createModule_holds casbin assms)
qed

lemma authentication_holds:
  "known c w \<Longrightarrow> holds known (Middleware_process R now header c) w"
  "known c w \<Longrightarrow> holds (each known) (Interceptor_process R now header c) w"
  by (auto simp: Middleware_process_def Interceptor_process_def Let_def intro!: growth.good_ask
      dest!: user_by_id.get_Ret grows_registry split: fetch.splits)
     blast+

lemma mux_holds:
  assumes v: "\<And>i d. valid (storage_key (NewString (handler_env rq) i 0) (commit_id d))"
    and c: "known c w"
  shows "holds (kept abs blobs valid rq) (mux_process V rq c) w"
proof (cases "target rq")
  case (Rpc p)
  have "holds (kept abs blobs valid rq) (map_answer Answered (rpc_process V (handler_env rq) p c')) w"
    if "known c' w" for c' w
  proof (rule growth.good_map_answer [OF rpc_holds [OF v that]])
    fix r :: "connect_error + 'fd rpc_answer" and x x'
    assume "each (\<lambda>a v. creating p \<longrightarrow> reported abs blobs valid a v) r x" "grows abs blobs valid x x'"
    then show "kept abs blobs valid rq (Answered r) x'"
      using Rpc reported_stable by (cases r) (fastforce simp: kept_def creates_something_def)+
  qed
  moreover have "kept abs blobs valid rq (Answered (Inl e) :: 'fd outcome) w" for e w
    by (simp add: kept_def)
  ultimately show ?thesis
    unfolding mux_process_def Rpc call.case uses_repos
    by (intro growth.good_andThen, intro growth.good_weaken [OF authentication_holds(2) [OF c]]) (fastforce split: sum.splits)
next
  case (Rest q)
  show ?thesis
  proof (cases "find_route routes (Method q) (Path q)")
    case None
    then show ?thesis by (simp add: mux_process_def Rest kept_def creates_something_def)
  next
    case (Some ev)
    obtain ep vals where ev: "ev = (ep, vals)" by fastforce
    have "holds (kept abs blobs valid rq)
        (map_answer Responded (endpoint_process V (salt_of rq) (handler_env rq) q ep (PathValue vals) c)) w"
      by (rule growth.good_map_answer [OF endpoint_holds [OF v c]])
         (use Rest Some ev responded_stable in \<open>fastforce simp: kept_def creates_something_def\<close>)
    then show ?thesis by (simp add: mux_process_def Rest Some ev)
  qed
qed

text \<open>The limiter is part of the state of a pool, and of its invariant.\<close>

abbreviation pool_inv :: "rateLimiter \<times> 'w \<Rightarrow> bool" where
  "pool_inv \<equiv> \<lambda>(rl, w). rl_inv rl \<and> inv w"

abbreviation pool_grows :: "rateLimiter \<times> 'w \<Rightarrow> rateLimiter \<times> 'w \<Rightarrow> bool" where
  "pool_grows \<equiv> \<lambda>s t. grows abs blobs valid (snd s) (snd t)"

sublocale pool: interference pool_inv pool_grows
  by unfold_locales (auto intro: growth.G_trans)

lemma event_holds:
  assumes "\<And>rq i d. e = Arrive rq \<Longrightarrow> valid (storage_key (NewString (handler_env rq) i 0) (commit_id d))"
  shows "good pool_inv pool_grows (\<lambda>oc s. event_kept abs blobs valid e oc (snd s)) (event_process V e) s"
proof (cases e)
  case (Arrive rq)
  let ?p = "andThen (Middleware_process R (clock rq 0) (Authorization rq) None) (mux_process V rq)"
  have "holds (kept abs blobs valid rq) ?p w" for w
    by (intro growth.good_andThen, rule growth.good_weaken [OF authentication_holds(1)])
       (simp_all add: mux_holds assms Arrive)
  then have "good pool_inv pool_grows (\<lambda>oc s. kept abs blobs valid rq oc (snd s)) (on_snd ?p) (rl, w)" for rl w
    by (rule good_on_snd) simp
  moreover have "kept abs blobs valid rq (Responded too_many_requests :: 'fd outcome) w" for w
    by (simp add: kept_def responded_def too_many_requests_def)
  ultimately show ?thesis
    by (auto simp: Arrive request_process_def uses_repos event_kept_def allow_inv)
next
  case MinuteTick
  then show ?thesis by (auto simp: tick_process_def event_kept_def rl_inv_def cleanup_def)
qed

lemma in_flight_safe:
  assumes "pool_step\<^sup>*\<^sup>* (in_flight V es, (rl, w)) (ps, (rl', w'))" "inv w" "rl_inv rl"
    and "\<And>rq i d. Arrive rq \<in> set es \<Longrightarrow> valid (storage_key (NewString (handler_env rq) i 0) (commit_id d))"
  shows "inv w' \<and> rl_inv rl' \<and> grows abs blobs valid w w' \<and>
    (\<forall>i < length es. \<forall>oc. ps ! i = Done oc \<longrightarrow> event_kept abs blobs valid (es ! i) oc w')"
proof -
  let ?Q = "\<lambda>i oc s. event_kept abs blobs valid (es ! i) oc (snd s)"
  have "pool_inv (rl', w') \<and> pool_grows (rl, w) (rl', w') \<and>
      (\<forall>i < length ps. good pool_inv pool_grows (?Q i) (ps ! i) (rl', w'))"
  proof (rule pool.pool_good [OF assms(1)])
    fix i
    assume i: "i < length (in_flight V es)"
    then have "es ! i \<in> set es" by (simp add: in_flight_def)
    then have "good pool_inv pool_grows (?Q i) (event_process V (es ! i)) (rl, w)"
      by (intro event_holds) (use assms(4) in auto)
    with i show "good pool_inv pool_grows (?Q i) (in_flight V es ! i) (rl, w)" by (simp add: in_flight_def)
  qed (use assms(2,3) in simp)
  moreover have "length ps = length es" using pool_length [OF assms(1)] by (simp add: in_flight_def)
  ultimately show ?thesis by (fastforce intro: growth.G_refl)
qed

end

section \<open>Properties of the server under concurrency\<close>

lemma local_server_on:
  fixes V :: "('z World_scheme, 'fd) server"
  assumes "gorm_db G" "casbin_sound enf" "local_ok holding s" "sv_repos V = sql_repos enf G" "sv_store V = NewLocalStore s"
  shows "server_on (sql_repos enf G) sql_abs (NewLocalStore s) (holding (local_blobs s)) valid_key (\<lambda>w. fs_ok (w_fs w)) V"
  by (rule server_on.intro [OF sql_local_backend [OF assms(1-3)]]) (unfold_locales, simp_all add: assms)

lemma local_server_in_flight:
  fixes V :: "('z World_scheme, 'fd) server"
  assumes "gorm_db G" "casbin_sound enf" "local_ok holding s" "sv_repos V = sql_repos enf G" "sv_casbin V = enf" "sv_store V = NewLocalStore s"
  shows "server_in_flight (sql_repos enf G) sql_abs (NewLocalStore s) (holding (local_blobs s)) valid_key (\<lambda>w. fs_ok (w_fs w)) V"
  by (rule server_in_flight.intro [OF local_server_on [OF assms(1-4,6)]]) (unfold_locales, simp add: assms(2,5))

text \<open>
  C3. Requests in flight at the same time do no harm. On SQL and the local store, whatever requests are in flight, in
  whatever order their calls are served and whichever database or Casbin calls fail, after every call labels point at
  commits, commits at files of their archives, keys are unique and the limiter's table is bounded; no account, organization, module or
  commit is lost; and what a finished request reported as created (accounts, organizations, modules, commits with
  the files of their archives) is there. On a disk that cuts no write short (\<open>whole\<close>) the file of a commit is the content its id is
  the digest of; on any disk (\<open>partial\<close>) it is that content or a beginning of it, for a push of content that is there
  writes the file again and the disk may be full by then. One call of a repository or of the store is one step.
\<close>

theorem concurrent_requests:
  fixes w :: "'z World_scheme" and V :: "('z World_scheme, 'fd) server"
  assumes "gorm_db G" "casbin_sound enf" "local_ok holding s" "sv_repos V = sql_repos enf G"
    and "sv_casbin V = enf" "sv_store V = NewLocalStore s"
    and "content_inv sql_abs (holding (local_blobs s)) valid_key (\<lambda>w. fs_ok (w_fs w)) w"
    and "\<forall>rq i. Arrive rq \<in> set es \<longrightarrow> plain (NewString (handler_env rq) i 0)"
    and "pool_step\<^sup>*\<^sup>* (in_flight V es, (main_limiter, w)) (ps, (rl', w'))"
  shows "content_inv sql_abs (holding (local_blobs s)) valid_key (\<lambda>w. fs_ok (w_fs w)) w' \<and> rl_inv rl' \<and>
    reg_step\<^sup>*\<^sup>* (sql_abs w) (sql_abs w') \<and> rUsers (sql_abs w) \<subseteq> rUsers (sql_abs w') \<and>
    rOrgs (sql_abs w) \<subseteq> rOrgs (sql_abs w') \<and> rModules (sql_abs w) \<subseteq> rModules (sql_abs w') \<and>
    rCommits (sql_abs w) \<subseteq> rCommits (sql_abs w') \<and>
    (\<forall>i < length es. \<forall>rq oc. es ! i = Arrive rq \<and> ps ! i = Done oc \<longrightarrow>
       kept sql_abs (holding (local_blobs s)) valid_key rq oc w')"
proof -
  note V = local_server_in_flight [OF assms(1-6)]
  have "rl_inv main_limiter" by (simp add: main_limiter_def newRateLimiter_inv)
  from server_in_flight.in_flight_safe [OF V assms(9,7) this] assms(8) storage_key_valid
  have "content_inv sql_abs (holding (local_blobs s)) valid_key (\<lambda>w. fs_ok (w_fs w)) w' \<and> rl_inv rl' \<and>
      grows sql_abs (holding (local_blobs s)) valid_key w w' \<and>
      (\<forall>i < length es. \<forall>oc. ps ! i = Done oc \<longrightarrow> event_kept sql_abs (holding (local_blobs s)) valid_key (es ! i) oc w')"
    by blast
  then show ?thesis using grows_registry [of sql_abs "holding (local_blobs s)" valid_key w w']
    by (auto simp: grows_def event_kept_def)
qed

text \<open>Two uploads of the same file and a tick of the clock, their calls taken in turns, on a disk that takes 100 bytes of a write.\<close>

theorem concurrent_requests_witness:
  "content_inv sql_abs (partial (local_blobs small_disk)) valid_key (\<lambda>w. fs_ok (w_fs w))
     (snd (snd (run_pool [0, 1, 0, 1, 2, 1, 0, 1, 0]
       (in_flight (demo_server (NewLocalStore small_disk))
          [Arrive (demo_request '''' (Rpc (RpcUpload [demo_content]))),
           Arrive (demo_request ''Bearer x'' (Rpc (RpcUpload [demo_content]))), MinuteTick], (main_limiter, demo_world)))))"
proof -
  let ?V = "demo_server (NewLocalStore small_disk)"
  let ?es = "[Arrive (demo_request '''' (Rpc (RpcUpload [demo_content]))),
      Arrive (demo_request ''Bearer x'' (Rpc (RpcUpload [demo_content]))), MinuteTick]"
  let ?r = "run_pool [0, 1, 0, 1, 2, 1, 0, 1, 0] (in_flight ?V ?es, (main_limiter, demo_world))"
  have ids: "\<forall>rq i. Arrive rq \<in> set ?es \<longrightarrow> plain (NewString (handler_env rq) i 0)"
    using demo_ids_plain by (auto simp: demo_request_def)
  have run: "pool_step\<^sup>*\<^sup>* (in_flight ?V ?es, (main_limiter, demo_world)) (fst ?r, (fst (snd ?r), snd (snd ?r)))"
    unfolding prod.collapse by (rule run_pool_steps)
  show ?thesis
    using concurrent_requests [where holding = partial, OF list_db.gorm_db_axioms casbin_matches_sound [OF policy_enforcer_matches] small_disk_ok
        demo_server_simps(1,5,2) small_disk_inv ids run] by blast
qed





text \<open>Two requests for the account \<^verbatim>\<open>carol\<close> on an open server, their calls taken in turns: the second is told that the name is taken.\<close>

definition open_server :: "(World, nat) server" where
  "open_server = demo_server (NewLocalStore default_local)\<lparr>sv_openReg := True\<rparr>"

definition carol_request :: "string \<Rightarrow> request" where
  "carol_request i = demo_request '''' (Rpc (RpcCreateUsers [''carol'']))
     \<lparr>handler_env := demo_env\<lparr>NewString := (\<lambda>_ _. i)\<rparr>\<rparr>"

definition carol :: "string \<Rightarrow> User" where
  "carol i = \<lparr>uID = i, uUsername = ''carol'', uPasswordHash = [], uCreatedAt = 1000\<rparr>"

definition carol_world :: World where
  "carol_world = demo_world\<lparr>sq_users := sq_users demo_world @ [userFromModel (carol ''c1'')]\<rparr>"

lemma open_server_simps [simp]:
  "sv_repos open_server = sql_repos policy_enforcer list_gorm" "sv_store open_server = NewLocalStore default_local"
  "sv_openReg open_server" "sv_casbin open_server = policy_enforcer"
  by (simp_all add: open_server_def demo_server_def)

lemma carol_db:
  "Users_Create (Users (sql_repos policy_enforcer list_gorm)) (carol ''c1'') demo_world = (None, carol_world)"
  "\<exists>e. Users_Create (Users (sql_repos policy_enforcer list_gorm)) (carol ''c2'') carol_world = (Some e, carol_world)"
  "\<exists>x. Users_GetByUsername (Users (sql_repos policy_enforcer list_gorm)) ''carol'' carol_world = Ret x"
  by (simp_all add: sql_repos_def DB_Repos_def UserStore_def store_defs list_gorm_def list_engine_def carol_def carol_world_def
      user_clash_def userFromModel_def demo_db_def sql_first_def list_first_def list_find_def query_defs)

lemma carol_run:
  "\<exists>ps rl. run_pool [0, 1, 0, 1, 1]
      (in_flight open_server [Arrive (carol_request ''c1''), Arrive (carol_request ''c2'')], (main_limiter, demo_world)) =
      (ps, (rl, carol_world)) \<and>
    ps ! 0 = Done (Answered (Inr (AnsUsers [userToProto (carol ''c1'')]))) \<and>
    ps ! 1 = Done (Answered (Inl (ConnectError CodeAlreadyExists ''user already exists: carol'')))"
proof -
  have n: "nameRe ''carol''" unfolding nameRe_iff by code_simp
  obtain e x where "Users_Create (Users (sql_repos policy_enforcer list_gorm)) (carol ''c2'') carol_world = (Some e, carol_world)"
    "Users_GetByUsername (Users (sql_repos policy_enforcer list_gorm)) ''carol'' carol_world = Ret x"
    using carol_db(2,3) by blast
  note db = carol_db(1) [unfolded carol_def] this [unfolded carol_def]
  show ?thesis
    by (simp add: in_flight_def request_process_def Middleware_process_def Interceptor_process_def mux_process_def
        carol_request_def demo_request_def ExtractBearer_def TrimPrefix_def HasPrefix_def CreateUsers_process_def
        createUser_process_def n Let_def carol_def demo_env_def tell_def ask_def
        allow_def main_limiter_def newRateLimiter_def token_count_def db)
qed


text \<open>
  C8. What is stored stays well-formed and refers to what is there. On SQL and the local store, whatever requests are in
  flight, in whatever order their calls are served and whatever fails, names obey the rules of the registry, roles, visibilities and
  owner types are among the constants of the program, tokens are stored as hashes only, and every membership, module, commit and
  token belongs to users, organizations and modules that exist.
\<close>

theorem stored_values_well_formed:
  fixes w :: "'z World_scheme" and V :: "('z World_scheme, 'fd) server"
  assumes "gorm_db G" "casbin_sound enf" "local_ok holding s" "sv_repos V = sql_repos enf G"
    and "sv_casbin V = enf" "sv_store V = NewLocalStore s"
    and "content_inv sql_abs (holding (local_blobs s)) valid_key (\<lambda>w. fs_ok (w_fs w)) w" "registry_well_formed (sql_abs w)"
    and "\<forall>rq i. Arrive rq \<in> set es \<longrightarrow> plain (NewString (handler_env rq) i 0)"
    and "pool_step\<^sup>*\<^sup>* (in_flight V es, (main_limiter, w)) (ps, (rl', w'))"
  shows "registry_well_formed (sql_abs w')"
proof -
  have "rl_inv main_limiter" by (simp add: main_limiter_def newRateLimiter_inv)
  from server_in_flight.in_flight_safe [OF local_server_in_flight [OF assms(1-6)] assms(10,7) this] assms(9) storage_key_valid
  have "grows sql_abs (holding (local_blobs s)) valid_key w w'" by blast
  with assms(8) show ?thesis by (simp add: grows_def)
qed

lemma demo_well_formed: "registry_well_formed (sql_abs demo_world)"
proof -
  have n: "good_name 3 ''alice''" "good_name 3 ''bob''" "good_name 3 ''acme''" "good_name 2 ''api''" by code_simp+
  show ?thesis
    by (simp add: registry_well_formed_def values_ok_def references_ok_def has_defs demo_world_abs demo_defs n)
qed

theorem stored_values_well_formed_witness: "registry_well_formed (sql_abs carol_world)"
proof -
  let ?es = "[Arrive (carol_request ''c1''), Arrive (carol_request ''c2'')]"
  obtain ps rl where run: "run_pool [0, 1, 0, 1, 1] (in_flight open_server ?es, (main_limiter, demo_world)) = (ps, (rl, carol_world))"
    using carol_run by blast
  have steps: "pool_step\<^sup>*\<^sup>* (in_flight open_server ?es, (main_limiter, demo_world)) (ps, (rl, carol_world))"
    using run_pool_steps [of "(in_flight open_server ?es, (main_limiter, demo_world))" "[0, 1, 0, 1, 1]"] run by simp
  have ids: "\<forall>rq i. Arrive rq \<in> set ?es \<longrightarrow> plain (NewString (handler_env rq) i 0)"
    by (auto simp: carol_request_def plain_def)
  show ?thesis
    by (rule stored_values_well_formed [where holding = whole, OF list_db.gorm_db_axioms casbin_matches_sound [OF policy_enforcer_matches]
          default_local_ok(1) open_server_simps(1,4,2) demo_local_inv [of whole] demo_well_formed ids steps])
qed

lemma server_step_alone:
  assumes "server_built V"
  shows "server_step V e s = snd (alone (event_process V e) s)"
proof (cases e)
  case (Arrive rq)
  have "snd (map_prod (outcome_http V) id (alone (request_process V rq) s)) = snd (httpHandler V rq s)"
    unfolding request_alone [OF assms] ..
  with Arrive show ?thesis by simp
next
  case MinuteTick
  then show ?thesis by (cases s) (simp add: tick_process_def)
qed

lemma server_run_in_pool:
  assumes "server_built V"
  shows "\<exists>ocs'. pool_step\<^sup>*\<^sup>* (map Done ocs @ in_flight V es, s) (map Done (ocs @ ocs'), server_run V es s)"
proof (induction es arbitrary: ocs s)
  case Nil
  show ?case by (intro exI [of _ "[]"]) (simp add: in_flight_def)
next
  case (Cons e es)
  let ?oc = "fst (alone (event_process V e) s)"
  have "pool_step\<^sup>*\<^sup>* (map Done ocs @ in_flight V (e # es), s)
      (map Done (ocs @ [?oc]) @ in_flight V es, server_step V e s)"
    using alone_in_pool [of "map Done ocs" "event_process V e" "in_flight V es" s]
    by (simp add: in_flight_def server_step_alone [OF assms])
  moreover obtain ocs' where "pool_step\<^sup>*\<^sup>* (map Done (ocs @ [?oc]) @ in_flight V es, server_step V e s)
      (map Done ((ocs @ [?oc]) @ ocs'), server_run V es (server_step V e s))"
    using Cons.IH by blast
  ultimately have "pool_step\<^sup>*\<^sup>* (map Done ocs @ in_flight V (e # es), s)
      (map Done ((ocs @ [?oc]) @ ocs'), server_run V es (server_step V e s))"
    by (rule rtranclp_trans)
  then show ?case by (intro exI [of _ "?oc # ocs'"]) simp
qed

text \<open>
  The sequential server is one of the interleavings, when the authorizer of the repositories is the one built over them: serving a
  request without interruption is the handler of the server, and serving requests and ticks one after the other is a run of
  the pool that ends in the same state with every request finished.
\<close>

theorem sequential_is_interleaving:
  assumes "server_built V"
  shows "map_prod (outcome_http V) id (alone (request_process V rq) s) = httpHandler V rq s \<and>
    (\<exists>ocs. pool_step\<^sup>*\<^sup>* (in_flight V es, s) (map Done ocs, server_run V es s))"
  using server_run_in_pool [OF assms, of "[]" es s] by (simp add: request_alone [OF assms])

theorem sequential_is_interleaving_witness:
  "\<exists>ocs. pool_step\<^sup>*\<^sup>* (in_flight open_server [Arrive (carol_request ''c1''), Arrive (carol_request ''c2'')], (main_limiter, demo_world))
     (map Done ocs, server_run open_server [Arrive (carol_request ''c1''), Arrive (carol_request ''c2'')] (main_limiter, demo_world))"
proof -
  have "server_built open_server" by (simp add: server_built_def)
  then show ?thesis by (rule sequential_is_interleaving [THEN conjunct2])
qed

end
