(* ===== verification/Progress.thy ===== *)
theory Progress
  imports Concurrent_Correct
begin

text \<open>
  Every request finishes. The number of calls a request makes is bounded by what it asks for, unless it lists modules (then
  it also depends on how many the database names, each of which is checked). A pool stops after finitely
  many calls whatever the schedule, and it stops only when every request has been answered.
\<close>

text \<open>The calls of a request: limiter, middleware, interceptor, then the handler.\<close>

fun rpc_calls :: "rpc \<Rightarrow> nat" where
  "rpc_calls (RpcCreateOrganizations ns) = 3 * length ns"
| "rpc_calls (RpcCreateUsers ns) = 2 * length ns"
| "rpc_calls (RpcCreateModules vs) = 6 * length vs"
| "rpc_calls (RpcUpload cs) = (\<Sum>c\<leftarrow>cs. 7 + length (label_names c))"
| "rpc_calls (RpcCreateOrUpdateLabels vs) = 6 * length vs"
| "rpc_calls (RpcGetOwners refs) = 2 * length refs"
| "rpc_calls (RpcGetOrganizations refs) = length refs"
| "rpc_calls (RpcGetUsers refs) = length refs"
| "rpc_calls (RpcGetModules refs) = 4 * length refs"
| "rpc_calls (RpcDownload refs) = 8 * length refs"
| "rpc_calls (RpcGetCommits refs) = 7 * length refs"
| "rpc_calls (RpcListCommits ref) = 8"
| "rpc_calls (RpcGetLabels refs) = 5 * length refs"
| "rpc_calls (RpcListLabels ref) = 8"
| "rpc_calls (RpcGetFileDescriptorSet ref) = 8"
| "rpc_calls _ = 0"

fun lists_modules :: "event \<Rightarrow> bool" where
  "lists_modules (Arrive rq) \<longleftrightarrow>
     (case target rq of
        Rpc p \<Rightarrow> (\<exists>refs. p = RpcListModules refs)
      | Rest q \<Rightarrow> (\<exists>vals. find_route routes (Method q) (Path q) = Some (EpListModules, vals)))"
| "lists_modules MinuteTick \<longleftrightarrow> False"

definition request_calls :: "request \<Rightarrow> nat" where
  "request_calls rq = 3 + (case target rq of Rpc p \<Rightarrow> 2 + rpc_calls p | Rest _ \<Rightarrow> 5)"

fun event_calls :: "event \<Rightarrow> nat" where
  "event_calls (Arrive rq) = request_calls rq"
| "event_calls MinuteTick = 1"

lemma CreateUsers_bounded: "within (CreateUsers_process R openReg E ns) (2 * length ns)"
proof -
  have "within (createUser_process R E j n) 2" for j n
    by (auto simp: createUser_process_def Let_def intro!: within_ask within_tell split: fetch.splits)
  from within_loop [of "createUser_process R E" "\<lambda>_. 2", OF this] show ?thesis
    by (simp add: CreateUsers_process_def sum_list_triv mult.commute)
qed

lemma CreateOrganizations_bounded: "within (CreateOrganizations_process R E c ns) (3 * length ns)"
proof -
  have "within (createOrganization_process R E u j n) 3" for u j n
    by (auto simp: createOrganization_process_def Let_def intro!: within_ask within_tell split: fetch.splits)
  from within_loop [of "createOrganization_process R E u" "\<lambda>_. 3" for u, OF this] show ?thesis
    by (simp add: CreateOrganizations_process_def sum_list_triv mult.commute split: option.splits)
qed

lemma CreateModules_bounded: "within (CreateModules_process enf R E c vs) (6 * length vs)"
proof -
  have "within (createModule_process enf R E u j v) 6" for u j v
    by (auto simp: createModule_process_def Let_def intro!: within_ask within_check within_tell split: fetch.splits)
  from within_loop [of "createModule_process enf R E u" "\<lambda>_. 6" for u, OF this] show ?thesis
    by (simp add: CreateModules_process_def sum_list_triv mult.commute split: option.splits)
qed

lemma CreateOrUpdateLabels_bounded: "within (CreateOrUpdateLabels_process enf R E c vs) (6 * length vs)"
proof -
  have "within (createOrUpdateLabel_process enf R E u j v) 6" for u j v
    by (auto simp: createOrUpdateLabel_process_def Let_def intro!: within_ask within_check within_tell
        split: option.splits label_ref.splits fetch.splits)
  from within_loop [of "createOrUpdateLabel_process enf R E u" "\<lambda>_. 6" for u, OF this] show ?thesis
    by (simp add: CreateOrUpdateLabels_process_def sum_list_triv mult.commute split: option.splits)
qed

lemma labels_bounded: "within (labels_process R E u i m d ns now) (Suc (length ns))"
proof -
  have "within (upsertLabel_process R E i (mID m) (commit_id d) now j n) 1" for j n
    by (auto simp: upsertLabel_process_def Let_def intro!: within_tell)
  from within_loop [of _ "\<lambda>_. 1", OF this]
  have l: "within (loop (upsertLabel_process R E i (mID m) (commit_id d) now) 0 ns []) (length ns)"
    by (simp add: sum_list_triv)
  have "within (labels_process R E u i m d ns now) (length ns + 1)"
    unfolding labels_process_def by (rule within_andThen [OF l]) (auto intro!: within_ask split: sum.splits)
  then show ?thesis by simp
qed

lemma uploadContent_bounded: "within (uploadContent_process enf R S Z E u i c) (7 + length (label_names c))"
proof -
  have "within (publish_process R S E u i m d ns) (4 + length ns)" for m d ns
    by (auto simp: publish_process_def Let_def intro!: within_ask within_tell within_mono [OF labels_bounded]
        split: option.splits)
  then show ?thesis
    by (auto simp: uploadContent_process_def intro!: within_ask within_check intro: within_mono
        split: option.splits module_ref.splits fetch.splits sum.splits)
qed

lemma Upload_bounded: "within (Upload_process enf R S Z E c cs) (\<Sum>c\<leftarrow>cs. 7 + length (label_names c))"
  using within_loop [of "uploadContent_process enf R S Z E u" "\<lambda>c. 7 + length (label_names c)" for u, OF uploadContent_bounded]
  by (simp add: Upload_process_def split: option.splits)

lemma each_ref_bounded: "(\<And>x. within (body x) n) \<Longrightarrow> within (each_ref body xs) (n * length xs)"
  using within_loop [of "\<lambda>_. body" "\<lambda>_. n"] by (simp add: sum_list_triv mult.commute)

lemma resolve_bounded: "within (resolveResourceRef_process R ref) 4"
  by (auto simp: resolveResourceRef_process_def pointed_commit_def intro!: within_ask split: option.splits fetch.splits)

lemma resolved_bounded:
  assumes "6 \<le> n" "\<And>m co. within (k m co) (n - 6)"
  shows "within (resolved_process enf R caller ref k) n"
proof -
  have "within (resolved_process enf R caller ref k) (4 + (n - 4))"
    unfolding resolved_process_def
    by (rule within_andThen [OF resolve_bounded]) (use assms in \<open>auto intro!: within_check split: sum.splits\<close>)
  then show ?thesis using assms(1) by simp
qed

lemma fetched_bounded: "0 < n \<Longrightarrow> (\<And>files. within (k files) (n - 1)) \<Longrightarrow> within (fetched_process S Z c k) n"
  by (auto simp: fetched_process_def intro!: within_ask split: sum.splits)

lemma one_ref_bounded:
  "within (getOwner_process R nref) 2" "within (getOrganization_process R nref) 1" "within (getUserRef_process R nref) 1"
  "within (getModuleRef_process enf R c mref) 4" "within (getLabel_process enf R c lref) 5"
  by (auto simp: getOwner_process_def getOrganization_process_def getUserRef_process_def looked_up_def
      getModuleRef_process_def showModule_process_def getLabel_process_def Let_def intro!: within_ask within_check
      split: fetch.splits module_ref.splits label_ref.splits)

lemma one_commit_bounded:
  "within (getCommit_process enf R c rref) 7" "within (ListCommits_process enf R c ref) 8"
  "within (ListLabels_process enf R c ref) 8" "within (downloadValue_process enf R S Z c ref) 8"
  "within (GetFileDescriptorSet_process enf R S Z compile c ref) 8"
proof -
  show "within (getCommit_process enf R c rref) 7" "within (ListCommits_process enf R c ref) 8"
    "within (ListLabels_process enf R c ref) 8" "within (GetFileDescriptorSet_process enf R S Z compile c ref) 8"
    by (auto simp: getCommit_process_def ListCommits_process_def ListLabels_process_def GetFileDescriptorSet_process_def Let_def
        intro!: resolved_bounded fetched_bounded within_ask split: option.splits sum.splits)
  have "within (downloadValue_process enf R S Z c ref) (4 + 4)"
    unfolding downloadValue_process_def
    by (rule within_andThen [OF resolve_bounded])
       (auto intro!: within_check fetched_bounded within_ask split: sum.splits option.splits prod.splits)
  then show "within (downloadValue_process enf R S Z c ref) 8" by simp
qed

lemma reads_bounded:
  "within (GetOwners_process R nrefs) (2 * length nrefs)" "within (GetOrganizations_process R nrefs) (length nrefs)"
  "within (GetUsers_process R nrefs) (length nrefs)" "within (GetModules_process enf R c mrefs) (4 * length mrefs)"
  "within (GetLabels_process enf R c lrefs) (5 * length lrefs)" "within (GetCommits_process enf R c rrefs) (7 * length rrefs)"
  "within (Download_process enf R S Z c vals) (8 * length vals)"
  using each_ref_bounded [of "getOrganization_process R" 1 nrefs] each_ref_bounded [of "getUserRef_process R" 1 nrefs]
  by (simp_all add: GetOwners_process_def GetOrganizations_process_def GetUsers_process_def GetModules_process_def
      GetLabels_process_def GetCommits_process_def Download_process_def each_ref_bounded one_ref_bounded
      one_ref_bounded [unfolded One_nat_def] one_commit_bounded)

lemma rpc_bounded: "(\<nexists>refs. p = RpcListModules refs) \<Longrightarrow> within (rpc_process V E p c) (rpc_calls p)"
  by (cases p)
     (simp_all add: within_map_answer CreateUsers_bounded CreateOrganizations_bounded CreateModules_bounded
       CreateOrUpdateLabels_bounded Upload_bounded reads_bounded one_commit_bounded)

lemma check_access_bounded: "within (checkModuleAccess_process enf R c own repo) 3"
  by (auto simp: checkModuleAccess_process_def intro!: within_ask within_check split: fetch.splits)

lemma accessed_bounded: "(\<And>m. within (k m) 2) \<Longrightarrow> within (accessed_process enf R c own repo k) 5"
  using within_andThen [OF check_access_bounded, of "case_sum Done k" 2 enf R c own repo]
  by (auto simp: accessed_process_def split: sum.splits)

lemma rest_reads_bounded:
  "within (listTokens_process R now c) 5" "within (getUser_process R un) 5" "within (getOrg_process R n) 5"
  "within (getModule_process enf R c own repo) 5" "within (listCommits_process enf R c own repo) 5"
  "within (rest_getCommit_process enf R c own repo i) 5" "within (listLabels_process enf R c own repo) 5"
  "within (listFiles_process enf R S Z c own repo i) 5" "within (getFileContent_process enf R S Z c own repo i path) 5"
proof -
  show "within (listTokens_process R now c) 5" "within (getUser_process R un) 5" "within (getOrg_process R n) 5"
    by (auto simp: listTokens_process_def getUser_process_def getOrg_process_def intro!: within_ask
        split: option.splits fetch.splits sum.splits)
  show "within (getModule_process enf R c own repo) 5"
    unfolding getModule_process_def by (rule within_map_answer, rule within_mono [OF check_access_bounded]) simp
  show "within (listCommits_process enf R c own repo) 5" "within (rest_getCommit_process enf R c own repo i) 5"
    "within (listLabels_process enf R c own repo) 5" "within (listFiles_process enf R S Z c own repo i) 5"
    "within (getFileContent_process enf R S Z c own repo i path) 5"
    by (auto simp: listCommits_process_def rest_getCommit_process_def listLabels_process_def listFiles_process_def
        getFileContent_process_def resolveCommitZip_process_def intro!: accessed_bounded within_ask split: fetch.splits sum.splits)
qed

lemma writes_bounded:
  "within (register_process R openReg B salt E body) 5" "within (login_process R B E body) 5"
  "within (createToken_process R E c note) 5" "within (revokeToken_process R c i) 5" "within (createOrg_process R E c name) 5"
  "within (addMember_process enf R c org mb) 5" "within (removeMember_process enf R c org un) 5"
  "within (rest_createModule_process enf R E c mbody) 5"
  by (auto simp: register_process_def login_process_def createToken_process_def revokeToken_process_def createOrg_process_def
      addMember_process_def removeMember_process_def rest_createModule_process_def Let_def
      intro!: within_ask within_check within_tell split: option.splits fetch.splits sum.splits)

lemma endpoint_bounded: "ep \<noteq> EpListModules \<Longrightarrow> within (endpoint_process V salt E q ep pv c) 5"
  by (cases ep) (simp_all add: writes_bounded rest_reads_bounded)

lemma event_bounded:
  assumes "\<not> lists_modules e"
  shows "within (event_process V e) (event_calls e)"
proof (cases e)
  case (Arrive rq)
  have auth: "within (Middleware_process (sv_repos V) now header c) 2"
    "within (Interceptor_process (sv_repos V) now header c) 2" for now header c
    by (auto simp: Middleware_process_def Interceptor_process_def Let_def intro!: within_ask split: fetch.splits)
  have "within (mux_process V rq c) (case target rq of Rpc p \<Rightarrow> 2 + rpc_calls p | Rest _ \<Rightarrow> 5)" for c
  proof (cases "target rq")
    case (Rpc p)
    with assms Arrive have "within (rpc_process V E p c') (rpc_calls p)" for E c' by (intro rpc_bounded) simp
    then show ?thesis
      unfolding mux_process_def Rpc call.case
      by (intro within_andThen [OF auth(2)]) (simp add: within_map_answer split: sum.splits)
  next
    case (Rest q)
    with assms Arrive show ?thesis
      by (auto simp: mux_process_def intro!: within_map_answer endpoint_bounded split: option.splits prod.splits)
  qed
  from within_andThen [where k = "mux_process V rq", OF auth(1) [of "clock rq 0" "Authorization rq" None] this]
  have "within (on_snd (andThen (Middleware_process (sv_repos V) (clock rq 0) (Authorization rq) None) (mux_process V rq))
      :: (rateLimiter \<times> _, _) process) (2 + (case target rq of Rpc p \<Rightarrow> 2 + rpc_calls p | Rest _ \<Rightarrow> 5))"
    by (rule within_on_snd)
  then show ?thesis
    by (auto simp: Arrive request_process_def request_calls_def)
qed (simp add: tick_process_def)

text \<open>
  Every request is answered. Whatever the requests in flight, the order of their calls and the failures of the calls, no run goes
  on for ever, and no call is left to make exactly when every request has its outcome. Unless a request lists modules, at
  most as many calls are made as the requests ask for (for an upload, seven per content and one per label beside
  the five of limiter and authentication).
\<close>

theorem requests_finish:
  assumes "(pool_step ^^ n) (in_flight V es, s) (ps, s')"
  shows "(\<nexists>run. run 0 = (ps, s') \<and> (\<forall>i. pool_step (run i) (run (Suc i)))) \<and>
    ((\<nexists>t. pool_step (ps, s') t) \<longleftrightarrow> (\<forall>p\<in>set ps. \<exists>oc. p = Done oc)) \<and>
    ((\<forall>e\<in>set es. \<not> lists_modules e) \<longrightarrow> n \<le> (\<Sum>e\<leftarrow>es. event_calls e))"
proof -
  have "n \<le> (\<Sum>e\<leftarrow>es. event_calls e)" if "\<forall>e\<in>set es. \<not> lists_modules e"
  proof -
    have "list_all2 within (in_flight V es) (map event_calls es)"
      using that by (simp add: in_flight_def list_all2_map1 list_all2_map2 event_bounded list.rel_refl_strong)
    with pool_run_within [OF assms] show ?thesis by simp
  qed
  then show ?thesis unfolding pool_stuck using pool_terminates by blast
qed

theorem requests_finish_witness:
  "\<exists>n ps s. (pool_step ^^ n) (in_flight open_server [Arrive (carol_request ''c1''), Arrive (carol_request ''c2'')],
       (main_limiter, demo_world)) (ps, s) \<and>
     ps ! 0 = Done (Answered (Inr (AnsUsers [userToProto (carol ''c1'')]))) \<and> n \<le> 14"
proof -
  let ?s = "(in_flight open_server [Arrive (carol_request ''c1''), Arrive (carol_request ''c2'')], (main_limiter, demo_world))"
  obtain ps rl where run: "run_pool [0, 1, 0, 1, 1] ?s = (ps, (rl, carol_world))"
    and ps: "ps ! 0 = Done (Answered (Inr (AnsUsers [userToProto (carol ''c1'')])))"
    using carol_run by blast
  obtain n where n: "(pool_step ^^ n) ?s (ps, (rl, carol_world))"
    using run_pool_steps [of ?s "[0, 1, 0, 1, 1]"] run by (auto simp: rtranclp_power)
  have "n \<le> 14"
    using requests_finish [OF n] by (simp add: request_calls_def carol_request_def demo_request_def)
  with n ps show ?thesis by blast
qed

end
