(* ===== verification/Trace.thy ===== *)
theory Trace
  imports Process
begin

text \<open>
  Runs of a pool with their history: who made each call, and the states before and after it. What a process may
  do can then depend on the states the run has passed through, as with a check that is made before the write it
  guards: \<open>acts G P Q p H\<close> says that every write of \<open>p\<close>, in whatever states the others leave within \<open>G\<close>, satisfies \<open>P\<close> of
  the states seen so far, of which \<open>H\<close> are some, and that its answer satisfies \<open>Q\<close> of them.
\<close>

section \<open>Runs with their history\<close>

inductive pool_does :: "nat \<Rightarrow> ('w, 'r) process list \<times> 'w \<Rightarrow> ('w, 'r) process list \<times> 'w \<Rightarrow> bool" where
  does_ask: "i < length ps \<Longrightarrow> ps ! i = Ask f \<Longrightarrow> pool_does i (ps, w) (ps[i := f w], w)"
| does_tell: "i < length ps \<Longrightarrow> ps ! i = Tell f k \<Longrightarrow> pool_does i (ps, w) (ps[i := k (fst (f w))], snd (f w))"

inductive_cases pool_doesE: "pool_does i (ps, w) (ps', w')"

lemma pool_step_does: "pool_step s s' \<longleftrightarrow> (\<exists>i. pool_does i s s')"
proof
  assume "pool_step s s'"
  then show "\<exists>i. pool_does i s s'"
  proof cases
    case (asks i ps f w)
    with does_ask [of i ps f w] show ?thesis by metis
  next
    case (tells i ps f k w b w')
    with does_tell [of i ps f k w] show ?thesis by (metis fst_conv snd_conv)
  qed
next
  assume "\<exists>i. pool_does i s s'"
  then obtain i where "pool_does i s s'" ..
  then show "pool_step s s'"
    by cases (auto intro: pool_step.asks pool_step.tells [OF _ _ prod.collapse [symmetric]])
qed

inductive traced ::
  "('w, 'r) process list \<times> 'w \<Rightarrow> (nat \<times> 'w \<times> 'w) list \<Rightarrow> ('w, 'r) process list \<times> 'w \<Rightarrow> bool" where
  traced_start: "traced s [] s"
| traced_next: "traced s xs (ps, w) \<Longrightarrow> pool_does i (ps, w) (ps', w') \<Longrightarrow> traced s (xs @ [(i, w, w')]) (ps', w')"

lemma traced_iff: "(\<exists>xs. traced s xs s') \<longleftrightarrow> pool_step\<^sup>*\<^sup>* s s'"
proof
  assume "\<exists>xs. traced s xs s'"
  then obtain xs where "traced s xs s'" ..
  then show "pool_step\<^sup>*\<^sup>* s s'"
    by induction (auto simp: pool_step_does intro: rtranclp.rtrancl_into_rtrancl)
next
  assume "pool_step\<^sup>*\<^sup>* s s'"
  then show "\<exists>xs. traced s xs s'"
  proof (induction rule: rtranclp_induct)
    case base
    show ?case using traced_start by blast
  next
    case (step t u)
    obtain ps w ps' w' where "t = (ps, w)" "u = (ps', w')" by fastforce
    with step traced_next [of s _ ps w] show ?case by (metis pool_step_does)
  qed
qed

text \<open>The history of a schedule.\<close>

fun schedule_trace :: "nat list \<Rightarrow> ('w, 'r) process list \<times> 'w \<Rightarrow> (nat \<times> 'w \<times> 'w) list" where
  "schedule_trace [] s = []"
| "schedule_trace (i # is) (ps, w) =
     (if i < length ps \<and> (\<nexists>r. ps ! i = Done r)
      then (i, w, snd (call (ps ! i) w)) # schedule_trace is (ps[i := fst (call (ps ! i) w)], snd (call (ps ! i) w))
      else schedule_trace is (ps, w))"

lemma pool_does_call: "i < length ps \<Longrightarrow> \<nexists>r. ps ! i = Done r \<Longrightarrow> pool_does i (ps, w) (ps[i := fst (call (ps ! i) w)], snd (call (ps ! i) w))"
  by (cases "ps ! i") (auto intro: pool_does.intros)

lemma traced_Cons: "traced t xs u \<Longrightarrow> t = (ps', w') \<Longrightarrow> pool_does i (ps, w) (ps', w') \<Longrightarrow> traced (ps, w) ((i, w, w') # xs) u"
proof (induction arbitrary: ps' w' rule: traced.induct)
  case (traced_start s)
  with traced_next [OF traced.traced_start, of i ps w ps' w'] show ?case by simp
next
  case (traced_next s xs qs v j qs' v')
  have "traced (ps, w) ((i, w, w') # xs) (qs, v)" using traced_next.IH traced_next.prems by blast
  from traced.traced_next [OF this traced_next.hyps(2)] show ?case by simp
qed

lemma schedule_traced: "traced s (schedule_trace is s) (run_pool is s)"
proof (induction "is" s rule: schedule_trace.induct)
  case (1 s)
  show ?case using traced_start by simp
next
  case (2 i "is" ps w)
  show ?case
  proof (cases "i < length ps \<and> (\<nexists>r. ps ! i = Done r)")
    case True
    then have "traced (ps, w) ((i, w, snd (call (ps ! i) w)) #
        schedule_trace is (ps[i := fst (call (ps ! i) w)], snd (call (ps ! i) w)))
        (run_pool is (ps[i := fst (call (ps ! i) w)], snd (call (ps ! i) w)))"
      by (intro traced_Cons [OF 2(1) refl] pool_does_call) simp_all
    with True show ?thesis by simp
  next
    case False
    then have "(if i < length ps then (ps[i := fst (call (ps ! i) w)], snd (call (ps ! i) w)) else (ps, w)) = (ps, w)"
      by (auto simp: list_update_same_conv)
    with False 2(2) show ?thesis by auto
  qed
qed

text \<open>The states that calls have started from, the one at hand included.\<close>

definition passed :: "(nat \<times> 'w \<times> 'w) list \<Rightarrow> nat \<Rightarrow> 'w set" where
  "passed xs k = (\<lambda>(i, v, v'). v) ` set (take (Suc k) xs)"

section \<open>What a process may do\<close>

primrec acts ::
  "('w \<Rightarrow> 'w \<Rightarrow> bool) \<Rightarrow> ('w set \<Rightarrow> 'w \<Rightarrow> 'w \<Rightarrow> bool) \<Rightarrow> ('r \<Rightarrow> 'w set \<Rightarrow> bool) \<Rightarrow> ('w, 'r) process \<Rightarrow> 'w set \<Rightarrow> bool" where
  "acts G P Q (Done r) = (\<lambda>H. \<forall>H'. H \<subseteq> H' \<longrightarrow> Q r H')"
| "acts G P Q (Ask f) = (\<lambda>H. \<forall>v H'. insert v H \<subseteq> H' \<longrightarrow> (\<forall>h\<in>H'. G h v) \<longrightarrow> acts G P Q (f v) H')"
| "acts G P Q (Tell f k) =
     (\<lambda>H. \<forall>v H'. insert v H \<subseteq> H' \<longrightarrow> (\<forall>h\<in>H'. G h v) \<longrightarrow> P H' v (snd (f v)) \<and> acts G P Q (k (fst (f v))) H')"

lemma acts_mono: "acts G P Q p H \<Longrightarrow> H \<subseteq> K \<Longrightarrow> acts G P Q p K"
  by (cases p) auto

lemma acts_andThen: "acts G P (\<lambda>r H. acts G P Q (k r) H) p H \<Longrightarrow> acts G P Q (andThen p k) H"
  by (induction p arbitrary: H) auto

lemma acts_trivial: "acts G (\<lambda>_ _ _. True) (\<lambda>_ _. True) p H"
  by (induction p arbitrary: H) auto

lemma acts_conj:
  "acts G P Q p H \<Longrightarrow> acts G P' Q' p H \<Longrightarrow> acts G (\<lambda>H v v'. P H v v' \<and> P' H v v') (\<lambda>r H. Q r H \<and> Q' r H) p H"
  by (induction p arbitrary: H) auto

lemma acts_weaken:
  assumes "acts G P Q p K" "H \<subseteq> K" "\<And>H' v v'. H \<subseteq> H' \<Longrightarrow> P H' v v' \<Longrightarrow> P' H' v v'" "\<And>r H'. H \<subseteq> H' \<Longrightarrow> Q r H' \<Longrightarrow> Q' r H'"
  shows "acts G P' Q' p K"
  using assms(1,2)
proof (induction p arbitrary: K)
  case (Done r)
  then show ?case using assms(4) by auto
next
  case (Ask f)
  have "acts G P' Q' (f v) H'" if "insert v K \<subseteq> H'" "\<forall>h\<in>H'. G h v" for v H'
    by (rule Ask.IH [OF rangeI]) (use Ask.prems that in auto)
  then show ?case by simp
next
  case (Tell f k)
  have "P' H' v (snd (f v)) \<and> acts G P' Q' (k (fst (f v))) H'" if "insert v K \<subseteq> H'" "\<forall>h\<in>H'. G h v" for v H'
  proof
    show "P' H' v (snd (f v))" by (rule assms(3)) (use Tell.prems that in auto)
    show "acts G P' Q' (k (fst (f v))) H'" by (rule Tell.IH [OF rangeI]) (use Tell.prems that in auto)
  qed
  then show ?case by simp
qed

lemma acts_since: "acts G P Q p K \<Longrightarrow> H \<subseteq> K \<Longrightarrow> acts G P (\<lambda>r H'. H \<subseteq> H' \<and> Q r H') p K"
  by (erule acts_weaken) simp_all

lemma acts_first:
  assumes "acts G P S p H" "\<And>r K. H \<subseteq> K \<Longrightarrow> S r K \<Longrightarrow> acts G P Q (k r) K"
  shows "acts G P Q (andThen p k) H"
  by (rule acts_andThen, rule acts_weaken [OF assms(1) order_refl]) (simp_all add: assms(2))

lemma acts_ask_after:
  assumes "\<And>v H'. v \<in> H' \<Longrightarrow> H \<subseteq> H' \<Longrightarrow> \<forall>h\<in>H'. G h v \<Longrightarrow> acts G P Q (k (g v)) H'"
  shows "acts G P Q (ask g k) H"
  by (simp add: ask_def assms)

lemma acts_ask: "(\<And>v H'. v \<in> H' \<Longrightarrow> H \<subseteq> H' \<Longrightarrow> acts G P Q (k (g v)) H') \<Longrightarrow> acts G P Q (ask g k) H"
  by (rule acts_ask_after)

lemma acts_tell:
  assumes "\<And>v H' e v'. v \<in> H' \<Longrightarrow> H \<subseteq> H' \<Longrightarrow> a v = (e, v') \<Longrightarrow> P H' v v' \<and> acts G P Q (k (e \<noteq> None)) H'"
  shows "acts G P Q (tell a k) H"
proof -
  have "P H' v (snd (a v)) \<and> acts G P Q (k (fst (a v) \<noteq> None)) H'" if "insert v H \<subseteq> H'" for v H'
    by (rule assms) (use that in auto)
  then show ?thesis by (simp add: tell_def)
qed

lemma acts_loop:
  assumes "\<And>j x K. H \<subseteq> K \<Longrightarrow> acts G P (\<lambda>_ _. True) (body j x) K" "H \<subseteq> K"
  shows "acts G P (\<lambda>_ _. True) (loop body i xs ys) K"
  using assms(2)
proof (induction xs arbitrary: i ys K)
  case (Cons x xs)
  have "acts G P (\<lambda>r H'. H \<subseteq> H' \<and> True) (body i x) K" by (rule acts_since) (use assms(1) Cons.prems in auto)
  then have "acts G P (\<lambda>r H'. acts G P (\<lambda>_ _. True)
      (case r of Inl e \<Rightarrow> Done (Inl e) | Inr y \<Rightarrow> loop body (Suc i) xs (ys @ [y])) H') (body i x) K"
    by (rule acts_weaken [where H = H]) (use Cons in \<open>auto split: sum.splits\<close>)
  then show ?case by (auto intro: acts_andThen)
qed simp

lemma acts_on_snd:
  assumes "acts G P Q p (snd ` H)"
  shows "acts (\<lambda>s t. G (snd s) (snd t)) (\<lambda>H s s'. P (snd ` H) (snd s) (snd s')) (\<lambda>r H. Q r (snd ` H)) (on_snd p) H"
  using assms
proof (induction p arbitrary: H)
  case (Ask f)
  have "acts G P Q (f (snd s)) (snd ` H')" if "insert s H \<subseteq> H'" "\<forall>h\<in>H'. G (snd h) (snd s)" for s H'
    using Ask.prems that by (simp add: image_mono)
  with Ask.IH show ?case by auto
next
  case (Tell f k)
  have "P (snd ` H') (snd s) (snd (f (snd s))) \<and> acts G P Q (k (fst (f (snd s)))) (snd ` H')"
    if "insert s H \<subseteq> H'" "\<forall>h\<in>H'. G (snd h) (snd s)" for s H'
    using Tell.prems that by (simp add: image_mono)
  with Tell.IH show ?case by auto
next
  case (Done r)
  then show ?case by (simp add: image_mono)
qed

lemma passed_less: "j < length xs \<Longrightarrow> passed (xs @ [x]) j = passed xs j"
  by (simp add: passed_def)

lemma passed_last: "passed (xs @ [(i, w, w')]) (length xs) = insert w ((\<lambda>(i, v, v'). v) ` set xs)"
  by (simp add: passed_def)

text \<open>
  In a run of such processes every call has what the states before it must give, if that in turn keeps \<open>G\<close>, an order
  of the states that are worth considering.
\<close>

lemma traced_acts:
  assumes "traced (ps, w) xs (ps', w')" "\<And>i. i < length ps \<Longrightarrow> acts G (P i) (Q i) (ps ! i) {}"
    and "\<And>i H v. P i H v v"
    and "\<And>i H v v'. P i H v v' \<Longrightarrow> G v v \<Longrightarrow> G v v'" "\<And>u v v'. G u v \<Longrightarrow> G v v' \<Longrightarrow> G u v'"
    and "\<And>u v. G u v \<Longrightarrow> G v v" "G w w"
  shows "(\<forall>k < length xs. case xs ! k of (i, v, v') \<Rightarrow> i < length ps \<and> P i (passed xs k) v v') \<and>
    length ps' = length ps \<and>
    (\<forall>i < length ps. acts G (P i) (Q i) (ps' ! i) ((\<lambda>(i, v, v'). v) ` set xs)) \<and>
    (\<forall>h \<in> (\<lambda>(i, v, v'). v) ` set xs. G h w') \<and> G w' w'"
  using assms(1)
proof (induction "(ps, w)" xs "(ps', w')" arbitrary: ps' w' rule: traced.induct)
  case traced_start
  then show ?case using assms(2,7) by simp
next
  case (traced_next xs qs v i qs' v')
  let ?H = "(\<lambda>(i, v, v'). v) ` set xs"
  have old: "case (xs @ [(i, v, v')]) ! k of (i', u, u') \<Rightarrow> i' < length ps \<and> P i' (passed (xs @ [(i, v, v')]) k) u u'"
    if "k < length xs" for k
    using traced_next.hyps(2) that by (simp add: nth_append passed_less)
  have len: "length qs = length ps" and now: "\<And>j. j < length ps \<Longrightarrow> acts G (P j) (Q j) (qs ! j) ?H"
    using traced_next.hyps(2) by blast+
  have before: "\<forall>h\<in>insert v ?H. G h v" using traced_next.hyps(2) by blast
  have rest: "acts G (P j) (Q j) (qs ! j) (insert v ?H)" if "j < length ps" for j
    using now [OF that] by (rule acts_mono) blast
  consider f where "i < length qs" "qs ! i = Ask f" "qs' = qs[i := f v]" "v' = v"
    | f k where "i < length qs" "qs ! i = Tell f k" "qs' = qs[i := k (fst (f v))]" "v' = snd (f v)"
    using traced_next.hyps(3) by (rule pool_doesE) blast+
  then show ?case
  proof cases
    case (1 f)
    then have "acts G (P i) (Q i) (Ask f) ?H" using now [of i] len by simp
    then have "acts G (P i) (Q i) (f v) (insert v ?H)" using before unfolding acts.simps by blast
    moreover have "\<forall>h\<in>insert v ?H. G h v'" "G v' v'" using before 1(4) by simp_all
    ultimately show ?thesis using 1 rest len old assms(3)
      by (auto simp: less_Suc_eq nth_append passed_last nth_list_update split: if_splits)
  next
    case (2 f k)
    then have "acts G (P i) (Q i) (Tell f k) ?H" using now [of i] len by simp
    then have P: "P i (insert v ?H) v v'" and k: "acts G (P i) (Q i) (k (fst (f v))) (insert v ?H)"
      using 2(4) before unfolding acts.simps by blast+
    have "G v v'" using before assms(4) [OF P] by blast
    then have "\<forall>h\<in>insert v ?H. G h v'" "G v' v'" using before assms(5,6) by blast+
    with P k 2 rest len old show ?thesis
      by (auto simp: less_Suc_eq nth_append passed_last nth_list_update split: if_splits)
  qed
qed

end
