(* ===== verification/Rights.thy ===== *)
theory Rights
  imports Concurrent_Correct Trace
begin

text \<open>
  Requests in flight and the access policy. A request checks first and writes later, and the registry may change in
  between; what holds of every interleaving is that each write is one the request's caller was entitled to at some moment
  of the run, and that the caller is nobody or somebody a live token in the header named.
\<close>

section \<open>What entitles to a write\<close>

text \<open>
  \<open>H\<close>: the states the run has passed. \<open>opn\<close>: registration is open. \<open>shown r uid\<close>: the request presents the password
  that \<open>uid\<close> has in \<open>r\<close>. \<open>c\<close>: the authenticated caller.
\<close>

definition may_push :: "('w \<Rightarrow> Registry) \<Rightarrow> User \<Rightarrow> 'w set \<Rightarrow> string \<Rightarrow> bool" where
  "may_push reg u H mid \<longleftrightarrow>
     (\<exists>v\<in>H. \<exists>m\<in>rModules (reg v). mID m = mid \<and> may_write (reg v) (uID u) m)"

fun entitled ::
  "('w \<Rightarrow> Registry) \<Rightarrow> bool \<Rightarrow> (Registry \<Rightarrow> string \<Rightarrow> bool) \<Rightarrow> User option \<Rightarrow> 'w set \<Rightarrow> write_op \<Rightarrow> bool" where
  "entitled reg opn shown c H (UserCreate _) \<longleftrightarrow> opn"
| "entitled reg opn shown (Some u) H (OrgCreate _) \<longleftrightarrow> True"
| "entitled reg opn shown (Some u) H (AddMember org i _) \<longleftrightarrow>
     (\<exists>v\<in>H. may_manage (reg v) (uID u) org) \<or> i = uID u \<and> (\<exists>v\<in>H. \<forall>g\<in>rOrgs (reg v). oID g \<noteq> org)"
| "entitled reg opn shown (Some u) H (RemoveMember org _) \<longleftrightarrow> (\<exists>v\<in>H. may_manage (reg v) (uID u) org)"
| "entitled reg opn shown (Some u) H (ModuleCreate m) \<longleftrightarrow> (\<exists>v\<in>H. may_create (reg v) (uID u) (mOwnerName m))"
| "entitled reg opn shown (Some u) H (CommitCreate cm) \<longleftrightarrow>
     cCreatedByUserID cm = uID u \<and> may_push reg u H (cModuleID cm)"
| "entitled reg opn shown (Some u) H (LabelUpsert l) \<longleftrightarrow> may_push reg u H (lModuleID l)"
| "entitled reg opn shown c H (TokenCreate t) \<longleftrightarrow>
     (\<exists>u. c = Some u \<and> tUserID t = uID u) \<or> (\<exists>v\<in>H. shown (reg v) (tUserID t))"
| "entitled reg opn shown (Some u) H (TokenRevoke _ i) \<longleftrightarrow> i = uID u"
| "entitled reg opn shown c H (DeleteByUserAndNote i _) \<longleftrightarrow> (\<exists>v\<in>H. shown (reg v) i)"
| "entitled reg opn shown c H _ \<longleftrightarrow> False"

text \<open>A call changes nothing, or is a write that the caller is entitled to, or stores an archive below a module the caller may write.\<close>

definition effect ::
  "('w \<Rightarrow> Registry) \<Rightarrow> 'w Repos \<Rightarrow> 'w Store \<Rightarrow> bool \<Rightarrow> (Registry \<Rightarrow> string \<Rightarrow> bool) \<Rightarrow> User option \<Rightarrow> 'w set \<Rightarrow> 'w \<Rightarrow> 'w \<Rightarrow> bool" where
  "effect reg R S opn shown c H v v' \<longleftrightarrow>
     v' = v \<or> (\<exists>a e. entitled reg opn shown c H a \<and> do_write R a v = (e, v')) \<or>
     (\<exists>u mid d e. c = Some u \<and> may_push reg u H mid \<and> Store_Put S (storage_key mid (commit_id d)) d v = (e, v'))"

text \<open>The caller is nobody, or the owner of a token that the header carries and that was live when the token was looked up.\<close>

definition authentic :: "('w \<Rightarrow> Registry) \<Rightarrow> request \<Rightarrow> User option \<Rightarrow> 'w set \<Rightarrow> bool" where
  "authentic reg rq c H \<longleftrightarrow>
     c = None \<or>
     (\<exists>u n raw. c = Some u \<and> n \<in> {0, 1} \<and> bears (Authorization rq) raw \<and>
        (\<exists>v\<in>H. \<exists>t\<in>rTokens (reg v). tHash t = HashToken raw \<and> \<not> expired_at (clock rq n) t \<and> tUserID t = uID u) \<and>
        (\<exists>v\<in>H. u \<in> rUsers (reg v)))"

text \<open>What a request may do at a moment of a run.\<close>

definition rightful ::
  "('w \<Rightarrow> Registry) \<Rightarrow> ('w, 'fd) server \<Rightarrow> request \<Rightarrow> 'w set \<Rightarrow> 'w \<Rightarrow> 'w \<Rightarrow> bool" where
  "rightful reg V rq H v v' \<longleftrightarrow>
     (\<exists>c. authentic reg rq c H \<and> effect reg (sv_repos V) (sv_store V) (sv_openReg V) (presents V rq) c H v v')"

lemma may_push_mono: "may_push reg u H mid \<Longrightarrow> H \<subseteq> K \<Longrightarrow> may_push reg u K mid"
  unfolding may_push_def by blast

lemma entitled_mono: "entitled reg opn shown c H a \<Longrightarrow> H \<subseteq> K \<Longrightarrow> entitled reg opn shown c K a"
  by (induction reg opn shown c H a rule: entitled.induct) (auto intro: may_push_mono)

lemma authentic_mono: "authentic reg rq c H \<Longrightarrow> H \<subseteq> K \<Longrightarrow> authentic reg rq c K"
  unfolding authentic_def by blast

lemma effect_refl [simp]: "effect reg R S opn shown c H v v"
  by (simp add: effect_def)

text \<open>From a state with unique keys no call of a handler removes an organization or a module.\<close>

definition objects_kept :: "('w \<Rightarrow> Registry) \<Rightarrow> 'w \<Rightarrow> 'w \<Rightarrow> bool" where
  "objects_kept reg v v' \<longleftrightarrow>
     registry_keys (reg v) \<and> registry_keys (reg v') \<and> rOrgs (reg v) \<subseteq> rOrgs (reg v') \<and> rModules (reg v) \<subseteq> rModules (reg v')"

section \<open>The handlers\<close>

lemma acts_asks_only: "asks_only p \<Longrightarrow> acts G P (\<lambda>_ _. True) p H"
  by (induction p arbitrary: H) auto

context backend
begin

abbreviation does :: "bool \<Rightarrow> (Registry \<Rightarrow> string \<Rightarrow> bool) \<Rightarrow> User option \<Rightarrow> ('w, 'r) process \<Rightarrow> 'w set \<Rightarrow> bool" where
  "does opn shown c \<equiv> acts (objects_kept abs) (effect abs R S opn shown c) (\<lambda>_ _. True)"

text \<open>
  A check allows what the policy allowed at a moment of the run: the last of its queries. An organization it found by name is
  still there when it asks for the membership.
\<close>

lemma has_role_later:
  assumes "Orgs_GetByName (Orgs R) own v = Ret g" "objects_kept abs v v'"
    and "Orgs_GetMember (Orgs R) (oID g) uid v' = Ret mb" "P (omRole mb)"
  shows "has_role (abs v') uid own P"
  using org_by_name.get_Ret [OF assms(1)] assms(2,4) member_by_key.get_Ret [of "(oID g, uid)" v' mb] assms(3)
  unfolding has_role_def objects_kept_def by auto

text \<open>At a moment of the run the registry had the module and the policy allowed what \<open>may\<close> says.\<close>

abbreviation allowed_once :: "(Registry \<Rightarrow> string \<Rightarrow> Module \<Rightarrow> bool) \<Rightarrow> string \<Rightarrow> Module \<Rightarrow> 'w set \<Rightarrow> bool" where
  "allowed_once may uid m K \<equiv> \<exists>v\<in>K. m \<in> rModules (abs v) \<and> may (abs v) uid m"

lemma module_role_history:
  assumes "\<exists>v\<in>H. m \<in> rModules (abs v)"
  shows "acts (objects_kept abs) P
     (\<lambda>role K. (role \<noteq> ''public'' \<longrightarrow> allowed_once may_write uid m K) \<and>
        (role \<in> {''owner'', ''org_admin''} \<longrightarrow> allowed_once may_admin uid m K))
     (resolveModuleRole_process (authorizer enf R) uid m) H"
proof -
  from assms obtain h where h: "h \<in> H" "m \<in> rModules (abs h)" by blast
  have there: "m \<in> rModules (abs v)" if "\<forall>h\<in>K. objects_kept abs h v" "H \<subseteq> K" for K v
    using that h by (auto simp: objects_kept_def)
  consider (none) "uid = []" | (user) "uid \<noteq> []" "mOwnerType m = OwnerTypeUser"
    | (org) "uid \<noteq> []" "mOwnerType m \<noteq> OwnerTypeUser" by blast
  then show ?thesis
  proof cases
    case none
    then show ?thesis by (simp add: resolveModuleRole_process_def)
  next
    case user
    have owner: "m \<in> rModules (abs v) \<and> may_write (abs v) uid m \<and> may_admin (abs v) uid m"
      if "Users_GetByID (Users R) uid v = Ret u" "uUsername u = mOwnerName m" "\<forall>h\<in>K. objects_kept abs h v" "H \<subseteq> K" for v u K
      using has_nameI [OF that(1,2)] user there [OF that(3,4)] by (simp add: may_defs)
    show ?thesis
      using user
      by (auto simp: resolveModuleRole_process_def intro!: acts_ask_after split: fetch.splits) (blast dest: owner)+
  next
    case org
    have role: "m \<in> rModules (abs v') \<and> may_write (abs v') uid m \<and> (omRole mb = OrgRoleAdmin \<longrightarrow> may_admin (abs v') uid m)"
      if "Orgs_GetByName (Orgs R) (mOwnerName m) v = Ret g" "objects_kept abs v v'"
        "Orgs_GetMember (Orgs R) (oID g) uid v' = Ret mb" "\<forall>h\<in>K. objects_kept abs h v'" "H \<subseteq> K" for v v' g mb K
      using has_role_later [OF that(1-3)] org there [OF that(4,5)] by (simp add: may_defs)
    show ?thesis
      using org
      by (auto simp: resolveModuleRole_process_def intro!: acts_ask_after split: fetch.splits) (blast dest: role)+
  qed
qed

lemma owner_role_history:
  "acts (objects_kept abs) P
     (\<lambda>r K. r \<in> {Inr ''owner'', Inr ''org_admin''} \<longrightarrow> (\<exists>v\<in>K. may_create (abs v) uid own))
     (resolveOwnerRole_process (authorizer enf R) uid own) H"
proof (cases "uid = []")
  case True
  then show ?thesis by (simp add: resolveOwnerRole_process_def)
next
  case False
  have owner: "may_create (abs v) uid (uUsername u)" if "Users_GetByID (Users R) uid v = Ret u" for v u
    using has_nameI [OF that refl] False by (simp add: may_create_def)
  have admin: "may_create (abs v') uid own"
    if "Orgs_GetByName (Orgs R) own v = Ret g" "objects_kept abs v v'" "Orgs_GetMember (Orgs R) (oID g) uid v' = Ret mb"
      "omRole mb = OrgRoleAdmin" for v v' g mb
    using has_role_later [OF that(1-3), of "\<lambda>ro. ro = OrgRoleAdmin"] that(4) False by (simp add: may_create_def)
  show ?thesis
    using False
    by (auto simp: resolveOwnerRole_process_def Let_def intro!: acts_ask_after split: fetch.splits)
       (blast dest: owner | blast dest: admin)+
qed

lemma org_role_history:
  "acts (objects_kept abs) P (\<lambda>role K. role = ''org_admin'' \<longrightarrow> (\<exists>v\<in>K. may_manage (abs v) uid org))
     (resolveOrgRole_process (authorizer enf R) uid org) H"
  by (auto simp: resolveOrgRole_process_def may_manage_def intro!: acts_ask
      dest!: member_by_key.get_Ret [of "(oi, ui)" for oi ui, simplified] split: fetch.splits)
     blast+

lemma after_check:
  assumes "acts G P T p H" "\<And>r K. T r K \<Longrightarrow> f r \<Longrightarrow> A K" "\<And>b K. H \<subseteq> K \<Longrightarrow> (b \<Longrightarrow> A K) \<Longrightarrow> acts G P Q (k b) K"
    and "\<And>K L. A K \<Longrightarrow> K \<subseteq> L \<Longrightarrow> A L"
  shows "acts G P Q (andThen (map_answer f p) k) H"
proof (rule acts_first)
  show "acts G P (\<lambda>b K. b \<longrightarrow> A K) (map_answer f p) H"
    by (rule acts_first [OF assms(1)]) (auto intro: assms(2,4))
qed (use assms(3) in blast)

lemma module_check_does:
  fixes k :: "bool \<Rightarrow> ('w, 'r) process"
  assumes "casbin_sound enf" "\<exists>v\<in>H. m \<in> rModules (abs v)"
  shows "(\<And>b K. H \<subseteq> K \<Longrightarrow> (b \<Longrightarrow> allowed_once may_read uid m K) \<Longrightarrow> acts (objects_kept abs) P Q (k b) K) \<Longrightarrow>
      acts (objects_kept abs) P Q (andThen (CanReadModule_process (authorizer enf R) uid m) k) H"
    and "(\<And>b K. H \<subseteq> K \<Longrightarrow> (b \<Longrightarrow> allowed_once may_write uid m K) \<Longrightarrow> acts (objects_kept abs) P Q (k b) K) \<Longrightarrow>
      acts (objects_kept abs) P Q (andThen (CanWriteModule_process (authorizer enf R) uid m) k) H"
    and "(\<And>b K. H \<subseteq> K \<Longrightarrow> (b \<Longrightarrow> allowed_once may_admin uid m K) \<Longrightarrow> acts (objects_kept abs) P Q (k b) K) \<Longrightarrow>
      acts (objects_kept abs) P Q (andThen (CanAdminModule_process (authorizer enf R) uid m) k) H"
proof -
  note allowed = enforce_sound [OF assms(1)] and role = module_role_history [OF assms(2)]
  show "acts (objects_kept abs) P Q (andThen (CanWriteModule_process (authorizer enf R) uid m) k) H"
    if "\<And>b K. H \<subseteq> K \<Longrightarrow> (b \<Longrightarrow> allowed_once may_write uid m K) \<Longrightarrow> acts (objects_kept abs) P Q (k b) K"
    unfolding CanWriteModule_process_def
    by (rule after_check [OF role, where A = "allowed_once may_write uid m"])
       (auto dest!: allowed simp: policy_rules_eq intro: that)
  show "acts (objects_kept abs) P Q (andThen (CanAdminModule_process (authorizer enf R) uid m) k) H"
    if "\<And>b K. H \<subseteq> K \<Longrightarrow> (b \<Longrightarrow> allowed_once may_admin uid m K) \<Longrightarrow> acts (objects_kept abs) P Q (k b) K"
    unfolding CanAdminModule_process_def
    by (rule after_check [OF role, where A = "allowed_once may_admin uid m"])
       (auto dest!: allowed simp: policy_rules_eq intro: that)
  show "acts (objects_kept abs) P Q (andThen (CanReadModule_process (authorizer enf R) uid m) k) H"
    if read: "\<And>b K. H \<subseteq> K \<Longrightarrow> (b \<Longrightarrow> allowed_once may_read uid m K) \<Longrightarrow> acts (objects_kept abs) P Q (k b) K"
  proof (cases "mVisibility m = VisibilityPublic")
    case True
    then show ?thesis
      using assms(2) by (simp add: CanReadModule_process_def may_read_def read)
  next
    case False
    have "acts (objects_kept abs) P Q (andThen (map_answer (\<lambda>role. enforce (authorizer enf R) role ''module'' ''read'')
        (resolveModuleRole_process (authorizer enf R) uid m)) k) H"
      by (rule after_check [OF role, where A = "allowed_once may_write uid m"])
         (auto dest!: allowed simp: policy_rules_eq intro: read may_write_read)
    with False show ?thesis by (simp add: CanReadModule_process_def)
  qed
qed

lemma owner_check_does:
  fixes k :: "bool \<Rightarrow> ('w, 'r) process"
  assumes "casbin_sound enf"
  shows "(\<And>b K. H \<subseteq> K \<Longrightarrow> (b \<Longrightarrow> \<exists>v\<in>K. may_create (abs v) uid own) \<Longrightarrow> acts (objects_kept abs) P Q (k b) K) \<Longrightarrow>
      acts (objects_kept abs) P Q (andThen (CanCreateModule_process (authorizer enf R) uid own) k) H"
    and "(\<And>b K. H \<subseteq> K \<Longrightarrow> (b \<Longrightarrow> \<exists>v\<in>K. may_manage (abs v) uid org) \<Longrightarrow> acts (objects_kept abs) P Q (k b) K) \<Longrightarrow>
      acts (objects_kept abs) P Q (andThen (CanManageOrgMembers_process (authorizer enf R) uid org) k) H"
proof -
  note allowed = enforce_sound [OF assms]
  show "acts (objects_kept abs) P Q (andThen (CanCreateModule_process (authorizer enf R) uid own) k) H"
    if "\<And>b K. H \<subseteq> K \<Longrightarrow> (b \<Longrightarrow> \<exists>v\<in>K. may_create (abs v) uid own) \<Longrightarrow> acts (objects_kept abs) P Q (k b) K"
    unfolding CanCreateModule_process_def
    by (rule after_check [OF owner_role_history, where A = "\<lambda>K. \<exists>v\<in>K. may_create (abs v) uid own"])
       (auto dest!: allowed simp: policy_rules_eq intro: that split: sum.splits)
  show "acts (objects_kept abs) P Q (andThen (CanManageOrgMembers_process (authorizer enf R) uid org) k) H"
    if "\<And>b K. H \<subseteq> K \<Longrightarrow> (b \<Longrightarrow> \<exists>v\<in>K. may_manage (abs v) uid org) \<Longrightarrow> acts (objects_kept abs) P Q (k b) K"
    unfolding CanManageOrgMembers_process_def
    by (rule after_check [OF org_role_history, where A = "\<lambda>K. \<exists>v\<in>K. may_manage (abs v) uid org"])
       (auto dest!: allowed simp: policy_rules_eq intro: that)
qed

lemma op_tell:
  assumes "entitled abs opn shown c H a" "\<And>K. H \<subseteq> K \<Longrightarrow> does opn shown c (k True) K"
    and "\<And>v v' K. v \<in> K \<Longrightarrow> H \<subseteq> K \<Longrightarrow> do_write R a v = (None, v') \<Longrightarrow> does opn shown c (k False) K"
  shows "does opn shown c (tell (do_write R a) k) H"
proof (rule acts_tell)
  fix v K e v'
  assume v: "v \<in> K" "H \<subseteq> K" "do_write R a v = (e, v')"
  with entitled_mono [OF assms(1) v(2)] have "effect abs R S opn shown c K v v'" by (auto simp: effect_def)
  moreover have "does opn shown c (k (e \<noteq> None)) K"
    using assms(2) [OF v(2)] assms(3) [OF v(1,2)] v(3) by (cases e) auto
  ultimately show "effect abs R S opn shown c K v v' \<and> does opn shown c (k (e \<noteq> None)) K" ..
qed

lemmas op_tells =
  op_tell [where a = "UserCreate u" for u, unfolded do_write.simps]
  op_tell [where a = "OrgCreate g" for g, unfolded do_write.simps]
  op_tell [where a = "AddMember i j ro" for i j ro, unfolded do_write.simps]
  op_tell [where a = "RemoveMember i j" for i j, unfolded do_write.simps]
  op_tell [where a = "ModuleCreate m" for m, unfolded do_write.simps]
  op_tell [where a = "CommitCreate cm" for cm, unfolded do_write.simps]
  op_tell [where a = "LabelUpsert l" for l, unfolded do_write.simps]
  op_tell [where a = "TokenCreate t" for t, unfolded do_write.simps]
  op_tell [where a = "TokenRevoke i j" for i j, unfolded do_write.simps]
  op_tell [where a = "DeleteByUserAndNote i n" for i n, unfolded do_write.simps]

lemma register_does: "does opn shown c (register_process R opn B salt E body) H"
  by (auto simp: register_process_def Let_def intro!: acts_ask op_tells split: option.splits fetch.splits sum.splits)

lemma login_does: "does opn (password_of B body) c (login_process R B E body) H"
  by (auto simp: login_process_def Let_def password_of_def intro!: acts_ask op_tells
      dest!: user_by_name.get_Ret split: option.splits fetch.splits)
     blast+

lemma account_requests_do:
  "does opn shown c (createToken_process R E c note) H"
  "does opn shown c (revokeToken_process R c i) H"
  "does opn shown c (createOrg_process R E c name) H"
  by (auto simp: createToken_process_def revokeToken_process_def createOrg_process_def Let_def intro!: acts_ask op_tells
      dest!: orgs_create split: option.splits fetch.splits)
     blast+

lemma member_requests_do:
  assumes "casbin_sound enf"
  shows "does opn shown c (addMember_process enf R c org mb) H"
    and "does opn shown c (removeMember_process enf R c org un) H"
  by (auto simp: addMember_process_def removeMember_process_def Let_def intro!: acts_ask owner_check_does [OF assms] op_tells
      split: option.splits fetch.splits)
     blast+

lemma rest_createModule_does: "casbin_sound enf \<Longrightarrow> does opn shown c (rest_createModule_process enf R E c body) H"
  by (auto simp: rest_createModule_process_def Let_def intro!: acts_ask module_check_does owner_check_does op_tells
      split: option.splits fetch.splits)
     blast+

lemma loop_does: "(\<And>j x K. does opn shown c (body j x) K) \<Longrightarrow> does opn shown c (loop body i xs ys) K"
  by (rule acts_loop [where H = "{}"]) simp_all

lemma CreateUsers_does: "does opn shown c (CreateUsers_process R opn E ns) H"
  by (cases opn)
     (auto simp: CreateUsers_process_def createUser_process_def Let_def intro!: loop_does acts_ask op_tells split: fetch.splits)

lemma CreateOrganizations_does: "does opn shown c (CreateOrganizations_process R E c ns) H"
  by (auto simp: CreateOrganizations_process_def createOrganization_process_def Let_def
      intro!: loop_does acts_ask op_tells dest!: orgs_create split: option.splits fetch.splits)
     blast+

lemma CreateModules_does: "casbin_sound enf \<Longrightarrow> does opn shown c (CreateModules_process enf R E c vs) H"
  by (auto simp: CreateModules_process_def createModule_process_def Let_def
      intro!: loop_does acts_ask module_check_does owner_check_does op_tells split: option.splits fetch.splits)
     blast+

lemma may_pushI:
  "v \<in> H \<Longrightarrow> H \<subseteq> K \<Longrightarrow> m \<in> rModules (abs v) \<Longrightarrow> may_write (abs v) (uID u) m \<Longrightarrow> may_push abs u K (mID m)"
  unfolding may_push_def by blast

lemma CreateOrUpdateLabels_does: "casbin_sound enf \<Longrightarrow> does opn shown c (CreateOrUpdateLabels_process enf R E c vs) H"
  by (auto simp: CreateOrUpdateLabels_process_def createOrUpdateLabel_process_def Let_def
      intro!: loop_does acts_ask module_check_does owner_check_does op_tells
      dest!: mod_by_name.get_Ret [of "(own, nm)" for own nm, simplified]
      split: option.splits label_ref.splits fetch.splits)
     (blast intro: may_pushI may_admin_write)+

lemma labels_do:
  assumes "may_push abs u H (mID m)"
  shows "does opn shown (Some u) (labels_process R E u i m d ns now) H"
proof -
  have "does opn shown (Some u) (loop (upsertLabel_process R E i (mID m) (commit_id d) now) 0 ns []) H"
    by (rule acts_loop [where H = H])
       (auto simp: upsertLabel_process_def Let_def intro!: op_tells intro: may_push_mono [OF assms])
  then show ?thesis
    unfolding labels_process_def
    by (intro acts_andThen, elim acts_weaken) (auto intro!: acts_ask split: sum.splits)
qed

lemma blob_tell_does:
  assumes "may_push abs u H mid" "\<And>b K. H \<subseteq> K \<Longrightarrow> does opn shown (Some u) (k b) K"
  shows "does opn shown (Some u) (tell (Store_Put S (storage_key mid (commit_id d)) d) k) H"
proof (rule acts_tell)
  fix v K e v'
  assume v: "v \<in> K" "H \<subseteq> K" "Store_Put S (storage_key mid (commit_id d)) d v = (e, v')"
  with may_push_mono [OF assms(1) v(2)] have "effect abs R S opn shown (Some u) K v v'" by (auto simp: effect_def)
  with assms(2) [OF v(2)]
  show "effect abs R S opn shown (Some u) K v v' \<and> does opn shown (Some u) (k (e \<noteq> None)) K" by blast
qed

lemma publish_does:
  assumes "may_push abs u H (mID m)"
  shows "does opn shown (Some u) (publish_process R S E u i m d ns) H"
  unfolding publish_process_def Let_def storage_key_def [symmetric]
  by (rule blob_tell_does [OF assms])
     (auto intro!: acts_ask op_tells labels_do split: option.splits, (blast intro: may_push_mono [OF assms])+)

lemma Upload_does: "casbin_sound enf \<Longrightarrow> does opn shown c (Upload_process enf R S Z E c cs) H"
  by (auto simp: Upload_process_def uploadContent_process_def intro!: loop_does acts_ask module_check_does publish_does
      dest!: mod_by_name.get_Ret [of "(own, nm)" for own nm, simplified]
      split: option.splits module_ref.splits fetch.splits sum.splits)
     (blast intro: may_pushI)+

end

section \<open>Requests\<close>

context server_in_flight
begin

lemma rpc_does: "does (sv_openReg V) shown c (rpc_process V E p c) H"
proof -
  have m: "does opn shown c (map_answer f p) H" if "does opn shown c p H" for opn f and p :: "('w, 'x) process"
    using acts_weaken [OF that order_refl] by (intro acts_andThen) simp
  show ?thesis
    by (cases p)
       (simp_all add: uses_repos uses_store acts_asks_only connect_reads_ask_only m casbin CreateUsers_does CreateOrganizations_does CreateModules_does
         CreateOrUpdateLabels_does Upload_does)
qed

lemma endpoint_does:
  "does (sv_openReg V) (password_of (sv_bcrypt V) (field2 q ''username'' ''password'')) c (endpoint_process V salt E q ep pv c) H"
  by (cases ep)
     (simp_all add: uses_repos uses_store acts_asks_only rest_reads_ask_only register_does login_does account_requests_do member_requests_do
       rest_createModule_does casbin)

lemma authentication_does:
  assumes "authentic abs rq c H"
  shows "acts G P (authentic abs rq) (Middleware_process R (clock rq 0) (Authorization rq) c) H"
    and "acts G P (each (authentic abs rq))
      (Interceptor_process R (clock rq 1) (Authorization rq) c) H"
proof -
  have keep: "authentic abs rq c K" if "H \<subseteq> K" for K by (rule authentic_mono [OF assms that])
  let ?raw = "TrimPrefix (Authorization rq) ''Bearer ''"
  have new: "authentic abs rq (Some u) L"
    if "Users_GetByID (Users R) (tUserID t) v' = Ret u" "v' \<in> L"
      "Tokens_GetByHash (Tokens R) (HashToken ?raw) v = Ret t" "v \<in> L"
      "\<not> expired_at (clock rq n) t" "n \<in> {0, 1}" "?raw \<noteq> []" "?raw \<noteq> Authorization rq" for u t v v' n L
  proof -
    have "bears (Authorization rq) ?raw" using that(7,8) by (simp add: bears_iff)
    moreover have "t \<in> rTokens (abs v)" "tHash t = HashToken ?raw" using token_by_hash.get_Ret [OF that(3)] by simp_all
    moreover have "u \<in> rUsers (abs v')" "uID u = tUserID t" using user_by_id.get_Ret [OF that(1)] by simp_all
    ultimately show ?thesis using that(2,4-6) unfolding authentic_def by metis
  qed
  show "acts G P (authentic abs rq) (Middleware_process R (clock rq 0) (Authorization rq) c) H"
    unfolding Middleware_process_def Let_def ExtractBearer_def expired_case
    by (auto intro!: acts_ask split: fetch.splits)
       ((rule new, assumption, blast, assumption, blast, assumption, simp, assumption+) | (rule keep, blast))+
  show "acts G P (each (authentic abs rq))
      (Interceptor_process R (clock rq 1) (Authorization rq) c) H"
    unfolding Interceptor_process_def Let_def expired_case
    by (auto intro!: acts_ask split: fetch.splits)
       ((rule new, assumption, blast, assumption, blast, assumption, simp, assumption+) | (rule keep, blast))+
qed

abbreviation may_do :: "request \<Rightarrow> 'w set \<Rightarrow> 'w \<Rightarrow> 'w \<Rightarrow> bool" where
  "may_do rq \<equiv> rightful abs V rq"

lemma does_rightful:
  assumes "does (sv_openReg V) (presents V rq) c p H" "authentic abs rq c H"
  shows "acts (objects_kept abs) (may_do rq) (\<lambda>_ _. True) p H"
  by (rule acts_weaken [OF assms(1) order_refl])
     (auto simp: rightful_def uses_repos uses_store intro: authentic_mono [OF assms(2)])

lemma acts_map_answer: "acts G P (\<lambda>_ _. True) p H \<Longrightarrow> acts G P (\<lambda>_ _. True) (map_answer f p) H"
  by (intro acts_andThen) (erule acts_weaken, auto)

lemma mux_does:
  assumes "authentic abs rq c H"
  shows "acts (objects_kept abs) (may_do rq) (\<lambda>_ _. True) (mux_process V rq c) H"
proof (cases "target rq")
  case (Rpc p)
  have "acts (objects_kept abs) (may_do rq) (\<lambda>x H. acts (objects_kept abs) (may_do rq) (\<lambda>_ _. True)
      (case x of Inl e \<Rightarrow> Done (Answered (Inl e))
       | Inr c' \<Rightarrow> map_answer Answered (rpc_process V (handler_env rq) p c')) H)
      (Interceptor_process R (clock rq 1) (Authorization rq) c) H"
    by (rule acts_weaken [OF authentication_does(2) [OF assms] order_refl])
       (auto intro!: acts_map_answer does_rightful rpc_does split: sum.splits)
  then show ?thesis by (simp add: mux_process_def Rpc uses_repos acts_andThen)
next
  case (Rest q)
  have "presents V rq = password_of (sv_bcrypt V) (field2 q ''username'' ''password'')"
    by (intro ext) (simp add: presents_def Rest)
  then have "does (sv_openReg V) (presents V rq) c (endpoint_process V (salt_of rq) (handler_env rq) q ep pv c) H" for ep pv
    using endpoint_does [of q c "salt_of rq" "handler_env rq" ep pv H] by simp
  from does_rightful [OF this assms]
  have "acts (objects_kept abs) (may_do rq) (\<lambda>_ _. True) (endpoint_process V (salt_of rq) (handler_env rq) q ep pv c) H" for ep pv .
  then show ?thesis by (auto simp: mux_process_def Rest intro!: acts_map_answer split: option.splits)
qed

lemma request_does:
  "acts (\<lambda>s t. objects_kept abs (snd s) (snd t)) (\<lambda>H s s'. may_do rq (snd ` H) (snd s) (snd s')) (\<lambda>_ _. True) (request_process V rq) {}"
proof -
  have none: "authentic abs rq None H" for H by (simp add: authentic_def)
  have same: "may_do rq H v v" for H v unfolding rightful_def by (rule exI [of _ None]) (simp add: none)
  have "acts (objects_kept abs) (may_do rq) (\<lambda>c H. acts (objects_kept abs) (may_do rq) (\<lambda>_ _. True) (mux_process V rq c) H)
      (Middleware_process R (clock rq 0) (Authorization rq) None) H" for H
    by (rule acts_weaken [OF authentication_does(1) [OF none] order_refl]) (simp_all add: mux_does)
  then have "acts (\<lambda>s t. objects_kept abs (snd s) (snd t)) (\<lambda>H s s'. may_do rq (snd ` H) (snd s) (snd s')) (\<lambda>_ _. True)
      (on_snd (andThen (Middleware_process R (clock rq 0) (Authorization rq) None) (mux_process V rq))
        :: (rateLimiter \<times> 'w, 'fd outcome) process) H" for H
    using acts_on_snd [OF acts_andThen, of "objects_kept abs" "may_do rq" "\<lambda>_ _. True"] by blast
  then show ?thesis by (simp add: request_process_def uses_repos same)
qed

lemma tick_does: "acts G (\<lambda>H s s'. snd s' = snd s) (\<lambda>_ _. True) tick_process {}"
  by (simp add: tick_process_def)

text \<open>What a request may do keeps the organizations.\<close>

lemma entitled_kept:
  assumes "do_write R a v = (e, v')" "entitled abs opn shown c H a" "registry_keys (abs v)"
  shows "objects_kept abs v v'"
proof -
  have keys: "registry_keys (abs v')" "rOrgs (abs v) \<subseteq> rOrgs (abs v')"
    using steps_from_write [OF steps_from_refl assms(1)] assms(3) reg_steps_grow by blast+
  have "rModules (abs v) \<subseteq> rModules (abs v')"
  proof (cases e)
    case (Some x)
    with assms(1) write_failed have "abs v' = abs v" by blast
    then show ?thesis by simp
  next
    case None
    then show ?thesis
    proof (cases a)
      case (LabelUpsert l)
      with None assms(1,3) have "abs v' = (abs v)\<lparr>rLabels := rLabels (abs v')\<rparr>"
        using labels_upsert [of l v v'] by (auto simp: registry_keys_def)
      from arg_cong [OF this, of rModules] show ?thesis by simp
    next
      case (ModuleCreate m)
      show ?thesis using assms(1) None ModuleCreate by (auto dest: modules_create)
    qed (use assms(1,2) None in \<open>auto dest: users_create orgs_create orgs_add orgs_remove commits_create tokens_create
        tokens_revoke tokens_delete_expired tokens_delete_note elim: entitled.elims\<close>)
  qed
  with keys assms(3) show ?thesis by (simp add: objects_kept_def)
qed

lemma rightful_kept: "rightful abs V rq H v v' \<Longrightarrow> objects_kept abs v v \<Longrightarrow> objects_kept abs v v'"
  unfolding rightful_def effect_def uses_repos uses_store
  by (auto simp: objects_kept_def dest: put_abs) (blast dest: entitled_kept [unfolded objects_kept_def])+

end

text \<open>
  A run of the server from a registry with unique keys: what its calls were entitled to, and what its answers satisfy, for
  any condition \<open>Q\<close> that every request guarantees of its answer.
\<close>

lemma requests_traced:
  fixes w :: "'z World_scheme" and V :: "('z World_scheme, 'fd) server"
  assumes "gorm_db G" "casbin_sound enf" "rooted s" "sv_repos V = sql_repos enf G"
    and "sv_casbin V = enf" "sv_store V = NewLocalStore s"
    and "registry_keys (sql_abs w)" "traced (in_flight V es, (main_limiter, w)) xs (ps, z)"
    and "\<And>rq. acts (\<lambda>s t. objects_kept sql_abs (snd s) (snd t)) (\<lambda>_ _ _. True) (Q rq) (request_process V rq) {}"
  shows "k < length xs \<Longrightarrow> xs ! k = (i, (rl, v), (rl', v')) \<Longrightarrow> i < length es \<and>
      (case es ! i of Arrive rq \<Rightarrow> rightful sql_abs V rq (snd ` passed xs k) v v' | MinuteTick \<Rightarrow> v' = v)"
    and "i < length es \<Longrightarrow> es ! i = Arrive rq \<Longrightarrow> ps ! i = Done oc \<Longrightarrow> Q rq oc ((\<lambda>(i, v, v'). v) ` set xs)"
proof -
  note V = local_server_in_flight [where holding = partial, OF assms(1,2) rooted_partial [OF assms(3)] assms(4-6)]
  let ?P = "\<lambda>i H s s'. case es ! i of Arrive rq \<Rightarrow> rightful sql_abs V rq (snd ` H) (snd s) (snd s') | MinuteTick \<Rightarrow> snd s' = snd s"
  let ?Q = "\<lambda>i r H. case es ! i of Arrive rq \<Rightarrow> Q rq r H | MinuteTick \<Rightarrow> True"
  obtain rlz vz where z: "z = (rlz, vz)" by fastforce
  let ?G = "\<lambda>s t :: rateLimiter \<times> 'z World_scheme. objects_kept sql_abs (snd s) (snd t)"
  have acts: "acts ?G (?P i) (?Q i) (in_flight V es ! i) {}" if "i < length (in_flight V es)" for i
  proof (cases "es ! i")
    case (Arrive rq)
    with that acts_conj [OF server_in_flight.request_does [OF V, of rq] assms(9) [of rq]]
    show ?thesis by (simp add: in_flight_def)
  next
    case MinuteTick
    with that server_in_flight.tick_does [OF V] show ?thesis by (simp add: in_flight_def)
  qed
  have refl: "?P i H s s" for i H and s :: "rateLimiter \<times> 'z World_scheme"
  proof (cases "es ! i")
    case (Arrive rq)
    have "rightful sql_abs V rq (snd ` H) (snd s) (snd s)"
      unfolding rightful_def by (rule exI [of _ None]) (simp add: authentic_def)
    with Arrive show ?thesis by simp
  qed simp
  have kept: "?G s s'" if "?P i H s s'" "?G s s" for i H s s'
    using that server_in_flight.rightful_kept [OF V] by (cases "es ! i") simp_all
  have order: "?G s u" if "?G s t" "?G t u" for s t u
    using that by (auto simp: objects_kept_def)
  have start: "?G (main_limiter, w) (main_limiter, w)" using assms(7) by (simp add: objects_kept_def)
  have later: "?G t t" if "?G s t" for s t using that by (simp add: objects_kept_def)
  have run: "(\<forall>k < length xs. case xs ! k of (i, s, s') \<Rightarrow> i < length (in_flight V es) \<and> ?P i (passed xs k) s s') \<and>
    length ps = length (in_flight V es) \<and>
    (\<forall>i < length (in_flight V es). acts ?G (?P i) (?Q i) (ps ! i) ((\<lambda>(i, v, v'). v) ` set xs)) \<and>
    (\<forall>h \<in> (\<lambda>(i, v, v'). v) ` set xs. ?G h z) \<and> ?G z z"
    unfolding z
  proof (rule traced_acts [where G = ?G and P = ?P and Q = ?Q, OF assms(8) [unfolded z]])
  qed (fact acts refl kept order later start)+
  show "i < length es \<and> (case es ! i of Arrive rq \<Rightarrow> rightful sql_abs V rq (snd ` passed xs k) v v' | MinuteTick \<Rightarrow> v' = v)"
    if k: "k < length xs" "xs ! k = (i, (rl, v), (rl', v'))"
  proof -
    from run [THEN conjunct1, THEN spec, THEN mp, OF k(1)] have "i < length es \<and> ?P i (passed xs k) (rl, v) (rl', v')"
      unfolding k(2) prod.case in_flight_def length_map .
    then show ?thesis unfolding snd_conv .
  qed
  show "Q rq oc ((\<lambda>(i, v, v'). v) ` set xs)" if "i < length es" "es ! i = Arrive rq" "ps ! i = Done oc"
  proof -
    have "acts ?G (?P i) (?Q i) (Done oc) ((\<lambda>(i, v, v'). v) ` set xs)"
      using run [THEN conjunct2, THEN conjunct2, THEN conjunct1, THEN spec, THEN mp, of i] that(1)
      unfolding that(3) by (simp only: in_flight_def length_map)
    then have "?Q i oc ((\<lambda>(i, v, v'). v) ` set xs)" unfolding acts.simps by blast
    with that(2) show ?thesis by simp
  qed
qed

section \<open>Properties\<close>

text \<open>
  C4. Requests in flight stay within the access policy. However the calls of requests interleave and whatever fails, every
  single call of a request leaves the registry alone, or is one write that the request's caller was entitled to at a moment of
  the run (a commit or label of a module it could write, a module it could create, a member of an organization it administered or
  founded, a token of its own or of a user whose password it presented, an account while registration is open), or stores an archive
  below a module it could write; and the caller is nobody, or the owner of a token that the header carries and that was live when it
  was looked up.
\<close>

theorem concurrent_authorized:
  fixes w :: "'z World_scheme" and V :: "('z World_scheme, 'fd) server"
  assumes "gorm_db G" "casbin_sound enf" "rooted s" "sv_repos V = sql_repos enf G"
    and "sv_casbin V = enf" "sv_store V = NewLocalStore s"
    and "registry_keys (sql_abs w)" "traced (in_flight V es, (main_limiter, w)) xs (ps, z)" "k < length xs" "xs ! k = (i, (rl, v), (rl', v'))"
  shows "i < length es \<and>
    (case es ! i of Arrive rq \<Rightarrow> rightful sql_abs V rq (snd ` passed xs k) v v' | MinuteTick \<Rightarrow> v' = v)"
  by (rule requests_traced(1) [where Q = "\<lambda>_ _ _. True", OF assms(1-8) acts_trivial assms(9,10)])

text \<open>The account of the example is created by the third call, on an open server.\<close>

lemma carol_trace:
  "\<exists>rl1 rl2. schedule_trace [0, 1, 0]
      (in_flight open_server [Arrive (carol_request ''c1''), Arrive (carol_request ''c2'')], (main_limiter, demo_world)) =
      [(0, (main_limiter, demo_world), (rl1, demo_world)), (1, (rl1, demo_world), (rl2, demo_world)),
       (0, (rl2, demo_world), (rl2, carol_world))]"
proof -
  have n: "nameRe ''carol''" unfolding nameRe_iff by code_simp
  note db = carol_db(1) [unfolded carol_def]
  show ?thesis
    by (simp add: in_flight_def request_process_def Middleware_process_def Interceptor_process_def mux_process_def
        carol_request_def demo_request_def ExtractBearer_def TrimPrefix_def HasPrefix_def CreateUsers_process_def
        createUser_process_def n Let_def demo_env_def tell_def ask_def
        allow_def main_limiter_def newRateLimiter_def token_count_def db)
qed

theorem concurrent_authorized_witness:
  "rightful sql_abs open_server (carol_request ''c1'') {demo_world} demo_world carol_world"
proof -
  let ?es = "[Arrive (carol_request ''c1''), Arrive (carol_request ''c2'')]"
  let ?s = "(in_flight open_server ?es, (main_limiter, demo_world))"
  obtain rl1 rl2 where xs: "schedule_trace [0, 1, 0] ?s =
      [(0, (main_limiter, demo_world), (rl1, demo_world)), (1, (rl1, demo_world), (rl2, demo_world)),
       (0, (rl2, demo_world), (rl2, carol_world))]"
    using carol_trace by blast
  have "traced ?s (schedule_trace [0, 1, 0] ?s) (fst (run_pool [0, 1, 0] ?s), snd (run_pool [0, 1, 0] ?s))"
    unfolding prod.collapse by (rule schedule_traced)
  note t = this [unfolded xs]
  have keys: "registry_keys (sql_abs demo_world)" using demo_local_inv [of whole] by (simp add: content_inv_def)
  have "0 < length ?es \<and> (case ?es ! 0 of Arrive rq \<Rightarrow>
      rightful sql_abs open_server rq (snd ` passed [(0, (main_limiter, demo_world), (rl1, demo_world)),
        (1, (rl1, demo_world), (rl2, demo_world)), (0, (rl2, demo_world), (rl2, carol_world))] 2) demo_world carol_world
      | MinuteTick \<Rightarrow> carol_world = demo_world)"
    by (rule concurrent_authorized [OF list_db.gorm_db_axioms casbin_matches_sound [OF policy_enforcer_matches]
          default_local_rooted open_server_simps(1,4,2) keys t]) simp_all
  then show ?thesis by (simp add: passed_def)
qed

end
