(* ===== verification/Races.thy ===== *)
theory Races
  imports Rights
begin

text \<open>
  The handlers look before they write, without a transaction around both. When the same request arrives twice at the same time,
  both look before either writes, and the slower one is answered with an internal error although nothing is wrong:
  \<^verbatim>\<open>Upload\<close>, which means to reuse a commit that is there, and \<^verbatim>\<open>register\<close>, which means to say that the name is taken.
  And a right that is withdrawn between the check and the write is used all the same.
\<close>

context backend_reliable
begin

lemma upload_race_run:
  assumes fresh: "\<not> has_commit (abs w) (mID m) (commit_id d)"
    and put: "Store_Put S (storage_key (mID m) (commit_id d)) d w = (None, w1)"
      "Store_Put S (storage_key (mID m) (commit_id d)) d w1 = (None, w2)"
  shows "\<exists>p w'. run_pool [0, 1, 0, 1, 0, 1]
      ([publish_process R S E u i m d ns, publish_process R S E' u' i' m d ns'], w) =
      ([p, Done (Inl (ConnectError CodeInternal ''failed to create commit''))], w') \<and>
    has_commit (abs w') (mID m) (commit_id d)"
proof -
  let ?c = "\<lambda>E u i. \<lparr>cID = commit_id d, cModuleID = mID m, cStorageKey = storage_key (mID m) (commit_id d), cManifest = [],
      cCreatedByUserID = uID u, cCreatedAt = Now E i 0\<rparr>"
  have abs: "abs w2 = abs w" using put_abs [OF put(1)] put_abs [OF put(2)] by simp
  have new: "\<forall>v\<in>rCommits (abs w2). commit_key v \<noteq> (mID m, commit_id d)"
    using fresh by (auto simp: abs has_commit_def)
  obtain p where "Commits_GetByID (Commits R) (mID m) (commit_id d) w2 = RetErr p ErrNotFound"
    using commit_by_id.get_not_found [of w2 "(mID m, commit_id d)"] new by auto
  with commit_nil have get: "fetch_ptr (Commits_GetByID (Commits R) (mID m) (commit_id d) w2) = None" by (metis fetch_ptr.simps(2))
  obtain w3 where c1: "Commits_Create (Commits R) (?c E u i) w2 = (None, w3)"
    using commits_create_ok [of w2 "?c E u i"] new by auto
  then have abs3: "abs w3 = (abs w2)\<lparr>rCommits := insert (?c E u i) (rCommits (abs w2))\<rparr>" using commits_create by blast
  obtain e w4 where c2: "Commits_Create (Commits R) (?c E' u' i') w3 = (e, w4)" by fastforce
  have "e \<noteq> None" using commits_create [of "?c E' u' i'" w3 w4] c2 abs3 by auto
  then obtain x where x: "e = Some x" by blast
  have "abs w4 = abs w3" using commits_create_err [of "?c E' u' i'" w3 x w4] c2 x by simp
  then have "has_commit (abs w4) (mID m) (commit_id d)" by (auto simp: has_commit_def abs3)
  then show ?thesis
    using put c1 c2 [unfolded x] by (simp add: publish_process_def storage_key_def tell_def ask_def get Let_def)
qed

text \<open>
  A right that was checked and then withdrawn still counts: here a member of an organization is removed between the check of
  the upload and its first write.
\<close>

lemma stale_upload_run:
  assumes keys: "registry_keys (abs w)" and enf: "casbin_matches enf"
    and m: "m \<in> rModules (abs w)" "mOwnerType m = OwnerTypeOrg" "may_write (abs w) (uID u) m"
    and content: "uc_module_ref content = Some (ModuleByName (mOwnerName m) (mName m))" "validateFiles (uc_files content) = None"
      "zipFiles Z (uc_files content) = Inr d" "int (length d) \<le> maxUploadSize"
    and org: "g \<in> rOrgs (abs w)" "oName g = mOwnerName m" "may_manage (abs w) (uID a) (oID g)" "u \<in> rUsers (abs w)"
    and fresh: "\<not> has_commit (abs w) (mID m) (commit_id d)"
    and put: "\<And>v. \<exists>v'. Store_Put S (storage_key (mID m) (commit_id d)) d v = (None, v')"
  shows "\<exists>p w'. run_pool [0, 0, 0, 1, 1, 1, 1, 0, 0, 0]
      ([map_answer Inl (uploadContent_process enf R S Z E u i content),
        map_answer Inr (removeMember_process enf R (Some a) (mOwnerName m) (uUsername u))], w) =
      ([p, Done (Inr (writeJSON StatusOK (JObj [(''status'', ''removed'')])))], w') \<and>
    has_commit (abs w') (mID m) (commit_id d) \<and> \<not> may_write (abs w') (uID u) m"
proof -
  have inj: "inj_on module_key (rModules (abs w))" "inj_on oName (rOrgs (abs w))" "inj_on uUsername (rUsers (abs w))"
    using keys by (simp_all add: registry_keys_def)
  have reads: "Modules_Get (Modules R) (mOwnerName m) (mName m) w = Ret m"
    "Orgs_GetByName (Orgs R) (mOwnerName m) w = Ret g" "Users_GetByUsername (Users R) (uUsername u) w = Ret u"
    using mod_by_name.get_iff [of w "(mOwnerName m, mName m)" m] org_by_name.get_iff [of w "mOwnerName m" g]
      user_by_name.get_iff [of w "uUsername u" u] inj m(1) org(1,2,4)
    by simp_all
  have only: "g' = g" if "g' \<in> rOrgs (abs w)" "oName g' = mOwnerName m" for g'
    using inj(2) org(1,2) that by (simp add: inj_on_def)
  from m(2,3) have u: "uID u \<noteq> []" "has_role (abs w) (uID u) (mOwnerName m) (\<lambda>_. True)"
    by (simp_all add: may_write_def model_consts)
  obtain mu where mu: "Orgs_GetMember (Orgs R) (oID g) (uID u) w = Ret mu"
    using u(2) only member_found [OF keys] unfolding has_role_def by blast
  obtain ma where ma: "uID a \<noteq> []" "Orgs_GetMember (Orgs R) (oID g) (uID a) w = Ret ma" "omRole ma = OrgRoleAdmin"
    using org(3) member_found [OF keys] unfolding may_manage_def by blast
  have allowed: "enforce (authorizer enf R) ''org_admin'' ''module'' ''write''"
    "enforce (authorizer enf R) ''org_member'' ''module'' ''write''"
    "enforce (authorizer enf R) ''org_admin'' ''org'' ''manage_members''"
    by (simp_all add: enforce_exact [OF enf] policy_rules_eq)
  have role: "enforce (authorizer enf R) (if b then ''org_admin'' else ''org_member'') ''module'' ''write''" for b
    using allowed(1,2) by (cases b) simp_all
  note check = can_process_defs role_process_defs u(1) m(2) mu ma allowed(3) role model_consts
  obtain w1 where rm: "Orgs_RemoveMember (Orgs R) (oID g) (uID u) w = (None, w1)" using orgs_remove_ok by blast
  then have abs1: "abs w1 = (abs w)\<lparr>rMembers := {v \<in> rMembers (abs w). member_key v \<noteq> (oID g, uID u)}\<rparr>"
    using orgs_remove by blast
  obtain w2 where w2: "Store_Put S (storage_key (mID m) (commit_id d)) d w1 = (None, w2)" using put by blast
  then have abs2: "abs w2 = abs w1" by (rule put_abs)
  have new: "\<forall>v\<in>rCommits (abs w2). commit_key v \<noteq> (mID m, commit_id d)"
    using fresh by (auto simp: abs1 abs2 has_commit_def)
  obtain q where "Commits_GetByID (Commits R) (mID m) (commit_id d) w2 = RetErr q ErrNotFound"
    using commit_by_id.get_not_found [of w2 "(mID m, commit_id d)"] new by auto
  with commit_nil have get: "fetch_ptr (Commits_GetByID (Commits R) (mID m) (commit_id d) w2) = None" by (metis fetch_ptr.simps(2))
  let ?c = "\<lparr>cID = commit_id d, cModuleID = mID m, cStorageKey = storage_key (mID m) (commit_id d), cManifest = [],
      cCreatedByUserID = uID u, cCreatedAt = Now E i 0\<rparr>"
  obtain w3 where cr: "Commits_Create (Commits R) ?c w2 = (None, w3)" using commits_create_ok [of w2 ?c] new by auto
  then have abs3: "abs w3 = (abs w2)\<lparr>rCommits := insert ?c (rCommits (abs w2))\<rparr>" using commits_create by blast
  have "\<not> may_write (abs w3) (uID u) m"
    using inj(2) org(1,2) m(2) by (auto simp: abs1 abs2 abs3 may_write_def has_role_def model_consts inj_on_def)
  moreover have "has_commit (abs w3) (mID m) (commit_id d)" by (auto simp: has_commit_def abs3)
  ultimately show ?thesis
    using reads content rm w2 get cr
    by (simp add: uploadContent_process_def removeMember_process_def publish_process_def storage_key_def tell_def ask_def Let_def
        check)
qed

end

context repos_reliable
begin

lemma register_race_run:
  assumes keys: "registry_keys (abs w)" and name: "good_name 3 un" and pw: "8 \<le> length pw"
    and h: "HashPassword B salt pw = Inr h" "HashPassword B salt' pw' = Inr h'" "8 \<le> length pw'"
    and fresh: "\<forall>v\<in>rUsers (abs w). uUsername v \<noteq> un \<and> uID v \<noteq> NewString E 0 0"
  shows "\<exists>w'. run_pool [0, 1, 0, 1]
      ([register_process R True B salt E (Some (un, pw)), register_process R True B salt' E' (Some (un, pw'))], w) =
      ([Done (writeJSON StatusCreated (JObj [(''id'', NewString E 0 0), (''username'', un)])),
        Done (writeErr StatusInternalServerError ''internal error'')], w')"
proof -
  let ?u = "\<lambda>E h. \<lparr>uID = NewString E 0 0, uUsername = un, uPasswordHash = h, uCreatedAt = Now E 0 0\<rparr>"
  obtain p where get: "Users_GetByUsername (Users R) un w = RetErr p ErrNotFound"
    using user_by_name.get_not_found [of w un] fresh by auto
  obtain w1 where c1: "Users_Create (Users R) (?u E h) w = (None, w1)"
    using users_create_ok [of w "?u E h"] fresh by auto
  then have abs1: "abs w1 = (abs w)\<lparr>rUsers := insert (?u E h) (rUsers (abs w))\<rparr>" using users_create by blast
  obtain e w2 where c2: "Users_Create (Users R) (?u E' h') w1 = (e, w2)" by fastforce
  have "e \<noteq> None" using users_create [of "?u E' h'" w1 w2] c2 abs1 by auto
  then obtain x where x: "e = Some x" by blast
  have n: "usernameRe un" using name by (simp add: usernameRe_iff)
  show ?thesis
    using pw h(3) by (simp add: register_process_def n h(1,2) tell_def ask_def get c1 c2 x Let_def)
qed

end

text \<open>
  Two uploads of the same new content to a module, their calls in turns: one creates the commit, the other fails to create it and
  is answered with an internal error, while the commit is there.
\<close>

theorem upload_race:
  fixes w :: "'z World_scheme"
  assumes "gorm_db_reliable G" "casbin_matches enf" "gorm_reliable g blob_clash"
    and "\<not> has_commit (sql_abs w) (mID m) (commit_id d)"
    and "Store_Put (NewDBStore g now) (storage_key (mID m) (commit_id d)) d w = (None, w1)"
    and "Store_Put (NewDBStore g now) (storage_key (mID m) (commit_id d)) d w1 = (None, w2)"
  shows "\<exists>p w'. run_pool [0, 1, 0, 1, 0, 1]
      ([publish_process (sql_repos enf G) (NewDBStore g now) E u i m d ns,
        publish_process (sql_repos enf G) (NewDBStore g now) E' u' i' m d ns'], w) =
      ([p, Done (Inl (ConnectError CodeInternal ''failed to create commit''))], w') \<and>
    has_commit (sql_abs w') (mID m) (commit_id d)"
  by (rule backend_reliable.upload_race_run [OF sql_db_backend_reliable [OF assms(1-3)] assms(4-6)])

text \<open>
  The check of an upload is not repeated when it writes: a member who is removed after the check still adds a commit to a
  module that the registry no longer lets it write. This is why \<open>concurrent_authorized\<close> speaks of a moment of the run.
\<close>

theorem stale_upload:
  fixes w :: "'z World_scheme"
  assumes "gorm_db_reliable G" "casbin_matches enf" "gorm_reliable g blob_clash"
    and "registry_keys (sql_abs w)" "m \<in> rModules (sql_abs w)" "mOwnerType m = OwnerTypeOrg" "may_write (sql_abs w) (uID u) m"
    and "uc_module_ref content = Some (ModuleByName (mOwnerName m) (mName m))" "validateFiles (uc_files content) = None"
      "zipFiles Z (uc_files content) = Inr d" "int (length d) \<le> maxUploadSize"
    and "org \<in> rOrgs (sql_abs w)" "oName org = mOwnerName m" "may_manage (sql_abs w) (uID a) (oID org)" "u \<in> rUsers (sql_abs w)"
    and "\<not> has_commit (sql_abs w) (mID m) (commit_id d)"
    and "\<And>v :: 'z World_scheme. \<exists>v'. Store_Put (NewDBStore g now) (storage_key (mID m) (commit_id d)) d v = (None, v')"
  shows "\<exists>p w'. run_pool [0, 0, 0, 1, 1, 1, 1, 0, 0, 0]
      ([map_answer Inl (uploadContent_process enf (sql_repos enf G) (NewDBStore g now) Z E u i content),
        map_answer Inr (removeMember_process enf (sql_repos enf G) (Some a) (mOwnerName m) (uUsername u))], w) =
      ([p, Done (Inr (writeJSON StatusOK (JObj [(''status'', ''removed'')])))], w') \<and>
    has_commit (sql_abs w') (mID m) (commit_id d) \<and> \<not> may_write (sql_abs w') (uID u) m"
  by (rule backend_reliable.stale_upload_run [OF sql_db_backend_reliable [OF assms(1-3)] assms(4,2,5-17)])

text \<open>
  Two registrations of one name, their calls in turns: the name is given once, and the loser is told of an internal error instead
  of a conflict.
\<close>

theorem register_race:
  fixes d :: "'z SqlDB_scheme"
  assumes "gorm_db_reliable G" "registry_keys (sql_abs d)" "good_name 3 un" "8 \<le> length pw" "8 \<le> length pw'"
    and "HashPassword B salt pw = Inr h" "HashPassword B salt' pw' = Inr h'"
    and "\<forall>v\<in>rUsers (sql_abs d). uUsername v \<noteq> un \<and> uID v \<noteq> NewString E 0 0"
  shows "\<exists>d'. run_pool [0, 1, 0, 1]
      ([register_process (sql_repos enf G) True B salt E (Some (un, pw)),
        register_process (sql_repos enf G) True B salt' E' (Some (un, pw'))], d) =
      ([Done (writeJSON StatusCreated (JObj [(''id'', NewString E 0 0), (''username'', un)])),
        Done (writeErr StatusInternalServerError ''internal error'')], d')"
  using repos_reliable.register_race_run [OF gorm_db_reliable.repos_reliable_sql [OF assms(1), where enf = enf and 'a = 'z]] assms
  by blast

end
