(* ===== verification/Confidential.thy ===== *)
theory Confidential
  imports Rights
begin

text \<open>
  Reading while others write. A reading request looks the module up, checks, and fetches in separate calls, and the registry may
  change in between; what holds of every interleaving is that each module it tells about is one that, at some moment
  of the run, the registry had and the request's caller was allowed to read.
\<close>

section \<open>What an answer tells about\<close>

text \<open>The modules whose data a Connect procedure answers with.\<close>

fun told :: "'fd rpc_answer \<Rightarrow> string list" where
  "told (AnsModules ps) = map pm_id ps"
| "told (AnsCommits ps) = map pc_module_id ps"
| "told (AnsLabels ps) = map pl_module_id ps"
| "told (AnsContents ps) = map (\<lambda>(pc, files). pc_module_id pc) ps"
| "told (AnsFileDescriptorSet (fds, pc)) = [pc_module_id pc]"
| "told _ = []"

fun reads_modules :: "rpc \<Rightarrow> bool" where
  "reads_modules (RpcGetModules _) \<longleftrightarrow> True"
| "reads_modules (RpcListModules _) \<longleftrightarrow> True"
| "reads_modules (RpcGetCommits _) \<longleftrightarrow> True"
| "reads_modules (RpcListCommits _) \<longleftrightarrow> True"
| "reads_modules (RpcGetLabels _) \<longleftrightarrow> True"
| "reads_modules (RpcListLabels _) \<longleftrightarrow> True"
| "reads_modules (RpcDownload _) \<longleftrightarrow> True"
| "reads_modules (RpcGetFileDescriptorSet _) \<longleftrightarrow> True"
| "reads_modules _ \<longleftrightarrow> False"

text \<open>A REST response tells of the module of its path, or lists modules or tokens.\<close>

definition rest_told ::
  "('w \<Rightarrow> Registry) \<Rightarrow> string \<Rightarrow> endpoint \<Rightarrow> (string \<Rightarrow> string) \<Rightarrow> http_response \<Rightarrow> 'w set \<Rightarrow> bool" where
  "rest_told reg uid ep pv r H \<longleftrightarrow>
     (ep \<in> {EpGetModule, EpListCommits, EpGetCommit, EpListLabels, EpListFiles, EpGetFileContent} \<and> status r = StatusOK \<longrightarrow>
        (\<exists>v\<in>H. \<exists>m\<in>rModules (reg v). mOwnerName m = pv ''owner'' \<and> mName m = pv ''repo'' \<and> may_read (reg v) uid m)) \<and>
     (ep = EpListModules \<and> status r = StatusOK \<longrightarrow>
        (\<exists>ms. r = writeJSON StatusOK (JList (map moduleToJSON ms)) \<and>
           (\<forall>m\<in>set ms. \<exists>v\<in>H. m \<in> rModules (reg v) \<and> may_read (reg v) uid m))) \<and>
     (ep = EpListTokens \<and> status r = StatusOK \<longrightarrow>
        (\<exists>ts. r = writeJSON StatusOK (JList (map (\<lambda>t. [(''id'', tID t), (''note'', tNote t)]) ts)) \<and>
           (\<forall>t\<in>set ts. tUserID t = uid \<and> (\<exists>v\<in>H. t \<in> rTokens (reg v)))))"

definition discreet :: "('w \<Rightarrow> Registry) \<Rightarrow> request \<Rightarrow> string \<Rightarrow> 'fd outcome \<Rightarrow> 'w set \<Rightarrow> bool" where
  "discreet reg rq uid oc H \<longleftrightarrow>
     (case (target rq, oc) of
        (Rpc p, Answered (Inr a)) \<Rightarrow> reads_modules p \<longrightarrow> (\<forall>i\<in>set (told a). \<exists>v\<in>H. readable (reg v) uid i)
      | (Rest q, Responded r) \<Rightarrow>
          (\<forall>ep vals. find_route routes (Method q) (Path q) = Some (ep, vals) \<longrightarrow> rest_told reg uid ep (PathValue vals) r H)
      | _ \<Rightarrow> True)"

section \<open>Processes and what their answers satisfy\<close>

lemma acts_done: "(\<And>K. H \<subseteq> K \<Longrightarrow> Q r K) \<Longrightarrow> acts G P Q (Done r) H"
  by simp

lemma acts_map: "acts G P S p H \<Longrightarrow> (\<And>r K. S r K \<Longrightarrow> Q (f r) K) \<Longrightarrow> acts G P Q (map_answer f p) H"
  by (induction p arbitrary: H) auto

lemma each_map_sum: "each D r K \<Longrightarrow> (\<And>y. D y K \<Longrightarrow> D' (f y) K) \<Longrightarrow> each D' (map_sum id f r) K"
  by (cases r) simp_all

lemma each_True [simp]: "each (\<lambda>_ _. True) r K"
  by (cases r) simp_all

text \<open>The loop over references, each element of whose answer satisfies a condition that later states keep.\<close>

lemma acts_each_ref:
  fixes body :: "'x \<Rightarrow> ('w, 'e + 'y) process"
  assumes "\<And>x K. acts G P (each D) (body x) K" "\<And>y H K. D y H \<Longrightarrow> H \<subseteq> K \<Longrightarrow> D y K" "\<forall>y\<in>set ys. D y H"
  shows "acts G P (each (\<lambda>ys H. \<forall>y\<in>set ys. D y H)) (loop (\<lambda>_. body) i xs ys) H"
  using assms(3)
proof (induction xs arbitrary: i ys H)
  case Nil
  then show ?case using assms(2) by auto
next
  case (Cons x xs)
  show ?case
    unfolding loop.simps
  proof (rule acts_first [OF assms(1)])
    fix r :: "'e + 'y" and K
    assume K: "H \<subseteq> K" "each D r K"
    then have "\<forall>z\<in>set (ys @ [y]). D z K" if "r = Inr y" for y using Cons.prems assms(2) that by auto
    then show "acts G P (each (\<lambda>ys H. \<forall>y\<in>set ys. D y H))
        (case r of Inl e \<Rightarrow> Done (Inl e) | Inr y \<Rightarrow> loop (\<lambda>_. body) (Suc i) xs (ys @ [y])) K"
      using Cons.IH by (cases r) auto
  qed
qed

context backend
begin

text \<open>\<open>H\<close> has seen the module with the identifier as one the user may read.\<close>

abbreviation told_of :: "string \<Rightarrow> string \<Rightarrow> 'w set \<Rightarrow> bool" where
  "told_of uid i H \<equiv> \<exists>v\<in>H. readable (abs v) uid i"

lemma told_ofI: "allowed_once may_read uid m H \<Longrightarrow> H \<subseteq> K \<Longrightarrow> told_of uid (mID m) K"
  unfolding readable_def by blast

lemma told_of_mono: "told_of uid i H \<Longrightarrow> H \<subseteq> K \<Longrightarrow> told_of uid i K"
  by blast

abbreviation answers :: "('r \<Rightarrow> 'w set \<Rightarrow> bool) \<Rightarrow> ('w, 'r) process \<Rightarrow> 'w set \<Rightarrow> bool" where
  "answers \<equiv> acts (objects_kept abs) (\<lambda>_ _ _. True)"

text \<open>A handler ends by asking for the owner of the module.\<close>

lemma owner_last:
  assumes "allowed_once may_read uid m K"
  shows "answers (each (\<lambda>p K. told_of uid (pm_id p) K)) (ask g (\<lambda>ownerID. Done (Inr (moduleToProto m ownerID)))) K"
    and "answers (\<lambda>p K. told_of uid (pm_id p) K) (ask g (\<lambda>ownerID. Done (moduleToProto m ownerID))) K"
    and "cModuleID c = mID m \<Longrightarrow>
      answers (each (\<lambda>p K. told_of uid (pc_module_id p) K)) (ask g (\<lambda>ownerID. Done (Inr (commitToProto c ownerID)))) K"
    and "\<forall>c\<in>set cs. cModuleID c = mID m \<Longrightarrow>
      answers (each (\<lambda>ps K. \<forall>p\<in>set ps. told_of uid (pc_module_id p) K))
        (ask g (\<lambda>ownerID. Done (Inr (map (\<lambda>c. commitToProto c ownerID) cs)))) K"
    and "lModuleID l = mID m \<Longrightarrow>
      answers (each (\<lambda>p K. told_of uid (pl_module_id p) K)) (ask g (\<lambda>ownerID. Done (Inr (labelToProto l ownerID)))) K"
    and "\<forall>l\<in>set ls. lModuleID l = mID m \<Longrightarrow>
      answers (each (\<lambda>ps K. \<forall>p\<in>set ps. told_of uid (pl_module_id p) K))
        (ask g (\<lambda>ownerID. Done (Inr (map (\<lambda>l. labelToProto l ownerID) ls)))) K"
    and "answers (each (\<lambda>(p, files) K. told_of uid (pc_module_id p) K))
      (ask g (\<lambda>ownerID. Done (Inr (owned_commit m co ownerID, fs)))) K"
    and "answers (each (\<lambda>(fds, p) K. told_of uid (pc_module_id p) K))
      (ask g (\<lambda>ownerID. Done (Inr (fd, owned_commit m co ownerID)))) K"
proof -
  have told: "told_of uid (mID m) L" if "K \<subseteq> L" for L by (rule told_ofI [OF assms that])
  note simps = moduleToProto_def commitToProto_def labelToProto_def owned_commit_def
  show "answers (each (\<lambda>p K. told_of uid (pm_id p) K)) (ask g (\<lambda>ownerID. Done (Inr (moduleToProto m ownerID)))) K"
    "answers (\<lambda>p K. told_of uid (pm_id p) K) (ask g (\<lambda>ownerID. Done (moduleToProto m ownerID))) K"
    "answers (each (\<lambda>(p, files) K. told_of uid (pc_module_id p) K))
      (ask g (\<lambda>ownerID. Done (Inr (owned_commit m co ownerID, fs)))) K"
    "answers (each (\<lambda>(fds, p) K. told_of uid (pc_module_id p) K))
      (ask g (\<lambda>ownerID. Done (Inr (fd, owned_commit m co ownerID)))) K"
    by (rule acts_ask, simp add: simps, intro allI impI, rule told, blast)+
  show "cModuleID c = mID m \<Longrightarrow>
      answers (each (\<lambda>p K. told_of uid (pc_module_id p) K)) (ask g (\<lambda>ownerID. Done (Inr (commitToProto c ownerID)))) K"
    "lModuleID l = mID m \<Longrightarrow>
      answers (each (\<lambda>p K. told_of uid (pl_module_id p) K)) (ask g (\<lambda>ownerID. Done (Inr (labelToProto l ownerID)))) K"
    by (rule acts_ask, simp add: simps, intro allI impI, rule told, blast)+
  show "\<forall>c\<in>set cs. cModuleID c = mID m \<Longrightarrow>
      answers (each (\<lambda>ps K. \<forall>p\<in>set ps. told_of uid (pc_module_id p) K))
        (ask g (\<lambda>ownerID. Done (Inr (map (\<lambda>c. commitToProto c ownerID) cs)))) K"
    "\<forall>l\<in>set ls. lModuleID l = mID m \<Longrightarrow>
      answers (each (\<lambda>ps K. \<forall>p\<in>set ps. told_of uid (pl_module_id p) K))
        (ask g (\<lambda>ownerID. Done (Inr (map (\<lambda>l. labelToProto l ownerID) ls)))) K"
    by (rule acts_ask, simp add: simps, intro allI impI ballI, rule told, blast)+
qed

lemma readable_modules_answers:
  assumes "casbin_sound enf" "\<And>m K. allowed_once may_read uid m K \<Longrightarrow> answers (D m) (show m) K"
    and "\<And>m y H K. D m y H \<Longrightarrow> H \<subseteq> K \<Longrightarrow> D m y K"
    and "\<forall>m\<in>set ms. \<exists>v\<in>H. m \<in> rModules (abs v)" "list_all2 (\<lambda>m y. D m y H) ns ys"
    and "\<forall>m\<in>set ns. allowed_once may_read uid m H"
  shows "answers (\<lambda>zs K. \<exists>ns. (\<forall>m\<in>set ns. allowed_once may_read uid m K) \<and> list_all2 (\<lambda>m y. D m y K) ns zs)
    (readable_modules enf R uid show ms ys) H"
  using assms(4-6)
proof (induction ms arbitrary: ns ys H)
  case Nil
  then show ?case
    by (auto intro!: exI [of _ ns] elim!: list_all2_mono intro: assms(3))
next
  case (Cons m ms)
  have later: "\<forall>m\<in>set ms. \<exists>v\<in>K. m \<in> rModules (abs v)" "list_all2 (\<lambda>m y. D m y K) ns ys"
    "\<forall>m\<in>set ns. allowed_once may_read uid m K" if "H \<subseteq> K" for K
    using Cons.prems that by (auto elim!: list_all2_mono intro: assms(3)) blast+
  show ?case
    unfolding readable_modules.simps
  proof (rule module_check_does(1) [OF assms(1)])
    show "\<exists>v\<in>H. m \<in> rModules (abs v)" using Cons.prems by simp
    fix b K
    assume K: "H \<subseteq> K" "b \<Longrightarrow> allowed_once may_read uid m K"
    show "answers (\<lambda>zs K. \<exists>ns. (\<forall>m\<in>set ns. allowed_once may_read uid m K) \<and> list_all2 (\<lambda>m y. D m y K) ns zs)
        (if \<not> b then readable_modules enf R uid show ms ys
         else andThen (show m) (\<lambda>y. readable_modules enf R uid show ms (ys @ [y]))) K"
    proof (cases b)
      case False
      then show ?thesis using Cons.IH [OF later [OF K(1)]] by simp
    next
      case True
      note m = K(2) [OF True]
      have "answers (\<lambda>zs K. \<exists>ns. (\<forall>m\<in>set ns. allowed_once may_read uid m K) \<and> list_all2 (\<lambda>m y. D m y K) ns zs)
          (andThen (show m) (\<lambda>y. readable_modules enf R uid show ms (ys @ [y]))) K"
      proof (rule acts_first [OF assms(2) [OF m]])
        fix y L
        assume L: "K \<subseteq> L" "D m y L"
        with K(1) have "H \<subseteq> L" by blast
        with later [of L] L m show "answers (\<lambda>zs K. \<exists>ns. (\<forall>m\<in>set ns. allowed_once may_read uid m K) \<and>
            list_all2 (\<lambda>m y. D m y K) ns zs) (readable_modules enf R uid show ms (ys @ [y])) L"
          by (intro Cons.IH [of L "ns @ [m]"]) (auto intro: list_all2_appendI)
      qed
      with True show ?thesis by simp
    qed
  qed
qed

text \<open>A resolved reference gives a module the registry had, and a commit of that module.\<close>

lemma resolve_answers:
  "answers (\<lambda>r K. \<forall>m co. r = Inr (m, co) \<longrightarrow>
     (\<exists>v\<in>K. m \<in> rModules (abs v)) \<and> (\<forall>c. co = Some c \<longrightarrow> cModuleID c = mID m))
     (resolveResourceRef_process R ref) H"
  by (auto simp: resolveResourceRef_process_def pointed_commit_def intro!: acts_ask
      dest!: mod_by_name.get_Ret [of "(own, nm)" for own nm, simplified] commit_by_id.get_Ret [of "(mi, ci)" for mi ci, simplified]
      split: option.splits fetch.splits)
     blast+

lemma resolved_answers:
  assumes "casbin_sound enf"
    and "\<And>m co K. allowed_once may_read (userID caller) m K \<Longrightarrow> (\<And>c. co = Some c \<Longrightarrow> cModuleID c = mID m) \<Longrightarrow>
      answers (each D) (k m co) K"
  shows "answers (each D) (resolved_process enf R caller ref k) H"
  unfolding resolved_process_def
proof (rule acts_first [OF resolve_answers])
  fix r :: "string + Module \<times> Commit option" and K
  assume r: "\<forall>m co. r = Inr (m, co) \<longrightarrow> (\<exists>v\<in>K. m \<in> rModules (abs v)) \<and> (\<forall>c. co = Some c \<longrightarrow> cModuleID c = mID m)"
  show "answers (each D) (case r of Inl err \<Rightarrow> fail CodeNotFound err
      | Inr (m, co) \<Rightarrow> andThen (CanReadModule_process (authorizer enf R) (userID caller) m)
          (\<lambda>allowed. if \<not> allowed then fail CodeNotFound ''module not found'' else k m co)) K"
  proof (cases r)
    case (Inr a)
    obtain m co where a: "a = (m, co)" by fastforce
    with r Inr have "\<exists>v\<in>K. m \<in> rModules (abs v)" "\<And>c. co = Some c \<Longrightarrow> cModuleID c = mID m" by auto
    then show ?thesis
      by (auto simp: Inr a intro!: module_check_does(1) [OF assms(1)] assms(2))
  qed simp
qed

section \<open>Connect\<close>

lemma modules_answers:
  assumes "casbin_sound enf"
  shows "answers (each (\<lambda>ps K. \<forall>p\<in>set ps. told_of (userID c) (pm_id p) K)) (GetModules_process enf R c mrefs) H"
    and "answers (each (\<lambda>ps K. \<forall>p\<in>set ps. told_of (userID c) (pm_id p) K)) (ListModules_process enf R c orefs) H"
proof -
  have fetched: "answers (each (\<lambda>p K. told_of (userID c) (pm_id p) K)) (showModule_process enf R c x) K"
    if "\<And>m. x = Ret m \<Longrightarrow> \<exists>v\<in>K. m \<in> rModules (abs v)" for x K
  proof (cases x)
    case (Ret m)
    with that show ?thesis
      by (auto simp: Ret showModule_process_def intro!: module_check_does(1) [OF assms] owner_last(1))
  qed (simp add: showModule_process_def)
  have "answers (each (\<lambda>p K. told_of (userID c) (pm_id p) K)) (getModuleRef_process enf R c ref) K" for ref K
    by (auto simp: getModuleRef_process_def intro!: acts_ask fetched
        dest: mod_by_name.get_Ret [of "(own, nm)" for own nm, simplified] mod_by_id.get_Ret split: module_ref.splits)
  then show "answers (each (\<lambda>ps K. \<forall>p\<in>set ps. told_of (userID c) (pm_id p) K)) (GetModules_process enf R c mrefs) H"
    unfolding GetModules_process_def by (rule acts_each_ref) (blast | simp)+
  have "answers (each (\<lambda>ps K. \<forall>p\<in>set ps. told_of (userID c) (pm_id p) K)) (listOwner_process enf R c ref) K" for ref K
  proof -
    have listed: "answers (each (\<lambda>ps K. \<forall>p\<in>set ps. told_of (userID c) (pm_id p) K))
        (map_answer Inr (readable_modules enf R (userID c)
          (\<lambda>m. ask (resolveOwnerIDHelper R m) (\<lambda>ownerID. Done (moduleToProto m ownerID))) ms [])) L"
      if "\<forall>m\<in>set ms. \<exists>v\<in>L. m \<in> rModules (abs v)" for ms L
      by (rule acts_map [OF readable_modules_answers [OF assms owner_last(2)]])
         (use that in \<open>auto simp: list_all2_conv_all_nth in_set_conv_nth\<close>)
    show ?thesis
      by (auto simp: listOwner_process_def Let_def intro!: acts_ask listed split: sum.splits) (drule modules_list, blast)
  qed
  then have "answers (each (\<lambda>pss K. \<forall>ps\<in>set pss. \<forall>p\<in>set ps. told_of (userID c) (pm_id p) K))
      (each_ref (listOwner_process enf R c) orefs) H"
    by (rule acts_each_ref) (blast | simp)+
  then show "answers (each (\<lambda>ps K. \<forall>p\<in>set ps. told_of (userID c) (pm_id p) K)) (ListModules_process enf R c orefs) H"
    unfolding ListModules_process_def
  proof (rule acts_map)
    show "each (\<lambda>ps K. \<forall>p\<in>set ps. told_of (userID c) (pm_id p) K) (map_sum id concat r) K"
      if "each (\<lambda>pss K. \<forall>ps\<in>set pss. \<forall>p\<in>set ps. told_of (userID c) (pm_id p) K) r K" for r K
      using that by (cases r) auto
  qed
qed

lemma commits_answers:
  assumes "casbin_sound enf"
  shows "answers (each (\<lambda>ps K. \<forall>p\<in>set ps. told_of (userID c) (pc_module_id p) K)) (GetCommits_process enf R c refs) H"
    and "answers (each (\<lambda>ps K. \<forall>p\<in>set ps. told_of (userID c) (pc_module_id p) K)) (ListCommits_process enf R c ref) H"
proof -
  have "answers (each (\<lambda>p K. told_of (userID c) (pc_module_id p) K)) (getCommit_process enf R c rf) K" for rf K
    unfolding getCommit_process_def
    by (rule resolved_answers [OF assms])
       (auto intro!: owner_last(3) split: option.splits)
  then show "answers (each (\<lambda>ps K. \<forall>p\<in>set ps. told_of (userID c) (pc_module_id p) K)) (GetCommits_process enf R c refs) H"
    unfolding GetCommits_process_def by (rule acts_each_ref) (blast | simp)+
  show "answers (each (\<lambda>ps K. \<forall>p\<in>set ps. told_of (userID c) (pc_module_id p) K)) (ListCommits_process enf R c ref) H"
    unfolding ListCommits_process_def
  proof (rule resolved_answers [OF assms])
    fix m K
    assume m: "allowed_once may_read (userID c) m K"
    have listed: "answers (each (\<lambda>ps K. \<forall>p\<in>set ps. told_of (userID c) (pc_module_id p) K))
        (ask (resolveOwnerIDHelper R m) (\<lambda>ownerID. Done (Inr (map (\<lambda>c. commitToProto c ownerID) cs)))) L"
      if "Commits_ListByModule (Commits R) (mID m) v = Inr cs" "K \<subseteq> L" for cs v L
      by (rule owner_last(4)) (use m that commits_list [OF that(1)] in blast)+
    show "answers (each (\<lambda>ps K. \<forall>p\<in>set ps. told_of (userID c) (pc_module_id p) K))
        (ask (Commits_ListByModule (Commits R) (mID m)) (\<lambda>x.
          case x of Inl _ \<Rightarrow> fail CodeInternal ''internal error''
          | Inr cs \<Rightarrow> ask (resolveOwnerIDHelper R m) (\<lambda>ownerID. Done (Inr (map (\<lambda>c. commitToProto c ownerID) cs))))) K"
      by (rule acts_ask) (auto split: sum.splits intro: listed)
  qed
qed

lemma labels_answers:
  assumes "casbin_sound enf"
  shows "answers (each (\<lambda>ps K. \<forall>p\<in>set ps. told_of (userID c) (pl_module_id p) K)) (GetLabels_process enf R c refs) H"
    and "answers (each (\<lambda>ps K. \<forall>p\<in>set ps. told_of (userID c) (pl_module_id p) K)) (ListLabels_process enf R c ref) H"
proof -
  have "answers (each (\<lambda>p K. told_of (userID c) (pl_module_id p) K)) (getLabel_process enf R c rf) K" for rf K
    by (auto simp: getLabel_process_def intro!: acts_ask module_check_does(1) [OF assms]
        dest!: mod_by_name.get_Ret [of "(own, nm)" for own nm, simplified] label_by_name.get_Ret [of "(mi, nm)" for mi nm, simplified]
        split: label_ref.splits fetch.splits)
       (blast, simp add: labelToProto_def, rule told_ofI [where H = Ka for Ka], blast, blast)
  then show "answers (each (\<lambda>ps K. \<forall>p\<in>set ps. told_of (userID c) (pl_module_id p) K)) (GetLabels_process enf R c refs) H"
    unfolding GetLabels_process_def by (rule acts_each_ref) (blast | simp)+
  show "answers (each (\<lambda>ps K. \<forall>p\<in>set ps. told_of (userID c) (pl_module_id p) K)) (ListLabels_process enf R c ref) H"
    unfolding ListLabels_process_def
  proof (rule resolved_answers [OF assms])
    fix m K
    assume m: "allowed_once may_read (userID c) m K"
    have listed: "answers (each (\<lambda>ps K. \<forall>p\<in>set ps. told_of (userID c) (pl_module_id p) K))
        (ask (resolveOwnerIDHelper R m) (\<lambda>ownerID. Done (Inr (map (\<lambda>l. labelToProto l ownerID) ls)))) L"
      if "Labels_List (Labels R) (mID m) v = Inr ls" "K \<subseteq> L" for ls v L
      by (rule owner_last(6)) (use m that labels_list [OF that(1)] in blast)+
    show "answers (each (\<lambda>ps K. \<forall>p\<in>set ps. told_of (userID c) (pl_module_id p) K))
        (ask (Labels_List (Labels R) (mID m)) (\<lambda>x.
          case x of Inl _ \<Rightarrow> fail CodeInternal ''internal error''
          | Inr ls \<Rightarrow> ask (resolveOwnerIDHelper R m) (\<lambda>ownerID. Done (Inr (map (\<lambda>l. labelToProto l ownerID) ls))))) K"
      by (rule acts_ask) (auto split: sum.splits intro: listed)
  qed
qed

lemma fetched_answers:
  assumes "\<And>files L. K \<subseteq> L \<Longrightarrow> answers (each D) (k files) L"
  shows "answers (each D) (fetched_process S Z commit k) K"
  by (auto simp: fetched_process_def intro!: acts_ask assms split: sum.splits)

lemma content_answers:
  assumes "casbin_sound enf"
  shows "answers (each (\<lambda>ps K. \<forall>(p, files)\<in>set ps. told_of (userID c) (pc_module_id p) K))
      (Download_process enf R S Z c vals) H"
    and "answers (each (\<lambda>(fds, p) K. told_of (userID c) (pc_module_id p) K))
      (GetFileDescriptorSet_process enf R S Z compile c ref) H"
proof -
  let ?D = "\<lambda>(p, files) K. told_of (userID c) (pc_module_id p) K"
  have owned: "answers (each ?D) (fetched_process S Z commit (\<lambda>files.
      ask (resolveOwnerIDHelper R m) (\<lambda>ownerID. Done (Inr (owned_commit m commit ownerID, files))))) K"
    if "allowed_once may_read (userID c) m K" for m commit K
    by (rule fetched_answers, rule owner_last(7)) (use that in blast)
  have "answers (each ?D) (downloadValue_process enf R S Z c rf) K" for rf K
    unfolding downloadValue_process_def
  proof (rule acts_first [OF resolve_answers])
    fix r :: "string + Module \<times> Commit option" and L
    assume r: "\<forall>m co. r = Inr (m, co) \<longrightarrow> (\<exists>v\<in>L. m \<in> rModules (abs v)) \<and> (\<forall>c. co = Some c \<longrightarrow> cModuleID c = mID m)"
    show "answers (each ?D) (case r of Inl err \<Rightarrow> fail CodeNotFound err
        | Inr (m, None) \<Rightarrow> fail CodeNotFound ''no commits found for module''
        | Inr (m, Some commit) \<Rightarrow> andThen (CanReadModule_process (authorizer enf R) (userID c) m) (\<lambda>allowed.
            if \<not> allowed then fail CodeNotFound ''module not found''
            else fetched_process S Z commit (\<lambda>files.
              ask (resolveOwnerIDHelper R m) (\<lambda>ownerID. Done (Inr (owned_commit m commit ownerID, files)))))) L"
      using r by (auto intro!: module_check_does(1) [OF assms] owned split: sum.splits option.splits)
  qed
  then have "answers (each (\<lambda>ps K. \<forall>p\<in>set ps. ?D p K)) (Download_process enf R S Z c vals) H"
    unfolding Download_process_def by (rule acts_each_ref) (assumption | simp | auto | blast)+
  then show "answers (each (\<lambda>ps K. \<forall>(p, files)\<in>set ps. told_of (userID c) (pc_module_id p) K))
      (Download_process enf R S Z c vals) H"
    by (simp add: case_prod_unfold)
  let ?F = "\<lambda>(fds, p) K. told_of (userID c) (pc_module_id p) K"
  have described: "answers (each ?F) (ask (resolveOwnerIDHelper R m)
      (\<lambda>ownerID. Done (Inr (fds, owned_commit m commit ownerID)))) L"
    if "allowed_once may_read (userID c) m K" "K \<subseteq> L" for m commit K L fds
    by (rule owner_last(8)) (use that in blast)
  show "answers (each ?F) (GetFileDescriptorSet_process enf R S Z compile c ref) H"
    unfolding GetFileDescriptorSet_process_def Let_def
    by (rule resolved_answers [OF assms])
       (auto split: option.splits sum.splits intro!: fetched_answers,
        (rule described, blast, assumption)+)
qed

section \<open>REST\<close>

lemma answers_since: "asks_only p \<Longrightarrow> (\<And>r K. H \<subseteq> K \<Longrightarrow> Q r K) \<Longrightarrow> answers Q p H"
  using acts_since [OF acts_asks_only order_refl, of p] by (rule acts_weaken [OF _ order_refl]) auto

text \<open>A response that is not an error tells of the module of the path.\<close>

abbreviation path_told :: "string \<Rightarrow> string \<Rightarrow> string \<Rightarrow> http_response \<Rightarrow> 'w set \<Rightarrow> bool" where
  "path_told uid own repo r K \<equiv>
     status r = StatusOK \<longrightarrow> (\<exists>v\<in>K. \<exists>m\<in>rModules (abs v). mOwnerName m = own \<and> mName m = repo \<and> may_read (abs v) uid m)"

lemma access_answers:
  assumes "casbin_sound enf"
  shows "answers (\<lambda>r K. (\<forall>resp. r = Inl resp \<longrightarrow> status resp \<noteq> StatusOK) \<and>
      (\<forall>m. r = Inr m \<longrightarrow> mOwnerName m = own \<and> mName m = repo \<and> allowed_once may_read (userID c) m K))
    (checkModuleAccess_process enf R c own repo) H"
  by (auto simp: checkModuleAccess_process_def
      intro!: acts_ask module_check_does(1) [OF assms]
      dest!: mod_by_name.get_Ret [of "(own, nm)" for own nm, simplified] split: fetch.splits)
     blast+

lemma accessed_answers:
  assumes "casbin_sound enf" "\<And>m. asks_only (k m)"
  shows "answers (path_told (userID c) own repo) (accessed_process enf R c own repo k) H"
  unfolding accessed_process_def
proof (rule acts_first [OF access_answers [OF assms(1)]])
  fix r :: "http_response + Module" and K
  assume r: "(\<forall>resp. r = Inl resp \<longrightarrow> status resp \<noteq> StatusOK) \<and>
      (\<forall>m. r = Inr m \<longrightarrow> mOwnerName m = own \<and> mName m = repo \<and> allowed_once may_read (userID c) m K)"
  show "answers (path_told (userID c) own repo) (case r of Inl resp \<Rightarrow> Done resp | Inr m \<Rightarrow> k m) K"
  proof (cases r)
    case (Inr m)
    with r have "path_told (userID c) own repo resp L" if "K \<subseteq> L" for resp L using that by blast
    with Inr show ?thesis by (simp add: answers_since [OF assms(2)])
  qed (use r in simp)
qed

lemma rest_answers:
  assumes "casbin_sound enf"
  shows "answers (path_told (userID c) own repo) (getModule_process enf R c own repo) H"
    and "answers (path_told (userID c) own repo) (listCommits_process enf R c own repo) H"
    and "answers (path_told (userID c) own repo) (rest_getCommit_process enf R c own repo i) H"
    and "answers (path_told (userID c) own repo) (listLabels_process enf R c own repo) H"
    and "answers (path_told (userID c) own repo) (listFiles_process enf R S Z c own repo i) H"
    and "answers (path_told (userID c) own repo) (getFileContent_process enf R S Z c own repo i path) H"
proof -
  note access = accessed_answers [OF assms]
  show "answers (path_told (userID c) own repo) (getModule_process enf R c own repo) H"
    unfolding getModule_process_def by (rule acts_map [OF access_answers [OF assms]]) (auto split: sum.splits, blast)
  show "answers (path_told (userID c) own repo) (listCommits_process enf R c own repo) H"
    "answers (path_told (userID c) own repo) (rest_getCommit_process enf R c own repo i) H"
    "answers (path_told (userID c) own repo) (listLabels_process enf R c own repo) H"
    "answers (path_told (userID c) own repo) (listFiles_process enf R S Z c own repo i) H"
    unfolding listCommits_process_def rest_getCommit_process_def listLabels_process_def listFiles_process_def
      resolveCommitZip_process_def
    by (rule access, auto intro!: asks_only_ask split: sum.splits fetch.splits)+
  have "answers (path_told (userID c) own repo) (resolveCommitZip_process enf R S c own repo i k) H" for k
    unfolding resolveCommitZip_process_def by (rule access) (auto intro!: asks_only_ask split: sum.splits fetch.splits)
  then show "answers (path_told (userID c) own repo) (getFileContent_process enf R S Z c own repo i path) H"
    by (simp add: getFileContent_process_def)
qed

lemma list_answers:
  assumes "casbin_sound enf"
  shows "answers (\<lambda>r K. status r = StatusOK \<longrightarrow>
      (\<exists>ms. r = writeJSON StatusOK (JList (map moduleToJSON ms)) \<and> (\<forall>m\<in>set ms. allowed_once may_read (userID c) m K)))
    (listModules_process enf R c own query) H"
    and "answers (\<lambda>r K. status r = StatusOK \<longrightarrow>
      (\<exists>ts. r = writeJSON StatusOK (JList (map (\<lambda>t. [(''id'', tID t), (''note'', tNote t)]) ts)) \<and>
        (\<forall>t\<in>set ts. tUserID t = userID c \<and> (\<exists>v\<in>K. t \<in> rTokens (abs v)))))
    (listTokens_process R now c) H"
proof -
  let ?Q = "\<lambda>r K. status r = StatusOK \<longrightarrow>
      (\<exists>ms. r = writeJSON StatusOK (JList (map moduleToJSON ms)) \<and> (\<forall>m\<in>set ms. allowed_once may_read (userID c) m K))"
  have listed: "answers ?Q (map_answer (\<lambda>shown. writeJSON StatusOK (JList shown))
      (readable_modules enf R (userID c) (\<lambda>m. Done (moduleToJSON m)) ms [])) K"
    if "\<forall>m\<in>set ms. \<exists>v\<in>K. m \<in> rModules (abs v)" for ms K
  proof (rule acts_map [OF readable_modules_answers [OF assms, of "userID c" "\<lambda>m y K. y = moduleToJSON m"
          "\<lambda>m. Done (moduleToJSON m)" ms K "[]" "[]"]])
    fix zs L
    assume "\<exists>ns. (\<forall>m\<in>set ns. allowed_once may_read (userID c) m L) \<and> list_all2 (\<lambda>m y. y = moduleToJSON m) ns zs"
    then obtain ns where ns: "\<forall>m\<in>set ns. allowed_once may_read (userID c) m L" "list_all2 (\<lambda>m y. y = moduleToJSON m) ns zs"
      by blast
    from ns(2) have "zs = map moduleToJSON ns" by (induction rule: list_all2_induct) simp_all
    with ns(1) show "?Q (writeJSON StatusOK (JList zs)) L" by blast
  qed (use that in simp_all)
  have there: "\<forall>m\<in>set ms. \<exists>v\<in>K. m \<in> rModules (abs v)"
    if "(if own \<noteq> [] then Modules_List (Modules R) own else Modules_ListPublic (Modules R) query 50) v = Inr ms" "v \<in> K"
    for v ms K
    using that modules_list [of own v ms] modules_list_public [of query 50 v ms] by (auto split: if_splits)
  show "answers ?Q (listModules_process enf R c own query) H"
    unfolding listModules_process_def
    by (rule acts_ask)
       (use there listed in \<open>auto split: sum.splits\<close>)
  show "answers (\<lambda>r K. status r = StatusOK \<longrightarrow>
      (\<exists>ts. r = writeJSON StatusOK (JList (map (\<lambda>t. [(''id'', tID t), (''note'', tNote t)]) ts)) \<and>
        (\<forall>t\<in>set ts. tUserID t = userID c \<and> (\<exists>v\<in>K. t \<in> rTokens (abs v)))))
    (listTokens_process R now c) H"
  proof (cases c)
    case (Some u)
    show ?thesis
      unfolding listTokens_process_def Some option.case
    proof (rule acts_ask)
      fix v :: 'w and K
      assume v: "v \<in> K"
      show "answers (\<lambda>r K. status r = StatusOK \<longrightarrow>
          (\<exists>ts. r = writeJSON StatusOK (JList (map (\<lambda>t. [(''id'', tID t), (''note'', tNote t)]) ts)) \<and>
            (\<forall>t\<in>set ts. tUserID t = userID (Some u) \<and> (\<exists>v\<in>K. t \<in> rTokens (abs v)))))
        (case Tokens_ListByUser (Tokens R) (uID u) v of
           Inl _ \<Rightarrow> Done (writeErr StatusInternalServerError ''internal error'')
         | Inr ts \<Rightarrow> Done (writeJSON StatusOK (JList (map (\<lambda>t. [(''id'', tID t), (''note'', tNote t)])
             (filter (\<lambda>t. \<not> (case tExpiresAt t of None \<Rightarrow> False | Some e \<Rightarrow> e < now) \<and> tNote t \<noteq> ''login'') ts))))) K"
      proof (cases "Tokens_ListByUser (Tokens R) (uID u) v")
        case (Inr ts)
        let ?ts = "filter (\<lambda>t. \<not> (case tExpiresAt t of None \<Rightarrow> False | Some e \<Rightarrow> e < now) \<and> tNote t \<noteq> ''login'') ts"
        have "\<forall>t\<in>set ?ts. tUserID t = userID (Some u) \<and> (\<exists>v\<in>L. t \<in> rTokens (abs v))" if "K \<subseteq> L" for L
          using tokens_list [OF Inr] v that by (auto simp: userID_def)
        with Inr show ?thesis by auto
      qed (simp add:)
    qed
  qed (simp add: listTokens_process_def)
qed

end

section \<open>Requests\<close>

context server_in_flight
begin

text \<open>A request the table does not name tells of nothing.\<close>

lemma answers_trivially: "(\<And>r K. Q r K) \<Longrightarrow> answers Q p H"
  by (rule acts_weaken [OF acts_trivial order_refl])

lemma rpc_answers:
  "answers (each (\<lambda>a K. reads_modules p \<longrightarrow> (\<forall>i\<in>set (told a). told_of (userID c) i K))) (rpc_process V E p c) H"
proof (cases p)
  case (RpcDownload vals)
  show ?thesis
    unfolding RpcDownload rpc_process.simps uses_repos uses_store
    by (rule acts_map [OF content_answers(1)]) (use casbin in simp, elim each_map_sum, auto)
next
  case (RpcGetFileDescriptorSet ref)
  show ?thesis
    unfolding RpcGetFileDescriptorSet rpc_process.simps uses_repos uses_store
    by (rule acts_map [OF content_answers(2)]) (use casbin in simp, elim each_map_sum, auto)
next
  case (RpcGetModules refs)
  show ?thesis
    unfolding RpcGetModules rpc_process.simps uses_repos
    by (rule acts_map [OF modules_answers(1)]) (use casbin in simp, elim each_map_sum, auto)
next
  case (RpcListModules refs)
  show ?thesis
    unfolding RpcListModules rpc_process.simps uses_repos
    by (rule acts_map [OF modules_answers(2)]) (use casbin in simp, elim each_map_sum, auto)
next
  case (RpcGetCommits refs)
  show ?thesis
    unfolding RpcGetCommits rpc_process.simps uses_repos
    by (rule acts_map [OF commits_answers(1)]) (use casbin in simp, elim each_map_sum, auto)
next
  case (RpcListCommits refs)
  show ?thesis
    unfolding RpcListCommits rpc_process.simps uses_repos
    by (rule acts_map [OF commits_answers(2)]) (use casbin in simp, elim each_map_sum, auto)
next
  case (RpcGetLabels refs)
  show ?thesis
    unfolding RpcGetLabels rpc_process.simps uses_repos
    by (rule acts_map [OF labels_answers(1)]) (use casbin in simp, elim each_map_sum, auto)
next
  case (RpcListLabels refs)
  show ?thesis
    unfolding RpcListLabels rpc_process.simps uses_repos
    by (rule acts_map [OF labels_answers(2)]) (use casbin in simp, elim each_map_sum, auto)
qed (auto intro!: answers_trivially)

lemma endpoint_answers: "answers (rest_told abs (userID c) ep pv) (endpoint_process V salt E q ep pv c) H"
proof -
  note path = rest_answers [OF casbin, where c = c and own = "pv ''owner''" and repo = "pv ''repo''"] and lists = list_answers [OF casbin]
  show ?thesis
  proof (cases ep)
    case EpGetModule
    show ?thesis
      unfolding EpGetModule endpoint_process.simps uses_repos
      by (rule acts_weaken [OF path(1) order_refl]) (auto simp: rest_told_def)
  next
    case EpListCommits
    show ?thesis
      unfolding EpListCommits endpoint_process.simps uses_repos
      by (rule acts_weaken [OF path(2) order_refl]) (auto simp: rest_told_def)
  next
    case EpGetCommit
    show ?thesis
      unfolding EpGetCommit endpoint_process.simps uses_repos
      by (rule acts_weaken [OF path(3) order_refl]) (auto simp: rest_told_def)
  next
    case EpListLabels
    show ?thesis
      unfolding EpListLabels endpoint_process.simps uses_repos
      by (rule acts_weaken [OF path(4) order_refl]) (auto simp: rest_told_def)
  next
    case EpListFiles
    show ?thesis
      unfolding EpListFiles endpoint_process.simps uses_repos uses_store
      by (rule acts_weaken [OF path(5) order_refl]) (auto simp: rest_told_def)
  next
    case EpGetFileContent
    show ?thesis
      unfolding EpGetFileContent endpoint_process.simps uses_repos uses_store
      by (rule acts_weaken [OF path(6) order_refl]) (auto simp: rest_told_def)
  next
    case EpListModules
    show ?thesis
      unfolding EpListModules endpoint_process.simps uses_repos
      by (rule acts_weaken [OF lists(1) order_refl]) (auto simp: rest_told_def)
  next
    case EpListTokens
    show ?thesis
      unfolding EpListTokens endpoint_process.simps uses_repos
      by (rule acts_weaken [OF lists(2) order_refl]) (auto simp: rest_told_def)
  qed (auto simp: rest_told_def intro!: answers_trivially)
qed

abbreviation guarded :: "request \<Rightarrow> 'fd outcome \<Rightarrow> 'w set \<Rightarrow> bool" where
  "guarded rq oc H \<equiv> \<exists>c. authentic abs rq c H \<and> discreet abs rq (userID c) oc H"

lemma mux_answers:
  assumes "authentic abs rq c H"
  shows "answers (guarded rq) (mux_process V rq c) H"
proof (cases "target rq")
  case (Rpc p)
  have call: "answers (guarded rq) (map_answer Answered (rpc_process V (handler_env rq) p c')) K"
    if "authentic abs rq c' K" for c' K
  proof (rule acts_map [OF acts_since [OF rpc_answers [of p c' "handler_env rq" K] order_refl]])
    fix r :: "connect_error + 'fd rpc_answer" and L
    assume "K \<subseteq> L \<and> each (\<lambda>a K. reads_modules p \<longrightarrow> (\<forall>i\<in>set (told a). told_of (userID c') i K)) r L"
    then show "guarded rq (Answered r) L"
      using authentic_mono [OF that, of L] by (cases r) (auto simp: discreet_def Rpc)
  qed
  show ?thesis
    unfolding mux_process_def Rpc call.case uses_repos
  proof (rule acts_first [OF authentication_does(2) [OF assms]])
    fix x :: "connect_error + User option" and K
    assume x: "H \<subseteq> K" "each (authentic abs rq) x K"
    show "answers (guarded rq) (case x of Inl e \<Rightarrow> Done (Answered (Inl e))
        | Inr c' \<Rightarrow> map_answer Answered (rpc_process V (handler_env rq) p c')) K"
    proof (cases x)
      case (Inl e)
      have "guarded rq (Answered (Inl e)) L" if "K \<subseteq> L" for L
        using authentic_mono [OF assms order_trans [OF x(1) that]] by (auto simp: discreet_def Rpc)
      with Inl show ?thesis by simp
    qed (use x call in simp)
  qed
next
  case (Rest q)
  show ?thesis
  proof (cases "find_route routes (Method q) (Path q)")
    case None
    then show ?thesis
      using authentic_mono [OF assms] by (auto simp: mux_process_def Rest discreet_def)
  next
    case (Some route)
    obtain ep vals where route: "route = (ep, vals)" by fastforce
    have "answers (guarded rq)
        (map_answer Responded (endpoint_process V (salt_of rq) (handler_env rq) q ep (PathValue vals) c)) H"
    proof (rule acts_map [OF acts_since [OF endpoint_answers order_refl]])
      fix r L
      assume "H \<subseteq> L \<and> rest_told abs (userID c) ep (PathValue vals) r L"
      then show "guarded rq (Responded r) L"
        using authentic_mono [OF assms, of L] by (auto simp: discreet_def Rest Some route)
    qed
    with Some route show ?thesis by (simp add: mux_process_def Rest)
  qed
qed

lemma request_answers:
  "acts (\<lambda>s t. objects_kept abs (snd s) (snd t)) (\<lambda>_ _ _. True) (\<lambda>oc H. guarded rq oc (snd ` H)) (request_process V rq) {}"
proof -
  have none: "authentic abs rq None H" for H by (simp add: authentic_def)
  have refused: "guarded rq (Responded too_many_requests) H" for H
    by (rule exI [of _ None])
       (auto simp: none discreet_def rest_told_def too_many_requests_def split: call.splits)
  have "answers (guarded rq)
      (andThen (Middleware_process R (clock rq 0) (Authorization rq) None) (mux_process V rq)) H" for H
    by (rule acts_first [OF authentication_does(1) [OF none]]) (rule mux_answers)
  then have "acts (\<lambda>s t. objects_kept abs (snd s) (snd t)) (\<lambda>_ _ _. True) (\<lambda>oc H. guarded rq oc (snd ` H))
      (on_snd (andThen (Middleware_process R (clock rq 0) (Authorization rq) None) (mux_process V rq))
        :: (rateLimiter \<times> 'w, 'fd outcome) process) H" for H
    by (rule acts_on_snd)
  with refused show ?thesis by (simp add: request_process_def uses_repos)
qed

end

section \<open>Properties\<close>

text \<open>
  C5. Reading while others write tells nobody what is not theirs. However the calls of requests interleave and whatever fails,
  every module a Connect procedure answers with, or answers about, every module a REST page is about, and every module and token a
  REST list shows is one that the registry had, at a moment of the run, and that the caller could then read (a token: owns); and the
  caller is nobody, or the owner of a token that the header carries and that was live when it was looked up.
\<close>

theorem concurrent_reads_confidential:
  fixes w :: "'z World_scheme" and V :: "('z World_scheme, 'fd) server"
  assumes "gorm_db G" "casbin_sound enf" "rooted s" "sv_repos V = sql_repos enf G"
    and "sv_casbin V = enf" "sv_store V = NewLocalStore s"
    and "registry_keys (sql_abs w)" "traced (in_flight V es, (main_limiter, w)) xs (ps, z)"
    and "i < length es" "es ! i = Arrive rq" "ps ! i = Done oc"
  shows "\<exists>c. authentic sql_abs rq c ((\<lambda>(i, (rl, v), s'). v) ` set xs) \<and>
    discreet sql_abs rq (userID c) oc ((\<lambda>(i, (rl, v), s'). v) ` set xs)"
proof -
  have "snd ` (\<lambda>(i, v, v'). v) ` set xs = (\<lambda>(i, (rl, v), s'). v) ` set xs"
    by (force simp: image_image intro!: image_cong)
  with requests_traced(2) [OF assms(1-8) server_in_flight.request_answers
      [OF local_server_in_flight [where holding = partial, OF assms(1,2) rooted_partial [OF assms(3)] assms(4-6)]] assms(9-11)]
  show ?thesis by simp
qed

text \<open>Bob, a member of the organization, reads its private module with a live token.\<close>

definition bob_world :: World where
  "bob_world = demo_world\<lparr>sq_tokens := sq_tokens demo_tokens\<rparr>"

definition bob_request :: request where
  "bob_request = demo_request ''Bearer s3cret'' (Rpc (RpcGetModules [ModuleById ''m1'']))"

lemma bob_world_simps [simp]:
  "sq_users bob_world = sq_users demo_db" "sq_orgs bob_world = sq_orgs demo_db"
  "sq_members bob_world = sq_members demo_db" "sq_modules bob_world = sq_modules demo_db"
  "sq_commits bob_world = []" "sq_labels bob_world = []" "sq_tokens bob_world = sq_tokens demo_tokens"
  by (simp_all add: bob_world_def)

lemma bob_db:
  "Tokens_GetByHash (Tokens (sql_repos policy_enforcer list_gorm)) (HashToken ''s3cret'') bob_world =
     Ret \<lparr>tID = ''t1'', tUserID = ''u2'', tHash = HashToken ''s3cret'', tNote = ''ci'', tExpiresAt = Some 100, tCreatedAt = 3\<rparr>"
  "Users_GetByID (Users (sql_repos policy_enforcer list_gorm)) ''u2'' bob_world =
     Ret \<lparr>uID = ''u2'', uUsername = ''bob'', uPasswordHash = ''h2'', uCreatedAt = 2\<rparr>"
  "Modules_GetByID (Modules (sql_repos policy_enforcer list_gorm)) ''m1'' bob_world = Ret demo_module"
  "\<exists>g. Orgs_GetByName (Orgs (sql_repos policy_enforcer list_gorm)) ''acme'' bob_world = Ret g \<and> oID g = ''o1''"
  "\<exists>m. Orgs_GetMember (Orgs (sql_repos policy_enforcer list_gorm)) ''o1'' ''u2'' bob_world = Ret m \<and> omRole m = OrgRoleMember"
  by (simp_all add: sql_repos_def DB_Repos_def store_defs UserStore_def OrgStore_def list_gorm_def list_engine_def
      sql_first_def list_first_def list_find_def query_defs demo_tokens_def demo_defs)

lemma bob_trace:
  "\<exists>xs rl p. schedule_trace [0, 0, 0, 0, 0, 0, 0, 0, 0] (in_flight open_server [Arrive bob_request], (main_limiter, bob_world)) = xs \<and>
     run_pool [0, 0, 0, 0, 0, 0, 0, 0, 0] (in_flight open_server [Arrive bob_request], (main_limiter, bob_world)) =
       ([Done (Answered (Inr (AnsModules [p])))], (rl, bob_world)) \<and>
     pm_id p = ''m1'' \<and> (\<lambda>(i, (rl, v), s'). v) ` set xs = {bob_world}"
proof -
  obtain g m where g: "Orgs_GetByName (Orgs (sql_repos policy_enforcer list_gorm)) ''acme'' bob_world = Ret g" "oID g = ''o1''"
    "Orgs_GetMember (Orgs (sql_repos policy_enforcer list_gorm)) ''o1'' ''u2'' bob_world = Ret m" "omRole m = OrgRoleMember"
    using bob_db(4,5) by blast
  have d: "mID demo_module = ''m1''" "mOwnerType demo_module = OwnerTypeOrg" "mOwnerName demo_module = ''acme''"
    "mVisibility demo_module = VisibilityPrivate"
    by (simp_all add: demo_module_def)
  have may: "enforce (authorizer policy_enforcer (sql_repos policy_enforcer list_gorm)) ''org_member'' ''module'' ''read''"
    by (simp add: enforce_def policy_enforcer_def policy_rules_eq)
  show ?thesis
    by (simp add: may in_flight_def request_process_def Middleware_process_def Interceptor_process_def mux_process_def
        bob_request_def demo_request_def ExtractBearer_def TrimPrefix_def HasPrefix_def GetModules_process_def
        getModuleRef_process_def showModule_process_def CanReadModule_process_def resolveModuleRole_process_def
        Let_def demo_env_def tell_def ask_def userID_def d g bob_db(1-3)
        allow_def main_limiter_def newRateLimiter_def token_count_def)
qed

theorem concurrent_reads_confidential_witness:
  "\<exists>c. authentic sql_abs bob_request c {bob_world} \<and> readable (sql_abs bob_world) (userID c) ''m1''"
proof -
  obtain xs rl p where run: "schedule_trace [0, 0, 0, 0, 0, 0, 0, 0, 0] (in_flight open_server [Arrive bob_request], (main_limiter, bob_world)) = xs"
    "run_pool [0, 0, 0, 0, 0, 0, 0, 0, 0] (in_flight open_server [Arrive bob_request], (main_limiter, bob_world)) =
       ([Done (Answered (Inr (AnsModules [p])))], (rl, bob_world))"
    and p: "pm_id p = ''m1''" and H: "(\<lambda>(i, (rl, v), s'). v) ` set xs = {bob_world}"
    using bob_trace by blast
  have t: "traced (in_flight open_server [Arrive bob_request], (main_limiter, bob_world)) xs
      ([Done (Answered (Inr (AnsModules [p])))], (rl, bob_world))"
    using schedule_traced [of "(in_flight open_server [Arrive bob_request], (main_limiter, bob_world))"
        "[0, 0, 0, 0, 0, 0, 0, 0, 0]"] unfolding run .
  have keys: "registry_keys (sql_abs bob_world)"
    by (simp add: registry_keys_def demo_tokens_def demo_defs)
  have at: "0 < length [Arrive bob_request]" "[Arrive bob_request] ! 0 = Arrive bob_request"
    "[Done (Answered (Inr (AnsModules [p])))] ! 0 = Done (Answered (Inr (AnsModules [p])))"
    by simp_all
  have "\<exists>c. authentic sql_abs bob_request c {bob_world} \<and>
      discreet sql_abs bob_request (userID c) (Answered (Inr (AnsModules [p])) :: nat outcome) {bob_world}"
    using concurrent_reads_confidential [OF list_db.gorm_db_axioms casbin_matches_sound [OF policy_enforcer_matches]
        default_local_rooted open_server_simps(1,4,2) keys t at] unfolding H .
  then show ?thesis by (auto simp: discreet_def bob_request_def demo_request_def p)
qed

end
