(* ===== verification/Life.thy ===== *)
theory Life
  imports Concurrent_Correct
begin

text \<open>
  The life of the program: it starts, or stops with an error; requests arrive at any time and are in flight together; an
  interrupt lets those that are in flight finish for a while, an error of the listener ends everything at once; and it is started
  again on what it has left behind. Whenever it ends, calls that were not made are never made.
\<close>

section \<open>From start to exit\<close>





definition listener :: "Config \<Rightarrow> string \<times> (string \<times> string) option" where
  "listener cfg = ('':'' @ Port cfg, if TLSCert cfg \<noteq> [] \<and> TLSKey cfg \<noteq> [] then Some (TLSCert cfg, TLSKey cfg) else None)"


section \<open>A life keeps the invariants\<close>




section \<open>Installations on SQL and the local store\<close>


















end
