(* ===== verification/Disk_Full.thy ===== *)
theory Disk_Full
  imports Content_Correct
begin

text \<open>
  The local store on a disk that fills up. \<^verbatim>\<open>LocalStore.Put\<close> writes into the file of the key itself, and \<^verbatim>\<open>Upload\<close> stores an
  archive before it looks whether the commit is there: pushing content a second time on a full disk destroys the archive
  of the commit that is there. The registry still has the commit, its downloads fail, and pushing once more with room on the
  disk repairs it.
\<close>

text \<open>What the registry answers does not depend on the file system.\<close>

lemma sql_reads_fs:
  fixes w :: "'z World_scheme"
  shows "Modules_Get (Modules (sql_repos enf G)) k k' (w\<lparr>w_fs := fs\<rparr>) = Modules_Get (Modules (sql_repos enf G)) k k' w"
    "Labels_Get (Labels (sql_repos enf G)) k k' (w\<lparr>w_fs := fs\<rparr>) = Labels_Get (Labels (sql_repos enf G)) k k' w"
    "Commits_GetByID (Commits (sql_repos enf G)) k k' (w\<lparr>w_fs := fs\<rparr>) = Commits_GetByID (Commits (sql_repos enf G)) k k' w"
    "CanReadModule (Auth (sql_repos enf G)) uid m (w\<lparr>w_fs := fs\<rparr>) = CanReadModule (Auth (sql_repos enf G)) uid m w"
    "sql_abs (w\<lparr>w_fs := fs\<rparr>) = sql_abs w"
  by (auto simp: sql_repos_def repo_defs can_defs role_defs UserStore_def OrgStore_def sql_abs_def split: fetch.split)

lemma resolve_fs:
  "resolveResourceRef (sql_repos enf G) ref (w\<lparr>w_fs := fs\<rparr>) = resolveResourceRef (sql_repos enf G) ref w"
  for w :: "'z World_scheme"
  unfolding resolveResourceRef_def sql_reads_fs ..

text \<open>A write that does not fit, into a file that is there.\<close>

lemma mkdir_nothing: "fs_ok fs \<Longrightarrow> node fs (pre @ cs) = Some Dir \<Longrightarrow> mkdir_from pre cs fs = (None, fs)"
proof (induction cs arbitrary: pre)
  case (Cons c cs)
  have "node fs (pre @ [c]) = Some Dir"
    using Cons.prems fs_ok_prefix [of fs "pre @ [c]" cs] by (cases "cs = []") auto
  with Cons.IH [of "pre @ [c]"] Cons.prems show ?case by simp
qed simp

lemma put_into_file:
  fixes w :: "'z World_scheme"
  assumes "rooted s" "valid_key k" "fs_ok (w_fs w)" "local_blobs s w k = Some b" "safePath s k = Inr p"
  defines "t \<equiv> root_elems s @ elems k"
  shows "LocalStore_Put s k d w =
    (case disk s (w_fs w) p d of
       None \<Rightarrow> (None, w\<lparr>w_fs := (w_fs w)(t \<mapsto> File d)\<rparr>)
     | Some n \<Rightarrow> (Some (StorageError ''no space left on device''), w\<lparr>w_fs := (w_fs w)(t \<mapsto> File (take n d))\<rparr>))"
proof -
  have p: "p = abs_path t" using assms(5) by (simp add: safePath_valid [OF assms(1,2)] t_def)
  have el: "elems p = t" "t \<noteq> []" using elems_safe [OF assms(1,2)] by (simp_all add: p t_def)
  have content: "w_fs w t = Some (File b)" using assms(4) by (simp add: local_blobs_iff t_def)
  then have dir: "node (w_fs w) (butlast t) = Some Dir" using assms(3) el(2) by (auto simp: fs_ok_def)
  with mkdir_nothing [OF assms(3), of "[]" "butlast t"] have "os_MkdirAll (butlast t) (w_fs w) = (None, w_fs w)"
    by (simp add: os_MkdirAll_def)
  moreover have "open_from (w_fs w) [] (butlast t) = Inr Dir"
    using open_from_ok [OF assms(3), of "[]" "butlast t"] dir by simp
  ultimately show ?thesis
    using content el by (simp add: LocalStore_Put_def assms(5) os_WriteFile_def Let_def split: option.split)
qed

text \<open>
  A second push of content whose commit is there, on a disk that takes only \<open>n\<close> bytes of the archive: the push is refused, the
  registry keeps the commit, its download fails where it succeeded before, and a push with room brings the archive back.
\<close>

theorem reupload_on_full_disk:
  fixes w :: "'z World_scheme" and s :: LocalStore and enf G m d
  defines "R \<equiv> sql_repos enf G" and "key \<equiv> storage_key (mID m) (commit_id d)"
  assumes "rooted s" "fs_ok (w_fs w)" "valid_key key" "local_blobs s w key = Some d"
    and ref: "resolveResourceRef R ref w = Inr (m, Some c)" "cStorageKey c = key" "CanReadModule (Auth R) (userID caller) m w"
    and cut: "safePath s key = Inr p" "disk s (w_fs w) p d = Some n" "zip_NewReader Z (take n d) = Inl err"
  obtains w' where "publish R (NewLocalStore s) E u i m d labels w = (Inl (ConnectError CodeInternal ''failed to store content''), w')"
    and "sql_abs w' = sql_abs w"
    and "downloadValue R (NewLocalStore s) Z caller w' ref = Inl (ConnectError CodeInternal ''failed to read content'')"
    and "\<exists>w''. LocalStore_Put (s\<lparr>disk := \<lambda>_ _ _. None\<rparr>) key d w' = (None, w'') \<and> local_blobs s w'' = local_blobs s w"
proof -
  let ?t = "root_elems s @ elems key"
  let ?w = "\<lambda>x. w\<lparr>w_fs := (w_fs w)(?t \<mapsto> File x)\<rparr>"
  have put: "LocalStore_Put s key d w = (Some (StorageError ''no space left on device''), ?w (take n d))"
    using put_into_file [OF assms(3,5,4,6) cut(1), of d] cut(2) by simp
  have content: "w_fs w ?t = Some (File d)" using assms(6) by (simp add: local_blobs_iff)
  have ok: "fs_ok (w_fs (?w (take n d)))"
    using local_put_fs(1) [OF assms(3,5,4) put] .
  have blob: "local_blobs s (?w (take n d)) key = Some (take n d)" by (simp add: local_blobs_iff)
  show thesis
  proof (rule that)
    show "publish R (NewLocalStore s) E u i m d labels w = (Inl (ConnectError CodeInternal ''failed to store content''), ?w (take n d))"
      using put by (simp add: publish_def key_def storage_key_def NewLocalStore_def Let_def)
    show "sql_abs (?w (take n d)) = sql_abs w" by (rule sql_reads_fs)
    show "downloadValue R (NewLocalStore s) Z caller (?w (take n d)) ref = Inl (ConnectError CodeInternal ''failed to read content'')"
      using ref cut(3) local_get(2) [OF assms(3,5) ok blob]
      by (simp add: downloadValue_def R_def resolve_fs sql_reads_fs NewLocalStore_def unzipFiles_def)
    let ?s = "s\<lparr>disk := \<lambda>_ _ _. None\<rparr>"
    have el: "root_elems ?s = root_elems s" by (cases "getwd s") (simp_all add: root_elems_def)
    have "rooted ?s" using assms(3) by (simp add: rooted_def wd_ok_def el)
    moreover have "local_blobs ?s (?w (take n d)) key = Some (take n d)" using blob by (simp add: local_blobs_def el)
    moreover have "safePath ?s key = Inr p"
      using safePath_valid [OF \<open>rooted ?s\<close> assms(5)] safePath_valid [OF assms(3,5)] cut(1) by (simp add: el)
    ultimately have "LocalStore_Put ?s key d (?w (take n d)) = (None, ?w d)"
      using put_into_file [of ?s key "?w (take n d)" "take n d" p d] assms(5) ok by (simp add: el)
    moreover have "(w_fs w)(?t \<mapsto> File d) = w_fs w" using content by (simp add: map_upd_triv)
    ultimately show "\<exists>w''. LocalStore_Put ?s key d (?w (take n d)) = (None, w'') \<and> local_blobs s w'' = local_blobs s w" by simp
  qed
qed

end
