(* ===== verification/Sha256_Vector.thy ===== *)
theory Sha256_Vector
  imports Sha256
begin

text \<open>The one-block test vector of FIPS 180-4 (the message \<^verbatim>\<open>abc\<close>), sixteen rounds at a time: the hash
  of theory Sha256 computes the digest the standard prints.\<close>

lemma abc_rounds0:
  "sha_rounds (take 16 (drop 0 sha_k) @ ks)
     [1633837952, 0, 0, 0, 0, 0, 0, 0, 0, 0, 0, 0, 0, 0, 0, 24]
     (1779033703, 3144134277, 1013904242, 2773480762, 1359893119, 2600822924, 528734635, 1541459225) =
   sha_rounds ks
     [1633837952, 983040, 2108187653, 1610613702, 1050508152, 25426944, 316456923, 3806512014, 3357629466, 3073800610, 3854317833, 845560923, 2636160359, 3968280267, 1881225380, 3552024379]
     (2969183118, 3227803614, 3643992854, 2274437520, 123276749, 194179596, 1952073950, 509051416)"
  by (code_simp, rule arg_cong2 [of _ _ _ _ "sha_rounds ks"]) simp_all

lemma abc_rounds1:
  "sha_rounds (take 16 (drop 16 sha_k) @ ks)
     [1633837952, 983040, 2108187653, 1610613702, 1050508152, 25426944, 316456923, 3806512014, 3357629466, 3073800610, 3854317833, 845560923, 2636160359, 3968280267, 1881225380, 3552024379]
     (2969183118, 3227803614, 3643992854, 2274437520, 123276749, 194179596, 1952073950, 509051416) =
   sha_rounds ks
     [2482346367, 996719219, 2952069057, 4043988066, 176896406, 1924104970, 2483675966, 610538786, 2672279444, 4037431130, 1042573945, 657669027, 206005234, 2215296807, 2049510749, 106709978]
     (1941126133, 3935906338, 2684750640, 909411017, 3126399250, 17410874, 2917635127, 1628611511)"
  by (code_simp, rule arg_cong2 [of _ _ _ _ "sha_rounds ks"]) simp_all

lemma abc_rounds2:
  "sha_rounds (take 16 (drop 32 sha_k) @ ks)
     [2482346367, 996719219, 2952069057, 4043988066, 176896406, 1924104970, 2483675966, 610538786, 2672279444, 4037431130, 1042573945, 657669027, 206005234, 2215296807, 2049510749, 106709978]
     (1941126133, 3935906338, 2684750640, 909411017, 3126399250, 17410874, 2917635127, 1628611511) =
   sha_rounds ks
     [4215179723, 3430291419, 3118885940, 2845390439, 2226839261, 3256115900, 344409900, 2987358873, 4015503821, 3957764664, 2682456414, 2025622859, 2755645205, 1720397816, 4004225740, 313650667]
     (1098003085, 2706117808, 1923828625, 643991573, 4274981830, 3581645993, 3077922209, 2819559920)"
  by (code_simp, rule arg_cong2 [of _ _ _ _ "sha_rounds ks"]) simp_all

lemma abc_rounds3:
  "sha_rounds (take 16 (drop 48 sha_k) @ ks)
     [4215179723, 3430291419, 3118885940, 2845390439, 2226839261, 3256115900, 344409900, 2987358873, 4015503821, 3957764664, 2682456414, 2025622859, 2755645205, 1720397816, 4004225740, 313650667]
     (1098003085, 2706117808, 1923828625, 643991573, 4274981830, 3581645993, 3077922209, 2819559920) =
   sha_rounds ks
     [3087686196, 484939733, 823116247, 2736351438, 2106384450, 3582536839, 250799243, 2252827306, 4215000474, 3786143489, 2633077969, 1202520861, 2860590881, 70651292, 3680168089, 3194403987]
     (1349398616, 3550093669, 80891244, 3093179625, 1593118500, 4212265488, 2492278198, 2518632596)"
  by (code_simp, rule arg_cong2 [of _ _ _ _ "sha_rounds ks"]) simp_all

lemma sha_k_parts:
  "sha_k = take 16 (drop 0 sha_k) @ take 16 (drop 16 sha_k) @ take 16 (drop 32 sha_k) @
     take 16 (drop 48 sha_k) @ []"
  by (simp add: sha_k_def)

lemma abc_block: "be_words (take 64 (sha_pad (bytes_of_string ''abc''))) = [0x61626380, 0, 0, 0, 0, 0, 0, 0, 0, 0, 0, 0, 0, 0, 0, 24]"
  by code_simp

lemma Sum256_abc:
  "EncodeToString (Sum256 (bytes_of_string ''abc'')) =
     ''ba7816bf8f01cfea414140de5dae2223b00361a396177a9cb410ff61f20015ad''"
proof -
  have n: "length (sha_pad (bytes_of_string ''abc'')) div 64 = 1" by code_simp
  have r: "sha_rounds sha_k [0x61626380, 0, 0, 0, 0, 0, 0, 0, 0, 0, 0, 0, 0, 0, 0, 24] sha_init =
    (1349398616, 3550093669, 80891244, 3093179625, 1593118500, 4212265488, 2492278198, 2518632596)"
    unfolding sha_init_def
    by (subst sha_k_parts) (simp only: abc_rounds0 abc_rounds1 abc_rounds2 abc_rounds3 sha_rounds.simps(1))
  show ?thesis
    unfolding Sum256_def Let_def n One_nat_def sha_blocks.simps abc_block r by code_simp
qed

end
