(* ===== verification/Spec2Isabelle.thy ===== *)
theory Spec2Isabelle
  imports Server_Correct Account_Life Rest_Correct Mongo_Correct Progress Races Confidential Life Disk_Full Sha256_Vector
begin

text \<open>
  openbsr is a self-hosted registry for protobuf modules: users and organizations own modules, uploads
  add content-addressed commits to a module and move its labels, and the \<^verbatim>\<open>buf\<close> command line and a
  browser front end read them back. This development models the server, \<^verbatim>\<open>cmd/bsr/main.go\<close> and
  \<^verbatim>\<open>internal/\<close>, as functions, and proves what makes it correct.

  \<^bold>\<open>The parts of the program and how they meet.\<close>
  A request passes the rate limiter, then the authentication middleware, then the multiplexer, which
  gives it to a Connect service (through an authenticating interceptor) or to a REST handler. The
  handlers decide by the authorizer, read and write metadata through the repository interfaces,
  and keep archives in the blob store. The repositories are implemented on SQL (through gorm) and on
  MongoDB, the blob store on a directory, on SQL and on S3. Start-up chooses both from the
  environment and creates the administrator.

  \<^bold>\<open>Conventions.\<close>
  A Go function that returns \<^verbatim>\<open>(*T, error)\<close> gives a value of type \<open>fetch\<close>, which keeps the pointer beside
  the error; a call that changes something takes the world and returns it beside an optional error;
  a handler returns its answer, or a Connect error, beside the world it leaves. The world is a
  type parameter of the handlers: they only use the operations of the records \<open>Repos\<close> and \<open>Store\<close>, as the code
  uses interfaces. A call that only reads is a function of the world, so two equal reads with no
  write between them agree. \<^verbatim>\<open>time.Now\<close>, \<^verbatim>\<open>uuid.NewString\<close> and the salt of bcrypt are read from an
  environment that belongs to the request. Strings are lists of bytes (\<open>char\<close>), instants are
  integers (nanoseconds), contents are lists of \<open>8 word\<close>. Every loop of the code
  runs over a list or a finite input and is a structural recursion; only the model of \<^verbatim>\<open>strings.Split\<close> counts steps, and
  starts with the length of the text, of which each step takes at least one character.

  \<^bold>\<open>Theories and sources.\<close>
  \<^item> Foundations: Prelude (types, the loops \<open>for_each\<close> and \<open>collect\<close> of the handlers); Go_Lib, Path and Encoding
    (the functions of Go's \<^verbatim>\<open>strings\<close>, \<^verbatim>\<open>regexp\<close>, \<^verbatim>\<open>path/filepath\<close>, \<^verbatim>\<open>encoding\<close> and \<^verbatim>\<open>time\<close> that the code calls); Sha256 (the
    hash in full, on 32-bit words) with Sha256_Vector (a test vector of the standard); Proto and Connect (messages,
    errors, HTTP answers).
  \<^item> Data and interfaces: Model (\<^verbatim>\<open>internal/model\<close>), Iface (\<^verbatim>\<open>internal/db/iface\<close>) with the contract of a backend as locales over an
    abstract registry of sets, and Registry_Spec with the registry as a transition system \<open>reg_step\<close>.
  \<^item> Backends: Gorm (the engine as a parameter with laws), Sql (\<^verbatim>\<open>internal/db/sql\<close>: rows, unique indexes, every
    method, \<^verbatim>\<open>Connect\<close> and \<^verbatim>\<open>Close\<close> being in Server as for MongoDB), Sql_Repos (they meet the contract); Mongo (\<^verbatim>\<open>internal/db/mongo\<close>), which meets the
    reading half of it; Storage and Storage_Correct (\<^verbatim>\<open>internal/storage\<close>: local directory, SQL, S3), Disk_Full (what a write that does not fit leaves behind); Backend (repositories and store
    over one world).
  \<^item> Access: Authz (\<^verbatim>\<open>internal/authz\<close>: embedded policy, roles, the five checks), Auth (\<^verbatim>\<open>internal/auth\<close>: tokens, passwords,
    middleware, interceptor), RateLimit (\<^verbatim>\<open>internal/auth/ratelimit.go\<close>).
  \<^item> Connect services (\<^verbatim>\<open>internal/api/module\<close>, \<^verbatim>\<open>owner\<close>, \<^verbatim>\<open>authn\<close>): Module_Service, Resolve, Archive and Content_Service (upload and
    download), Label_Service (commits and labels), Fds_Service, Owner_Service.
  \<^item> REST (\<^verbatim>\<open>internal/api/rest\<close>): Rest_Service. Server (\<^verbatim>\<open>internal/config\<close>, \<^verbatim>\<open>cmd/bsr/main.go\<close>): configuration, start-up,
    routes, the stack of handlers, and a run of the server as a sequence of requests and ticks.
  \<^item> Requests in flight: Process (programs that make one call at a time, pools of them with their steps, a bound on
    calls, and rely-guarantee reasoning as the locale \<open>interference\<close>), Checks (the authorizer, query by query), Reads (every reading
    handler, Connect and REST) and Concurrent (every writing handler, both authentication layers, the multiplexer and the limiter) as
    such programs, each proved equal to the handler of the sequential theories when it runs alone. Concurrent_Correct, Progress and
    Races say what holds of every interleaving, how long it takes, and where looking before writing is not enough; Trace, Rights and
    Confidential follow runs with their history: the access policy for every call of a run, and for every answer.
  \<^item> Life (\<^verbatim>\<open>cmd/bsr/main.go\<close>): a life of the program from start-up to the interrupt or an error of the listener, with requests
    in flight, and an installation as one life after another.

  \<^bold>\<open>What is proved.\<close>
  \<^item> Contracts. The locales \<open>repos_sound\<close> (calls may fail, but then changed nothing, and what is read is there) and
    \<open>repos_reliable\<close> (calls do not fail for reasons of their own) state what handlers may rely on. The SQL repositories
    meet them for every engine that keeps the laws of \<open>gorm\<close>, which a concrete engine on lists does; any
    sequence of their writes is a path of \<open>reg_step\<close>. The stores meet \<open>blob_store\<close>, whose \<open>blobs\<close> says which content a key may
    be said to hold: for the database store all of what was put (\<open>whole\<close>); for the local store \<open>whole\<close> on a disk that cuts no write
    short, and on any disk \<open>partial\<close>, all of it or a beginning, since \<^verbatim>\<open>os.WriteFile\<close> truncates the file it writes again. \<open>local_ok\<close>
    ties the two readings to the disk, and what is said of archives on the local store (uploads, runs, interleavings,
    installations) is proved for both.
  \<^item> Access control. The checks decide exactly a policy stated over the registry (\<open>may_read\<close>, \<open>may_write\<close>, \<open>may_admin\<close>,
    \<open>may_create\<close>, \<open>may_manage\<close>) and fail closed under faults. Authentication yields the owner of a live token whose secret was
    presented and nobody else. Whatever fails, reading services show only readable modules, and one request
    changes only what its caller may change (Permits, Server_Correct).
  \<^item> Content. Uploads keep the invariant that labels point at commits, commits at files of archives with the SHA-256 that is
    their id; what was uploaded is downloaded, over Connect and over REST; repeating an upload succeeds and adds nothing; archives
    are bounded and unpack to what was packed; paths cannot leave the storage root or the archive.
  \<^item> Services. What the module, commit, label, account, token and organization operations answer and do on every branch,
    and what later requests see.
  \<^item> The whole server. The invariants hold along every run, start-up adds exactly the configured administrator, who can log in, when
    the name is free, and the limiter admits exactly what it should. (That no two routes overlap is a lemma of Server_Correct.)
  \<^item> Concurrency. The same invariants hold after every single call when requests interleave, with any call failing; names are
    given away once; a request that reported something as created can rely on it; what is stored stays well-formed and refers to
    what is there. Lemmas relate the processes to the sequential server, which is one of the interleavings, and bound the calls of
    a request. Each single call stays
    within the access policy: it is one its caller was entitled to at a moment of the run (Rights). Each answer, too: what it tells of was
    readable for the caller at a moment of the run (Confidential). That this cannot be sharpened to the moment of the write
    is shown by an upload that is published after its author was removed (\<open>stale_upload\<close> in Races).
  \<^item> The installation. Started, interrupted and broken off at any call, as often as one likes, on disks that may cut any write, it
    stays consistent and well-formed and loses nothing that was created (Life); the file of a commit may then be a beginning of its
    archive, until the content is pushed again.
  \<^item> Deviations. Theorems also record where the code falls short: the answer of a label move names an identifier that is
    not stored, a store rooted at / refuses all keys, accounts can take the names of organizations, an organization can be left
    without administrator, on MongoDB names and memberships can be duplicated and a failed lookup can lose a commit, and pushing content
    again on a full disk destroys the archive that is there. Two
    simultaneous uploads of one content, or registrations of one name, can end in an internal error.

  \<^bold>\<open>Parameters.\<close>
  gorm and its SQL engine, the MongoDB driver, the S3 client, the Casbin enforcer, bcrypt, the zip library, the protobuf
  compiler, the JSON and Connect codecs and the file server of the front end are not part of the repository. Each is an
  argument of the definitions that call it; what the proofs need of it is a named hypothesis (\<open>gorm_sound\<close>, \<open>mongo_sound\<close>, \<open>casbin_sound\<close>,
  \<open>bcrypt_ok\<close>, \<open>zip_ok\<close>), and each has a concrete instance under which the properties are instantiated.

  \<^bold>\<open>Not modelled.\<close>
  What is finer than a call: a call of a repository or of the store is one step. Of \<^verbatim>\<open>os.WriteFile\<close> the outcome is modelled, all of the
  content or the beginning that the disk took, not the moments in between: a process that is killed is killed between two
  calls, a write it was killed in being one that was cut short just before, and a request that reads a file while another
  writes it again is not told of a beginning of a file that is complete afterwards. Logging, what \<^verbatim>\<open>net/http\<close> does with sockets and certificates (the listener is its
  address and key pair, and an error that may come at any time), the time limits of contexts beyond the failures they cause, the
  embedded front end (\<^verbatim>\<open>internal/web\<close>), and the generated protobuf and Connect code, which the
  sources only call. Numbers in JSON answers are written as their decimal strings. Lengths are unbounded
  integers: the limits of the code (50 MB archives, 100000 addresses) stay far below the width of \<^verbatim>\<open>int\<close>.
\<close>

end
